(* ===== verification/Esmond_Prelude.thy ===== *)
theory Esmond_Prelude
  imports Complex_Main "HOL-Library.AList" "HOL-Library.Sublist"
begin

section \<open>Prelude: Python values, exceptions and dictionaries\<close>

text \<open>
  What the components share: the exceptions the code raises or lets through, results as
  \<open>exn + 'a\<close> with a bind that stops at the first exception, dictionaries as association
  lists in insertion order (\<^const>\<open>AList.update\<close> replaces in place or appends, as a Python
  dict does), decimal printing and parsing of integers, and the string operations
  \<open>join\<close>, \<open>split\<close>, \<open>replace\<close> and \<open>strip\<close>. Strings are lists of code points below 256.
  \<open>Unmodelled\<close> is not a Python exception: it marks the few branches the model does not follow.
\<close>

named_theorems res_simps \<open>equations and inversions of the exception monad\<close>
named_theorems py_str \<open>facts about the string helpers\<close>

datatype exn =
    ValueError
  | TypeError
  | KeyError
  | IndexError
  | NameError
  | OverflowError
  | ZeroDivisionError
  | AssertionError
  | NotFoundException
  | MaximumRetryException
  | ParseError string
  | ConflictException string
  | HttpNotFound
  | RuntimeError string
  | PostException string
  | QueryLimitException
  | NotImplementedError
  | AttributeError
  | ClientException string
  | SystemExit int
  | ConfigError string
  | ConfigParserError string
  | ConfigException string
  | ConnectionException string
  | CommandError string
  | DoesNotExist
  | IntegrityError
  | MultipleObjectsReturned
  | Unmodelled

type_synonym 'a res = "exn + 'a"

subsection \<open>The exception monad\<close>

definition rbind :: "'a res \<Rightarrow> ('a \<Rightarrow> 'b res) \<Rightarrow> 'b res" where
  "rbind m f = (case m of Inl e \<Rightarrow> Inl e | Inr x \<Rightarrow> f x)"

lemma rbind_Inl [simp, res_simps]: "rbind (Inl e) f = Inl e"
  by (simp add: rbind_def)

lemma rbind_Inr [simp, res_simps]: "rbind (Inr x) f = f x"
  by (simp add: rbind_def)

lemma rbind_eq_Inr [res_simps]: "rbind m f = Inr y \<longleftrightarrow> (\<exists>x. m = Inr x \<and> f x = Inr y)"
  by (cases m) auto

lemma rbind_eq_Inl [res_simps]:
  "rbind m f = Inl e \<longleftrightarrow> m = Inl e \<or> (\<exists>x. m = Inr x \<and> f x = Inl e)"
  by (cases m) auto

lemma rbind_cong [fundef_cong]:
  "m = m' \<Longrightarrow> (\<And>x. m' = Inr x \<Longrightarrow> f x = g x) \<Longrightarrow> rbind m f = rbind m' g"
  by (cases m') auto

lemma rbind_assoc: "rbind (rbind m f) g = rbind m (\<lambda>x. rbind (f x) g)"
  by (cases m) auto

text \<open>\<open>try ... except ValueError\<close> and the bare \<open>except\<close>: replace the exception raised.\<close>

definition catch_value_error :: "exn \<Rightarrow> 'a res \<Rightarrow> 'a res" where
  "catch_value_error e' m = (case m of Inl e \<Rightarrow> Inl (if e = ValueError then e' else e) | Inr x \<Rightarrow> Inr x)"

definition catch_all :: "exn \<Rightarrow> 'a res \<Rightarrow> 'a res" where
  "catch_all e' m = (case m of Inl e \<Rightarrow> Inl e' | Inr x \<Rightarrow> Inr x)"

lemma catch_value_error_simps [simp, res_simps]:
  "catch_value_error e' (Inr x) = Inr x"
  "catch_value_error e' (Inl ValueError) = Inl e'"
  "e \<noteq> ValueError \<Longrightarrow> catch_value_error e' (Inl e) = Inl e"
  by (simp_all add: catch_value_error_def)

lemma catch_value_error_eq_Inr [simp, res_simps]: "catch_value_error e' m = Inr x \<longleftrightarrow> m = Inr x"
  by (cases m) (auto simp: catch_value_error_def)

lemma catch_all_simps [simp, res_simps]:
  "catch_all e' (Inr x) = Inr x" "catch_all e' (Inl e) = Inl e'"
  by (simp_all add: catch_all_def)

lemma catch_all_eq_Inr [simp, res_simps]: "catch_all e' m = Inr x \<longleftrightarrow> m = Inr x"
  by (cases m) (auto simp: catch_all_def)

text \<open>A \<open>for\<close> loop that threads a state and stops at the first exception.\<close>

fun rfold :: "('a \<Rightarrow> 's \<Rightarrow> 's res) \<Rightarrow> 'a list \<Rightarrow> 's \<Rightarrow> 's res" where
  "rfold f [] s = Inr s"
| "rfold f (x # xs) s = rbind (f x s) (rfold f xs)"

fun rmap :: "('a \<Rightarrow> 'b res) \<Rightarrow> 'a list \<Rightarrow> 'b list res" where
  "rmap f [] = Inr []"
| "rmap f (x # xs) = rbind (f x) (\<lambda>y. rbind (rmap f xs) (\<lambda>ys. Inr (y # ys)))"

lemma rfold_append: "rfold f (xs @ ys) s = rbind (rfold f xs s) (rfold f ys)"
  by (induction xs arbitrary: s) (auto simp: rbind_def split: sum.splits)

lemma rfold_invariant:
  assumes "rfold f xs s = Inr s'" and "P s"
    and "\<And>x s s'. x \<in> set xs \<Longrightarrow> P s \<Longrightarrow> f x s = Inr s' \<Longrightarrow> P s'"
  shows "P s'"
  using assms
proof (induction xs arbitrary: s)
  case Nil
  then show ?case by simp
next
  case (Cons x xs)
  from Cons.prems(1) obtain t where t: "f x s = Inr t" "rfold f xs t = Inr s'"
    by (auto simp: res_simps)
  have pt: "P t" using Cons.prems(3) [of x s t] Cons.prems(2) t(1) by simp
  show ?case
  proof (rule Cons.IH [OF t(2) pt])
    fix y u u'
    assume "y \<in> set xs" "P u" "f y u = Inr u'"
    then show "P u'" using Cons.prems(3) [of y u u'] by simp
  qed
qed

lemma rmap_length: "rmap f xs = Inr ys \<Longrightarrow> length ys = length xs"
  by (induction xs arbitrary: ys) (auto simp: res_simps)

lemma rmap_nth: "rmap f xs = Inr ys \<Longrightarrow> i < length xs \<Longrightarrow> f (xs ! i) = Inr (ys ! i)"
  by (induction xs arbitrary: ys i) (auto simp: res_simps nth_Cons split: nat.splits)

lemma rmap_set: "rmap f xs = Inr ys \<Longrightarrow> y \<in> set ys \<Longrightarrow> \<exists>x \<in> set xs. f x = Inr y"
  by (induction xs arbitrary: ys) (auto simp: res_simps)

lemma rmap_all: "(\<And>x. x \<in> set xs \<Longrightarrow> f x = Inr (g x)) \<Longrightarrow> rmap f xs = Inr (map g xs)"
  by (induction xs) auto

subsection \<open>Dictionaries in insertion order\<close>

type_synonym 'v dict = "(string \<times> 'v) list"

abbreviation dict_wf :: "('k \<times> 'v) list \<Rightarrow> bool" where
  "dict_wf d \<equiv> distinct (map fst d)"

definition has_key :: "'k \<Rightarrow> ('k \<times> 'v) list \<Rightarrow> bool" where
  "has_key k d = (k \<in> set (map fst d))"

lemma has_key_map_of: "has_key k d \<longleftrightarrow> map_of d k \<noteq> None"
  by (simp add: has_key_def map_of_eq_None_iff)

lemma map_of_dict_update [simp]: "map_of (AList.update k v d) = (map_of d)(k \<mapsto> v)"
  by (simp add: update_conv')

lemma dict_wf_update: "dict_wf d \<Longrightarrow> dict_wf (AList.update k v d)"
  by (rule distinct_update)

subsection \<open>Stable sorting\<close>

text \<open>\<open>sorted(xs, key=...)\<close>, stable, with \<open>lt\<close> the comparison of the keys.\<close>

fun insert_by :: "('a \<Rightarrow> 'a \<Rightarrow> bool) \<Rightarrow> 'a \<Rightarrow> 'a list \<Rightarrow> 'a list" where
  "insert_by lt x [] = [x]"
| "insert_by lt x (y # ys) = (if lt y x then y # insert_by lt x ys else x # y # ys)"

definition sort_by :: "('a \<Rightarrow> 'a \<Rightarrow> bool) \<Rightarrow> 'a list \<Rightarrow> 'a list" where
  "sort_by lt xs = foldr (insert_by lt) xs []"

lemma set_insert_by [simp]: "set (insert_by lt x ys) = insert x (set ys)"
  by (induction ys) auto

lemma set_sort_by [simp]: "set (sort_by lt xs) = set xs"
  by (induction xs) (auto simp: sort_by_def)

lemma length_insert_by [simp]: "length (insert_by lt x ys) = Suc (length ys)"
  by (induction ys) auto

lemma length_sort_by [simp]: "length (sort_by lt xs) = length xs"
  by (induction xs) (auto simp: sort_by_def)

lemma sum_list_insert_by: "sum_list (map f (insert_by lt x ys)) = f x + (sum_list (map f ys) :: int)"
  by (induction ys) auto

lemma sum_list_sort_by: "sum_list (map f (sort_by lt xs)) = (sum_list (map f xs) :: int)"
  by (induction xs) (auto simp: sort_by_def sum_list_insert_by)

definition weak_order :: "('a \<Rightarrow> 'a \<Rightarrow> bool) \<Rightarrow> 'a set \<Rightarrow> bool" where
  "weak_order lt A = ((\<forall>a \<in> A. \<forall>b \<in> A. lt a b \<longrightarrow> \<not> lt b a) \<and>
     (\<forall>a \<in> A. \<forall>b \<in> A. \<forall>c \<in> A. \<not> lt b a \<longrightarrow> \<not> lt c b \<longrightarrow> \<not> lt c a))"

lemma weak_order_subset: "weak_order lt B \<Longrightarrow> A \<subseteq> B \<Longrightarrow> weak_order lt A"
  unfolding weak_order_def by blast

lemma sorted_insert_by:
  assumes "weak_order lt (insert x (set ys))" and "sorted_wrt (\<lambda>a b. \<not> lt b a) ys"
  shows "sorted_wrt (\<lambda>a b. \<not> lt b a) (insert_by lt x ys)"
  using assms
proof (induction ys)
  case Nil
  then show ?case by simp
next
  case (Cons y ys)
  have sub: "weak_order lt (insert x (set ys))"
    by (rule weak_order_subset [OF Cons.prems(1)]) auto
  show ?case
  proof (cases "lt y x")
    case True
    then have "\<not> lt x y" using Cons.prems(1) unfolding weak_order_def by simp
    then show ?thesis using True Cons.IH [OF sub] Cons.prems(2) by simp
  next
    case False
    have "\<not> lt z x" if "z \<in> set ys" for z
    proof -
      have "\<not> lt z y" using Cons.prems(2) that by simp
      then show ?thesis using False that Cons.prems(1) unfolding weak_order_def
        by (metis insertCI list.set_intros)
    qed
    then show ?thesis using False Cons.prems(2) by simp
  qed
qed

lemma sorted_sort_by: "weak_order lt (set xs) \<Longrightarrow> sorted_wrt (\<lambda>a b. \<not> lt b a) (sort_by lt xs)"
proof (induction xs)
  case Nil
  then show ?case by (simp add: sort_by_def)
next
  case (Cons x xs)
  have "sorted_wrt (\<lambda>a b. \<not> lt b a) (sort_by lt xs)"
    using Cons weak_order_subset [of lt "set (x # xs)" "set xs"] by auto
  then show ?case
    using sorted_insert_by [of lt x "sort_by lt xs"] Cons.prems by (simp add: sort_by_def [of lt "x # xs"] sort_by_def [symmetric])
qed

subsection \<open>Strings\<close>

fun replace_char :: "char \<Rightarrow> string \<Rightarrow> string \<Rightarrow> string" where
  "replace_char c r [] = []"
| "replace_char c r (x # xs) = (if x = c then r @ replace_char c r xs else x # replace_char c r xs)"

fun join :: "string \<Rightarrow> string list \<Rightarrow> string" where
  "join d [] = []"
| "join d [s] = s"
| "join d (s # t # ss) = s @ d @ join d (t # ss)"

fun split_char :: "char \<Rightarrow> string \<Rightarrow> string list" where
  "split_char c [] = [[]]"
| "split_char c (x # xs) =
     (if x = c then [] # split_char c xs
      else (x # hd (split_char c xs)) # tl (split_char c xs))"

lemma replace_char_append [simp, py_str]:
  "replace_char c r (xs @ ys) = replace_char c r xs @ replace_char c r ys"
  by (induction xs) auto

lemma replace_char_id [simp, py_str]: "c \<notin> set xs \<Longrightarrow> replace_char c r xs = xs"
  by (induction xs) auto

lemma split_char_nonempty [simp, py_str]: "split_char c s \<noteq> []"
  by (cases s) auto

lemma split_char_plain [simp, py_str]: "c \<notin> set s \<Longrightarrow> split_char c s = [s]"
  by (induction s) auto

lemma split_char_append [py_str]:
  "c \<notin> set s \<Longrightarrow> split_char c (s @ c # t) = s # split_char c t"
  by (induction s) auto

lemma join_Cons: "ss \<noteq> [] \<Longrightarrow> join d (s # ss) = s @ d @ join d ss"
  by (cases ss) auto

definition contains_substring :: "string \<Rightarrow> string \<Rightarrow> bool" where
  "contains_substring k s = list_ex (prefix k) (suffixes s)"

definition lower_char :: "char \<Rightarrow> char" where
  "lower_char c = (let n = of_char c :: nat in if 65 \<le> n \<and> n \<le> 90 then char_of (n + 32) else c)"

definition lower :: "string \<Rightarrow> string" where
  "lower = map lower_char"

subsection \<open>Decimal integers\<close>

definition digit_char :: "nat \<Rightarrow> char" where
  "digit_char n = char_of (48 + n)"

definition is_digit :: "char \<Rightarrow> bool" where
  "is_digit c = (48 \<le> (of_char c :: nat) \<and> (of_char c :: nat) \<le> 57)"

definition digit_val :: "char \<Rightarrow> nat" where
  "digit_val c = of_char c - 48"

fun show_nat :: "nat \<Rightarrow> string" where
  "show_nat n = (if n < 10 then [digit_char n] else show_nat (n div 10) @ [digit_char (n mod 10)])"

declare show_nat.simps [simp del]

definition show_int :: "int \<Rightarrow> string" where
  "show_int i = (if i < 0 then ''-'' @ show_nat (nat (- i)) else show_nat (nat i))"

text \<open>
  Python's \<open>int(s)\<close>: surrounding white space, one optional sign, then digits with single
  underscores between them.
\<close>

definition is_space :: "char \<Rightarrow> bool" where
  "is_space c = (let n = of_char c :: nat in
     (9 \<le> n \<and> n \<le> 13) \<or> (28 \<le> n \<and> n \<le> 32) \<or> n = 133 \<or> n = 160)"

definition strip :: "string \<Rightarrow> string" where
  "strip s = rev (dropWhile is_space (rev (dropWhile is_space s)))"

fun parse_digits :: "nat \<Rightarrow> bool \<Rightarrow> string \<Rightarrow> nat option" where
  "parse_digits acc after_digit [] = (if after_digit then Some acc else None)"
| "parse_digits acc after_digit (c # cs) =
     (if is_digit c then parse_digits (10 * acc + digit_val c) True cs
      else if c = CHR ''_'' \<and> after_digit then parse_digits acc False cs
      else None)"

definition parse_sign :: "string \<Rightarrow> bool \<times> string" where
  "parse_sign s = (case s of
     [] \<Rightarrow> (False, [])
   | c # cs \<Rightarrow> if c = CHR ''-'' then (True, cs) else if c = CHR ''+'' then (False, cs) else (False, s))"

definition parse_int :: "string \<Rightarrow> int option" where
  "parse_int s = (let (neg, ds) = parse_sign (strip s) in
     map_option (\<lambda>n. if neg then - int n else int n) (parse_digits 0 False ds))"

lemma of_char_digit [simp]: "n < 10 \<Longrightarrow> (of_char (digit_char n) :: nat) = 48 + n"
  by (simp add: digit_char_def)

lemma digit_chars:
  "digit_char 0 = CHR ''0''"
  "digit_char (Suc 0) = CHR ''1''"
  "digit_char 2 = CHR ''2''"
  "digit_char 3 = CHR ''3''"
  "digit_char 4 = CHR ''4''"
  "digit_char 5 = CHR ''5''"
  "digit_char 6 = CHR ''6''"
  "digit_char 7 = CHR ''7''"
  "digit_char 8 = CHR ''8''"
  "digit_char 9 = CHR ''9''"
  by (rule of_char_eq_iff [where 'a = nat, THEN iffD1], simp)+

text \<open>What prints a literal.\<close>

lemmas show_eval = show_int_def show_nat.simps digit_chars

lemma digit_char_props [simp, py_str]:
  assumes "n < 10"
  shows "is_digit (digit_char n)" and "digit_val (digit_char n) = n"
    and "\<not> is_space (digit_char n)" and "digit_char n \<noteq> CHR ''-''"
    and "digit_char n \<noteq> CHR ''+''" and "digit_char n \<noteq> CHR '':''"
    and "digit_char n \<noteq> CHR 0x5C"
proof -
  have v: "(of_char (digit_char n) :: nat) = 48 + n" using assms by simp
  show "is_digit (digit_char n)" "digit_val (digit_char n) = n" "\<not> is_space (digit_char n)"
    using v assms by (auto simp: is_digit_def digit_val_def is_space_def Let_def)
  show "digit_char n \<noteq> CHR ''-''" "digit_char n \<noteq> CHR ''+''" "digit_char n \<noteq> CHR '':''"
    "digit_char n \<noteq> CHR 0x5C"
    using v assms by (auto dest: arg_cong [where f = "of_char :: char \<Rightarrow> nat"])
qed

lemma show_nat_nonempty [simp, py_str]: "show_nat n \<noteq> []"
  by (subst show_nat.simps) simp

lemma show_nat_digits: "c \<in> set (show_nat n) \<Longrightarrow> \<exists>d < 10. c = digit_char d"
proof (induction n rule: show_nat.induct)
  case (1 n)
  show ?case
  proof (cases "n < 10")
    case True
    with 1 show ?thesis by (auto simp: show_nat.simps [of n])
  next
    case False
    with 1 have "c \<in> set (show_nat (n div 10)) \<or> c = digit_char (n mod 10)"
      by (auto simp: show_nat.simps [of n])
    moreover have "n mod 10 < 10" by simp
    ultimately show ?thesis using 1(1) [OF False] by blast
  qed
qed

lemma show_nat_plain [simp, py_str]:
  "CHR '':'' \<notin> set (show_nat n)" "CHR 0x5C \<notin> set (show_nat n)" "CHR ''-'' \<notin> set (show_nat n)"
  by (metis show_nat_digits digit_char_props(6), metis show_nat_digits digit_char_props(7),
      metis show_nat_digits digit_char_props(4))

lemma show_int_plain [simp, py_str]:
  "CHR '':'' \<notin> set (show_int i)" "CHR 0x5C \<notin> set (show_int i)"
  by (auto simp: show_int_def)

lemma parse_digits_append:
  "\<forall>c \<in> set xs. is_digit c \<Longrightarrow> xs \<noteq> [] \<or> p \<Longrightarrow>
   parse_digits a p (xs @ [c]) =
     (if is_digit c then map_option (\<lambda>m. 10 * m + digit_val c) (parse_digits a True xs)
      else None)"
  by (induction xs arbitrary: a p) auto

lemma parse_show_nat: "parse_digits 0 False (show_nat n) = Some n"
proof (induction n rule: show_nat.induct)
  case (1 n)
  show ?case
  proof (cases "n < 10")
    case True
    then show ?thesis by (simp add: show_nat.simps [of n])
  next
    case False
    let ?q = "show_nat (n div 10)"
    have dig: "\<forall>c \<in> set ?q. is_digit c" by (auto dest: show_nat_digits)
    have "parse_digits 0 False ?q = parse_digits 0 True ?q"
      using dig by (cases ?q) auto
    with 1 [OF False] have q: "parse_digits 0 True ?q = Some (n div 10)" by simp
    have "parse_digits 0 False (?q @ [digit_char (n mod 10)]) = Some (10 * (n div 10) + n mod 10)"
      using dig q by (subst parse_digits_append) auto
    then show ?thesis using False by (simp add: show_nat.simps [of n])
  qed
qed

lemma strip_digits: "\<forall>c \<in> set s. \<not> is_space c \<Longrightarrow> strip s = s"
proof -
  assume a: "\<forall>c \<in> set s. \<not> is_space c"
  have d: "dropWhile is_space t = t" if "\<forall>c \<in> set t. \<not> is_space c" for t
    using that by (cases t) auto
  show ?thesis using a by (simp add: strip_def d)
qed

text \<open>Printing then parsing an integer gives it back.\<close>

lemma parse_show_int: "parse_int (show_int i) = Some i"
proof -
  have sp: "\<forall>c \<in> set (show_nat n). \<not> is_space c" for n
    by (auto dest: show_nat_digits)
  have sg: "parse_sign (show_nat n) = (False, show_nat n)" for n
  proof -
    obtain c cs where c: "show_nat n = c # cs" by (cases "show_nat n") auto
    then have "\<exists>d < 10. c = digit_char d" using show_nat_digits [of c n] by simp
    then show ?thesis using c by (auto simp: parse_sign_def)
  qed
  show ?thesis
  proof (cases "i < 0")
    case True
    have "strip (CHR ''-'' # show_nat (nat (- i))) = CHR ''-'' # show_nat (nat (- i))"
      by (rule strip_digits) (use sp in \<open>auto simp: is_space_def\<close>)
    then show ?thesis using True
      by (simp add: parse_int_def show_int_def parse_sign_def parse_show_nat)
  next
    case False
    then show ?thesis
      by (simp add: parse_int_def show_int_def strip_digits [OF sp] sg parse_show_nat)
  qed
qed

lemma show_int_inj [simp]: "show_int i = show_int j \<longleftrightarrow> i = j"
  using parse_show_int by (metis option.inject)

end
