(* ===== verification/Py_Float.thy ===== *)
theory Py_Float
  imports Esmond_Prelude "HOL-Library.Log_Nat"
begin

section \<open>Python floats\<close>

text \<open>
  A Python float is an IEEE double: \<open>Fin r\<close> for the finite values (the rational they
  denote), two infinities and a NaN (the sign of zero is not kept). Every operation is the
  exact rational operation followed by \<open>fl\<close>, rounding to nearest with ties to even: 53 bits
  of significand, exponents from -1022 (below that the spacing stays that of subnormals),
  overflow to infinity at \<open>2 ^ 1024\<close>. The two facts the components use: integers up to
  \<open>2 ^ 53\<close> are exact (\<open>fl_of_int\<close>), and one rounding moves a value of at least
  \<open>2 ^ -1022\<close> by at most one part in \<open>2 ^ 53\<close> (\<open>fl_error\<close>).
\<close>

named_theorems float_simps \<open>evaluation of the float operations\<close>

datatype pyfloat = Fin rat | PInf | NInf | NaN

subsection \<open>Rounding\<close>

text \<open>The exponent of a non-zero rational: the \<open>e\<close> with \<open>2 ^ e \<le> |x| < 2 ^ (e + 1)\<close>.\<close>

definition fexp :: "rat \<Rightarrow> int" where
  "fexp x = (if 1 \<le> \<bar>x\<bar> then int (floorlog 2 (nat \<lfloor>\<bar>x\<bar>\<rfloor>)) - 1
             else - int (floorlog 2 (nat (\<lceil>1 / \<bar>x\<bar>\<rceil> - 1))))"

definition ulp :: "rat \<Rightarrow> rat" where
  "ulp x = 2 powi (max (fexp x) (-1022) - 52)"

definition round_even :: "rat \<Rightarrow> int" where
  "round_even x = (let f = \<lfloor>x\<rfloor>; d = x - of_int f in
     if d < 1 / 2 then f else if 1 / 2 < d then f + 1 else if even f then f else f + 1)"

definition fl :: "rat \<Rightarrow> rat" where
  "fl x = (if x = 0 then 0 else of_int (round_even (x / ulp x)) * ulp x)"

definition mkfloat :: "rat \<Rightarrow> pyfloat" where
  "mkfloat x = (let y = fl x in
     if 2 ^ 1024 \<le> y then PInf else if y \<le> - (2 ^ 1024) then NInf else Fin y)"

lemma round_even_of_int [simp]: "round_even (of_int n) = n"
  by (simp add: round_even_def)

lemma round_even_error: "\<bar>of_int (round_even x) - x\<bar> \<le> 1 / 2"
proof -
  have "of_int \<lfloor>x\<rfloor> \<le> x" "x < of_int \<lfloor>x\<rfloor> + 1" by linarith+
  then show ?thesis by (auto simp: round_even_def Let_def abs_le_iff)
qed

lemma ulp_pos [simp]: "0 < ulp x"
  by (simp add: ulp_def)

lemma ulp_nonzero [simp]: "ulp x \<noteq> 0"
  using ulp_pos [of x] by linarith

lemma fl_0 [simp]: "fl 0 = 0"
  by (simp add: fl_def)

lemma fl_exact: "x / ulp x = of_int n \<Longrightarrow> fl x = x"
  by (auto simp: fl_def) (metis nonzero_eq_divide_eq ulp_nonzero)

lemma fl_half_ulp: "\<bar>fl x - x\<bar> \<le> ulp x / 2"
proof (cases "x = 0")
  case True
  then show ?thesis using ulp_pos [of 0] by (simp add: less_imp_le)
next
  case False
  have "fl x - x = (of_int (round_even (x / ulp x)) - x / ulp x) * ulp x"
    using False ulp_pos [of x] by (simp add: fl_def field_simps)
  then have "\<bar>fl x - x\<bar> = \<bar>of_int (round_even (x / ulp x)) - x / ulp x\<bar> * ulp x"
    using ulp_pos [of x] by (simp add: abs_mult abs_of_pos)
  also have "\<dots> \<le> 1 / 2 * ulp x"
    by (rule mult_right_mono [OF round_even_error less_imp_le [OF ulp_pos]])
  finally show ?thesis by simp
qed

subsection \<open>The exponent\<close>

lemma two_pow_floorlog: "1 \<le> n \<Longrightarrow> 2 ^ (floorlog 2 n - 1) \<le> n \<and> n < 2 ^ floorlog 2 n"
  using floorlog_bounds [of n 2] by simp

lemma fexp_ge1:
  assumes "1 \<le> \<bar>x\<bar>"
  shows "2 powi (fexp x) \<le> \<bar>x\<bar>" and "0 \<le> fexp x"
proof -
  let ?n = "nat \<lfloor>\<bar>x\<bar>\<rfloor>"
  have n1: "1 \<le> ?n" using assms by linarith
  have fl1: "1 \<le> floorlog 2 ?n"
    using two_pow_floorlog [OF n1] n1 by (cases "floorlog 2 ?n") auto
  show "0 \<le> fexp x" using assms fl1 by (simp add: fexp_def)
  have "2 powi (fexp x) = (2::rat) ^ (floorlog 2 ?n - 1)"
    using assms fl1 by (simp add: fexp_def power_int_def nat_diff_distrib)
  also have "\<dots> = of_nat (2 ^ (floorlog 2 ?n - 1))" by simp
  also have "\<dots> \<le> of_nat ?n" using two_pow_floorlog [OF n1] of_nat_le_iff by blast
  also have "\<dots> \<le> \<bar>x\<bar>"
  proof -
    have "0 \<le> \<lfloor>\<bar>x\<bar>\<rfloor>" by simp
    then have "(of_nat ?n :: rat) = of_int \<lfloor>\<bar>x\<bar>\<rfloor>" by (rule of_nat_nat)
    then show ?thesis by linarith
  qed
  finally show "2 powi (fexp x) \<le> \<bar>x\<bar>" .
qed

lemma fexp_lt1:
  assumes "\<bar>x\<bar> < 1" and "x \<noteq> 0"
  shows "2 powi (fexp x) \<le> \<bar>x\<bar>"
proof -
  let ?m = "\<lceil>1 / \<bar>x\<bar>\<rceil>"
  let ?n = "nat (?m - 1)"
  have "1 < 1 / \<bar>x\<bar>" using assms by simp
  then have m2: "1 < ?m" by linarith
  have n1: "1 \<le> ?n" using m2 by linarith
  have "?n < 2 ^ floorlog 2 ?n" using two_pow_floorlog [OF n1] by simp
  then have "int ?n < 2 ^ floorlog 2 ?n" by (metis of_nat_less_iff of_nat_numeral of_nat_power)
  then have "?m \<le> 2 ^ floorlog 2 ?n" using m2 by linarith
  then have "1 / \<bar>x\<bar> \<le> 2 ^ floorlog 2 ?n"
    by (simp add: ceiling_le_iff)
  then have "1 / 2 ^ floorlog 2 ?n \<le> \<bar>x\<bar>"
    using assms by (simp add: field_simps)
  moreover have "2 powi (fexp x) = (1::rat) / 2 ^ floorlog 2 ?n"
    using assms by (simp add: fexp_def power_int_minus field_simps)
  ultimately show ?thesis by simp
qed

lemma fexp_le: "x \<noteq> 0 \<Longrightarrow> 2 powi (fexp x) \<le> \<bar>x\<bar>"
  using fexp_ge1(1) fexp_lt1 by (cases "1 \<le> \<bar>x\<bar>") auto

text \<open>One rounding moves a normal value by at most one part in \<open>2 ^ 53\<close>.\<close>

lemma fl_error:
  assumes "2 powi (-1022) \<le> \<bar>x\<bar>"
  shows "\<bar>fl x - x\<bar> \<le> \<bar>x\<bar> / 2 ^ 53"
proof -
  have x0: "x \<noteq> 0" using assms by auto
  have "2 powi (max (fexp x) (-1022)) \<le> \<bar>x\<bar>"
    using fexp_le [OF x0] assms by (auto simp: max_def)
  moreover have "ulp x / 2 = 2 powi (max (fexp x) (-1022)) / 2 ^ 53"
    by (simp add: ulp_def power_int_diff)
  ultimately have "ulp x / 2 \<le> \<bar>x\<bar> / 2 ^ 53" by (simp add: divide_right_mono)
  then show ?thesis using fl_half_ulp [of x] by linarith
qed

text \<open>Integers up to \<open>2 ^ 53\<close> are represented exactly.\<close>

lemma fl_of_int:
  assumes "\<bar>n\<bar> \<le> 2 ^ 53"
  shows "fl (of_int n) = of_int n"
proof (cases "\<bar>n\<bar> = 2 ^ 53 \<or> n = 0")
  case True
  have e53: "fexp (of_int n) = 53" if "\<bar>n\<bar> = 2 ^ 53"
  proof -
    have "\<bar>of_int n :: rat\<bar> = of_int (2 ^ 53)" using that by (metis of_int_abs)
    then have "nat \<lfloor>\<bar>of_int n :: rat\<bar>\<rfloor> = 2 ^ 53" by simp
    moreover have "floorlog 2 (2 ^ 53) = 54"
      using floorlog_power [of 1 2 53] by (simp add: compute_floorlog)
    ultimately show ?thesis using that by (simp add: fexp_def)
  qed
  then have "of_int n / ulp (of_int n) = of_int (n div 2)" if "\<bar>n\<bar> = 2 ^ 53"
  proof -
    have "n = 2 ^ 53 \<or> n = - (2 ^ 53)" using that by linarith
    then have "n = 2 * (n div 2)" by auto
    then have "(of_int n :: rat) = 2 * of_int (n div 2)" by (metis of_int_mult of_int_numeral)
    then show ?thesis using e53 [OF that] by (simp add: ulp_def)
  qed
  then show ?thesis using True fl_exact [of "of_int n"] by auto
next
  case False
  let ?x = "of_int n :: rat"
  let ?e = "fexp ?x"
  have n1: "1 \<le> \<bar>n\<bar>" using False by linarith
  then have x1: "1 \<le> \<bar>?x\<bar>" by (metis of_int_1 of_int_abs of_int_le_iff)
  have e0: "0 \<le> ?e" and le: "2 powi ?e \<le> \<bar>?x\<bar>" using fexp_ge1 [OF x1] by simp_all
  have "2 ^ nat ?e \<le> \<bar>n\<bar>"
    using le e0 by (simp add: power_int_def) (metis of_int_abs of_int_le_iff of_int_numeral of_int_power)
  then have "(2::int) ^ nat ?e < 2 ^ 53" using False assms by linarith
  then have e52: "nat ?e < 53" by (rule power_less_imp_less_exp [rotated]) simp
  have "ulp ?x = 2 powi (- int (52 - nat ?e))"
    using e0 e52 by (simp add: ulp_def of_nat_diff max_def)
  then have "?x / ulp ?x = of_int (n * 2 ^ (52 - nat ?e))"
    by (simp add: power_int_minus field_simps)
  then show ?thesis by (rule fl_exact)
qed

subsection \<open>The operations\<close>

definition fdiv :: "pyfloat \<Rightarrow> pyfloat \<Rightarrow> pyfloat res" where
  "fdiv a b = (case (a, b) of
     (_, Fin y) \<Rightarrow>
       if y = 0 then Inl ZeroDivisionError
       else (case a of Fin x \<Rightarrow> Inr (mkfloat (x / y))
             | PInf \<Rightarrow> Inr (if 0 < y then PInf else NInf)
             | NInf \<Rightarrow> Inr (if 0 < y then NInf else PInf)
             | NaN \<Rightarrow> Inr NaN)
   | (Fin x, PInf) \<Rightarrow> Inr (Fin 0)
   | (Fin x, NInf) \<Rightarrow> Inr (Fin 0)
   | _ \<Rightarrow> Inr NaN)"

definition fmul :: "pyfloat \<Rightarrow> pyfloat \<Rightarrow> pyfloat" where
  "fmul a b = (case (a, b) of
     (Fin x, Fin y) \<Rightarrow> mkfloat (x * y)
   | (NaN, _) \<Rightarrow> NaN
   | (_, NaN) \<Rightarrow> NaN
   | (Fin x, PInf) \<Rightarrow> (if x = 0 then NaN else if 0 < x then PInf else NInf)
   | (Fin x, NInf) \<Rightarrow> (if x = 0 then NaN else if 0 < x then NInf else PInf)
   | (PInf, Fin y) \<Rightarrow> (if y = 0 then NaN else if 0 < y then PInf else NInf)
   | (NInf, Fin y) \<Rightarrow> (if y = 0 then NaN else if 0 < y then NInf else PInf)
   | (PInf, PInf) \<Rightarrow> PInf | (NInf, NInf) \<Rightarrow> PInf
   | _ \<Rightarrow> NInf)"

definition fadd :: "pyfloat \<Rightarrow> pyfloat \<Rightarrow> pyfloat" where
  "fadd a b = (case (a, b) of
     (Fin x, Fin y) \<Rightarrow> mkfloat (x + y)
   | (NaN, _) \<Rightarrow> NaN
   | (_, NaN) \<Rightarrow> NaN
   | (PInf, NInf) \<Rightarrow> NaN
   | (NInf, PInf) \<Rightarrow> NaN
   | (PInf, _) \<Rightarrow> PInf
   | (_, PInf) \<Rightarrow> PInf
   | _ \<Rightarrow> NInf)"

definition fneg :: "pyfloat \<Rightarrow> pyfloat" where
  "fneg a = (case a of Fin x \<Rightarrow> Fin (- x) | PInf \<Rightarrow> NInf | NInf \<Rightarrow> PInf | NaN \<Rightarrow> NaN)"

definition fsub :: "pyfloat \<Rightarrow> pyfloat \<Rightarrow> pyfloat" where
  "fsub a b = fadd a (fneg b)"

definition flt :: "pyfloat \<Rightarrow> pyfloat \<Rightarrow> bool" where
  "flt a b = (case (a, b) of
     (NaN, _) \<Rightarrow> False
   | (_, NaN) \<Rightarrow> False
   | (Fin x, Fin y) \<Rightarrow> x < y
   | (NInf, NInf) \<Rightarrow> False
   | (NInf, _) \<Rightarrow> True
   | (_, NInf) \<Rightarrow> False
   | (PInf, _) \<Rightarrow> False
   | (_, PInf) \<Rightarrow> True)"

text \<open>\<open>float(n)\<close> of an integer raises OverflowError beyond the doubles; \<open>int(x)\<close> truncates.\<close>

definition float_of_int :: "int \<Rightarrow> pyfloat res" where
  "float_of_int n = (case mkfloat (of_int n) of Fin x \<Rightarrow> Inr (Fin x) | _ \<Rightarrow> Inl OverflowError)"

definition trunc_rat :: "rat \<Rightarrow> int" where
  "trunc_rat r = (if r < 0 then - \<lfloor>- r\<rfloor> else \<lfloor>r\<rfloor>)"

definition int_of_float :: "pyfloat \<Rightarrow> int res" where
  "int_of_float a = (case a of Fin r \<Rightarrow> Inr (trunc_rat r) | NaN \<Rightarrow> Inl ValueError | _ \<Rightarrow> Inl OverflowError)"

definition floor_float :: "pyfloat \<Rightarrow> int res" where
  "floor_float a = (case a of Fin r \<Rightarrow> Inr \<lfloor>r\<rfloor> | NaN \<Rightarrow> Inl ValueError | _ \<Rightarrow> Inl OverflowError)"

lemma trunc_rat_of_int [simp]: "trunc_rat (of_int n) = n"
proof -
  have "- (of_int n :: rat) = of_int (- n)" by simp
  then show ?thesis by (simp only: trunc_rat_def floor_of_int) simp
qed

lemma mkfloat_of_int: "\<bar>n\<bar> \<le> 2 ^ 53 \<Longrightarrow> mkfloat (of_int n) = Fin (of_int n)"
proof -
  assume a: "\<bar>n\<bar> \<le> 2 ^ 53"
  have "n \<le> 2 ^ 53" "- (2 ^ 53) \<le> n" using a by auto
  then have "(of_int n :: rat) \<le> of_int (2 ^ 53)" "of_int (- (2 ^ 53)) \<le> (of_int n :: rat)"
    by (metis of_int_le_iff)+
  moreover have "(of_int (2 ^ 53) :: rat) < 2 ^ 1024" by simp
  ultimately show ?thesis
    using fl_of_int [OF a] by (auto simp: mkfloat_def Let_def)
qed

lemma float_of_int_exact [float_simps]: "\<bar>n\<bar> \<le> 2 ^ 53 \<Longrightarrow> float_of_int n = Inr (Fin (of_int n))"
  by (simp add: float_of_int_def mkfloat_of_int)

text \<open>
  \<open>math.floor(a / b)\<close> on integers is the floor division as long as the numerator is below
  \<open>2 ^ 53\<close>: the rounding of the quotient never crosses an integer.
\<close>

definition true_div :: "int \<Rightarrow> int \<Rightarrow> pyfloat res" where
  "true_div a b = (if b = 0 then Inl ZeroDivisionError
     else case mkfloat (of_int a / of_int b) of Fin x \<Rightarrow> Inr (Fin x) | _ \<Rightarrow> Inl OverflowError)"

lemma fl_quotient_floor:
  fixes a b :: int
  assumes "0 \<le> a" and "a < 2 ^ 53" and "0 < b" and "b < 2 ^ 63"
  shows "\<lfloor>fl (of_int a / of_int b)\<rfloor> = a div b"
proof (cases "a = 0")
  case True
  then show ?thesis by simp
next
  case False
  let ?x = "(of_int a / of_int b) :: rat"
  let ?q = "a div b"
  have a1: "1 \<le> a" using assms False by linarith
  have xpos: "0 < ?x" using assms a1 by simp
  have "1 / 2 ^ 63 \<le> 1 / (of_int b :: rat)"
  proof -
    have "(of_int b :: rat) \<le> of_int (2 ^ 63)" using assms by (simp only: of_int_le_iff)
    then show ?thesis using assms by (simp add: frac_le)
  qed
  also have "\<dots> \<le> ?x" using a1 assms by (simp add: divide_right_mono)
  finally have "1 / 2 ^ 63 \<le> ?x" .
  moreover have "(2::rat) powi (-1022) \<le> 1 / 2 ^ 63"
    by (simp add: power_int_minus field_simps)
  ultimately have "2 powi (-1022) \<le> \<bar>?x\<bar>" using xpos by linarith
  then have err: "\<bar>fl ?x - ?x\<bar> \<le> ?x / 2 ^ 53" using fl_error [of ?x] xpos by simp
  have "of_int a < (2 ^ 53 :: rat)"
    using assms(2) by (metis of_int_less_iff of_int_numeral of_int_power)
  then have small: "?x / 2 ^ 53 < 1 / of_int b"
    using assms by (simp add: field_simps)
  have r: "of_int a = of_int b * of_int ?q + (of_int (a mod b) :: rat)"
    by (metis mult_div_mod_eq of_int_add of_int_mult)
  have "a mod b \<le> b - 1" "0 \<le> a mod b" using assms by simp_all
  then have rb: "(of_int (a mod b) :: rat) \<le> of_int b - 1" "0 \<le> (of_int (a mod b) :: rat)"
    by (metis of_int_le_iff of_int_diff of_int_1, metis of_int_0_le_iff)
  have xq: "?x = of_int ?q + of_int (a mod b) / of_int b"
    using r assms by (simp add: field_simps)
  have "of_int (a mod b) / of_int b \<le> 1 - 1 / (of_int b :: rat)"
    using rb assms by (simp add: field_simps)
  then have "fl ?x < of_int ?q + 1" using xq err small by linarith
  moreover have "of_int ?q \<le> fl ?x"
  proof (cases "a mod b = 0")
    case True
    have qle: "?q \<le> a" using assms by (simp add: div_le_dividend zdiv_mono2 [of a 1 b, simplified])
    have "0 \<le> ?q" using assms by (simp add: pos_imp_zdiv_nonneg_iff)
    then have "fl (of_int ?q) = of_int ?q" using fl_of_int [of ?q] qle assms(2) by simp
    then show ?thesis using xq True by simp
  next
    case False
    then have "1 \<le> a mod b" using \<open>0 \<le> a mod b\<close> by linarith
    then have "1 / of_int b \<le> of_int (a mod b) / (of_int b :: rat)"
      using assms by (simp add: divide_right_mono)
    then show ?thesis using xq err small by linarith
  qed
  ultimately show ?thesis by (simp add: floor_eq_iff)
qed

lemma fl_quotient_small:
  fixes a b :: int
  assumes "0 \<le> a" and "a < 2 ^ 53" and "0 < b" and "b < 2 ^ 63"
  shows "mkfloat (of_int a / of_int b) = Fin (fl (of_int a / of_int b))"
proof -
  let ?y = "fl (of_int a / of_int b)"
  have f: "\<lfloor>?y\<rfloor> = a div b" by (rule fl_quotient_floor [OF assms])
  have "a div b \<le> a" using assms by (simp add: zdiv_mono2 [of a 1 b, simplified])
  moreover have "0 \<le> a div b" using assms by (simp add: pos_imp_zdiv_nonneg_iff)
  ultimately have "?y < of_int (2 ^ 53) + 1" "0 \<le> ?y" using f assms(2) by linarith+
  moreover have "(of_int (2 ^ 53) :: rat) + 1 < 2 ^ 1024" by simp
  ultimately have "?y < 2 ^ 1024" "- (2 ^ 1024) < ?y" by linarith+
  then show ?thesis by (simp add: mkfloat_def Let_def)
qed

lemma floor_true_div [float_simps]:
  assumes "0 \<le> a" and "a < 2 ^ 53" and "0 < b" and "b < 2 ^ 63"
  shows "rbind (true_div a b) floor_float = Inr (a div b)"
  using assms fl_quotient_small [OF assms] fl_quotient_floor [OF assms]
  by (simp add: true_div_def floor_float_def)

subsection \<open>Square and square root\<close>

text \<open>
  \<open>math.pow(x, 2)\<close> and \<open>math.sqrt\<close>, correctly rounded. The root of a rational is rounded from
  a square root truncated far below the last place, with a half unit added when it is inexact,
  so that no tie arises that is not one.
\<close>

definition fpow2 :: "pyfloat \<Rightarrow> pyfloat res" where
  "fpow2 a = (case a of
     Fin x \<Rightarrow> (case mkfloat (x * x) of Fin y \<Rightarrow> Inr (Fin y) | _ \<Rightarrow> Inl OverflowError)
   | NaN \<Rightarrow> Inr NaN
   | _ \<Rightarrow> Inr PInf)"

fun isqrt :: "int \<Rightarrow> int" where
  "isqrt n = (if n \<le> 0 then 0
     else let r = 2 * isqrt (n div 4) in if (r + 1) * (r + 1) \<le> n then r + 1 else r)"

declare isqrt.simps [simp del]

lemma isqrt_correct: "0 \<le> n \<Longrightarrow> 0 \<le> isqrt n \<and> isqrt n * isqrt n \<le> n \<and> n < (isqrt n + 1) * (isqrt n + 1)"
proof (induction n rule: isqrt.induct)
  case (1 n)
  show ?case
  proof (cases "n = 0")
    case True
    then show ?thesis by (simp add: isqrt.simps)
  next
    case False
    then have pos: "0 < n" using 1(2) by simp
    let ?q = "isqrt (n div 4)"
    have "0 \<le> ?q \<and> ?q * ?q \<le> n div 4 \<and> n div 4 < (?q + 1) * (?q + 1)"
      using 1(1) pos by simp
    moreover have "4 * (n div 4) \<le> n" "n < 4 * (n div 4) + 4" by presburger+
    ultimately have b: "0 \<le> ?q" "4 * (?q * ?q) \<le> n" "n < 4 * ((?q + 1) * (?q + 1))" by linarith+
    show ?thesis
      using b pos by (subst (1 2 3 4 5) isqrt.simps) (auto simp: Let_def algebra_simps)
  qed
qed

definition fsqrt :: "pyfloat \<Rightarrow> pyfloat res" where
  "fsqrt a = (case a of
     Fin x \<Rightarrow> if x < 0 then Inl ValueError
       else if x = 0 then Inr (Fin 0)
       else (let k = 64 - fexp x div 2;
                 s = x * 2 powi (2 * k);
                 m = isqrt \<lfloor>s\<rfloor>;
                 h = (if of_int (m * m) = s then 0 else 1 / 2)
             in Inr (mkfloat ((of_int m + h) / 2 powi k)))
   | NaN \<Rightarrow> Inr NaN
   | PInf \<Rightarrow> Inr PInf
   | NInf \<Rightarrow> Inl ValueError)"

text \<open>One more bit than the truncation keeps: the root lies within \<open>2 powi (- k)\<close> of what is rounded.\<close>

lemma fsqrt_truncation:
  assumes "0 < (x :: rat)" and s_def: "s = x * 2 powi (2 * k)" and m_def: "m = isqrt \<lfloor>s\<rfloor>"
  shows "(of_int m / 2 powi k) ^ 2 \<le> x" and "x < ((of_int m + 1) / 2 powi k) ^ 2"
proof -
  have sp: "0 < s" using assms(1) by (simp add: s_def)
  then have "0 \<le> \<lfloor>s\<rfloor>" by simp
  from isqrt_correct [OF this] have m: "m * m \<le> \<lfloor>s\<rfloor>" "\<lfloor>s\<rfloor> < (m + 1) * (m + 1)" by (simp_all add: m_def)
  have lo: "of_int (m * m) \<le> s" using m(1) by (simp add: le_floor_iff)
  have hi: "s < of_int ((m + 1) * (m + 1))" using m(2) by (simp add: floor_less_iff)
  have p: "(2 powi k) ^ 2 = (2 powi (2 * k) :: rat)"
    by (simp only: power2_eq_square mult_2) (rule power_int_add [symmetric], simp)
  have x: "x = s / (2 powi k) ^ 2" unfolding s_def p by simp
  show "(of_int m / 2 powi k) ^ 2 \<le> x"
    using lo by (simp add: x power_divide power2_eq_square divide_right_mono)
  show "x < ((of_int m + 1) / 2 powi k) ^ 2"
    using hi by (simp add: x power_divide power2_eq_square divide_strict_right_mono)
qed

end
