(* ===== verification/Py_Datetime.thy ===== *)
theory Py_Datetime
  imports Py_Float
begin

section \<open>UTC datetimes\<close>

text \<open>
  A naive UTC \<open>datetime.datetime\<close>, as microseconds since the Unix epoch. The year is
  computed from the proleptic Gregorian ordinal by the 400/100/4/1-year cycles, as the
  standard library does. \<open>utcfromtimestamp\<close> takes a float: it splits off the fraction,
  rounds it to microseconds (ties to even) and raises for years outside 1 to 9999.
\<close>

datatype datetime = DT (dt_micros: int)

instantiation datetime :: linorder
begin

definition less_eq_datetime :: "datetime \<Rightarrow> datetime \<Rightarrow> bool" where
  "less_eq_datetime a b = (dt_micros a \<le> dt_micros b)"

definition less_datetime :: "datetime \<Rightarrow> datetime \<Rightarrow> bool" where
  "less_datetime a b = (dt_micros a < dt_micros b)"

instance
  by standard (auto simp: less_eq_datetime_def less_datetime_def datetime.expand)

end

definition days_before_year :: "int \<Rightarrow> int" where
  "days_before_year y = (let p = y - 1 in p * 365 + p div 4 - p div 100 + p div 400)"

definition year_of_ordinal :: "int \<Rightarrow> int" where
  "year_of_ordinal n =
     (let n0 = n - 1;
          n400 = n0 div 146097; r400 = n0 mod 146097;
          n100 = r400 div 36524; r100 = r400 mod 36524;
          n4 = r100 div 1461; r4 = r100 mod 1461;
          n1 = r4 div 365;
          y = n400 * 400 + 1 + n100 * 100 + n4 * 4 + n1
      in if n1 = 4 \<or> n100 = 4 then y - 1 else y)"

definition epoch_ordinal :: int where
  "epoch_ordinal = 719163"

definition dt_year :: "datetime \<Rightarrow> int" where
  "dt_year d = year_of_ordinal (dt_micros d div 86400000000 + epoch_ordinal)"

definition timegm :: "datetime \<Rightarrow> int" where
  "timegm d = dt_micros d div 1000000"

definition utcfromtimestamp :: "pyfloat \<Rightarrow> datetime res" where
  "utcfromtimestamp t = (case t of
     NaN \<Rightarrow> Inl ValueError
   | PInf \<Rightarrow> Inl OverflowError
   | NInf \<Rightarrow> Inl OverflowError
   | Fin r \<Rightarrow>
      (let secs = trunc_rat r;
           us = secs * 1000000 + round_even (fl ((r - of_int secs) * 1000000));
           d = DT us
       in if secs < - (2 ^ 63) \<or> 2 ^ 63 \<le> secs then Inl OverflowError
          else if dt_year d < 1 \<or> 9999 < dt_year d then Inl ValueError
          else Inr d))"

subsection \<open>The year brackets the day\<close>

lemma days_before_cycle:
  assumes "0 \<le> b" "b \<le> 3" "0 \<le> c" "c \<le> 24" "0 \<le> d" "d \<le> 3"
  shows "days_before_year (a * 400 + 1 + b * 100 + c * 4 + d)
    = a * 146097 + b * 36524 + c * 1461 + d * 365"
proof -
  let ?p = "a * 400 + b * 100 + c * 4 + d"
  have "?p div 4 = a * 100 + b * 25 + c" "?p div 100 = a * 4 + b" "?p div 400 = a"
    using assms
    by (auto intro!: int_div_pos_eq [of _ 4 _ d] int_div_pos_eq [of _ 100 _ "c * 4 + d"]
        int_div_pos_eq [of _ 400 _ "b * 100 + c * 4 + d"])
  then show ?thesis by (simp add: days_before_year_def Let_def algebra_simps)
qed

lemma days_before_mono: "y \<le> z \<Longrightarrow> days_before_year y \<le> days_before_year z"
proof -
  have step: "days_before_year y \<le> days_before_year (y + 1)" for y
  proof -
    have "y div 4 \<ge> (y - 1) div 4" "y div 400 \<ge> (y - 1) div 400"
      by (simp_all add: zdiv_mono1)
    moreover have "y div 100 \<le> (y - 1) div 100 + 1"
      using zdiv_mono1 [of y "(y - 1) + 100" 100] by simp
    ultimately show ?thesis by (simp add: days_before_year_def Let_def)
  qed
  show "y \<le> z \<Longrightarrow> days_before_year y \<le> days_before_year z"
    by (induction z rule: int_ge_induct) (auto intro: order_trans step)
qed

lemma year_of_ordinal_bracket:
  "days_before_year (year_of_ordinal n) < n \<and> n \<le> days_before_year (year_of_ordinal n + 1)"
proof -
  define n0 where "n0 = n - 1"
  define a where "a = n0 div 146097"
  define r where "r = n0 mod 146097"
  define b where "b = r div 36524"
  define s where "s = r mod 36524"
  define c where "c = s div 1461"
  define t where "t = s mod 1461"
  define d where "d = t div 365"
  define e where "e = t mod 365"
  have rng: "0 \<le> r" "r < 146097" "0 \<le> s" "s < 36524" "0 \<le> t" "t < 1461" "0 \<le> e" "e < 365"
    by (simp_all add: r_def s_def t_def e_def)
  have eqs: "n0 = a * 146097 + r" "r = b * 36524 + s" "s = c * 1461 + t" "t = d * 365 + e"
    by (simp_all add: a_def r_def b_def s_def c_def t_def d_def e_def)
  have b: "0 \<le> b" "b \<le> 4" and c: "0 \<le> c" "c \<le> 24" and d: "0 \<le> d" "d \<le> 4"
    using rng zdiv_mono1 [of r 146096 36524] zdiv_mono1 [of s 36523 1461] zdiv_mono1 [of t 1460 365]
    by (simp_all add: b_def c_def d_def pos_imp_zdiv_nonneg_iff)
  have y: "year_of_ordinal n =
      (if d = 4 \<or> b = 4 then a * 400 + 1 + b * 100 + c * 4 + d - 1
       else a * 400 + 1 + b * 100 + c * 4 + d)"
    by (simp add: year_of_ordinal_def Let_def n0_def a_def r_def b_def s_def c_def t_def d_def)
  have nxt: "days_before_year (a * 400 + 1 + 400) = a * 146097 + 146097"
    using days_before_cycle [of 0 0 0 "a + 1"] by (simp add: algebra_simps)
  consider (b4) "b = 4" | (d4) "b \<le> 3" "d = 4" | (low) "b \<le> 3" "d \<le> 2"
    | (d3) "b \<le> 3" "d = 3" "c \<le> 23" | (c24) "b \<le> 2" "d = 3" "c = 24"
    | (last) "b = 3" "d = 3" "c = 24"
    using b c d by linarith
  then show ?thesis
  proof cases
    case b4
    then have "s = 0" using rng eqs by linarith
    then have "c = 0" "t = 0" using rng eqs c by linarith+
    then have "d = 0" using rng eqs d by linarith
    with \<open>s = 0\<close> \<open>c = 0\<close> show ?thesis
      using b4 y nxt eqs days_before_cycle [of 3 24 3 a] by (simp add: n0_def algebra_simps)
  next
    case d4
    then have e: "e = 0" using rng eqs by linarith
    have "c \<le> 23" using rng eqs d4 e by linarith
    then show ?thesis
      using d4 e y eqs b c days_before_cycle [of b c 3 a] days_before_cycle [of b "c + 1" 0 a]
      by (simp add: n0_def algebra_simps)
  next
    case low
    then show ?thesis
      using y eqs rng b c d days_before_cycle [of b c d a] days_before_cycle [of b c "d + 1" a]
      by (simp add: n0_def algebra_simps)
  next
    case d3
    then show ?thesis
      using y eqs rng b c days_before_cycle [of b c 3 a] days_before_cycle [of b "c + 1" 0 a]
      by (simp add: n0_def algebra_simps)
  next
    case c24
    then show ?thesis
      using y eqs rng b days_before_cycle [of b 24 3 a] days_before_cycle [of "b + 1" 0 0 a]
      by (simp add: n0_def algebra_simps)
  next
    case last
    then show ?thesis
      using y nxt eqs rng days_before_cycle [of 3 24 3 a] by (simp add: n0_def algebra_simps)
  qed
qed

lemma year_of_ordinal_mono:
  assumes "m \<le> n"
  shows "year_of_ordinal m \<le> year_of_ordinal n"
proof (rule ccontr)
  assume "\<not> ?thesis"
  then have "days_before_year (year_of_ordinal n + 1) \<le> days_before_year (year_of_ordinal m)"
    by (intro days_before_mono) simp
  then show False
    using year_of_ordinal_bracket [of m] year_of_ordinal_bracket [of n] assms by linarith
qed

lemma dt_year_mono: "a \<le> b \<Longrightarrow> dt_year a \<le> dt_year b"
  by (simp add: dt_year_def less_eq_datetime_def year_of_ordinal_mono zdiv_mono1)

lemma timegm_mono: "a \<le> b \<Longrightarrow> timegm a \<le> timegm b"
  by (simp add: timegm_def less_eq_datetime_def zdiv_mono1)

text \<open>The year only depends on the second.\<close>

lemma dt_year_seconds: "dt_year (DT (timegm d * 1000000)) = dt_year d"
proof -
  have "timegm d * 1000000 div 86400000000 = dt_micros d div 86400000000"
    by (simp add: timegm_def zdiv_zmult2_eq [of 86400 _ 1000000, simplified])
  then show ?thesis by (simp add: dt_year_def)
qed

subsection \<open>Whole seconds\<close>

text \<open>The datetime of a whole number of seconds, and the years Python allows.\<close>

abbreviation dt_of_secs :: "int \<Rightarrow> datetime" where
  "dt_of_secs s \<equiv> DT (s * 1000000)"

definition valid_secs :: "int \<Rightarrow> bool" where
  "valid_secs s = (1 \<le> dt_year (dt_of_secs s) \<and> dt_year (dt_of_secs s) \<le> 9999)"

lemma timegm_secs [simp]: "timegm (dt_of_secs s) = s"
  by (simp add: timegm_def)

lemma dt_of_secs_le [simp]: "dt_of_secs s \<le> dt_of_secs t \<longleftrightarrow> s \<le> t"
  by (simp add: less_eq_datetime_def)

lemma utcfromtimestamp_secs:
  assumes "valid_secs s" and "\<bar>s\<bar> < 2 ^ 53"
  shows "utcfromtimestamp (Fin (of_int s)) = Inr (dt_of_secs s)"
  using assms by (auto simp: utcfromtimestamp_def valid_secs_def Let_def round_even_def)

lemma utcfromtimestamp_secs_invalid:
  assumes "\<not> valid_secs s" and "\<bar>s\<bar> < 2 ^ 53"
  shows "utcfromtimestamp (Fin (of_int s)) = Inl ValueError"
  using assms by (auto simp: utcfromtimestamp_def valid_secs_def Let_def round_even_def)

lemma valid_secs_between:
  assumes "valid_secs a" "valid_secs b" "a \<le> s" "s \<le> b"
  shows "valid_secs s"
proof -
  have "dt_year (dt_of_secs a) \<le> dt_year (dt_of_secs s)" "dt_year (dt_of_secs s) \<le> dt_year (dt_of_secs b)"
    using assms by (auto intro: dt_year_mono)
  with assms(1,2) show ?thesis unfolding valid_secs_def by linarith
qed

lemma valid_secs_0: "valid_secs 0"
  by code_simp

end
