(* ===== verification/Row_Keys.thy ===== *)
theory Row_Keys
  imports Py_Datetime
begin

section \<open>Cassandra row keys\<close>

text \<open>
  \<open>esmond/cassandra.py\<close>: a path (a list of strings) is escaped and joined with the
  delimiter, followed by the frequency and the year when they are truthy
  (\<open>escape_path\<close>, \<open>get_rowkey\<close>); \<open>_split_rowkey\<close> takes a key apart again. The lemmas
  show that splitting inverts joining for paths without the escape character, so that keys
  determine the series they were built from.
\<close>

definition KEY_DELIMITER :: char where
  "KEY_DELIMITER = CHR '':''"

definition ESCAPE :: char where
  "ESCAPE = CHR 0x5C"

definition escape_path :: "string list \<Rightarrow> string list" where
  "escape_path path = map (replace_char KEY_DELIMITER [ESCAPE, KEY_DELIMITER]) path"

definition rowkey_appends :: "int option \<Rightarrow> int option \<Rightarrow> string list" where
  "rowkey_appends freq year =
     (case freq of None \<Rightarrow> [] | Some f \<Rightarrow> if f = 0 then [] else [show_int f]) @
     (case year of None \<Rightarrow> [] | Some y \<Rightarrow> if y = 0 then [] else [show_int y])"

definition get_rowkey :: "string list \<Rightarrow> int option \<Rightarrow> int option \<Rightarrow> string" where
  "get_rowkey path freq year = join [KEY_DELIMITER] (escape_path path @ rowkey_appends freq year)"

text \<open>The positions of the delimiters that no escape precedes, and the slices between them.\<close>

definition delimiter_indices :: "string \<Rightarrow> nat list" where
  "delimiter_indices s =
     filter (\<lambda>i. s ! i = KEY_DELIMITER \<and> (i = 0 \<or> s ! (i - 1) \<noteq> ESCAPE)) [0..<length s]"

fun rowkey_slices :: "string \<Rightarrow> nat \<Rightarrow> nat list \<Rightarrow> string list" where
  "rowkey_slices s start [] = [drop start s]"
| "rowkey_slices s start (i # is) =
     replace_char ESCAPE [] (take (i - start) (drop start s)) # rowkey_slices s (Suc i) is"

definition split_rowkey :: "string \<Rightarrow> string list" where
  "split_rowkey s = rowkey_slices s 0 (delimiter_indices s)"

subsection \<open>Splitting inverts joining\<close>

lemma delim_esc [simp]: "KEY_DELIMITER \<noteq> ESCAPE" "ESCAPE \<noteq> KEY_DELIMITER"
  by (simp_all add: KEY_DELIMITER_def ESCAPE_def)

text \<open>A string that holds no unescaped delimiter and does not end in the escape.\<close>

definition closed_chunk :: "string \<Rightarrow> bool" where
  "closed_chunk x = (delimiter_indices x = [] \<and> (x = [] \<or> last x \<noteq> ESCAPE))"

lemma delimiter_indices_Nil [simp]: "delimiter_indices [] = []"
  by (simp add: delimiter_indices_def)

lemma delimiter_indices_append:
  assumes "closed_chunk x"
  shows "delimiter_indices (x @ KEY_DELIMITER # rest) =
    length x # map (\<lambda>i. i + Suc (length x)) (delimiter_indices rest)"
proof -
  let ?s = "x @ KEY_DELIMITER # rest"
  define P where "P = (\<lambda>(s :: string) i. s ! i = KEY_DELIMITER \<and> (i = 0 \<or> s ! (i - 1) \<noteq> ESCAPE))"
  have P: "delimiter_indices s = filter (P s) [0..<length s]" for s
    by (simp add: delimiter_indices_def P_def)
  have "[0..<length ?s] = [0..<length x] @ [length x..<length x + Suc (length rest)]"
    using upt_add_eq_append [of 0 "length x" "Suc (length rest)"] by simp
  also have "[length x..<length x + Suc (length rest)] =
      length x # map (\<lambda>i. i + Suc (length x)) [0..<length rest]"
    by (subst upt_conv_Cons, simp, subst map_add_upt, simp add: add.commute)
  finally have upt: "[0..<length ?s] =
      [0..<length x] @ length x # map (\<lambda>i. i + Suc (length x)) [0..<length rest]" .
  have "filter (P ?s) [0..<length x] = filter (P x) [0..<length x]"
    by (intro filter_cong) (auto simp: P_def nth_append)
  then have 1: "filter (P ?s) [0..<length x] = []"
    using assms by (simp add: closed_chunk_def P)
  have 2: "P ?s (length x)"
    using assms by (auto simp: P_def closed_chunk_def nth_append last_conv_nth)
  have 3: "P ?s (i + Suc (length x)) = P rest i" for i
    by (cases i) (auto simp: P_def nth_append)
  have "filter (P ?s) (map (\<lambda>i. i + Suc (length x)) [0..<length rest]) =
      map (\<lambda>i. i + Suc (length x)) (filter (P rest) [0..<length rest])"
    by (simp only: filter_map o_def 3)
  then show ?thesis
    by (simp only: P upt filter_append filter.simps 1 2 if_True append_Nil)
qed

lemma rowkey_slices_shift:
  "rowkey_slices (pre @ rest) (k + length pre) (map (\<lambda>i. i + length pre) is) =
   rowkey_slices rest k is"
proof (induction "is" arbitrary: k)
  case Nil
  then show ?case by simp
next
  case (Cons i "is")
  show ?case using Cons [of "Suc i"] by (simp add: drop_drop)
qed

lemma split_rowkey_append:
  assumes "closed_chunk x"
  shows "split_rowkey (x @ KEY_DELIMITER # rest) = replace_char ESCAPE [] x # split_rowkey rest"
proof -
  have "rowkey_slices (x @ KEY_DELIMITER # rest) (Suc (length x))
      (map (\<lambda>i. i + Suc (length x)) (delimiter_indices rest)) =
    rowkey_slices rest 0 (delimiter_indices rest)"
    using rowkey_slices_shift [of "x @ [KEY_DELIMITER]" rest 0] by simp
  then show ?thesis
    by (simp add: split_rowkey_def delimiter_indices_append [OF assms])
qed

lemma split_rowkey_chunk: "closed_chunk x \<Longrightarrow> split_rowkey x = [x]"
  by (simp add: split_rowkey_def closed_chunk_def)

text \<open>The same, by recursion: \<open>after\<close> says that the escape comes right before.\<close>

fun no_open_delim :: "bool \<Rightarrow> string \<Rightarrow> bool" where
  "no_open_delim after [] = True"
| "no_open_delim after (c # s) =
     ((c = KEY_DELIMITER \<longrightarrow> after) \<and> no_open_delim (c = ESCAPE) s)"

lemma no_open_delim_nth:
  "no_open_delim after s \<longleftrightarrow>
   (\<forall>i < length s. s ! i = KEY_DELIMITER \<longrightarrow> (if i = 0 then after else s ! (i - 1) = ESCAPE))"
proof (induction s arbitrary: after)
  case Nil
  then show ?case by simp
next
  case (Cons c s)
  have "(if i = 0 then c = ESCAPE else s ! (i - 1) = ESCAPE) \<longleftrightarrow> (c # s) ! i = ESCAPE" for i
    by (cases i) auto
  then show ?case by (simp add: Cons All_less_Suc2)
qed

lemma closed_chunk_rec: "closed_chunk x \<longleftrightarrow> no_open_delim False x \<and> (x = [] \<or> last x \<noteq> ESCAPE)"
proof -
  have "delimiter_indices x = [] \<longleftrightarrow>
      (\<forall>i < length x. x ! i = KEY_DELIMITER \<longrightarrow> i \<noteq> 0 \<and> x ! (i - 1) = ESCAPE)"
    by (auto simp: delimiter_indices_def filter_empty_conv)
  moreover have "no_open_delim False x \<longleftrightarrow>
      (\<forall>i < length x. x ! i = KEY_DELIMITER \<longrightarrow> i \<noteq> 0 \<and> x ! (i - 1) = ESCAPE)"
    unfolding no_open_delim_nth by (intro iff_allI) simp
  ultimately show ?thesis by (simp add: closed_chunk_def)
qed

lemma closed_chunk_escape:
  assumes "ESCAPE \<notin> set e"
  shows "closed_chunk (replace_char KEY_DELIMITER [ESCAPE, KEY_DELIMITER] e)"
proof -
  have "no_open_delim after (replace_char KEY_DELIMITER [ESCAPE, KEY_DELIMITER] e)" for after
    using assms by (induction e arbitrary: after) auto
  moreover have "replace_char KEY_DELIMITER [ESCAPE, KEY_DELIMITER] e = [] \<longleftrightarrow> e = []" for e
    by (cases e) auto
  then have "e = [] \<or> last (replace_char KEY_DELIMITER [ESCAPE, KEY_DELIMITER] e) = last e"
    by (induction e) auto
  moreover have "e \<noteq> [] \<Longrightarrow> last e \<noteq> ESCAPE"
    using assms by (metis last_in_set)
  ultimately show ?thesis
    by (cases "e = []") (auto simp: closed_chunk_rec)
qed

lemma unescape_escape:
  "ESCAPE \<notin> set e \<Longrightarrow>
   replace_char ESCAPE [] (replace_char KEY_DELIMITER [ESCAPE, KEY_DELIMITER] e) = e"
  by (induction e) auto

lemma closed_chunk_plain: "KEY_DELIMITER \<notin> set e \<Longrightarrow> ESCAPE \<notin> set e \<Longrightarrow> closed_chunk e"
  using closed_chunk_escape [of e] by simp

lemma split_join_chunks:
  assumes "\<forall>x \<in> set xs. closed_chunk x" and "closed_chunk z"
  shows "split_rowkey (join [KEY_DELIMITER] (xs @ [z])) = map (replace_char ESCAPE []) xs @ [z]"
  using assms
proof (induction xs)
  case Nil
  then show ?case by (simp add: split_rowkey_chunk)
next
  case (Cons x xs)
  have "join [KEY_DELIMITER] ((x # xs) @ [z]) = x @ KEY_DELIMITER # join [KEY_DELIMITER] (xs @ [z])"
    by (simp add: join_Cons)
  then show ?case using Cons by (simp add: split_rowkey_append)
qed

lemma rowkey_appends_plain:
  "x \<in> set (rowkey_appends f y) \<Longrightarrow> KEY_DELIMITER \<notin> set x \<and> ESCAPE \<notin> set x"
  by (auto simp: rowkey_appends_def KEY_DELIMITER_def ESCAPE_def split: option.splits if_splits)

lemma map_unescape_appends:
  "map (replace_char ESCAPE []) (rowkey_appends f y) = rowkey_appends f y"
  by (rule map_idI) (use rowkey_appends_plain in auto)

text \<open>Taking a key apart gives the path and the appended numbers, in order.\<close>

lemma split_get_rowkey:
  assumes "\<forall>e \<in> set path. ESCAPE \<notin> set e" and "rowkey_appends freq year \<noteq> []"
  shows "split_rowkey (get_rowkey path freq year) = path @ rowkey_appends freq year"
proof -
  let ?app = "rowkey_appends freq year"
  have app: "?app = butlast ?app @ [last ?app]" using assms(2) by simp
  have ch: "\<forall>x \<in> set (escape_path path @ butlast ?app). closed_chunk x"
    using assms(1) closed_chunk_escape rowkey_appends_plain closed_chunk_plain
    by (auto simp: escape_path_def dest!: in_set_butlastD)
  have last: "closed_chunk (last ?app)"
    using rowkey_appends_plain [OF last_in_set [OF assms(2)]] by (simp add: closed_chunk_plain)
  have "get_rowkey path freq year =
      join [KEY_DELIMITER] ((escape_path path @ butlast ?app) @ [last ?app])"
    using app by (simp add: get_rowkey_def)
  then have "split_rowkey (get_rowkey path freq year) =
      map (replace_char ESCAPE []) (escape_path path @ butlast ?app) @ [last ?app]"
    using split_join_chunks [OF ch last] by simp
  moreover have "map (replace_char ESCAPE []) (escape_path path) = path"
    using assms(1) unescape_escape by (simp add: escape_path_def map_idI)
  moreover have "map (replace_char ESCAPE []) (butlast ?app) = butlast ?app"
    using map_unescape_appends [of freq year] by (metis map_butlast)
  ultimately show ?thesis using assms(2) by simp
qed

lemma rowkey_appends_inj:
  "f \<noteq> Some 0 \<Longrightarrow> f' \<noteq> Some 0 \<Longrightarrow> y \<noteq> 0 \<Longrightarrow> y' \<noteq> 0 \<Longrightarrow>
   rowkey_appends f (Some y) = rowkey_appends f' (Some y') \<Longrightarrow> f = f' \<and> y = y'"
  by (auto simp: rowkey_appends_def split: option.splits)

text \<open>
  C17. Row keys are unambiguous: for paths of the same length whose elements hold no
  backslash (colons are allowed: they are escaped), two row keys are equal only if their
  paths, frequencies and years are equal. So rows of different series and different years
  are never mixed.
\<close>

theorem get_rowkey_injective:
  assumes "\<forall>e \<in> set path. ESCAPE \<notin> set e" and "\<forall>e \<in> set path'. ESCAPE \<notin> set e"
    and "length path = length path'" and "y \<noteq> 0" and "y' \<noteq> 0"
    and "f \<noteq> Some 0" and "f' \<noteq> Some 0"
    and "get_rowkey path f (Some y) = get_rowkey path' f' (Some y')"
  shows "path = path' \<and> f = f' \<and> y = y'"
proof -
  have ne: "rowkey_appends f (Some y) \<noteq> []" "rowkey_appends f' (Some y') \<noteq> []"
    using assms(4,5) by (auto simp: rowkey_appends_def)
  have "path @ rowkey_appends f (Some y) = path' @ rowkey_appends f' (Some y')"
    using split_get_rowkey [OF assms(1) ne(1)] split_get_rowkey [OF assms(2) ne(2)] assms(8)
    by simp
  then have "path = path'" "rowkey_appends f (Some y) = rowkey_appends f' (Some y')"
    using assms(3) by simp_all
  then show ?thesis using rowkey_appends_inj [of f f' y y'] assms(4-7) by blast
qed

theorem get_rowkey_injective_witness:
  "[''a:b'', ''c''] = [''a:b'', ''c''] \<and> Some (60 :: int) = Some 60 \<and> (2014 :: int) = 2014"
  by (rule get_rowkey_injective) (simp_all add: ESCAPE_def)

end
