(* ===== verification/Py_Values.thy ===== *)
theory Py_Values
  imports Row_Keys
begin

section \<open>JSON values and the conversions the code applies to them\<close>

text \<open>
  What \<open>json.loads\<close> returns (objects in insertion order, keys unique), with \<open>int(x)\<close>,
  \<open>float(x)\<close>, \<open>k in x\<close> and \<open>x[k]\<close> for every kind of value: the conversions raise
  ValueError for a string or NaN that is no number, OverflowError for an infinity and
  TypeError for a list, an object or None, and the code catches only some of these.
\<close>

datatype json =
    JNull
  | JBool bool
  | JInt int
  | JFloat pyfloat
  | JStr string
  | JList "json list"
  | JObj "(string \<times> json) list"

fun parse_mantissa :: "string \<Rightarrow> rat option" where
  "parse_mantissa s =
     (case split_char (CHR ''.'') s of
        [ip] \<Rightarrow> map_option of_nat (parse_digits 0 False ip)
      | [ip, fp] \<Rightarrow>
          (let n = (if ip = [] then Some 0 else parse_digits 0 False ip);
               k = (if fp = [] then Some 0 else parse_digits 0 False fp)
           in if ip = [] \<and> fp = [] then None
              else case (n, k) of
                 (Some a, Some b) \<Rightarrow>
                   Some (of_nat a + of_nat b / 10 ^ length (filter is_digit fp))
               | _ \<Rightarrow> None)
      | _ \<Rightarrow> None)"

definition parse_exponent :: "string \<Rightarrow> int option" where
  "parse_exponent s = (let (neg, ds) = parse_sign s in
     map_option (\<lambda>n. if neg then - int n else int n) (parse_digits 0 False ds))"

definition parse_float :: "string \<Rightarrow> pyfloat option" where
  "parse_float s =
     (let (neg, b) = parse_sign (strip s); l = lower b; sgn = (if neg then -1 else (1::rat)) in
      if l = ''inf'' \<or> l = ''infinity'' then Some (if neg then NInf else PInf)
      else if l = ''nan'' then Some NaN
      else case split_char (CHR ''e'') l of
          [m] \<Rightarrow> map_option (\<lambda>r. mkfloat (sgn * r)) (parse_mantissa m)
        | [m, e] \<Rightarrow>
            (case (parse_mantissa m, parse_exponent e) of
               (Some r, Some k) \<Rightarrow> Some (mkfloat (sgn * r * 10 powi k))
             | _ \<Rightarrow> None)
        | _ \<Rightarrow> None)"

fun py_int :: "json \<Rightarrow> int res" where
  "py_int (JInt n) = Inr n"
| "py_int (JBool b) = Inr (if b then 1 else 0)"
| "py_int (JFloat x) = int_of_float x"
| "py_int (JStr s) = (case parse_int s of Some n \<Rightarrow> Inr n | None \<Rightarrow> Inl ValueError)"
| "py_int _ = Inl TypeError"

fun py_float :: "json \<Rightarrow> pyfloat res" where
  "py_float (JInt n) = float_of_int n"
| "py_float (JBool b) = Inr (Fin (if b then 1 else 0))"
| "py_float (JFloat x) = Inr x"
| "py_float (JStr s) = (case parse_float s of Some x \<Rightarrow> Inr x | None \<Rightarrow> Inl ValueError)"
| "py_float _ = Inl TypeError"

text \<open>What evaluates the string functions on literals.\<close>

lemmas str_eval = parse_int_def parse_float_def parse_exponent_def strip_def parse_sign_def
  is_space_def lower_def lower_char_def is_digit_def digit_val_def

lemma mkfloat_eval: "fl x = y \<Longrightarrow> \<bar>y\<bar> < 2 ^ 1024 \<Longrightarrow> mkfloat x = Fin y"
  by (auto simp: mkfloat_def Let_def abs_less_iff)

text \<open>\<open>k in x\<close> for a string \<open>k\<close>, and \<open>x[k]\<close>.\<close>

fun py_contains :: "string \<Rightarrow> json \<Rightarrow> bool res" where
  "py_contains k (JObj d) = Inr (has_key k d)"
| "py_contains k (JList xs) = Inr (JStr k \<in> set xs)"
| "py_contains k (JStr s) = Inr (contains_substring k s)"
| "py_contains k _ = Inl TypeError"

fun py_getitem :: "json \<Rightarrow> string \<Rightarrow> json res" where
  "py_getitem (JObj d) k = (case map_of d k of Some v \<Rightarrow> Inr v | None \<Rightarrow> Inl KeyError)"
| "py_getitem _ k = Inl TypeError"

text \<open>Truth of a value, as an \<open>if\<close> takes it.\<close>

fun py_truthy :: "json \<Rightarrow> bool" where
  "py_truthy JNull = False"
| "py_truthy (JBool b) = b"
| "py_truthy (JInt n) = (n \<noteq> 0)"
| "py_truthy (JFloat x) = (x \<noteq> Fin 0)"
| "py_truthy (JStr s) = (s \<noteq> [])"
| "py_truthy (JList xs) = (xs \<noteq> [])"
| "py_truthy (JObj d) = (d \<noteq> [])"

text \<open>What a \<open>for\<close> loop over a JSON value visits.\<close>

fun py_iter :: "json \<Rightarrow> json list res" where
  "py_iter (JList xs) = Inr xs"
| "py_iter (JObj d) = Inr (map (JStr \<circ> fst) d)"
| "py_iter (JStr s) = Inr (map (\<lambda>c. JStr [c]) s)"
| "py_iter _ = Inl TypeError"

lemma py_int_idem: "py_int v = Inr n \<Longrightarrow> py_int (JInt n) = Inr n"
  by simp

lemma py_int_errors: "py_int v = Inl e \<Longrightarrow> e \<in> {ValueError, TypeError, OverflowError}"
  by (cases v rule: py_int.cases) (auto simp: int_of_float_def split: pyfloat.splits option.splits)

end
