(* ===== verification/Event_Types.thy ===== *)
theory Event_Types
  imports Py_Values
begin

section \<open>Event types, summaries and the tables that describe them\<close>

text \<open>
  \<open>esmond/api/perfsonar/types.py\<close>: the event types with their data types, the summary
  types with their URL names, the summaries each data type allows, the subject types and
  the reserved query parameters. A Python dictionary is an association list in the
  source's order; the data type strings are a datatype. The lemmas say that the tables
  agree with each other: the code indexes one with the values of another without checking.
\<close>

datatype data_type = TFloat | THistogram | TInteger | TJson | TPercentage | TSubinterval

definition EVENT_TYPE_CONFIG :: "(string \<times> data_type) list" where
  "EVENT_TYPE_CONFIG = [
     (''failures'', TJson),
     (''histogram-owdelay'', THistogram),
     (''histogram-rtt'', THistogram),
     (''histogram-ttl'', THistogram),
     (''histogram-ttl-reverse'', THistogram),
     (''iostat'', TJson),
     (''mpstat'', TJson),
     (''ntp-offset'', TFloat),
     (''ntp-jitter'', TFloat),
     (''ntp-wander'', TFloat),
     (''ntp-polling-interval'', TFloat),
     (''ntp-stratum'', TInteger),
     (''ntp-reach'', TInteger),
     (''ntp-delay'', TFloat),
     (''ntp-dispersion'', TFloat),
     (''packet-duplicates'', TInteger),
     (''packet-duplicates-bidir'', TInteger),
     (''packet-loss-rate'', TPercentage),
     (''packet-loss-rate-bidir'', TPercentage),
     (''packet-trace'', TJson),
     (''packet-trace-multi'', TJson),
     (''packet-count-lost'', TInteger),
     (''packet-count-lost-bidir'', TInteger),
     (''packet-count-sent'', TInteger),
     (''packet-reorders'', TInteger),
     (''packet-reorders-bidir'', TInteger),
     (''packet-retransmits'', TInteger),
     (''packet-retransmits-subintervals'', TSubinterval),
     (''packet-rtt'', TInteger),
     (''packet-rtt-subintervals'', TSubinterval),
     (''tcp-windowsize'', TInteger),
     (''tcp-windowsize-subintervals'', TSubinterval),
     (''path-mtu'', TInteger),
     (''pscheduler-raw'', TJson),
     (''pscheduler-run-href'', TJson),
     (''rusage'', TJson),
     (''streams-packet-retransmits'', TJson),
     (''streams-packet-retransmits-subintervals'', TJson),
     (''streams-packet-rtt'', TJson),
     (''streams-packet-rtt-subintervals'', TJson),
     (''streams-tcp-windowsize'', TJson),
     (''streams-tcp-windowsize-subintervals'', TJson),
     (''streams-tcpinfo'', TJson),
     (''streams-throughput'', TJson),
     (''streams-throughput-subintervals'', TJson),
     (''tcpinfo'', TJson),
     (''throughput'', TInteger),
     (''throughput-subintervals'', TSubinterval),
     (''time-error-estimates'', TFloat)]"

definition SUMMARY_TYPES :: "(string \<times> string) list" where
  "SUMMARY_TYPES = [
     (''base'', ''base''),
     (''aggregations'', ''aggregation''),
     (''statistics'', ''statistics''),
     (''averages'', ''average'')]"

definition INVERSE_SUMMARY_TYPES :: "(string \<times> string) list" where
  "INVERSE_SUMMARY_TYPES = map (\<lambda>(k, v). (v, k)) SUMMARY_TYPES"

definition SUBJECT_TYPE_MAP :: "(string \<times> string) list" where
  "SUBJECT_TYPE_MAP = [
     (''point-to-point'', ''p2p_subject''),
     (''network-element'', ''networkelement_subject'')]"

definition SUBJECT_MODEL_MAP :: "(string \<times> string) list" where
  "SUBJECT_MODEL_MAP = [
     (''point-to-point'', ''pspointtopointsubject''),
     (''network-element'', ''psnetworkelementsubject'')]"

definition SUBJECT_FILTER_MAP :: "(string \<times> string list) list" where
  "SUBJECT_FILTER_MAP = [
     (''source'', [''pspointtopointsubject__source'', ''psnetworkelementsubject__source'']),
     (''destination'', [''pspointtopointsubject__destination'']),
     (''tool-name'', [''pspointtopointsubject__tool_name'', ''psnetworkelementsubject__tool_name'']),
     (''measurement-agent'',
       [''pspointtopointsubject__measurement_agent'', ''psnetworkelementsubject__measurement_agent'']),
     (''input-source'',
       [''pspointtopointsubject__input_source'', ''psnetworkelementsubject__input_source'']),
     (''input-destination'', [''pspointtopointsubject__input_destination''])]"

definition IP_FIELDS :: "string list" where
  "IP_FIELDS = [''source'', ''destination'', ''measurement-agent'']"

fun ALLOWED_SUMMARIES :: "data_type \<Rightarrow> string list" where
  "ALLOWED_SUMMARIES TFloat = [''aggregation'', ''average'']"
| "ALLOWED_SUMMARIES THistogram = [''aggregation'', ''statistics'']"
| "ALLOWED_SUMMARIES TInteger = [''aggregation'', ''average'']"
| "ALLOWED_SUMMARIES TJson = []"
| "ALLOWED_SUMMARIES TPercentage = [''aggregation'']"
| "ALLOWED_SUMMARIES TSubinterval = []"

definition DEFAULT_FLOAT_PRECISION :: int where
  "DEFAULT_FLOAT_PRECISION = 10000"

definition RESERVED_GET_PARAMS :: "string list" where
  "RESERVED_GET_PARAMS = [''format'', ''limit'', ''offset'', ''dns-match-rule'', ''time'',
     ''time-start'', ''time-end'', ''time-range'']"

text \<open>\<open>EVENT_MAP\<close> of the client library: event types with the output format of each.\<close>

definition EVENT_MAP :: "(string \<times> string) list" where
  "EVENT_MAP = [
     (''failures'', ''failures''),
     (''histogram-owdelay'', ''histogram''),
     (''histogram-rtt'', ''histogram''),
     (''histogram-ttl'', ''histogram''),
     (''histogram-ttl-reverse'', ''histogram''),
     (''ntp-delay'', ''numeric''),
     (''ntp-dispersion'', ''numeric''),
     (''ntp-jitter'', ''numeric''),
     (''ntp-offset'', ''numeric''),
     (''ntp-polling-interval'', ''numeric''),
     (''ntp-reach'', ''numeric''),
     (''ntp-stratum'', ''numeric''),
     (''ntp-wander'', ''numeric''),
     (''packet-duplicates'', ''numeric''),
     (''packet-duplicates-bidir'', ''numeric''),
     (''packet-loss-rate'', ''numeric''),
     (''packet-loss-rate-bidir'', ''numeric''),
     (''packet-trace'', ''packet_trace''),
     (''packet-count-lost'', ''numeric''),
     (''packet-count-lost-bidir'', ''numeric''),
     (''packet-count-sent'', ''numeric''),
     (''packet-reorders'', ''numeric''),
     (''packet-reorders-bidir'', ''numeric''),
     (''packet-retransmits'', ''numeric''),
     (''packet-retransmits-subintervals'', ''subintervals''),
     (''path-mtu'', ''numeric''),
     (''streams-packet-retransmits'', ''number_list''),
     (''streams-packet-retransmits-subintervals'', ''subinterval_list''),
     (''streams-throughput'', ''number_list''),
     (''streams-throughput-subintervals'', ''subinterval_list''),
     (''throughput'', ''numeric''),
     (''throughput-subintervals'', ''subintervals''),
     (''time-error-estimates'', ''numeric'')]"

lemma INVERSE_SUMMARY_TYPES_eq:
  "INVERSE_SUMMARY_TYPES = [
     (''base'', ''base''), (''aggregation'', ''aggregations''),
     (''statistics'', ''statistics''), (''average'', ''averages'')]"
  by (simp add: INVERSE_SUMMARY_TYPES_def SUMMARY_TYPES_def)

text \<open>Event type names hold no underscore, so turning dashes into underscores loses nothing.\<close>

lemma event_types_no_underscore:
  "has_key et EVENT_TYPE_CONFIG \<Longrightarrow> CHR ''_'' \<notin> set et"
  by (auto simp: has_key_def EVENT_TYPE_CONFIG_def)

lemma event_types_no_escape:
  "has_key et EVENT_TYPE_CONFIG \<Longrightarrow> ESCAPE \<notin> set et"
  by (auto simp: has_key_def EVENT_TYPE_CONFIG_def ESCAPE_def)

end
