(* ===== verification/At_Encoding.thy ===== *)
theory At_Encoding
  imports Event_Types
begin

section \<open>The at-encoding of names\<close>

text \<open>
  \<open>atencode\<close> and \<open>atdecode\<close> of \<open>esmond/util.py\<close>, with the tables the module builds when it is loaded.
  The tables pair the numbers 0 to 255 with the characters of \<open>str(bytearray(range(256)))\<close>. In
  Python 2 these were the 256 bytes; in Python 3 they are the first 256 characters of the text
  \<open>bytearray(b'...')\<close> that prints them, so that a code is the position of a character in this text.
\<close>

definition hex_digit :: "bool \<Rightarrow> nat \<Rightarrow> char" where
  "hex_digit upper n = (if n < 10 then digit_char n else char_of ((if upper then 55 else 87) + n))"

text \<open>\<open>'{:02X}'.format(i)\<close> and \<open>'{:02x}'.format(i)\<close> of a byte.\<close>

definition hex2 :: "bool \<Rightarrow> nat \<Rightarrow> string" where
  "hex2 upper i = [hex_digit upper (i div 16), hex_digit upper (i mod 16)]"

text \<open>A byte in the text: the quote and the backslash are escaped, and all but printable ASCII.\<close>

definition repr_byte :: "nat \<Rightarrow> string" where
  "repr_byte i =
     (if i = 9 then [CHR 0x5C, CHR ''t''] else if i = 10 then [CHR 0x5C, CHR ''n'']
      else if i = 13 then [CHR 0x5C, CHR ''r'']
      else if i = 39 \<or> i = 92 then [CHR 0x5C, char_of i]
      else if 32 \<le> i \<and> i < 127 then [char_of i]
      else CHR 0x5C # CHR ''x'' # hex2 False i)"

definition str_bytearray :: string where
  "str_bytearray = ''bytearray(b'' @ [CHR 0x27] @ concat (map repr_byte [0..<256]) @ [CHR 0x27] @ '')''"

text \<open>\<open>zip(range(256), ...)\<close>.\<close>

definition numbered :: "(nat \<times> char) list" where
  "numbered = zip [0..<256] str_bytearray"

definition atencode_safe :: string where
  "atencode_safe = ''abcdefghijklmnopqrstuvwxyzABCDEFGHIJKLMNOPQRSTUVWXWZ0123456789_.-''"

definition atencode_unsafe :: string where
  "atencode_unsafe = '' $&+,/:;=?@'' @ [CHR 0x7F]"

definition atencode_map :: "(char \<times> string) list" where
  "atencode_map = fold (\<lambda>(i, c). AList.update c (if c \<in> set atencode_safe then [c] else CHR ''@'' # hex2 True i)) numbered []"

definition atencode_map_minimal :: "(char \<times> string) list" where
  "atencode_map_minimal =
     fold (\<lambda>(i, c). AList.update c (if 31 < i \<and> i < 128 \<and> c \<notin> set atencode_unsafe then [c] else CHR ''@'' # hex2 True i)) numbered []"

definition atdecode_map :: "(string \<times> string) list" where
  "atdecode_map = fold (\<lambda>i m. AList.update (hex2 False i) [char_of i] (AList.update (hex2 True i) [char_of i] m)) [0..<256] []"

definition encode_char :: "(char \<times> string) list \<Rightarrow> char \<Rightarrow> string res" where
  "encode_char m c = (case map_of m c of None \<Rightarrow> Inl KeyError | Some s \<Rightarrow> Inr s)"

definition atencode :: "bool \<Rightarrow> string \<Rightarrow> string res" where
  "atencode minimal s = rbind (rmap (encode_char (if minimal then atencode_map_minimal else atencode_map)) s) (\<lambda>ps. Inr (concat ps))"

text \<open>The handler of an unknown code calls \<open>append\<close>, which is not defined.\<close>

definition atdecode :: "string \<Rightarrow> string res" where
  "atdecode s =
     (case split_char CHR ''@'' s of
        [] \<Rightarrow> Inl IndexError
      | p # ps \<Rightarrow> rbind (rmap (\<lambda>part. case map_of atdecode_map (take 2 part) of
            None \<Rightarrow> Inl NameError | Some c \<Rightarrow> Inr (c @ drop 2 part)) ps) (\<lambda>rs. Inr (p @ concat rs)))"

subsection \<open>What the tables hold\<close>

lemma fold_update_same:
  assumes "\<And>i. f i c = w"
  shows "map_of (fold (\<lambda>(i, c). AList.update c (f i c)) xs m) c = (if c \<in> snd ` set xs then Some w else map_of m c)"
  using assms by (induction xs arbitrary: m) auto

text \<open>The text up to the printable characters, and up to their end.\<close>

definition repr_range :: "nat \<Rightarrow> nat \<Rightarrow> string" where
  "repr_range a b = concat (map repr_byte [a..<b])"

lemma repr_range_append: "a \<le> b \<Longrightarrow> b \<le> c \<Longrightarrow> repr_range a c = repr_range a b @ repr_range b c"
  using upt_add_eq_append [of a b "c - b"] by (simp add: repr_range_def)

lemma repr_range_set: "c \<in> set (repr_range a b) \<longleftrightarrow> (\<exists>i. a \<le> i \<and> i < b \<and> c \<in> set (repr_byte i))"
  by (auto simp: repr_range_def)

lemma length_repr_byte: "length (repr_byte i) = (if i \<in> {9, 10, 13, 39, 92} then 2 else if 32 \<le> i \<and> i < 127 then 1 else 4)"
  by (simp add: repr_byte_def hex2_def)

lemma repr_range_lengths: "length (repr_range 0 32) = 122" "length (repr_range 32 127) = 97" "25 \<le> length (repr_range 127 256)"
proof -
  show "length (repr_range 0 32) = 122" "length (repr_range 32 127) = 97"
    by (simp_all add: repr_range_def length_concat length_repr_byte upt_conv_Cons)
  have "length (repr_range 127 134) = 28" by (simp add: repr_range_def length_concat length_repr_byte upt_conv_Cons)
  then show "25 \<le> length (repr_range 127 256)" using repr_range_append [of 127 134 256] by simp
qed

lemma str_bytearray_split:
  "str_bytearray = (''bytearray(b'' @ [CHR 0x27] @ repr_range 0 32) @ repr_range 32 127 @ repr_range 127 256 @ [CHR 0x27] @ '')''"
  using repr_range_append [of 0 32 256] repr_range_append [of 32 127 256]
  by (simp add: str_bytearray_def) (simp add: repr_range_def)

lemma length_str_bytearray: "256 \<le> length str_bytearray"
  using repr_range_lengths by (simp add: str_bytearray_split)

lemma snd_numbered: "snd ` set (drop k numbered) = set (drop k (take 256 str_bytearray))"
  unfolding numbered_def drop_zip set_map [symmetric] map_snd_zip_take
  using length_str_bytearray by (simp add: drop_take)

lemma printable_numbered:
  fixes i :: nat
  assumes "32 \<le> i" and "i < 127"
  shows "char_of i \<in> snd ` set numbered"
proof -
  have "char_of i \<in> set (repr_byte i)" using assms by (simp add: repr_byte_def)
  then have "char_of i \<in> set (repr_range 32 127)" using assms by (auto simp: repr_range_set)
  then have "char_of i \<in> set (take 256 str_bytearray)"
    using repr_range_lengths by (simp add: str_bytearray_split)
  then show ?thesis using snd_numbered [of 0] by simp
qed

lemma safe_chars_printable: "c \<in> set atencode_safe \<Longrightarrow> 32 \<le> (of_char c :: nat) \<and> (of_char c :: nat) < 127"
  unfolding atencode_safe_def by (simp only: list.set insert_iff empty_iff) (elim disjE; simp)

lemma atencode_map_safe:
  assumes "c \<in> set atencode_safe"
  shows "map_of atencode_map c = Some [c]"
proof -
  have "c \<in> snd ` set numbered"
    using printable_numbered [of "of_char c :: nat"] safe_chars_printable [OF assms] by simp
  then show ?thesis unfolding atencode_map_def using assms by (subst fold_update_same [where w = "[c]"]) simp_all
qed

text \<open>
  Names of safe characters, such as those of all event types and summary types, are encoded
  as themselves and decoded as themselves.
\<close>

theorem atencode_safe_identity:
  assumes "set s \<subseteq> set atencode_safe"
  shows "atencode False s = Inr s \<and> atdecode s = Inr s"
proof
  have "rmap (encode_char atencode_map) s = Inr (map (\<lambda>c. [c]) s)"
    using assms by (intro rmap_all) (auto simp: encode_char_def atencode_map_safe)
  then show "atencode False s = Inr s" by (simp add: atencode_def)
  have "CHR ''@'' \<notin> set atencode_safe" by (simp add: atencode_safe_def)
  then have "split_char CHR ''@'' s = [s]" using assms by (intro split_char_plain) auto
  then show "atdecode s = Inr s" by (simp add: atdecode_def)
qed

lemma event_type_names_safe: "list_all (\<lambda>(et, _). set et \<subseteq> set atencode_safe) EVENT_TYPE_CONFIG"
  by (simp add: EVENT_TYPE_CONFIG_def atencode_safe_def)

theorem atencode_safe_identity_witness:
  "atencode False ''histogram-owdelay'' = Inr ''histogram-owdelay'' \<and> atdecode ''histogram-owdelay'' = Inr ''histogram-owdelay''"
  by (rule atencode_safe_identity) (simp add: atencode_safe_def)

text \<open>The code of any other character is the last position it has in the text, not its number.\<close>

lemma fold_update_last:
  assumes "i < length xs" and "xs ! i = (n, c)" and "c \<notin> snd ` set (drop (Suc i) xs)"
  shows "map_of (fold (\<lambda>(i, c). AList.update c (f i c)) xs m) c = Some (f n c)"
proof -
  have rest: "map_of (fold (\<lambda>(i, c). AList.update c (f i c)) ys m) c = map_of m c" if "c \<notin> snd ` set ys" for ys m
    using that by (induction ys arbitrary: m) auto
  have "xs = take i xs @ (n, c) # drop (Suc i) xs" using assms(1,2) id_take_nth_drop by metis
  then have "fold (\<lambda>(i, c). AList.update c (f i c)) xs m =
      fold (\<lambda>(i, c). AList.update c (f i c)) (drop (Suc i) xs) (AList.update c (f n c)
        (fold (\<lambda>(i, c). AList.update c (f i c)) (take i xs) m))"
    by (metis (no_types, lifting) case_prod_conv fold_append fold_simps(2) o_apply)
  then show ?thesis using rest [OF assms(3)] by simp
qed

lemma atencode_space: "atencode False '' '' = Inr ''@86''"
proof -
  have sp: "char_of (32 :: nat) = CHR '' ''"
    by (rule of_char_eq_iff [where 'a = nat, THEN iffD1]) simp
  have first: "repr_range 32 127 = CHR '' '' # repr_range 33 127"
    using repr_range_append [of 32 33 127] by (simp add: repr_range_def repr_byte_def sp)
  have other: "CHR '' '' \<notin> set (repr_byte i)" if "i \<noteq> 32" "i < 256" for i
  proof -
    have "char_of i \<noteq> CHR '' ''"
    proof
      assume "char_of i = CHR '' ''"
      then have "of_char (char_of i :: char) = (of_char CHR '' '' :: nat)" by simp
      then show False using that by simp
    qed
    moreover have "CHR '' '' \<noteq> hex_digit False n" if "n < 16" for n
    proof
      assume "CHR '' '' = hex_digit False n"
      then have "of_char (hex_digit False n) = (of_char CHR '' '' :: nat)" by simp
      then show False using that by (simp add: hex_digit_def split: if_splits)
    qed
    moreover have "i div 16 < 16" "i mod 16 < 16" using that(2) by (simp_all add: less_mult_imp_div_less)
    ultimately show ?thesis using that by (simp add: repr_byte_def hex2_def)
  qed
  have len: "134 < length numbered" using repr_range_lengths by (simp add: numbered_def str_bytearray_split)
  have "str_bytearray ! 134 = CHR '' ''"
    using repr_range_lengths(1) by (simp add: str_bytearray_split first nth_append)
  then have at: "numbered ! 134 = (134, CHR '' '')" using len by (simp add: numbered_def)
  have "drop 135 str_bytearray = repr_range 33 127 @ repr_range 127 256 @ [CHR 0x27] @ '')''"
    using repr_range_lengths(1) by (simp add: str_bytearray_split first)
  moreover have "CHR '' '' \<notin> set (repr_range 33 127 @ repr_range 127 256 @ [CHR 0x27] @ '')'')"
    using other by (auto simp: repr_range_set)
  ultimately have "CHR '' '' \<notin> set (drop 135 str_bytearray)" by simp
  then have "CHR '' '' \<notin> snd ` set (drop (Suc 134) numbered)"
    unfolding snd_numbered by (auto simp: drop_take dest: in_set_takeD)
  from fold_update_last [OF len at this] have "map_of atencode_map CHR '' '' = Some (if CHR '' '' \<in> set atencode_safe then [CHR '' ''] else CHR ''@'' # hex2 True 134)"
    unfolding atencode_map_def .
  then show ?thesis
    by (simp add: atencode_def encode_char_def atencode_safe_def hex2_def hex_digit_def digit_chars)
qed

end
