(* ===== verification/Column_Store.thy ===== *)
theory Column_Store
  imports Event_Types
begin

section \<open>The pycassa interface\<close>

text \<open>
  The Cassandra driver is not part of the repository: its operations are the fields of a
  record that every definition of \<open>CASSANDRA_DB\<close> takes as an argument, over an opaque
  store state \<open>'d\<close>. The locale \<open>batched_store\<close> states what the code relies on, as pycassa
  documents it: \<open>batch(queue_size)\<close> queues mutations and applies them in order when the
  queue is full or \<open>send\<close> is called; \<open>_column_family\<close> reads only what has been applied;
  inserting into a counter family adds, into the other families replaces; sub-column names
  come back as bytes; \<open>multiget\<close> returns, for the keys that have columns in the range, those
  columns in order, at most \<open>column_count\<close> of them.

  The column families are those of the schema in \<open>esmond/cassandra.py\<close>: \<open>raw_data\<close> holds
  JSON documents, \<open>base_rates\<close> and \<open>rate_aggregations\<close> hold counters in super columns and
  \<open>stat_aggregations\<close> integers in super columns. \<open>mem_store\<close> is the schema's store in
  memory, and interprets the locale.
\<close>

named_theorems store_simps \<open>reading and writing columns\<close>

datatype colfam = RawCF | RateCF | AggCF | StatCF

datatype subname = Bs string | St string

datatype colval = RawCol json | Super "(subname \<times> int) list"

type_synonym row = "(int \<times> colval) list"

record 'd pycassa =
  cf_insert :: "colfam \<Rightarrow> string \<Rightarrow> int \<Rightarrow> colval \<Rightarrow> 'd \<Rightarrow> 'd res"
  cf_remove :: "colfam \<Rightarrow> string \<Rightarrow> int list \<Rightarrow> 'd \<Rightarrow> 'd res"
  cf_send :: "colfam \<Rightarrow> 'd \<Rightarrow> 'd res"
  cf_multiget :: "colfam \<Rightarrow> string list \<Rightarrow> int \<Rightarrow> int \<Rightarrow> int \<Rightarrow> bool \<Rightarrow> 'd \<Rightarrow> (string \<times> row) list res"
  cf_multiget_count :: "colfam \<Rightarrow> string list \<Rightarrow> int \<Rightarrow> int \<Rightarrow> 'd \<Rightarrow> (string \<times> int) list res"
  cf_get :: "colfam \<Rightarrow> string \<Rightarrow> bool \<Rightarrow> int \<Rightarrow> 'd \<Rightarrow> row res"
  cf_get_super :: "colfam \<Rightarrow> string \<Rightarrow> int \<Rightarrow> 'd \<Rightarrow> (subname \<times> int) list res"

subsection \<open>Rows of columns in order\<close>

text \<open>Names are stored as bytes; a counter insert adds to the sub-columns it names.\<close>

fun stored_name :: "subname \<Rightarrow> subname" where
  "stored_name (St s) = Bs s"
| "stored_name (Bs s) = Bs s"

fun merge_subs :: "bool \<Rightarrow> (subname \<times> int) list \<Rightarrow> (subname \<times> int) list \<Rightarrow> (subname \<times> int) list" where
  "merge_subs counter [] old = old"
| "merge_subs counter ((n, v) # new) old =
     (let m = stored_name n;
          w = (case map_of old m of Some u \<Rightarrow> (if counter then u + v else v) | None \<Rightarrow> v)
      in merge_subs counter new (AList.update m w old))"

definition is_counter :: "colfam \<Rightarrow> bool" where
  "is_counter cf = (cf = RateCF \<or> cf = AggCF)"

fun merge_col :: "colfam \<Rightarrow> colval \<Rightarrow> colval option \<Rightarrow> colval" where
  "merge_col cf (RawCol j) old = RawCol j"
| "merge_col cf (Super new) (Some (Super old)) = Super (merge_subs (is_counter cf) new old)"
| "merge_col cf (Super new) _ = Super (merge_subs (is_counter cf) new [])"

fun put_col :: "colfam \<Rightarrow> int \<Rightarrow> colval \<Rightarrow> row \<Rightarrow> row" where
  "put_col cf c v [] = [(c, merge_col cf v None)]"
| "put_col cf c v ((c', v') # r) =
     (if c < c' then (c, merge_col cf v None) # (c', v') # r
      else if c = c' then (c, merge_col cf v (Some v')) # r
      else (c', v') # put_col cf c v r)"

definition row_ok :: "row \<Rightarrow> bool" where
  "row_ok r = sorted_wrt (<) (map fst r)"

definition in_range :: "int \<Rightarrow> int \<Rightarrow> row \<Rightarrow> row" where
  "in_range lo hi r = filter (\<lambda>cv. lo \<le> fst cv \<and> fst cv \<le> hi) r"

definition read_row :: "bool \<Rightarrow> int \<Rightarrow> int \<Rightarrow> int \<Rightarrow> row \<Rightarrow> row" where
  "read_row reversed start finish count r =
     take (nat count) (if reversed then rev (in_range finish start r) else in_range start finish r)"

definition read_rows :: "(string \<Rightarrow> row) \<Rightarrow> string list \<Rightarrow> int \<Rightarrow> int \<Rightarrow> int \<Rightarrow> bool \<Rightarrow> (string \<times> row) list" where
  "read_rows rows keys start finish count reversed =
     filter (\<lambda>kr. snd kr \<noteq> [])
       (map (\<lambda>k. (k, read_row reversed start finish count (rows k))) (remdups keys))"

lemma put_col_cols: "set (map fst (put_col cf c v r)) = insert c (set (map fst r))"
  by (induction cf c v r rule: put_col.induct) (simp_all add: insert_commute)

lemma put_col_ok: "row_ok r \<Longrightarrow> row_ok (put_col cf c v r)"
proof (induction r)
  case Nil
  then show ?case by (simp add: row_ok_def)
next
  case (Cons cv r)
  then show ?case
    using put_col_cols [of cf c v r] by (cases cv) (auto simp: row_ok_def dest: less_trans)
qed

lemma map_of_put_col [store_simps]:
  "row_ok r \<Longrightarrow> map_of (put_col cf c v r) = (map_of r)(c \<mapsto> merge_col cf v (map_of r c))"
proof (induction r)
  case Nil
  then show ?case by simp
next
  case (Cons cv r)
  obtain c' v' where cv: "cv = (c', v')" by (cases cv)
  have ok: "row_ok r" and above: "\<forall>x \<in> set (map fst r). c' < x"
    using Cons.prems cv by (auto simp: row_ok_def)
  show ?case
  proof (cases "c < c'")
    case True
    then have "map_of r c = None" using above by (force simp: map_of_eq_None_iff)
    then show ?thesis using True cv by auto
  next
    case False
    then show ?thesis using Cons.IH [OF ok] cv by auto
  qed
qed

lemma row_ok_distinct: "row_ok r \<Longrightarrow> distinct (map fst r)"
  by (induction r) (auto simp: row_ok_def)

lemma row_ok_map_of: "row_ok r \<Longrightarrow> (c, v) \<in> set r \<longleftrightarrow> map_of r c = Some v"
  by (simp add: row_ok_distinct map_of_eq_Some_iff)

lemma in_range_set [store_simps]: "(c, v) \<in> set (in_range lo hi r) \<longleftrightarrow> (c, v) \<in> set r \<and> lo \<le> c \<and> c \<le> hi"
  by (auto simp: in_range_def)

lemma read_rows_in: "(k, r) \<in> set (read_rows rows keys lo hi n rv) \<longleftrightarrow>
    k \<in> set keys \<and> r = read_row rv lo hi n (rows k) \<and> r \<noteq> []"
  by (auto simp: read_rows_def)

subsection \<open>The contract\<close>

datatype mutation = Ins string int colval | Rem string "int list"

fun apply_mut :: "colfam \<Rightarrow> mutation \<Rightarrow> (string \<Rightarrow> row) \<Rightarrow> (string \<Rightarrow> row)" where
  "apply_mut cf (Ins k c v) rows = rows(k := put_col cf c v (rows k))"
| "apply_mut cf (Rem k cs) rows = rows(k := filter (\<lambda>cv. fst cv \<notin> set cs) (rows k))"

definition apply_muts :: "colfam \<Rightarrow> mutation list \<Rightarrow> (string \<Rightarrow> row) \<Rightarrow> (string \<Rightarrow> row)" where
  "apply_muts cf ms rows = fold (apply_mut cf) ms rows"

lemma apply_muts_simps [simp]:
  "apply_muts cf [] rows = rows"
  "apply_muts cf (ms @ [m]) rows = apply_mut cf m (apply_muts cf ms rows)"
  by (simp_all add: apply_muts_def)

lemma apply_muts_ok: "(\<And>k. row_ok (rows k)) \<Longrightarrow> row_ok (apply_muts cf ms rows k)"
proof (induction ms rule: rev_induct)
  case Nil
  then show ?case by simp
next
  case (snoc m ms)
  have "row_ok (filter P r)" if "row_ok r" for P and r :: row
    using that by (simp add: row_ok_def sorted_wrt_map sorted_wrt_filter)
  then show ?case using snoc by (cases m) (auto intro: put_col_ok)
qed

definition queue_size :: nat where
  "queue_size = 200"

text \<open>The state a batch is left in once a mutation is queued: full queues are sent at once.\<close>

definition queued :: "colfam \<Rightarrow> mutation \<Rightarrow> (string \<Rightarrow> row) \<times> mutation list \<Rightarrow> (string \<Rightarrow> row) \<times> mutation list" where
  "queued cf m st = (case st of (rows, q) \<Rightarrow>
     if length q + 1 < queue_size then (rows, q @ [m]) else (apply_muts cf (q @ [m]) rows, []))"

locale batched_store =
  fixes P :: "'d pycassa"
    and sent :: "'d \<Rightarrow> colfam \<Rightarrow> string \<Rightarrow> row"
    and pending :: "'d \<Rightarrow> colfam \<Rightarrow> mutation list"
  assumes insert_law: "\<exists>d'. cf_insert P cf k c v d = Inr d' \<and>
      (\<forall>f. (sent d' f, pending d' f) =
        (if f = cf then queued cf (Ins k c v) (sent d cf, pending d cf) else (sent d f, pending d f)))"
    and remove_law: "\<exists>d'. cf_remove P cf k cs d = Inr d' \<and>
      (\<forall>f. (sent d' f, pending d' f) =
        (if f = cf then queued cf (Rem k cs) (sent d cf, pending d cf) else (sent d f, pending d f)))"
    and send_law: "\<exists>d'. cf_send P cf d = Inr d' \<and>
      (\<forall>f. (sent d' f, pending d' f) =
        (if f = cf then (apply_muts cf (pending d cf) (sent d cf), []) else (sent d f, pending d f)))"
    and multiget_law: "cf_multiget P cf keys start finish count rv d =
      Inr (read_rows (sent d cf) keys start finish count rv)"
    and count_law: "cf_multiget_count P cf keys start finish d =
      Inr (map (\<lambda>k. (k, int (length (in_range start finish (sent d cf k))))) (remdups keys))"
    and get_law: "cf_get P cf k rv count d =
      (if sent d cf k = [] then Inl NotFoundException
       else Inr (take (nat count) (if rv then rev (sent d cf k) else sent d cf k)))"
    and get_super_law: "cf_get_super P cf k c d =
      (case map_of (sent d cf k) c of Some (Super subs) \<Rightarrow> Inr subs | _ \<Rightarrow> Inl NotFoundException)"
    and rows_ok: "row_ok (sent d cf k)"
begin

lemma insert_ok: "\<exists>d'. cf_insert P cf k c v d = Inr d'"
  using insert_law by blast

lemma insert_sent:
  assumes "cf_insert P cf k c v d = Inr d'"
  shows "(sent d' f, pending d' f) =
    (if f = cf then queued cf (Ins k c v) (sent d cf, pending d cf) else (sent d f, pending d f))"
  using insert_law [of cf k c v d] assms by auto

lemma insert_other [simp]:
  assumes "cf_insert P cf k c v d = Inr d'" and "f \<noteq> cf"
  shows "sent d' f = sent d f" and "pending d' f = pending d f"
  using insert_sent [OF assms(1), of f] assms(2) by auto

lemma insert_queued:
  assumes "cf_insert P cf k c v d = Inr d'" and "length (pending d cf) + 1 < queue_size"
  shows "sent d' cf = sent d cf" and "pending d' cf = pending d cf @ [Ins k c v]"
  using insert_sent [OF assms(1), of cf] assms(2) by (auto simp: queued_def)

text \<open>What will have been applied once everything queued is sent.\<close>

lemma insert_eventually:
  assumes "cf_insert P cf k c v d = Inr d'"
  shows "apply_muts cf (pending d' cf) (sent d' cf) =
    apply_mut cf (Ins k c v) (apply_muts cf (pending d cf) (sent d cf))"
  using insert_sent [OF assms, of cf] by (auto simp: queued_def split: if_splits)

lemma send_sent:
  assumes "cf_send P cf d = Inr d'"
  shows "sent d' cf = apply_muts cf (pending d cf) (sent d cf)" and "pending d' cf = []"
    and "f \<noteq> cf \<Longrightarrow> sent d' f = sent d f" and "f \<noteq> cf \<Longrightarrow> pending d' f = pending d f"
proof -
  have s: "(sent d' f, pending d' f) =
      (if f = cf then (apply_muts cf (pending d cf) (sent d cf), []) else (sent d f, pending d f))" for f
    using send_law [of cf d] assms by auto
  show "sent d' cf = apply_muts cf (pending d cf) (sent d cf)" "pending d' cf = []"
    using s [of cf] by auto
  show "f \<noteq> cf \<Longrightarrow> sent d' f = sent d f" "f \<noteq> cf \<Longrightarrow> pending d' f = pending d f"
    using s [of f] by auto
qed

lemma send_ok: "\<exists>d'. cf_send P cf d = Inr d'"
  using send_law by blast

end

subsection \<open>The schema's store in memory\<close>

type_synonym mem = "colfam \<Rightarrow> (string \<Rightarrow> row) \<times> mutation list"

definition mem_empty :: mem where
  "mem_empty = (\<lambda>_. (\<lambda>_. [], []))"

text \<open>Only stores with ordered rows are states: the others are read as empty.\<close>

definition mem_rows :: "mem \<Rightarrow> colfam \<Rightarrow> string \<Rightarrow> row" where
  "mem_rows d cf k = (let r = fst (d cf) k in if row_ok r then r else [])"

definition mem_queue :: "mem \<Rightarrow> colfam \<Rightarrow> mutation list" where
  "mem_queue d cf = snd (d cf)"

definition mem_mutate :: "colfam \<Rightarrow> mutation \<Rightarrow> mem \<Rightarrow> mem" where
  "mem_mutate cf m d = d(cf := queued cf m (mem_rows d cf, mem_queue d cf))"

definition mem_store :: "mem pycassa" where
  "mem_store = \<lparr>
     cf_insert = (\<lambda>cf k c v d. Inr (mem_mutate cf (Ins k c v) d)),
     cf_remove = (\<lambda>cf k cs d. Inr (mem_mutate cf (Rem k cs) d)),
     cf_send = (\<lambda>cf d. Inr (d(cf := (apply_muts cf (mem_queue d cf) (mem_rows d cf), [])))),
     cf_multiget = (\<lambda>cf keys start finish count rv d.
       Inr (read_rows (mem_rows d cf) keys start finish count rv)),
     cf_multiget_count = (\<lambda>cf keys start finish d.
       Inr (map (\<lambda>k. (k, int (length (in_range start finish (mem_rows d cf k))))) (remdups keys))),
     cf_get = (\<lambda>cf k rv count d. if mem_rows d cf k = [] then Inl NotFoundException
       else Inr (take (nat count) (if rv then rev (mem_rows d cf k) else mem_rows d cf k))),
     cf_get_super = (\<lambda>cf k c d.
       case map_of (mem_rows d cf k) c of Some (Super subs) \<Rightarrow> Inr subs | _ \<Rightarrow> Inl NotFoundException)\<rparr>"

lemma mem_rows_ok: "row_ok (mem_rows d cf k)"
  by (simp add: mem_rows_def Let_def row_ok_def)

lemma mem_rows_upd:
  assumes "\<And>k. row_ok (fst rq k)"
  shows "mem_rows (d(cf := rq)) f = (if f = cf then fst rq else mem_rows d f)"
  using assms by (auto simp: mem_rows_def Let_def fun_eq_iff)

lemma mem_queue_upd: "mem_queue (d(cf := rq)) f = (if f = cf then snd rq else mem_queue d f)"
  by (simp add: mem_queue_def)

lemma queued_ok: "(\<And>k. row_ok (fst st k)) \<Longrightarrow> row_ok (fst (queued cf m st) k)"
  using apply_muts_ok [of "fst st" cf "snd st @ [m]" k]
  by (cases st) (auto simp: queued_def)

lemma mem_mutate_view:
  "(mem_rows (mem_mutate cf m d) f, mem_queue (mem_mutate cf m d) f) =
   (if f = cf then queued cf m (mem_rows d cf, mem_queue d cf) else (mem_rows d f, mem_queue d f))"
  using queued_ok [of "(mem_rows d cf, mem_queue d cf)" cf m]
  by (simp add: mem_mutate_def mem_rows_upd mem_queue_upd mem_rows_ok)

interpretation mem: batched_store mem_store mem_rows mem_queue
proof (unfold_locales, goal_cases)
  case (1 cf k c v d)
  show ?case using mem_mutate_view [of cf "Ins k c v" d] by (simp add: mem_store_def)
next
  case (2 cf k cs d)
  show ?case using mem_mutate_view [of cf "Rem k cs" d] by (simp add: mem_store_def)
next
  case (3 cf d)
  have "row_ok (apply_muts cf (mem_queue d cf) (mem_rows d cf) k)" for k
    by (rule apply_muts_ok) (rule mem_rows_ok)
  then show ?case by (simp add: mem_store_def mem_rows_upd mem_queue_upd)
qed (auto simp: mem_store_def mem_rows_ok split: option.splits colval.splits)

end
