(* ===== verification/Cassandra_DB.thy ===== *)
theory Cassandra_DB
  imports Column_Store
begin

section \<open>CASSANDRA_DB and its data containers\<close>

text \<open>
  \<open>esmond/cassandra.py\<close>: the containers (\<open>RawRateData\<close>, \<open>BaseRateBin\<close>, \<open>AggregationBin\<close>,
  \<open>Metadata\<close>), the writers with their two caches, and the range queries. The object's state
  is the record \<open>cass\<close>: the driver's store, the metadata cache and the aggregation cache.
  The driver is the argument \<open>P\<close>. Values are stored as \<open>json.dumps\<close> writes them and
  \<open>json.loads\<close> reads them back, so a raw column holds the JSON value itself; the optional
  ttl, which nothing passes, is left out, and so are logging and profiling.
\<close>

named_theorems query_simps \<open>the range queries, unfolded\<close>

subsection \<open>Data containers\<close>

record 'v container =
  c_path :: "string list"
  c_ts :: datetime
  c_val :: 'v
  c_freq :: "int option"

type_synonym raw_rate_data = "json container"
type_synonym base_rate_bin = "int container"

record agg_bin = "int container" +
  ab_base_freq :: "int option"
  ab_count :: int

definition get_key :: "('v, 'z) container_scheme \<Rightarrow> string" where
  "get_key c = get_rowkey (c_path c) (c_freq c) (Some (dt_year (c_ts c)))"

definition get_meta_key :: "('v, 'z) container_scheme \<Rightarrow> string" where
  "get_meta_key c = get_rowkey (c_path c) (c_freq c) None"

definition ts_to_unixtime :: "('v, 'z) container_scheme \<Rightarrow> int" where
  "ts_to_unixtime c = timegm (c_ts c)"

definition ts_to_jstime :: "('v, 'z) container_scheme \<Rightarrow> int" where
  "ts_to_jstime c = timegm (c_ts c) * 1000"

text \<open>\<open>_handle_date\<close> of a JavaScript timestamp.\<close>

definition handle_date :: "int \<Rightarrow> datetime res" where
  "handle_date d = rbind (float_of_int d) (\<lambda>x. rbind (fdiv x (Fin 1000)) utcfromtimestamp)"

definition min_last_update :: "('v, 'z) container_scheme \<Rightarrow> int res" where
  "min_last_update c = (case c_freq c of None \<Rightarrow> Inl TypeError | Some f \<Rightarrow> Inr (ts_to_jstime c - f * 40))"

definition slot :: "('v, 'z) container_scheme \<Rightarrow> pyfloat res" where
  "slot c = (case c_freq c of None \<Rightarrow> Inl TypeError
     | Some f \<Rightarrow> rbind (true_div (ts_to_jstime c) f) (\<lambda>q. rbind (float_of_int f) (\<lambda>x. Inr (fmul q x))))"

definition agg_average :: "int \<Rightarrow> int \<Rightarrow> int \<Rightarrow> pyfloat res" where
  "agg_average val count base_freq =
     rbind (float_of_int base_freq) (\<lambda>b. rbind (fdiv b (Fin 1000)) (\<lambda>s.
     rbind (float_of_int count) (\<lambda>n.
     rbind (float_of_int val) (\<lambda>v. fdiv v (fmul n s)))))"

record metadata =
  md_path :: "string list"
  md_last_update :: datetime
  md_last_val :: json
  md_min_ts :: datetime
  md_freq :: "int option"

definition refresh_from_raw :: "metadata \<Rightarrow> raw_rate_data \<Rightarrow> metadata" where
  "refresh_from_raw m r =
     (let m' = (if c_ts r < md_min_ts m then m\<lparr>md_min_ts := c_ts r\<rparr> else m)
      in m'\<lparr>md_last_update := c_ts r, md_last_val := c_val r\<rparr>)"

subsection \<open>State and writers\<close>

record 'd cass =
  cdb :: 'd
  metadata_cache :: "string \<Rightarrow> metadata option"
  aggregation_cache :: "string \<Rightarrow> (int \<times> (subname \<times> int) list) list"

definition flush :: "'d pycassa \<Rightarrow> 'd cass \<Rightarrow> 'd cass res" where
  "flush P st =
     rbind (cf_send P RawCF (cdb st)) (\<lambda>d1. rbind (cf_send P RateCF d1) (\<lambda>d2.
     rbind (cf_send P AggCF d2) (\<lambda>d3. rbind (cf_send P StatCF d3) (\<lambda>d4. Inr (st\<lparr>cdb := d4\<rparr>)))))"

definition set_raw_data :: "'d pycassa \<Rightarrow> raw_rate_data \<Rightarrow> 'd cass \<Rightarrow> 'd cass res" where
  "set_raw_data P r st =
     rbind (cf_insert P RawCF (get_key r) (ts_to_jstime r) (RawCol (c_val r)) (cdb st))
       (\<lambda>d. Inr (st\<lparr>cdb := d\<rparr>))"

definition set_metadata :: "string \<Rightarrow> metadata \<Rightarrow> 'd cass \<Rightarrow> 'd cass" where
  "set_metadata k m st = st\<lparr>metadata_cache := (metadata_cache st)(k := Some m)\<rparr>"

definition update_metadata :: "string \<Rightarrow> metadata \<Rightarrow> 'd cass \<Rightarrow> 'd cass res" where
  "update_metadata k m st =
     (case metadata_cache st k of None \<Rightarrow> Inl KeyError
      | Some c \<Rightarrow> Inr (st\<lparr>metadata_cache := (metadata_cache st)(k := Some
          (c\<lparr>md_last_val := md_last_val m, md_min_ts := md_min_ts m, md_last_update := md_last_update m\<rparr>))\<rparr>))"

definition update_rate_bin :: "'d pycassa \<Rightarrow> base_rate_bin \<Rightarrow> 'd cass \<Rightarrow> 'd cass res" where
  "update_rate_bin P b st =
     (case cf_insert P RateCF (get_key b) (ts_to_jstime b)
             (Super [(St ''val'', c_val b), (St ''is_valid'', 1)]) (cdb st) of
        Inr d \<Rightarrow> Inr (st\<lparr>cdb := d\<rparr>)
      | Inl e \<Rightarrow> if e = MaximumRetryException then Inr st else Inl e)"

definition str_freq :: "int option \<Rightarrow> string" where
  "str_freq f = (case f of None \<Rightarrow> ''None'' | Some n \<Rightarrow> show_int n)"

text \<open>The aggregation bin both aggregation updates build from a raw datum.\<close>

definition agg_of_raw :: "base_rate_bin \<Rightarrow> datetime \<Rightarrow> int option \<Rightarrow> agg_bin" where
  "agg_of_raw r agg_ts freq = \<lparr>c_path = c_path r, c_ts = agg_ts, c_val = c_val r, c_freq = freq,
     ab_base_freq = c_freq r, ab_count = 1\<rparr>"

definition update_rate_aggregation ::
  "'d pycassa \<Rightarrow> base_rate_bin \<Rightarrow> datetime \<Rightarrow> int option \<Rightarrow> 'd cass \<Rightarrow> 'd cass res" where
  "update_rate_aggregation P r agg_ts freq st =
     (let agg = agg_of_raw r agg_ts freq in
      case cf_insert P AggCF (get_key agg) (ts_to_jstime agg)
             (Super [(St ''val'', c_val agg), (St (str_freq (ab_base_freq agg)), 1)]) (cdb st) of
        Inr d \<Rightarrow> Inr (st\<lparr>cdb := d\<rparr>)
      | Inl e \<Rightarrow> if e = MaximumRetryException then Inr st else Inl e)"

definition put_agg_cache :: "string \<Rightarrow> (int \<times> (subname \<times> int) list) list \<Rightarrow> 'd cass \<Rightarrow> 'd cass" where
  "put_agg_cache k bins st = st\<lparr>aggregation_cache := (aggregation_cache st)(k := bins)\<rparr>"

definition fresh_bin :: "int \<Rightarrow> int \<Rightarrow> (subname \<times> int) list" where
  "fresh_bin v t = [(St ''min'', v), (St ''max'', v), (St ''min_ts'', t), (St ''max_ts'', t)]"

definition get_agg_from_cache ::
  "'d pycassa \<Rightarrow> agg_bin \<Rightarrow> base_rate_bin \<Rightarrow> 'd cass \<Rightarrow> ((subname \<times> int) list option \<times> 'd cass) res" where
  "get_agg_from_cache P agg r st =
     (let k = get_key agg; t = ts_to_jstime agg in
      rbind
        (if aggregation_cache st k = [] then
           (case cf_get_super P StatCF k t (cdb st) of
              Inr lookup \<Rightarrow> Inr (put_agg_cache k [(t, lookup)] st)
            | Inl e \<Rightarrow> if e = NotFoundException then Inr (put_agg_cache k [] st) else Inl e)
         else Inr st)
        (\<lambda>st1. case map_of (aggregation_cache st1 k) t of
             Some (b # bs) \<Rightarrow> Inr (Some (b # bs), st1)
           | _ \<Rightarrow> Inr (None, put_agg_cache k [(t, fresh_bin (c_val agg) (ts_to_jstime r))] st1)))"

definition update_agg_cache ::
  "agg_bin \<Rightarrow> base_rate_bin \<Rightarrow> string \<Rightarrow> 'd cass \<Rightarrow> 'd cass res" where
  "update_agg_cache agg r minmax st =
     (if minmax \<noteq> ''min'' \<and> minmax \<noteq> ''max'' then Inl AssertionError
      else let k = get_key agg; t = ts_to_jstime agg; bins = aggregation_cache st k in
        case map_of bins t of None \<Rightarrow> Inl KeyError
        | Some b \<Rightarrow> Inr (put_agg_cache k
            (AList.update t (AList.update (St (minmax @ ''_ts'')) (ts_to_jstime r)
               (AList.update (St minmax) (c_val agg) b)) bins) st))"

definition sub_get :: "(subname \<times> int) list \<Rightarrow> subname \<Rightarrow> int res" where
  "sub_get b n = (case map_of b n of Some v \<Rightarrow> Inr v | None \<Rightarrow> Inl KeyError)"

definition insert_stat ::
  "'d pycassa \<Rightarrow> agg_bin \<Rightarrow> (subname \<times> int) list \<Rightarrow> 'd cass \<Rightarrow> (bool \<times> 'd cass) res" where
  "insert_stat P agg subs st =
     rbind (cf_insert P StatCF (get_key agg) (ts_to_jstime agg) (Super subs) (cdb st))
       (\<lambda>d. Inr (True, st\<lparr>cdb := d\<rparr>))"

definition update_stat_aggregation ::
  "'d pycassa \<Rightarrow> base_rate_bin \<Rightarrow> datetime \<Rightarrow> int option \<Rightarrow> 'd cass \<Rightarrow> (bool \<times> 'd cass) res" where
  "update_stat_aggregation P r agg_ts freq st =
     (let agg = agg_of_raw r agg_ts freq; v = c_val agg; t = ts_to_jstime r in
      rbind (get_agg_from_cache P agg r st) (\<lambda>(ret, st1).
        case ret of
          None \<Rightarrow> insert_stat P agg (fresh_bin v t) st1
        | Some b \<Rightarrow>
            rbind (sub_get b (St ''max'')) (\<lambda>mx.
              if mx < v then
                rbind (update_agg_cache agg r ''max'' st1)
                  (insert_stat P agg [(St ''max'', v), (St ''max_ts'', t)])
              else rbind (sub_get b (St ''min'')) (\<lambda>mn.
                if v < mn then
                  rbind (update_agg_cache agg r ''min'' st1)
                    (insert_stat P agg [(St ''min'', v), (St ''min_ts'', t)])
                else Inr (False, st1)))))"

subsection \<open>Range queries\<close>

definition year_of_ms :: "int \<Rightarrow> int res" where
  "year_of_ms ms = rbind (handle_date ms) (\<lambda>d. Inr (dt_year d))"

definition get_row_keys :: "string list \<Rightarrow> int option \<Rightarrow> int \<Rightarrow> int \<Rightarrow> string list res" where
  "get_row_keys path freq ts_min ts_max =
     rbind (year_of_ms ts_min) (\<lambda>y1. rbind (year_of_ms ts_max) (\<lambda>y2.
       Inr (if y1 \<noteq> y2 then map (\<lambda>y. get_rowkey path freq (Some y)) [y1..y2]
            else [get_rowkey path freq (Some y1)])))"

definition cf_map :: "(string \<times> colfam) list" where
  "cf_map = [(''raw'', RawCF), (''rate'', RateCF), (''aggs'', AggCF), (''stat'', StatCF)]"

definition check_for_valid_keys ::
  "'d pycassa \<Rightarrow> string list \<Rightarrow> int option \<Rightarrow> int \<Rightarrow> int \<Rightarrow> string \<Rightarrow> 'd cass \<Rightarrow> bool res" where
  "check_for_valid_keys P path freq ts_min ts_max col_fam st =
     rbind (get_row_keys path freq ts_min ts_max) (\<lambda>keys.
       rfold (\<lambda>key found.
         case map_of cf_map col_fam of None \<Rightarrow> Inl KeyError
         | Some cf \<Rightarrow> (case cf_get P cf key False 1 (cdb st) of
               Inr _ \<Rightarrow> Inr True
             | Inl e \<Rightarrow> if e = NotFoundException then Inr found else Inl e)) keys False)"

text \<open>
  The multiget every range query makes: without a column count, the columns are counted
  first and five are added.
\<close>

definition multiget_range ::
  "'d pycassa \<Rightarrow> colfam \<Rightarrow> string list \<Rightarrow> int option \<Rightarrow> int \<Rightarrow> int \<Rightarrow> int option \<Rightarrow> 'd \<Rightarrow> (string \<times> row) list res" where
  "multiget_range P cf path freq ts_min ts_max column_count d =
     rbind (get_row_keys path freq ts_min ts_max) (\<lambda>keys.
     rbind (case column_count of
              Some n \<Rightarrow> Inr n
            | None \<Rightarrow> rbind (cf_multiget_count P cf keys ts_min ts_max d)
                (\<lambda>counts. Inr (sum_list (map snd counts) + 5)))
       (\<lambda>cols. cf_multiget P cf keys ts_min ts_max cols False d))"

definition rows_data :: "(int \<Rightarrow> colval \<Rightarrow> json dict res) \<Rightarrow> (string \<times> row) list \<Rightarrow> json dict list res" where
  "rows_data f rows = rmap (\<lambda>(c, v). f c v) (concat (map snd rows))"

fun super_subs :: "colval \<Rightarrow> (subname \<times> int) list res" where
  "super_subs (Super subs) = Inr subs"
| "super_subs (RawCol _) = Inl TypeError"

fun raw_json :: "colval \<Rightarrow> json res" where
  "raw_json (RawCol j) = Inr j"
| "raw_json (Super _) = Inl TypeError"

definition baserate_divisor :: "string \<Rightarrow> int option \<Rightarrow> int res" where
  "baserate_divisor cf freq =
     (let f = (case freq of None \<Rightarrow> 1000 | Some n \<Rightarrow> n) in
      rbind (true_div f 1000) (\<lambda>q. rbind (int_of_float q) (\<lambda>avg.
        Inr (if cf = ''delta'' then 1 else avg))))"

definition baserate_datum :: "int \<Rightarrow> int \<Rightarrow> colval \<Rightarrow> json dict res" where
  "baserate_datum divisor ts v =
     rbind (super_subs v) (\<lambda>subs. rbind (sub_get subs (Bs ''val'')) (\<lambda>val.
     rbind (float_of_int val) (\<lambda>x. rbind (float_of_int divisor) (\<lambda>y. rbind (fdiv x y) (\<lambda>q.
     rbind (sub_get subs (Bs ''is_valid'')) (\<lambda>ok.
       Inr [(''ts'', JInt ts), (''val'', JFloat q), (''is_valid'', JInt ok)]))))))"

definition query_baserate_timerange ::
  "'d pycassa \<Rightarrow> string list \<Rightarrow> int option \<Rightarrow> int \<Rightarrow> int \<Rightarrow> string \<Rightarrow> int option \<Rightarrow> 'd cass \<Rightarrow> json dict list res" where
  "query_baserate_timerange P path freq ts_min ts_max cf column_count st =
     rbind (multiget_range P RateCF path freq ts_min ts_max column_count (cdb st)) (\<lambda>ret.
     let cf' = (if cf = ''average'' \<or> cf = ''delta'' then cf else ''average'') in
     rbind (baserate_divisor cf' freq) (\<lambda>dv. rows_data (baserate_datum dv) ret))"

definition AGG_TYPES :: "string list" where
  "AGG_TYPES = [''average'', ''min'', ''max'', ''raw'']"

text \<open>The base frequency is the name of the last sub-column that is not the value.\<close>

definition agg_base_sub :: "(subname \<times> int) list \<Rightarrow> (subname \<times> int) option" where
  "agg_base_sub subs = (case rev (filter (\<lambda>nv. fst nv \<noteq> Bs ''val'') subs) of [] \<Rightarrow> None | nv # _ \<Rightarrow> Some nv)"

fun subname_int :: "subname \<Rightarrow> int res" where
  "subname_int (Bs s) = py_int (JStr s)"
| "subname_int (St s) = py_int (JStr s)"

definition aggregation_datum :: "string \<Rightarrow> int \<Rightarrow> colval \<Rightarrow> json dict res" where
  "aggregation_datum cf ts v =
     rbind (super_subs v) (\<lambda>subs.
     case agg_base_sub subs of
       None \<Rightarrow> Inl TypeError
     | Some (name, count) \<Rightarrow>
         rbind (subname_int name) (\<lambda>base_freq. rbind (handle_date ts) (\<lambda>_.
           let val = map_of subs (Bs ''val'') in
           if cf = ''average'' then
             (case val of None \<Rightarrow> Inl TypeError
              | Some n \<Rightarrow> rbind (agg_average n count base_freq) (\<lambda>q.
                  Inr [(''ts'', JInt ts), (''val'', JFloat q), (''cf'', JStr cf)]))
           else Inr [(''ts'', JInt ts),
                     (''val'', case val of None \<Rightarrow> JNull | Some n \<Rightarrow> JInt n), (''cf'', JStr cf)])))"

definition minmax_datum :: "string \<Rightarrow> int \<Rightarrow> colval \<Rightarrow> json dict res" where
  "minmax_datum cf ts v =
     rbind (super_subs v) (\<lambda>subs. rbind (sub_get subs (St cf)) (\<lambda>m.
       Inr [(''ts'', JInt ts), (''val'', JInt m), (''cf'', JStr cf),
            (''m_ts'', case map_of subs (St (cf @ ''_ts'')) of None \<Rightarrow> JNull | Some t \<Rightarrow> JInt t)]))"

definition query_aggregation_timerange ::
  "'d pycassa \<Rightarrow> string list \<Rightarrow> int option \<Rightarrow> int \<Rightarrow> int \<Rightarrow> string \<Rightarrow> int option \<Rightarrow> 'd cass \<Rightarrow> json dict list res" where
  "query_aggregation_timerange P path freq ts_min ts_max cf column_count st =
     (let cf' = (if cf \<in> set AGG_TYPES then cf else ''average'') in
      if cf' = ''average'' \<or> cf' = ''raw'' then
        rbind (multiget_range P AggCF path freq ts_min ts_max column_count (cdb st))
          (rows_data (aggregation_datum cf'))
      else
        rbind (multiget_range P StatCF path freq ts_min ts_max column_count (cdb st))
          (rows_data (minmax_datum cf')))"

definition raw_datum :: "int \<Rightarrow> colval \<Rightarrow> json dict res" where
  "raw_datum ts v = rbind (raw_json v) (\<lambda>j. Inr [(''ts'', JInt ts), (''val'', j)])"

definition query_raw_data ::
  "'d pycassa \<Rightarrow> string list \<Rightarrow> int option \<Rightarrow> int \<Rightarrow> int \<Rightarrow> int option \<Rightarrow> 'd cass \<Rightarrow> json dict list res" where
  "query_raw_data P path freq ts_min ts_max column_count st =
     rbind (multiget_range P RawCF path freq ts_min ts_max column_count (cdb st)) (rows_data raw_datum)"

definition query_raw_first :: "'d pycassa \<Rightarrow> string list \<Rightarrow> int option \<Rightarrow> int option \<Rightarrow> 'd cass \<Rightarrow> json dict list res" where
  "query_raw_first P path freq year st =
     rbind (cf_get P RawCF (get_rowkey path freq year) False 1 (cdb st))
       (rmap (\<lambda>(c, v). raw_datum c v))"

definition query_raw_last :: "'d pycassa \<Rightarrow> string list \<Rightarrow> int option \<Rightarrow> int option \<Rightarrow> 'd cass \<Rightarrow> json dict list res" where
  "query_raw_last P path freq year st =
     rbind (cf_get P RawCF (get_rowkey path freq year) True 1 (cdb st))
       (rmap (\<lambda>(c, v). raw_datum c v))"

subsection \<open>The metadata cache\<close>

definition SEEK_BACK_THRESHOLD :: int where
  "SEEK_BACK_THRESHOLD = 2592000000"

definition get_metadata :: "'d pycassa \<Rightarrow> raw_rate_data \<Rightarrow> 'd cass \<Rightarrow> (metadata \<times> 'd cass) res" where
  "get_metadata P r st =
     (case metadata_cache st (get_meta_key r) of
        Some m \<Rightarrow> Inr (m, st)
      | None \<Rightarrow>
         (let ts_max = ts_to_jstime r - 1; ts_min = ts_max - SEEK_BACK_THRESHOLD in
          rbind (get_row_keys (c_path r) (c_freq r) ts_min ts_max) (\<lambda>keys.
          rbind (cf_multiget P RawCF keys ts_max ts_min 1 True (cdb st)) (\<lambda>ret.
          rbind (case ret of
                   [] \<Rightarrow> Inr \<lparr>md_path = c_path r, md_last_update = c_ts r, md_last_val = c_val r,
                             md_min_ts = c_ts r, md_freq = c_freq r\<rparr>
                 | _ # _ \<Rightarrow>
                    (case snd (last ret) of
                       [] \<Rightarrow> Inl IndexError
                     | (ts, v) # _ \<Rightarrow>
                        rbind (raw_json v) (\<lambda>val. rbind (handle_date ts) (\<lambda>d.
                          Inr \<lparr>md_path = c_path r, md_last_update = d, md_last_val = val,
                               md_min_ts = d, md_freq = c_freq r\<rparr>))))
            (\<lambda>m. Inr (m, set_metadata (get_meta_key r) m st))))))"

subsection \<open>Years and row keys of a range\<close>

text \<open>JavaScript timestamps of whole seconds, as the API passes them.\<close>

definition ms_ok :: "int \<Rightarrow> bool" where
  "ms_ok s = (valid_secs s \<and> \<bar>s * 1000\<bar> < 2 ^ 53)"

lemma handle_date_secs:
  assumes "ms_ok s"
  shows "handle_date (s * 1000) = Inr (dt_of_secs s)"
proof -
  have b: "\<bar>s * 1000\<bar> \<le> 2 ^ 53" "\<bar>s\<bar> \<le> 2 ^ 53" "\<bar>s\<bar> < 2 ^ 53" and v: "valid_secs s"
    using assms by (auto simp: ms_ok_def)
  have "fdiv (Fin (of_int (s * 1000))) (Fin 1000) = Inr (Fin (of_int s))"
    using mkfloat_of_int [OF b(2)] by (simp add: fdiv_def)
  then show ?thesis
    using float_of_int_exact [OF b(1)] utcfromtimestamp_secs [OF v b(3)]
    by (simp add: handle_date_def)
qed

lemma year_of_ms_secs: "ms_ok s \<Longrightarrow> year_of_ms (s * 1000) = Inr (dt_year (dt_of_secs s))"
  by (simp add: year_of_ms_def handle_date_secs)

lemma get_row_keys_secs:
  assumes "ms_ok a" and "ms_ok b"
  shows "get_row_keys path freq (a * 1000) (b * 1000) =
    Inr (map (\<lambda>y. get_rowkey path freq (Some y)) [dt_year (dt_of_secs a)..dt_year (dt_of_secs b)])
    \<or> get_row_keys path freq (a * 1000) (b * 1000) = Inr [] \<and> b < a"
  using assms dt_year_mono [of "dt_of_secs a" "dt_of_secs b"]
  by (cases "dt_year (dt_of_secs a) = dt_year (dt_of_secs b)")
     (auto simp: get_row_keys_def year_of_ms_secs)

lemma get_row_keys_le:
  assumes "ms_ok a" and "ms_ok b" and "a \<le> b"
  shows "get_row_keys path freq (a * 1000) (b * 1000) =
    Inr (map (\<lambda>y. get_rowkey path freq (Some y)) [dt_year (dt_of_secs a)..dt_year (dt_of_secs b)])"
  using get_row_keys_secs [OF assms(1,2)] assms(3) by fastforce

end
