(* ===== verification/Ts_Object.thy ===== *)
theory Ts_Object
  imports Cassandra_DB
begin

section \<open>Time series objects\<close>

text \<open>
  \<open>PSTimeSeriesObject\<close> of \<open>esmond/api/perfsonar/api_v2.py\<close>: one measurement with its event
  type and the summary it is written under, and the properties derived from them: the row
  path, the frequency, the divisor of averages and the start of the summary bin. The time is
  whatever JSON value the client sent; \<open>int\<close> and \<open>float\<close> are applied to it where the code
  applies them. A bin starts at the greatest multiple of the window below the time: the code
  computes it with a float division, and the lemmas show that this is exact for every time
  below \<open>2 ^ 53\<close>.
\<close>

record ts_object =
  to_ts :: json
  to_value :: json
  to_metadata_key :: string
  to_event_type :: string
  to_summary_type :: string
  to_summary_window :: int

definition row_prefix :: "string \<Rightarrow> string list" where
  "row_prefix event_type = [''ps'', replace_char (CHR ''-'') ''_'' event_type]"

definition datapath :: "ts_object \<Rightarrow> string list" where
  "datapath obj = row_prefix (to_event_type obj) @ [to_metadata_key obj] @
     (if to_summary_type obj \<noteq> ''base'' then [to_summary_type obj] else [])"

definition obj_freq :: "ts_object \<Rightarrow> int option" where
  "obj_freq obj = (if 0 < to_summary_window obj then Some (to_summary_window obj) else None)"

definition event_type_config :: "string \<Rightarrow> data_type res" where
  "event_type_config et = (case map_of EVENT_TYPE_CONFIG et of None \<Rightarrow> Inl KeyError | Some t \<Rightarrow> Inr t)"

definition base_freq :: "ts_object \<Rightarrow> int res" where
  "base_freq obj = rbind (event_type_config (to_event_type obj)) (\<lambda>t.
     Inr (if t = TFloat then DEFAULT_FLOAT_PRECISION * 1000 else 1000))"

definition obj_time :: "ts_object \<Rightarrow> json res" where
  "obj_time obj =
     (if to_summary_type obj \<noteq> ''base'' \<and> 0 < to_summary_window obj then
        rbind (py_int (to_ts obj)) (\<lambda>t. rbind (true_div t (to_summary_window obj)) (\<lambda>q.
        rbind (floor_float q) (\<lambda>n. Inr (JInt (n * to_summary_window obj)))))
      else Inr (to_ts obj))"

definition get_datetime :: "ts_object \<Rightarrow> datetime res" where
  "get_datetime obj = rbind (obj_time obj) (\<lambda>t. rbind (py_float t) utcfromtimestamp)"

text \<open>
  \<open>obj.time*1000\<close>, for the times that are integers once the bin has been computed; the driver
  is not given any other kind of column name.
\<close>

fun times_1000 :: "json \<Rightarrow> int res" where
  "times_1000 (JInt n) = Inr (n * 1000)"
| "times_1000 _ = Inl Unmodelled"

definition bin_start :: "int \<Rightarrow> int \<Rightarrow> int" where
  "bin_start w t = t div w * w"

lemma bin_start_bounds: "0 < w \<Longrightarrow> bin_start w t \<le> t" "0 < w \<Longrightarrow> t < bin_start w t + w"
  using div_mult_mod_eq [of t w] pos_mod_bound [of w t] pos_mod_sign [of w t]
  by (simp_all add: bin_start_def; linarith)+

lemma bin_start_idem: "bin_start w (bin_start w t) = bin_start w t"
  by (simp add: bin_start_def)

lemma bin_start_same: "0 < w \<Longrightarrow> bin_start w s = bin_start w t \<longleftrightarrow> s div w = t div w"
  by (simp add: bin_start_def)

lemma obj_time_base: "to_summary_type obj = ''base'' \<Longrightarrow> obj_time obj = Inr (to_ts obj)"
  by (simp add: obj_time_def)

lemma obj_time_bin:
  assumes "to_summary_type obj \<noteq> ''base''" and "0 < to_summary_window obj"
    and "to_summary_window obj < 2 ^ 63"
    and "py_int (to_ts obj) = Inr t" and "0 \<le> t" and "t < 2 ^ 53"
  shows "obj_time obj = Inr (JInt (bin_start (to_summary_window obj) t))"
proof -
  let ?w = "to_summary_window obj"
  have "rbind (true_div t ?w) floor_float = Inr (t div ?w)"
    using floor_true_div [OF assms(5,6,2,3)] .
  then obtain q where "true_div t ?w = Inr q" "floor_float q = Inr (t div ?w)"
    by (auto simp: res_simps)
  then show ?thesis using assms(1,2,4) by (simp add: obj_time_def bin_start_def)
qed

lemma get_datetime_int:
  assumes "obj_time obj = Inr (JInt s)" and "valid_secs s" and "\<bar>s\<bar> < 2 ^ 53"
  shows "get_datetime obj = Inr (dt_of_secs s)"
  using assms by (simp add: get_datetime_def float_of_int_exact utcfromtimestamp_secs)

text \<open>
  C18. A summary is written into the bin its time falls in: for times from 0 up to \<open>2 ^ 53\<close>
  and any window the database can hold, the float division of the code loses nothing. The
  bin starts at a multiple of the window, at or before the time and less than a window
  before it, and a time at the start of a bin is its own bin.
\<close>

theorem summary_bin_of_time:
  assumes "to_summary_type obj \<noteq> ''base''" and "0 < to_summary_window obj"
    and "to_summary_window obj < 2 ^ 63"
    and "py_int (to_ts obj) = Inr t" and "0 \<le> t" and "t < 2 ^ 53"
  shows "\<exists>b. obj_time obj = Inr (JInt b) \<and> to_summary_window obj dvd b \<and> b \<le> t \<and>
    t < b + to_summary_window obj \<and> obj_time (obj\<lparr>to_ts := JInt b\<rparr>) = Inr (JInt b)"
proof (intro exI conjI)
  let ?w = "to_summary_window obj" and ?b = "bin_start (to_summary_window obj) t"
  show "obj_time obj = Inr (JInt ?b)" by (rule obj_time_bin [OF assms])
  show "?w dvd ?b" by (simp add: bin_start_def)
  show le: "?b \<le> t" and "t < ?b + ?w" using bin_start_bounds [OF assms(2), of t] by simp_all
  have "0 \<le> ?b" using assms(2,5) by (simp add: bin_start_def pos_imp_zdiv_nonneg_iff)
  then show "obj_time (obj\<lparr>to_ts := JInt ?b\<rparr>) = Inr (JInt ?b)"
    using obj_time_bin [of "obj\<lparr>to_ts := JInt ?b\<rparr>" ?b] assms(1-3,6) le by (simp add: bin_start_idem)
qed

definition witness_obj :: ts_object where
  "witness_obj = \<lparr>to_ts = JInt 1398965989, to_value = JInt 5, to_metadata_key = ''0CB19291FB6D40EAA1955376772BF5D2'',
     to_event_type = ''packet-count-sent'', to_summary_type = ''aggregation'', to_summary_window = 3600\<rparr>"

theorem summary_bin_of_time_witness:
  "\<exists>b. obj_time witness_obj = Inr (JInt b) \<and> to_summary_window witness_obj dvd b \<and> b \<le> 1398965989 \<and>
    1398965989 < b + to_summary_window witness_obj \<and> obj_time (witness_obj\<lparr>to_ts := JInt b\<rparr>) = Inr (JInt b)"
  by (rule summary_bin_of_time) (simp_all add: witness_obj_def)

end
