(* ===== verification/Float_Facts.thy ===== *)
theory Float_Facts
  imports Py_Float
begin

section \<open>Which numbers rounding leaves alone\<close>

text \<open>
  A rational is a double when it is an integer of at most 53 bits times a power of two not
  below the last place of the subnormals. Rounding always gives such a number and leaves it
  unchanged, so rounding twice is rounding once; the fractional part of a double is a double.
\<close>

definition double :: "rat \<Rightarrow> bool" where
  "double x = (\<exists>j q. x = of_int j * 2 powi q \<and> -1074 \<le> q \<and> \<bar>j\<bar> \<le> 2 ^ 53)"

lemma doubleI: "x = of_int j * 2 powi q \<Longrightarrow> -1074 \<le> q \<Longrightarrow> \<bar>j\<bar> \<le> 2 ^ 53 \<Longrightarrow> double x"
  unfolding double_def by blast

lemma powi_two_less: "(2::rat) powi a < 2 powi b \<longleftrightarrow> a < b"
  by (metis linorder_not_less nle_le one_less_numeral_iff power_int_increasing power_int_strict_increasing
      less_imp_le semiring_norm(76))

lemma powi_two_le: "(2::rat) powi a \<le> 2 powi b \<longleftrightarrow> a \<le> b"
  by (metis linorder_not_less powi_two_less)

lemma powi_two_pos: "0 < (2::rat) powi a"
  by simp

lemma fexp_upper:
  assumes "x \<noteq> 0"
  shows "\<bar>x\<bar> < 2 powi (fexp x + 1)"
proof (cases "1 \<le> \<bar>x\<bar>")
  case True
  let ?n = "nat \<lfloor>\<bar>x\<bar>\<rfloor>"
  have n1: "1 \<le> ?n" using True by linarith
  have n: "?n < 2 ^ floorlog 2 ?n" using two_pow_floorlog [OF n1] by simp
  have "int ?n < 2 ^ floorlog 2 ?n" using n by (metis of_nat_less_iff of_nat_numeral of_nat_power)
  then have "\<lfloor>\<bar>x\<bar>\<rfloor> < 2 ^ floorlog 2 ?n" using True by simp
  then have "\<bar>x\<bar> < 2 ^ floorlog 2 ?n" by (simp add: floor_less_iff)
  moreover have "fexp x + 1 = int (floorlog 2 ?n)" using True by (simp add: fexp_def)
  ultimately show ?thesis by simp
next
  case False
  let ?m = "\<lceil>1 / \<bar>x\<bar>\<rceil>"
  let ?n = "nat (?m - 1)"
  have "1 < 1 / \<bar>x\<bar>" using False assms by simp
  then have m2: "1 < ?m" by linarith
  have n1: "1 \<le> ?n" using m2 by linarith
  have l1: "1 \<le> floorlog 2 ?n" using two_pow_floorlog [OF n1] n1 by (cases "floorlog 2 ?n") auto
  have "2 ^ (floorlog 2 ?n - 1) \<le> ?n" using two_pow_floorlog [OF n1] by simp
  then have "2 ^ (floorlog 2 ?n - 1) \<le> int ?n" by (metis of_nat_le_iff of_nat_numeral of_nat_power)
  then have "2 ^ (floorlog 2 ?n - 1) < ?m" using m2 by linarith
  then have "of_int (2 ^ (floorlog 2 ?n - 1)) < 1 / \<bar>x\<bar>" by (simp only: less_ceiling_iff)
  then have "2 ^ (floorlog 2 ?n - 1) < 1 / \<bar>x\<bar>" by simp
  then have "\<bar>x\<bar> < 1 / 2 ^ (floorlog 2 ?n - 1)" using assms by (simp add: field_simps)
  moreover have "fexp x + 1 = - int (floorlog 2 ?n - 1)" using False l1 by (simp add: fexp_def of_nat_diff)
  ultimately show ?thesis by (simp add: power_int_minus inverse_eq_divide)
qed

lemma fl_exact_scaled:
  assumes "x = of_int j * 2 powi q" and "-1074 \<le> q" and "\<bar>x\<bar> < 2 powi (q + 53)"
  shows "fl x = x"
proof (cases "x = 0")
  case False
  have "2 powi fexp x < (2::rat) powi (q + 53)"
    using fexp_le [OF False] assms(3) by linarith
  then have "fexp x < q + 53" by (simp only: powi_two_less)
  then obtain k where k: "q = max (fexp x) (-1022) - 52 + int k"
    using assms(2) zle_iff_zadd [of "max (fexp x) (-1022) - 52" q] by auto
  have "x / ulp x = of_int (j * 2 ^ k)"
    by (subst assms(1)) (simp add: ulp_def k power_int_add)
  then show ?thesis by (rule fl_exact)
qed simp

lemma fl_double: "double x \<Longrightarrow> fl x = x"
proof -
  assume "double x"
  then obtain j q where jq: "x = of_int j * 2 powi q" "-1074 \<le> q" "\<bar>j\<bar> \<le> 2 ^ 53"
    by (auto simp: double_def)
  have p53: "(2::rat) powi (q + 53) = 2 ^ 53 * 2 powi q" by (simp add: power_int_add)
  show "fl x = x"
  proof (cases "\<bar>j\<bar> = 2 ^ 53")
    case False
    then have "\<bar>j\<bar> < 2 ^ 53" using jq(3) by linarith
    then have "of_int \<bar>j\<bar> < (of_int (2 ^ 53) :: rat)" by (simp only: of_int_less_iff)
    then have "\<bar>x\<bar> < 2 powi (q + 53)"
      unfolding jq(1) abs_mult p53 by (simp add: mult_strict_right_mono flip: of_int_abs)
    then show ?thesis by (rule fl_exact_scaled [OF jq(1,2)])
  next
    case True
    then have "j = 2 ^ 53 \<or> j = - (2 ^ 53)" by linarith
    then have "j = 2 * (j div 2)" by auto
    then have "of_int j = 2 * (of_int (j div 2) :: rat)" by (metis of_int_mult of_int_numeral)
    then have "x = of_int (j div 2) * 2 powi (q + 1)"
      unfolding jq(1) by (simp add: power_int_add_1)
    moreover have "\<bar>x\<bar> < 2 powi (q + 1 + 53)"
    proof -
      have "\<bar>x\<bar> = of_int \<bar>j\<bar> * 2 powi q" using jq(1) by (simp add: abs_mult)
      also have "\<dots> = 2 powi (q + 53)" unfolding True p53 by simp
      also have "\<dots> < 2 powi (q + 1 + 53)" by (simp only: powi_two_less)
      finally show ?thesis .
    qed
    moreover have "-1074 \<le> q + 1" using jq(2) by simp
    ultimately show ?thesis using fl_exact_scaled [of x "j div 2" "q + 1"] by blast
  qed
qed

lemma double_fl: "double (fl x)"
proof (cases "x = 0")
  case True
  then show ?thesis by (intro doubleI [of _ 0 0]) simp_all
next
  case False
  let ?q = "max (fexp x) (-1022) - 52" and ?j = "round_even (x / ulp x)"
  have "\<bar>x\<bar> < 2 powi (?q + 53)"
    using fexp_upper [OF False] powi_two_le [of "fexp x + 1" "?q + 53"] by (simp; linarith)
  then have b: "\<bar>x / ulp x\<bar> < 2 ^ 53" by (simp add: ulp_def abs_divide power_int_add field_simps power_int_diff)
  have "\<bar>?j\<bar> \<le> 2 ^ 53"
  proof -
    have "\<bar>of_int ?j\<bar> < (2 ^ 53 + 1 :: rat)"
      using round_even_error [of "x / ulp x"] b by linarith
    then have "of_int \<bar>?j\<bar> < (of_int (2 ^ 53 + 1) :: rat)" by simp
    then show ?thesis by (simp only: of_int_less_iff)
  qed
  then show ?thesis using False by (intro doubleI [of _ ?j ?q]) (simp_all add: fl_def ulp_def)
qed

lemma fl_idem [simp]: "fl (fl x) = fl x"
  by (rule fl_double [OF double_fl])

lemma mkfloat_Fin: "mkfloat x = Fin y \<Longrightarrow> y = fl x \<and> double y \<and> \<bar>y\<bar> < 2 ^ 1024"
  using double_fl [of x] by (auto simp: mkfloat_def Let_def abs_less_iff split: if_splits)

lemma mkfloat_double: "double x \<Longrightarrow> \<bar>x\<bar> < 2 ^ 1024 \<Longrightarrow> mkfloat x = Fin x"
  by (auto simp: mkfloat_def Let_def fl_double abs_less_iff)

lemma double_of_int: "\<bar>n\<bar> \<le> 2 ^ 53 \<Longrightarrow> double (of_int n)"
  by (rule doubleI [of _ n 0]) simp_all

lemma double_frac:
  assumes "double x" and "0 \<le> x"
  shows "double (x - of_int \<lfloor>x\<rfloor>)"
proof -
  obtain j q where jq: "x = of_int j * 2 powi q" "-1074 \<le> q" "\<bar>j\<bar> \<le> 2 ^ 53"
    using assms by (auto simp: double_def)
  show ?thesis
  proof (cases "0 \<le> q")
    case True
    then have "x = of_int (j * 2 ^ nat q)" using jq(1) by (simp add: power_int_def)
    then show ?thesis by (intro doubleI [of _ 0 0]) simp_all
  next
    case False
    let ?p = "2 ^ nat (- q) :: int"
    have x: "x = of_int j / of_int ?p"
      using jq(1) False by (simp add: power_int_def field_simps)
    then have f: "\<lfloor>x\<rfloor> = j div ?p" by (simp only: floor_divide_of_int_eq)
    have pp: "0 < ?p" by simp
    have "of_int j = of_int ?p * of_int (j div ?p) + (of_int (j mod ?p) :: rat)"
      by (metis mult_div_mod_eq of_int_add of_int_mult)
    then have "x - of_int \<lfloor>x\<rfloor> = of_int (j mod ?p) / of_int ?p"
      unfolding x f [unfolded x] using pp by (simp add: field_simps)
    also have "\<dots> = of_int (j mod ?p) * 2 powi q"
      using False by (simp add: power_int_def field_simps)
    finally have d: "x - of_int \<lfloor>x\<rfloor> = of_int (j mod ?p) * 2 powi q" .
    show ?thesis
    proof (cases "?p \<le> 2 ^ 53")
      case True
      then show ?thesis using pos_mod_bound [OF pp, of j] pos_mod_sign [OF pp, of j] jq(2)
        by (intro doubleI [OF d]) linarith+
    next
      case False
      have "0 \<le> j" using assms(2) jq(1) powi_two_pos [of q] by (auto simp: zero_le_mult_iff)
      then have "j mod ?p = j" using False jq(3) by (intro mod_pos_pos_trivial) linarith+
      then show ?thesis using jq by (intro doubleI [OF d]) simp_all
    qed
  qed
qed

text \<open>Evaluating one rounding, given the binary exponent.\<close>

lemma fexp_eqI:
  assumes "2 powi e \<le> \<bar>x\<bar>" and "\<bar>x\<bar> < 2 powi (e + 1)"
  shows "fexp x = e"
proof -
  have x0: "x \<noteq> 0" using assms(1) powi_two_pos [of e] by (auto simp flip: not_le)
  have "2 powi fexp x < (2::rat) powi (e + 1)" using fexp_le [OF x0] assms(2) by linarith
  moreover have "2 powi e < (2::rat) powi (fexp x + 1)" using fexp_upper [OF x0] assms(1) by linarith
  ultimately show ?thesis unfolding powi_two_less by linarith
qed

lemma fl_eval:
  assumes "2 powi e \<le> \<bar>x\<bar>" and "\<bar>x\<bar> < 2 powi (e + 1)" and "-1022 \<le> e"
    and "round_even (x / 2 powi (e - 52)) = n"
  shows "fl x = of_int n * 2 powi (e - 52)"
proof -
  have "x \<noteq> 0" using assms(1) powi_two_pos [of e] by (auto simp flip: not_le)
  then show ?thesis using assms fexp_eqI [OF assms(1,2)] by (simp add: fl_def ulp_def)
qed

lemma round_even_eval: "of_int n - 1 / 2 < x \<Longrightarrow> x < of_int n + 1 / 2 \<Longrightarrow> round_even x = n"
proof -
  assume "of_int n - 1 / 2 < x" "x < of_int n + 1 / 2"
  moreover have "\<bar>of_int (round_even x) - x\<bar> \<le> 1 / 2" by (rule round_even_error)
  ultimately have "of_int (round_even x) < of_int n + (1 :: rat)" "of_int n - 1 < (of_int (round_even x) :: rat)"
    by linarith+
  then show "round_even x = n" by linarith
qed

end
