(* ===== verification/Validators.thy ===== *)
theory Validators
  imports Ts_Object Float_Facts
begin

section \<open>Validators\<close>

text \<open>
  \<open>esmond/api/perfsonar/validators.py\<close>, one definition per method: what each data type
  accepts, and how a value is summarised (percentage and integer counters are added by the
  store, float averages are a numerator over a count, histograms are merged key by key and
  described by their mode, mean, extremes, percentiles and deviation). A validator object
  holds no state; the functions take the time series object, the driver \<open>P\<close> and the state
  of \<open>CASSANDRA_DB\<close>, and return the object with its new value, and the cache the histogram
  validator leaves for the statistics of the same save.

  The validators convert fields in place. Converting twice is converting once
  (\<open>validate_idempotent\<close>), so that it does not matter that the objects of one save share
  their value. Histograms that are JSON lists pass the validator; past it the model does not
  follow them.
\<close>

type_synonym hist_cache = "(int option \<times> (string \<times> int) list) list"

subsection \<open>Validation\<close>

definition quoted :: "string \<Rightarrow> string" where
  "quoted s = [CHR 0x27] @ s @ [CHR 0x27]"

definition float_validate :: "json \<Rightarrow> int \<Rightarrow> json res" where
  "float_validate v base =
     catch_value_error (ParseError ''Value must be a floating point number'')
       (rbind (py_float v) (\<lambda>x. rbind (true_div base 1000) (\<lambda>s. rbind (int_of_float (fmul x s)) (\<lambda>n.
          Inr (JObj [(''numerator'', JInt n), (''denominator'', JInt 1)])))))"

text \<open>
  \<open>for k in obj.value: obj.value[k] = int(obj.value[k])\<close>: over an object its fields, over a
  list its elements used as indices while they are being replaced, over a string its first
  character, which no string can be indexed with.
\<close>

definition list_index :: "json list \<Rightarrow> json \<Rightarrow> nat res" where
  "list_index xs k =
     (let idx = (\<lambda>i. if 0 \<le> i \<and> i < int (length xs) then Inr (nat i)
                     else if i < 0 \<and> - int (length xs) \<le> i then Inr (nat (i + int (length xs)))
                     else Inl IndexError)
      in case k of JInt i \<Rightarrow> idx i | JBool b \<Rightarrow> idx (if b then 1 else 0) | _ \<Rightarrow> Inl TypeError)"

definition list_ints :: "json list \<Rightarrow> json list res" where
  "list_ints xs = rfold (\<lambda>i ys. rbind (list_index ys (ys ! i)) (\<lambda>j.
     rbind (py_int (ys ! j)) (\<lambda>n. Inr (ys[j := JInt n])))) [0..<length xs] xs"

definition dict_ints :: "json dict \<Rightarrow> json dict res" where
  "dict_ints d = rmap (\<lambda>(k, v). rbind (py_int v) (\<lambda>n. Inr (k, JInt n))) d"

fun hist_ints :: "json \<Rightarrow> json res" where
  "hist_ints (JObj d) = rbind (dict_ints d) (\<lambda>d'. Inr (JObj d'))"
| "hist_ints (JList xs) = rbind (list_ints xs) (\<lambda>ys. Inr (JList ys))"
| "hist_ints (JStr s) = (if s = [] then Inr (JStr s) else Inl TypeError)"
| "hist_ints _ = Inl TypeError"

definition histogram_validate :: "json \<Rightarrow> json res" where
  "histogram_validate v = (case hist_ints v of
     Inr w \<Rightarrow> Inr w
   | Inl e \<Rightarrow> Inl (ParseError (if e = ValueError then ''Value of histogram must be an integer''
                            else ''Invalid histogram provided'')))"

definition integer_validate :: "json \<Rightarrow> json res" where
  "integer_validate v =
     catch_value_error (ParseError ''Value must be an integer'') (rbind (py_int v) (\<lambda>n. Inr (JInt n)))"

text \<open>Every JSON value can be dumped.\<close>

definition json_validate :: "json \<Rightarrow> json res" where
  "json_validate v = Inr v"

definition int_field :: "string \<Rightarrow> json \<Rightarrow> (json \<times> int) res" where
  "int_field k v = catch_all (ParseError (''The field '' @ quoted k @ '' must be an integer''))
     (rbind (py_getitem v k) (\<lambda>x. rbind (py_int x) (\<lambda>n.
        case v of JObj d \<Rightarrow> Inr (JObj (AList.update k (JInt n) d), n) | _ \<Rightarrow> Inl TypeError)))"

definition percentage_validate :: "json \<Rightarrow> json res" where
  "percentage_validate v =
     rbind (py_contains ''numerator'' v) (\<lambda>hn.
     if \<not> hn then Inl (ParseError (''Missing required field '' @ quoted ''numerator''))
     else rbind (py_contains ''denominator'' v) (\<lambda>hd.
     if \<not> hd then Inl (ParseError (''Missing required field '' @ quoted ''denominator''))
     else rbind (int_field ''numerator'' v) (\<lambda>(v1, num). rbind (int_field ''denominator'' v1) (\<lambda>(v2, den).
     if den \<le> 0 then Inl (ParseError (''The field '' @ quoted ''denominator'' @ '' must be greater than 0''))
     else if num < 0 then Inl (ParseError (''The field '' @ quoted ''numerator'' @ '' cannot be negative''))
     else Inr v2))))"

text \<open>
  The loop over the subintervals. A missing field ends the loop with a message; anything
  else that goes wrong is an exception of the loop body, a missing conversion a ValueError.
  The empty value raises a ParseError inside the \<open>try\<close>, which the bare \<open>except\<close> replaces.
\<close>

fun check_subintervals :: "nat \<Rightarrow> json list \<Rightarrow> string option res" where
  "check_subintervals pos [] = Inr None"
| "check_subintervals pos (si # sis) =
     (let missing = (\<lambda>f. ''Interval must contain '' @ quoted f @ '' field at position '' @ show_nat pos) in
      rbind (py_contains ''start'' si) (\<lambda>b1. if \<not> b1 then Inr (Some (missing ''start'')) else
      rbind (py_contains ''duration'' si) (\<lambda>b2. if \<not> b2 then Inr (Some (missing ''duration'')) else
      rbind (py_contains ''val'' si) (\<lambda>b3. if \<not> b3 then Inr (Some (missing ''val'')) else
      rbind (rbind (py_getitem si ''start'') py_float) (\<lambda>_.
      rbind (rbind (py_getitem si ''duration'') py_float) (\<lambda>_.
      check_subintervals (Suc pos) sis))))))"

definition subinterval_validate :: "json \<Rightarrow> json res" where
  "subinterval_validate v =
     (let bad = ParseError ''Invalid subintervals provided'';
          result = rbind (py_iter v) (\<lambda>xs. if xs = [] then Inl bad else check_subintervals 1 xs)
      in case result of
           Inl e \<Rightarrow> Inl (if e = ValueError
               then ParseError (''Subinterval '' @ quoted ''start'' @ '' and '' @ quoted ''duration'' @
                 '' must be floating point numbers'') else bad)
         | Inr (Some err) \<Rightarrow> Inl (ParseError err)
         | Inr None \<Rightarrow> Inr v)"

definition validate :: "data_type \<Rightarrow> ts_object \<Rightarrow> json res" where
  "validate t obj = (case t of
     TFloat \<Rightarrow> rbind (base_freq obj) (float_validate (to_value obj))
   | THistogram \<Rightarrow> histogram_validate (to_value obj)
   | TInteger \<Rightarrow> integer_validate (to_value obj)
   | TJson \<Rightarrow> json_validate (to_value obj)
   | TPercentage \<Rightarrow> percentage_validate (to_value obj)
   | TSubinterval \<Rightarrow> subinterval_validate (to_value obj))"

subsection \<open>Summaries\<close>

definition summary_cf :: "data_type \<Rightarrow> string \<Rightarrow> colfam option" where
  "summary_cf t summary_type = (if t = TInteger \<and> summary_type = ''average'' then Some AggCF else None)"

definition average :: "data_type \<Rightarrow> ts_object \<Rightarrow> ts_object res" where
  "average t obj = (case t of
     TFloat \<Rightarrow> Inr obj
   | TInteger \<Rightarrow> Inr (obj\<lparr>to_value := JObj [(''numerator'', to_value obj), (''denominator'', JInt 1)]\<rparr>)
   | _ \<Rightarrow> Inl NotImplementedError)"

fun set_field :: "string \<Rightarrow> json \<Rightarrow> json \<Rightarrow> json res" where
  "set_field k x (JObj d) = Inr (JObj (AList.update k x d))"
| "set_field k x _ = Inl TypeError"

definition float_aggregation :: "'d pycassa \<Rightarrow> 'd cass \<Rightarrow> ts_object \<Rightarrow> ts_object res" where
  "float_aggregation P st obj =
     rbind (obj_time obj) (\<lambda>t. rbind (times_1000 t) (\<lambda>ms.
     rbind (query_aggregation_timerange P (datapath obj) (obj_freq obj) ms ms ''average'' None st) (\<lambda>results.
     if results \<noteq> [] then rbind (set_field ''denominator'' (JInt 0) (to_value obj)) (\<lambda>v. Inr (obj\<lparr>to_value := v\<rparr>))
     else Inr obj)))"

subsection \<open>Histograms\<close>

text \<open>A histogram, once validated: the counts of its buckets.\<close>

fun json_count :: "json \<Rightarrow> int res" where
  "json_count (JInt n) = Inr n"
| "json_count _ = Inl Unmodelled"

fun hist_of_json :: "json \<Rightarrow> (string \<times> int) list res" where
  "hist_of_json (JObj d) = rmap (\<lambda>(k, v). rbind (json_count v) (\<lambda>n. Inr (k, n))) d"
| "hist_of_json _ = Inl Unmodelled"

definition json_of_hist :: "(string \<times> int) list \<Rightarrow> json" where
  "json_of_hist h = JObj (map (\<lambda>(k, n). (k, JInt n)) h)"

text \<open>\<open>_get_histogram\<close>: the histogram stored for the bin, if any.\<close>

definition get_histogram :: "'d pycassa \<Rightarrow> 'd cass \<Rightarrow> ts_object \<Rightarrow> string list option \<Rightarrow> json option res" where
  "get_histogram P st obj path =
     rbind (obj_time obj) (\<lambda>t. rbind (times_1000 t) (\<lambda>ms.
     rbind (query_raw_data P (case path of None \<Rightarrow> datapath obj | Some p \<Rightarrow> p) (obj_freq obj) ms ms (Some 1) st)
       (\<lambda>results. case results of [] \<Rightarrow> Inr None
        | r # _ \<Rightarrow> (case map_of r ''val'' of None \<Rightarrow> Inl KeyError | Some v \<Rightarrow> Inr (Some v)))))"

text \<open>\<open>_aggregation\<close>: the counts of \<open>cur\<close> added to those of \<open>agg\<close>, new buckets appended.\<close>

definition hist_merge :: "(string \<times> int) list \<Rightarrow> (string \<times> int) list \<Rightarrow> (string \<times> int) list" where
  "hist_merge cur agg = fold (\<lambda>(k, n) a.
     AList.update k (case map_of a k of Some m \<Rightarrow> m + n | None \<Rightarrow> n) a) cur agg"

definition histogram_aggregation ::
  "'d pycassa \<Rightarrow> 'd cass \<Rightarrow> ts_object \<Rightarrow> hist_cache \<Rightarrow> (ts_object \<times> hist_cache) res" where
  "histogram_aggregation P st obj cache =
     rbind (get_histogram P st obj None) (\<lambda>agg_hist. case agg_hist of
       None \<Rightarrow> Inr (obj, cache)
     | Some a \<Rightarrow>
         rbind (hist_of_json (to_value obj)) (\<lambda>cur. rbind (hist_of_json a) (\<lambda>agg.
           let h = hist_merge cur agg in
           Inr (obj\<lparr>to_value := json_of_hist h\<rparr>, AList.update (obj_freq obj) h cache))))"

definition aggregation ::
  "data_type \<Rightarrow> 'd pycassa \<Rightarrow> 'd cass \<Rightarrow> ts_object \<Rightarrow> hist_cache \<Rightarrow> (ts_object \<times> hist_cache) res" where
  "aggregation t P st obj cache = (case t of
     TFloat \<Rightarrow> rbind (float_aggregation P st obj) (\<lambda>o'. Inr (o', cache))
   | THistogram \<Rightarrow> histogram_aggregation P st obj cache
   | TInteger \<Rightarrow> Inr (obj, cache)
   | TPercentage \<Rightarrow> Inr (obj, cache)
   | _ \<Rightarrow> Inl NotImplementedError)"

subsection \<open>Percentiles\<close>

text \<open>\<open>Percentile\<close>: \<open>n = p (N + 1) / 100\<close> split into the rank \<open>k\<close> and the fraction \<open>d\<close>.\<close>

record percentile =
  pc_key :: string
  pc_k :: int
  pc_d :: pyfloat
  pc_sample_size :: int
  pc_value :: "pyfloat option"
  pc_is_calculated :: bool

definition new_percentile :: "int \<Rightarrow> int \<Rightarrow> percentile res" where
  "new_percentile p sample_size =
     rbind (fdiv (Fin (of_int p)) (Fin 100)) (\<lambda>q. rbind (float_of_int (sample_size + 1)) (\<lambda>s.
     let n = fmul q s in
     rbind (floor_float n) (\<lambda>k. rbind (float_of_int k) (\<lambda>kf.
       Inr \<lparr>pc_key = (if p = 50 then ''median'' else ''percentile-'' @ show_int p), pc_k = k,
            pc_d = fsub n kf, pc_sample_size = sample_size, pc_value = None, pc_is_calculated = False\<rparr>))))"

definition findvalue :: "percentile \<Rightarrow> int \<Rightarrow> pyfloat \<Rightarrow> percentile res" where
  "findvalue pc count hist_value =
     (case pc_value pc of
        Some v \<Rightarrow> Inr (pc\<lparr>pc_value := Some (fadd v (fmul (pc_d pc) (fsub hist_value v))), pc_is_calculated := True\<rparr>)
      | None \<Rightarrow>
          if pc_k pc = 0 then Inr (pc\<lparr>pc_value := Some hist_value, pc_is_calculated := True\<rparr>)
          else if pc_sample_size pc \<le> count \<and> pc_sample_size pc \<le> pc_k pc
          then Inr (pc\<lparr>pc_value := Some hist_value, pc_is_calculated := True\<rparr>)
          else rbind (float_of_int (pc_k pc)) (\<lambda>kf.
            if flt (fadd kf (pc_d pc)) (Fin (of_int count))
            then Inr (pc\<lparr>pc_value := Some hist_value, pc_is_calculated := True\<rparr>)
            else Inr (pc\<lparr>pc_value := Some hist_value\<rparr>)))"

text \<open>
  The \<open>while\<close> loop of one histogram item: percentiles are finished while their rank is
  within the items counted so far; the one that needs the next item ends the loop.
\<close>

type_synonym stats = "json dict"

fun find_percentiles ::
  "int \<Rightarrow> pyfloat \<Rightarrow> percentile list \<Rightarrow> stats \<Rightarrow> (percentile list \<times> stats) res" where
  "find_percentiles count hv [] stats = Inr ([], stats)"
| "find_percentiles count hv (pc # pcs) stats =
     (if pc_k pc \<le> count then
        rbind (findvalue pc count hv) (\<lambda>pc'.
          if pc_is_calculated pc' then
            find_percentiles count hv pcs
              (AList.update (pc_key pc') (case pc_value pc' of Some v \<Rightarrow> JFloat v | None \<Rightarrow> JNull) stats)
          else Inr (pc' # pcs, stats))
      else Inr (pc # pcs, stats))"

text \<open>The second pass: the sum of squared deviations and the percentiles.\<close>

definition second_pass_step :: "pyfloat \<Rightarrow> (pyfloat \<times> int) \<Rightarrow>
  pyfloat \<times> int \<times> percentile list \<times> stats \<Rightarrow> (pyfloat \<times> int \<times> percentile list \<times> stats) res" where
  "second_pass_step mean item st = (case item of (v, n) \<Rightarrow> case st of (stddev, count, pcs, stats) \<Rightarrow>
     rbind (fpow2 (fsub v mean)) (\<lambda>sq. rbind (float_of_int n) (\<lambda>nf.
     let count' = count + n in
     rbind (find_percentiles count' v pcs stats) (\<lambda>(pcs', stats').
       Inr (fadd stddev (fmul sq nf), count', pcs', stats')))))"

subsection \<open>Statistics of a histogram\<close>

text \<open>The first pass: mode (the keys of the greatest count), weighted sum and sample size.\<close>

record first_pass =
  fp_mode :: "string list"
  fp_mean_num :: pyfloat
  fp_sample_size :: int

definition mode_step :: "(string \<times> int) list \<Rightarrow> string \<Rightarrow> string list \<Rightarrow> string list" where
  "mode_step h k mode =
     (case mode of [] \<Rightarrow> [k]
      | m # _ \<Rightarrow> if the (map_of h m) < the (map_of h k) then [k]
                 else if the (map_of h k) = the (map_of h m) then mode @ [k] else mode)"

definition first_pass_step :: "(string \<times> int) list \<Rightarrow> string \<times> int \<Rightarrow> first_pass \<Rightarrow> first_pass res" where
  "first_pass_step h kn s = (case kn of (k, n) \<Rightarrow>
     rbind (py_float (JStr k)) (\<lambda>x. rbind (float_of_int n) (\<lambda>nf.
       Inr \<lparr>fp_mode = mode_step h k (fp_mode s), fp_mean_num = fadd (fp_mean_num s) (fmul x nf),
            fp_sample_size = fp_sample_size s + n\<rparr>)))"

definition quantiles :: "int list" where
  "quantiles = [25, 50, 75, 95]"

definition hist_statistics :: "(string \<times> int) list \<Rightarrow> json res" where
  "hist_statistics h =
     (case rfold (first_pass_step h) h \<lparr>fp_mode = [], fp_mean_num = Fin 0, fp_sample_size = 0\<rparr> of
        Inl e \<Rightarrow> if e = ValueError then Inr (JObj []) else Inl e
      | Inr s \<Rightarrow>
          rbind (float_of_int (fp_sample_size s)) (\<lambda>size.
          rbind (fdiv (fp_mean_num s) size) (\<lambda>mean.
          rbind (rmap (\<lambda>(k, n). rbind (py_float (JStr k)) (\<lambda>x. Inr (x, n))) h) (\<lambda>items.
          let sorted_hist = sort_by (\<lambda>a b. flt (fst a) (fst b)) items in
          rbind (rmap (\<lambda>k. rbind (py_float (JStr k)) (\<lambda>x. Inr (JFloat x))) (fp_mode s)) (\<lambda>mode.
          rbind (rmap (\<lambda>q. new_percentile q (fp_sample_size s)) quantiles) (\<lambda>pcs.
          let stats = [(''mode'', JList mode), (''mean'', JFloat mean),
                       (''minimum'', JFloat (fst (hd sorted_hist))),
                       (''maximum'', JFloat (fst (last sorted_hist)))] in
          rbind (rfold (second_pass_step mean) sorted_hist (Fin 0, 0, pcs, stats)) (\<lambda>(stddev, _, _, stats').
          rbind (fdiv stddev size) (\<lambda>variance. rbind (fsqrt variance) (\<lambda>dev.
            Inr (JObj (stats' @ [(''variance'', JFloat variance), (''standard-deviation'', JFloat dev)])))))))))))"

definition statistics :: "ts_object \<Rightarrow> hist_cache \<Rightarrow> ts_object res" where
  "statistics obj cache =
     (let agg_hist = (if to_summary_window obj \<noteq> 0 then map_of cache (obj_freq obj) else None) in
      rbind (case agg_hist of Some h \<Rightarrow> Inr h | None \<Rightarrow> hist_of_json (to_value obj)) (\<lambda>h.
      rbind (hist_statistics h) (\<lambda>v. Inr (obj\<lparr>to_value := v\<rparr>))))"

end
