(* ===== verification/Validator_Facts.thy ===== *)
theory Validator_Facts
  imports Validators
begin

section \<open>What the validators accept and how they summarise\<close>

text \<open>
  Converting in place is idempotent for every data type but float (whose validator builds a
  new value); accepted percentages have a positive denominator; the stored numerator of a
  float is its value cut to four decimals; merging histograms adds the counts.
\<close>

subsection \<open>Converting twice\<close>

lemma dict_ints_idem:
  assumes "dict_ints d = Inr d'"
  shows "dict_ints d' = Inr d'"
  using assms by (induction d arbitrary: d') (auto simp: dict_ints_def res_simps)

text \<open>Replacing an element by its integer does not change what it indexes.\<close>

lemma list_index_int:
  assumes "list_index xs k = Inr j" and "py_int k = Inr n" and "length ys = length xs"
  shows "list_index ys (JInt n) = Inr j"
  using assms by (cases k) (auto simp: list_index_def Let_def split: if_splits)

lemma list_index_length:
  "list_index xs k = Inr j \<Longrightarrow> length ys = length xs \<Longrightarrow> list_index ys k = Inr j"
  by (cases k) (auto simp: list_index_def Let_def split: if_splits)

lemma list_index_bound: "list_index xs k = Inr j \<Longrightarrow> j < length xs"
  by (cases k) (auto simp: list_index_def Let_def split: if_splits)

text \<open>After the loop every visited element points at an integer.\<close>

definition points_at_int :: "json list \<Rightarrow> nat \<Rightarrow> bool" where
  "points_at_int zs i = (\<exists>j n. list_index zs (zs ! i) = Inr j \<and> zs ! j = JInt n)"

lemma points_at_int_upd:
  assumes "points_at_int zs i" and "py_int (zs ! j) = Inr n"
  shows "points_at_int (zs[j := JInt n]) i"
proof -
  obtain k m where k: "list_index zs (zs ! i) = Inr k" "zs ! k = JInt m"
    using assms(1) by (auto simp: points_at_int_def)
  have "list_index (zs[j := JInt n]) (zs[j := JInt n] ! i) = Inr k"
  proof (cases "i = j \<and> j < length zs")
    case True
    then show ?thesis using list_index_int [OF k(1), of n] assms(2) by simp
  next
    case False
    then have "zs[j := JInt n] ! i = zs ! i" by (cases "i = j") (simp_all add: list_update_beyond)
    then show ?thesis using list_index_length [OF k(1)] by simp
  qed
  moreover have "zs[j := JInt n] ! k = JInt (if j = k then n else m)"
    using k(2) list_index_bound [OF k(1)] by simp
  ultimately show ?thesis unfolding points_at_int_def by blast
qed

lemma list_ints_points:
  assumes "rfold (\<lambda>i ys. rbind (list_index ys (ys ! i)) (\<lambda>j.
      rbind (py_int (ys ! j)) (\<lambda>n. Inr (ys[j := JInt n])))) is xs = Inr zs"
  shows "length zs = length xs \<and> (\<forall>i \<in> set is. points_at_int zs i)"
  using assms
proof (induction "is" arbitrary: zs rule: rev_induct)
  case Nil
  then show ?case by simp
next
  case (snoc i "is")
  from snoc.prems obtain ys j n where ys: "rfold (\<lambda>i ys. rbind (list_index ys (ys ! i)) (\<lambda>j.
        rbind (py_int (ys ! j)) (\<lambda>n. Inr (ys[j := JInt n])))) is xs = Inr ys"
      and j: "list_index ys (ys ! i) = Inr j" "py_int (ys ! j) = Inr n" "zs = ys[j := JInt n]"
    by (auto simp: rfold_append res_simps)
  note IH = snoc.IH [OF ys]
  have "points_at_int zs i"
  proof -
    have "list_index zs (zs ! i) = Inr j"
    proof (cases "i = j")
      case True
      then show ?thesis using j list_index_int [OF j(1), of n zs] list_index_bound [OF j(1)] by simp
    next
      case False
      then show ?thesis using j list_index_length [OF j(1)] by simp
    qed
    moreover have "zs ! j = JInt n" using j list_index_bound [OF j(1)] by simp
    ultimately show ?thesis unfolding points_at_int_def by blast
  qed
  moreover have "\<forall>i \<in> set is. points_at_int zs i"
    using IH points_at_int_upd [OF _ j(2)] j(3) by blast
  ultimately show ?case using IH j(3) by simp
qed

lemma list_ints_fix:
  assumes "\<forall>i \<in> set is. points_at_int zs i"
  shows "rfold (\<lambda>i ys. rbind (list_index ys (ys ! i)) (\<lambda>j.
      rbind (py_int (ys ! j)) (\<lambda>n. Inr (ys[j := JInt n])))) is zs = Inr zs"
  using assms
proof (induction "is")
  case Nil
  then show ?case by simp
next
  case (Cons i "is")
  then obtain j n where "list_index zs (zs ! i) = Inr j" "zs ! j = JInt n"
    by (auto simp: points_at_int_def)
  moreover from this have "zs[j := JInt n] = zs" by (metis list_update_id)
  ultimately show ?case using Cons by simp
qed

lemma list_ints_idem: "list_ints xs = Inr ys \<Longrightarrow> list_ints ys = Inr ys"
  unfolding list_ints_def using list_ints_points [of "[0..<length xs]" xs ys] list_ints_fix [of "[0..<length ys]" ys]
  by simp

lemma hist_ints_idem: "hist_ints v = Inr w \<Longrightarrow> hist_ints w = Inr w"
  by (cases v rule: hist_ints.cases)
     (auto simp: res_simps dict_ints_idem list_ints_idem split: if_splits)

text \<open>What an accepted percentage is.\<close>

lemma int_field_JObj:
  assumes "int_field k v = Inr (w, n)"
  obtains d x where "v = JObj d" "map_of d k = Some x" "py_int x = Inr n" "w = JObj (AList.update k (JInt n) d)"
  using assms by (cases v) (auto simp: int_field_def res_simps split: option.splits)

lemma percentage_accepted:
  assumes "percentage_validate v = Inr w"
  obtains d x y num den where "v = JObj d" "map_of d ''numerator'' = Some x" "py_int x = Inr num"
    "map_of d ''denominator'' = Some y" "py_int y = Inr den" "0 \<le> num" "0 < den"
    "w = JObj (AList.update ''denominator'' (JInt den) (AList.update ''numerator'' (JInt num) d))"
proof -
  from assms obtain v1 num v2 den where 1: "int_field ''numerator'' v = Inr (v1, num)"
      and 2: "int_field ''denominator'' v1 = Inr (v2, den)" and r: "0 \<le> num" "0 < den" "w = v2"
    by (auto simp: percentage_validate_def res_simps split: if_splits)
  obtain d x where d: "v = JObj d" "map_of d ''numerator'' = Some x" "py_int x = Inr num"
      "v1 = JObj (AList.update ''numerator'' (JInt num) d)"
    by (rule int_field_JObj [OF 1])
  obtain d' y where d': "v1 = JObj d'" "map_of d' ''denominator'' = Some y" "py_int y = Inr den"
      "v2 = JObj (AList.update ''denominator'' (JInt den) d')"
    by (rule int_field_JObj [OF 2])
  show ?thesis using d d' r that by simp
qed

lemma percentage_idem: "percentage_validate v = Inr w \<Longrightarrow> percentage_validate w = Inr w"
  by (erule percentage_accepted)
     (simp add: percentage_validate_def int_field_def has_key_map_of AList.update_triv)

text \<open>
  Converting a value that has been converted changes nothing: for every data type whose
  validator converts in place, what \<open>validate\<close> returns is accepted again and returned
  unchanged. One save validates the same value once for every summary it writes.
\<close>

theorem validate_idempotent:
  assumes "validate t obj = Inr v" and "t \<noteq> TFloat"
  shows "validate t (obj\<lparr>to_value := v\<rparr>) = Inr v"
proof (cases t)
  case THistogram
  then show ?thesis using assms hist_ints_idem
    by (auto simp: validate_def histogram_validate_def split: sum.splits)
next
  case TSubinterval
  then show ?thesis using assms
    by (auto simp: validate_def subinterval_validate_def Let_def split: sum.splits option.splits)
qed (use assms percentage_idem in
  \<open>auto simp: validate_def integer_validate_def json_validate_def res_simps\<close>)

theorem validate_idempotent_witness:
  "validate THistogram (witness_obj\<lparr>to_value := JObj [(''1.5'', JInt 10)]\<rparr>) = Inr (JObj [(''1.5'', JInt 10)])"
proof -
  have "validate THistogram (witness_obj\<lparr>to_value := JObj [(''1.5'', JStr ''10'')]\<rparr>) = Inr (JObj [(''1.5'', JInt 10)])"
    by (simp add: validate_def histogram_validate_def dict_ints_def str_eval)
  from validate_idempotent [OF this] show ?thesis by simp
qed

text \<open>
  What the percentage validator accepts: an object whose two fields convert to integers,
  a numerator of at least 0 over a positive denominator, returned with both fields
  converted. Nothing else is accepted, so that no stored percentage divides by 0.
\<close>

theorem percentage_accepts_ratios:
  "percentage_validate v = Inr w \<longleftrightarrow>
   (\<exists>d x y num den. v = JObj d \<and> map_of d ''numerator'' = Some x \<and> py_int x = Inr num \<and>
      map_of d ''denominator'' = Some y \<and> py_int y = Inr den \<and> 0 \<le> num \<and> 0 < den \<and>
      w = JObj (AList.update ''denominator'' (JInt den) (AList.update ''numerator'' (JInt num) d)))"
  (is "_ \<longleftrightarrow> ?R")
proof
  assume "percentage_validate v = Inr w"
  then show ?R by (rule percentage_accepted) blast
next
  assume ?R
  then show "percentage_validate v = Inr w"
    by (auto simp: percentage_validate_def int_field_def has_key_map_of)
qed

subsection \<open>Floats\<close>

lemma trunc_rat_bounds: "0 \<le> r \<Longrightarrow> of_int (trunc_rat r) \<le> r \<and> r < of_int (trunc_rat r) + 1"
  by (simp add: trunc_rat_def) linarith

lemma float_scale: "true_div (DEFAULT_FLOAT_PRECISION * 1000) 1000 = Inr (Fin 10000)"
  using mkfloat_of_int [of 10000] by (simp add: true_div_def DEFAULT_FLOAT_PRECISION_def)

text \<open>
  C40. What a float is stored as: for a value \<open>r\<close> of at least \<open>1 / 10000\<close> whose scaled value is
  in range, the stored numerator over 10000 lies within one rounding error of \<open>r\<close> above it and
  less than a ten-thousandth and one rounding error below it. The validator truncates.
\<close>

theorem float_stored_value:
  assumes "py_float v = Inr (Fin r)" and "1 / 10000 \<le> r" and "r < 2 ^ 1000"
  shows "\<exists>n. float_validate v (DEFAULT_FLOAT_PRECISION * 1000) =
      Inr (JObj [(''numerator'', JInt n), (''denominator'', JInt 1)]) \<and>
    of_int n / 10000 \<le> r + r / 2 ^ 53 \<and> r - r / 2 ^ 53 < (of_int n + 1) / 10000"
proof -
  let ?y = "fl (r * 10000)"
  have big: "2 powi (-1022) \<le> \<bar>r * 10000\<bar>"
  proof -
    have "2 powi (-1022) \<le> (1 :: rat)" by (simp add: power_int_minus field_simps)
    then show ?thesis using assms(2) by (simp add: field_simps)
  qed
  have err: "\<bar>?y - r * 10000\<bar> \<le> r * 10000 / 2 ^ 53" using fl_error [OF big] assms(2) by simp
  have y0: "0 \<le> ?y"
  proof -
    have "r * 10000 / 2 ^ 53 \<le> r * 10000" using assms(2) by (simp add: field_simps)
    then show ?thesis using err by linarith
  qed
  have "r * 10000 + r * 10000 / 2 ^ 53 < 2 ^ 1024"
  proof -
    have "r * 10000 + r * 10000 / 2 ^ 53 = r * (10000 + 10000 / 2 ^ 53)" by (simp add: algebra_simps)
    also have "\<dots> < 2 ^ 1000 * (10000 + 10000 / 2 ^ 53)"
      using assms(3) by (intro mult_strict_right_mono) simp_all
    also have "\<dots> < 2 ^ 1024" by simp
    finally show ?thesis .
  qed
  then have "?y < 2 ^ 1024" using err by linarith
  then have "mkfloat (r * 10000) = Fin ?y" using y0 by (intro mkfloat_eval) simp_all
  then have "float_validate v (DEFAULT_FLOAT_PRECISION * 1000) =
      Inr (JObj [(''numerator'', JInt (trunc_rat ?y)), (''denominator'', JInt 1)])"
    using assms(1) by (simp add: float_validate_def float_scale fmul_def int_of_float_def)
  moreover have "of_int (trunc_rat ?y) \<le> ?y" "?y < of_int (trunc_rat ?y) + 1"
    using trunc_rat_bounds [OF y0] by simp_all
  moreover have "?y \<le> 10000 * (r + r / 2 ^ 53)" "10000 * (r - r / 2 ^ 53) \<le> ?y"
  proof -
    have "?y - r * 10000 \<le> r * 10000 / 2 ^ 53" "- (?y - r * 10000) \<le> r * 10000 / 2 ^ 53"
      using err unfolding abs_le_iff by blast+
    then show "?y \<le> 10000 * (r + r / 2 ^ 53)" "10000 * (r - r / 2 ^ 53) \<le> ?y"
      by (simp_all add: field_simps)
  qed
  ultimately have "of_int (trunc_rat ?y) / 10000 \<le> r + r / 2 ^ 53"
      "r - r / 2 ^ 53 < (of_int (trunc_rat ?y) + 1) / 10000"
    by (simp_all add: field_simps)
  then show ?thesis using \<open>float_validate v _ = _\<close> by blast
qed

text \<open>The double nearest \<open>0.0003\<close> lies just above it, and yet is stored as two ten-thousandths.\<close>

definition witness_float :: rat where
  "witness_float = fl (3 / 10000)"

lemma witness_float_eq: "witness_float = 5534023222112865 / 2 ^ 64"
  unfolding witness_float_def
  by (subst fl_eval [of "-12" _ 5534023222112865]) (auto simp: power_int_minus intro: round_even_eval)

theorem float_stored_value_witness:
  "\<exists>n. float_validate (JFloat (Fin witness_float)) (DEFAULT_FLOAT_PRECISION * 1000) =
      Inr (JObj [(''numerator'', JInt n), (''denominator'', JInt 1)]) \<and>
    of_int n / 10000 \<le> witness_float + witness_float / 2 ^ 53 \<and>
    witness_float - witness_float / 2 ^ 53 < (of_int n + 1) / 10000"
proof (rule float_stored_value)
  show "1 / 10000 \<le> witness_float" "witness_float < 2 ^ 1000"
    unfolding witness_float_eq by simp_all
qed simp

subsection \<open>Merging histograms\<close>

lemma hist_merge_simps [simp]:
  "hist_merge [] agg = agg"
  "hist_merge ((k, n) # h) agg =
     hist_merge h (AList.update k (case map_of agg k of Some m \<Rightarrow> m + n | None \<Rightarrow> n) agg)"
  by (simp_all add: hist_merge_def)

definition count_of :: "(string \<times> int) list \<Rightarrow> string \<Rightarrow> int" where
  "count_of h k = (case map_of h k of Some n \<Rightarrow> n | None \<Rightarrow> 0)"

definition hist_total :: "(string \<times> int) list \<Rightarrow> int" where
  "hist_total h = sum_list (map snd h)"

lemma hist_total_update:
  "dict_wf agg \<Longrightarrow> hist_total (AList.update k (count_of agg k + n) agg) = hist_total agg + n"
  by (induction agg) (auto simp: hist_total_def count_of_def)

lemma hist_merge_all:
  assumes "dict_wf h" and "dict_wf agg"
  shows "dict_wf (hist_merge h agg) \<and> hist_total (hist_merge h agg) = hist_total h + hist_total agg \<and>
    (\<forall>k. count_of (hist_merge h agg) k = count_of h k + count_of agg k)"
  using assms
proof (induction h arbitrary: agg)
  case Nil
  then show ?case by (simp add: hist_total_def count_of_def)
next
  case (Cons kn h)
  obtain k n where kn: "kn = (k, n)" by (cases kn)
  let ?agg = "AList.update k (count_of agg k + n) agg"
  have m: "hist_merge (kn # h) agg = hist_merge h ?agg"
    by (simp add: kn count_of_def split: option.splits)
  have h: "dict_wf h" "map_of h k = None" using Cons.prems(1) kn by (auto simp: map_of_eq_None_iff)
  note IH = Cons.IH [OF h(1) dict_wf_update [OF Cons.prems(2)], of k "count_of agg k + n"]
  have "count_of (kn # h) k' + count_of agg k' = count_of h k' + count_of ?agg k'" for k'
    using h(2) by (simp add: kn count_of_def split: option.splits)
  then show ?case
    using IH hist_total_update [OF Cons.prems(2), of k n]
    by (simp add: m) (simp add: kn hist_total_def)
qed

text \<open>
  Merging a histogram into an aggregated one loses and invents nothing: every bucket of
  the result holds the sum of the two buckets (a missing bucket counting 0), the sample
  sizes add up, and no bucket appears twice.
\<close>

theorem hist_merge_adds:
  assumes "dict_wf h" and "dict_wf agg"
  shows "dict_wf (hist_merge h agg) \<and> hist_total (hist_merge h agg) = hist_total h + hist_total agg \<and>
    (\<forall>k. count_of (hist_merge h agg) k = count_of h k + count_of agg k)"
  by (rule hist_merge_all [OF assms])

theorem hist_merge_adds_witness:
  "count_of (hist_merge [(''1.0'', 2), (''2.0'', 3)] [(''2.0'', 4), (''3.0'', 1)]) ''2.0'' = 7"
  using hist_merge_adds [of "[(''1.0'', 2), (''2.0'', 3)]" "[(''2.0'', 4), (''3.0'', 1)]"]
  by (simp add: count_of_def)

end
