(* ===== verification/Time_Series.thy ===== *)
theory Time_Series
  imports Validator_Facts "HOL-Library.List_Lexorder" "HOL-Library.Char_ord"
begin

section \<open>Writing and reading time series\<close>

text \<open>
  \<open>esmond/api/perfsonar/api_v2.py\<close>: \<open>PSTimeSeriesObject.query_database\<close>, \<open>database_write\<close> and
  \<open>save\<close>, the bulk PUT of \<open>ArchiveViewset.update\<close>, and the POST and GET of
  \<open>TimeSeriesViewset\<close> with its serializer. The state is the record \<open>archive\<close>: the state of
  \<open>CASSANDRA_DB\<close> and the rows of the table \<open>ps_event_types\<close>, which the code reads and updates
  with the SQL statements translated here. What a request did to the batches of the driver
  before it failed stays done, so the writers return the new state along with the exception.

  Requests are their decoded JSON, the keyword arguments of the URL and the query parameters;
  \<open>time.time()\<close>, the paginator and the URL reversal are arguments.
\<close>

subsection \<open>Queries\<close>

fun EVENT_TYPE_CF_MAP :: "data_type \<Rightarrow> colfam" where
  "EVENT_TYPE_CF_MAP THistogram = RawCF"
| "EVENT_TYPE_CF_MAP TInteger = RateCF"
| "EVENT_TYPE_CF_MAP TJson = RawCF"
| "EVENT_TYPE_CF_MAP TPercentage = AggCF"
| "EVENT_TYPE_CF_MAP TSubinterval = RawCF"
| "EVENT_TYPE_CF_MAP TFloat = AggCF"

definition col_family :: "data_type \<Rightarrow> string \<Rightarrow> colfam" where
  "col_family t summary_type =
     (case summary_cf t summary_type of Some cf \<Rightarrow> cf | None \<Rightarrow> EVENT_TYPE_CF_MAP t)"

definition py_freq :: "json \<Rightarrow> int option res" where
  "py_freq f = (case f of
     JNull \<Rightarrow> Inr None
   | JInt n \<Rightarrow> Inr (Some n)
   | JStr s \<Rightarrow> if s = [] then Inl Unmodelled else rbind (py_int (JStr s)) (\<lambda>n. Inr (Some n))
   | _ \<Rightarrow> Inl Unmodelled)"

definition query_database ::
  "'d pycassa \<Rightarrow> string \<Rightarrow> string \<Rightarrow> string \<Rightarrow> json \<Rightarrow> int \<Rightarrow> int option \<Rightarrow> int option \<Rightarrow> int \<Rightarrow> 'd cass
     \<Rightarrow> json dict list res" where
  "query_database P metadata_key event_type summary_type freq begin_time end_time max_results now st =
     rbind (if summary_type \<noteq> ''base''
            then (case map_of SUMMARY_TYPES summary_type of None \<Rightarrow> Inl KeyError | Some s \<Rightarrow> Inr [s])
            else Inr []) (\<lambda>suffix.
     let path = row_prefix event_type @ [metadata_key] @ suffix in
     rbind (event_type_config event_type) (\<lambda>query_type.
     rbind (case map_of SUMMARY_TYPES summary_type of None \<Rightarrow> Inl KeyError | Some s \<Rightarrow> Inr s) (\<lambda>s.
     rbind (py_freq freq) (\<lambda>fr.
     let lo = begin_time * 1000;
         hi = (case end_time of None \<Rightarrow> (now + 3600) * 1000 | Some e \<Rightarrow> e * 1000) in
     case col_family query_type s of
       AggCF \<Rightarrow> query_aggregation_timerange P path fr lo hi ''average'' max_results st
     | RateCF \<Rightarrow> query_baserate_timerange P path fr lo hi ''delta'' max_results st
     | RawCF \<Rightarrow> query_raw_data P path fr lo hi max_results st
     | StatCF \<Rightarrow> Inl (ParseError ''Requested data does not map to a known column-family'')))))"

subsection \<open>Writing one object\<close>

definition value_int :: "json \<Rightarrow> string \<Rightarrow> int res" where
  "value_int v k = rbind (py_getitem v k) json_count"

text \<open>The final insert: the container for the column family, and the call that stores it.\<close>

definition store_value :: "'d pycassa \<Rightarrow> colfam \<Rightarrow> ts_object \<Rightarrow> 'd cass \<Rightarrow> 'd cass res" where
  "store_value P cf obj st =
     rbind (get_datetime obj) (\<lambda>ts. rbind (base_freq obj) (\<lambda>bf.
     case cf of
       RateCF \<Rightarrow> rbind (json_count (to_value obj)) (\<lambda>n.
         update_rate_bin P \<lparr>c_path = datapath obj, c_ts = ts, c_val = n, c_freq = obj_freq obj\<rparr> st)
     | AggCF \<Rightarrow> rbind (value_int (to_value obj) ''numerator'') (\<lambda>num.
         rbind (value_int (to_value obj) ''denominator'') (\<lambda>den.
         let agg = \<lparr>c_path = datapath obj, c_ts = ts, c_val = num, c_freq = obj_freq obj,
                    ab_base_freq = Some bf, ab_count = den\<rparr> in
         rbind (cf_insert P AggCF (get_key agg) (ts_to_jstime agg)
                  (Super [(St ''val'', c_val agg), (St (show_int bf), ab_count agg)]) (cdb st))
           (\<lambda>d. Inr (st\<lparr>cdb := d\<rparr>))))
     | RawCF \<Rightarrow> set_raw_data P \<lparr>c_path = datapath obj, c_ts = ts, c_val = to_value obj, c_freq = obj_freq obj\<rparr> st
     | StatCF \<Rightarrow> Inr st))"

definition summarise ::
  "data_type \<Rightarrow> 'd pycassa \<Rightarrow> 'd cass \<Rightarrow> ts_object \<Rightarrow> hist_cache \<Rightarrow> (ts_object \<times> hist_cache) res" where
  "summarise t P st obj cache =
     (if to_summary_type obj = ''aggregation'' then aggregation t P st obj cache
      else if to_summary_type obj = ''average'' then rbind (average t obj) (\<lambda>o'. Inr (o', cache))
      else if to_summary_type obj = ''statistics'' then rbind (statistics obj cache) (\<lambda>o'. Inr (o', cache))
      else Inr (obj, cache))"

definition database_write ::
  "'d pycassa \<Rightarrow> ts_object \<Rightarrow> hist_cache \<Rightarrow> 'd cass \<Rightarrow> (hist_cache \<times> 'd cass) res" where
  "database_write P obj cache st =
     rbind (event_type_config (to_event_type obj)) (\<lambda>t.
     if to_summary_type obj \<noteq> ''base'' \<and> to_summary_type obj \<notin> set (ALLOWED_SUMMARIES t) then Inr (cache, st)
     else rbind (validate t obj) (\<lambda>v.
       rbind (summarise t P st (obj\<lparr>to_value := v\<rparr>) cache) (\<lambda>(obj', cache').
       rbind (store_value P (col_family t (to_summary_type obj)) obj' st) (\<lambda>st'. Inr (cache', st')))))"

subsection \<open>Saving an object with its summaries\<close>

record event_type_row =
  et_metadata_key :: string
  et_event_type :: string
  et_summary_type :: string
  et_summary_window :: int
  et_time_updated :: "datetime option"

record 'd archive =
  ar_cass :: "'d cass"
  ar_event_types :: "event_type_row list"

text \<open>\<open>SELECT ... WHERE event_type = ... AND metadata_key = ... ORDER BY summary_type\<close>.\<close>

definition select_summaries :: "event_type_row list \<Rightarrow> string \<Rightarrow> string \<Rightarrow> (string \<times> int) list" where
  "select_summaries rows event_type metadata_key =
     map (\<lambda>r. (et_summary_type r, et_summary_window r))
       (sort_by (\<lambda>r s. et_summary_type r < et_summary_type s)
         (filter (\<lambda>r. et_event_type r = event_type \<and> et_metadata_key r = metadata_key) rows))"

definition update_time :: "datetime \<Rightarrow> string \<Rightarrow> string \<Rightarrow> event_type_row list \<Rightarrow> event_type_row list" where
  "update_time now event_type metadata_key rows =
     map (\<lambda>r. if et_event_type r = event_type \<and> et_metadata_key r = metadata_key
              then r\<lparr>et_time_updated := Some now\<rparr> else r) rows"

text \<open>The loop over the selected summaries; it keeps what was written before an exception.\<close>

fun write_summaries ::
  "'d pycassa \<Rightarrow> ts_object \<Rightarrow> (string \<times> int) list \<Rightarrow> hist_cache \<Rightarrow> 'd cass \<Rightarrow> exn option \<times> 'd cass" where
  "write_summaries P obj [] cache st = (None, st)"
| "write_summaries P obj ((stype, window) # ets) cache st =
     (case rbind (obj_time obj) (\<lambda>t.
        database_write P (obj\<lparr>to_ts := t, to_summary_type := stype, to_summary_window := window\<rparr>) cache st) of
        Inl e \<Rightarrow> (Some e, st)
      | Inr (cache', st') \<Rightarrow> write_summaries P obj ets cache' st')"

definition check_conflict :: "'d pycassa \<Rightarrow> ts_object \<Rightarrow> 'd cass \<Rightarrow> unit res" where
  "check_conflict P obj st =
     rbind (event_type_config (to_event_type obj)) (\<lambda>t.
     if EVENT_TYPE_CF_MAP t = RawCF then Inr ()
     else rbind (rbind (obj_time obj) py_int) (\<lambda>s.
       rbind (query_database P (to_metadata_key obj) (to_event_type obj) ''base'' JNull s (Some s) (Some 1) 0 st)
         (\<lambda>existing. if existing \<noteq> [] then Inl (ConflictException
              (''Time series value already exists with event type '' @ to_event_type obj @ '' at time '' @ show_int s))
            else Inr ())))"

definition save :: "'d pycassa \<Rightarrow> datetime \<Rightarrow> ts_object \<Rightarrow> 'd archive \<Rightarrow> exn option \<times> 'd archive" where
  "save P now obj ar =
     (case check_conflict P obj (ar_cass ar) of
        Inl e \<Rightarrow> (Some e, ar)
      | Inr _ \<Rightarrow>
         (case write_summaries P obj
             (select_summaries (ar_event_types ar) (to_event_type obj) (to_metadata_key obj)) [] (ar_cass ar) of
            (Some e, st) \<Rightarrow> (Some e, ar\<lparr>ar_cass := st\<rparr>)
          | (None, st) \<Rightarrow> (None, ar\<lparr>ar_cass := st, ar_event_types :=
              update_time now (to_event_type obj) (to_metadata_key obj) (ar_event_types ar)\<rparr>)))"

definition new_ts_object :: "json \<Rightarrow> json \<Rightarrow> string \<Rightarrow> string \<Rightarrow> ts_object" where
  "new_ts_object ts v metadata_key event_type =
     \<lparr>to_ts = ts, to_value = v, to_metadata_key = metadata_key, to_event_type = event_type,
      to_summary_type = ''base'', to_summary_window = 0\<rparr>"

subsection \<open>Requests\<close>

record request =
  rq_content_type :: string
  rq_body :: string
  rq_json :: "json option"
  rq_params :: "string dict"

text \<open>The checks every POST and PUT makes before it looks at the data.\<close>

definition decode_request :: "request \<Rightarrow> json res" where
  "decode_request rq =
     (if \<not> prefix ''application/json'' (rq_content_type rq) then
        Inl (ParseError ''Must post content-type: application/json header and json-formatted payload.'')
      else if rq_body rq = [] then Inl (ParseError ''No data payload POSTed.'')
      else case rq_json rq of
          None \<Rightarrow> Inl (ParseError (''POST data payload could not be decoded to a JSON object - given: '' @ rq_body rq))
        | Some j \<Rightarrow> Inr j)"

text \<open>A key of a JSON item that must be there.\<close>

definition required :: "string \<Rightarrow> string \<Rightarrow> json \<Rightarrow> json res" where
  "required k msg item =
     rbind (py_contains k item) (\<lambda>b. if b then py_getitem item k else Inl (ParseError msg))"

subsection \<open>The bulk PUT\<close>

text \<open>\<open>obj.save()\<close> of an object whose event type is any JSON value.\<close>

definition save_value :: "'d pycassa \<Rightarrow> datetime \<Rightarrow> string \<Rightarrow> json \<Rightarrow> json \<Rightarrow> json \<Rightarrow> 'd archive \<Rightarrow> exn option \<times> 'd archive" where
  "save_value P now metadata_key ts event_type v ar = (case event_type of
     JStr et \<Rightarrow> save P now (new_ts_object ts v metadata_key et) ar
   | JList _ \<Rightarrow> (Some TypeError, ar)
   | JObj _ \<Rightarrow> (Some TypeError, ar)
   | _ \<Rightarrow> (Some KeyError, ar))"

definition at_position :: "nat \<Rightarrow> nat \<Rightarrow> string" where
  "at_position i j = ''at data item '' @ show_nat i @ '' in value '' @ show_nat j"

fun bulk_values ::
  "'d pycassa \<Rightarrow> datetime \<Rightarrow> string \<Rightarrow> json \<Rightarrow> nat \<Rightarrow> nat \<Rightarrow> json list \<Rightarrow> 'd archive \<Rightarrow> exn option \<times> 'd archive" where
  "bulk_values P now mk ts i j [] ar = (None, ar)"
| "bulk_values P now mk ts i j (item # items) ar =
     (case rbind (py_contains ''event-type'' item) (\<lambda>b.
        if \<not> b then Inl (ParseError (''Missing event-type field '' @ at_position i j @ '' ''))
        else rbind (required ''val'' (''Missing val field '' @ at_position i j @ '' '') item) (\<lambda>v.
        rbind (py_getitem item ''event-type'') (\<lambda>et. Inr (et, v)))) of
        Inl e \<Rightarrow> (Some e, ar)
      | Inr (et, v) \<Rightarrow>
         (case save_value P now mk ts et v ar of
            (Some e, ar') \<Rightarrow> (Some e, ar')
          | (None, ar') \<Rightarrow> bulk_values P now mk ts i (Suc j) items ar'))"

fun bulk_items ::
  "'d pycassa \<Rightarrow> datetime \<Rightarrow> string \<Rightarrow> nat \<Rightarrow> json list \<Rightarrow> 'd archive \<Rightarrow> exn option \<times> 'd archive" where
  "bulk_items P now mk i [] ar = (None, ar)"
| "bulk_items P now mk i (item # items) ar =
     (let pos = '' in provided data list at position '' @ show_nat i in
      case rbind (required ''ts'' (''Missing ts field'' @ pos) item) (\<lambda>ts.
        rbind (required ''val'' (''Missing val field'' @ pos) item) (\<lambda>v.
        case v of JList vals \<Rightarrow> Inr (ts, vals)
                | _ \<Rightarrow> Inl (ParseError (quoted ''val'' @ '' field must be an array'' @ pos)))) of
        Inl e \<Rightarrow> (Some e, ar)
      | Inr (ts, vals) \<Rightarrow>
         (case bulk_values P now mk ts i 1 vals ar of
            (Some e, ar') \<Rightarrow> (Some e, ar')
          | (None, ar') \<Rightarrow> bulk_items P now mk (Suc i) items ar'))"

definition flush_archive :: "'d pycassa \<Rightarrow> 'd archive \<Rightarrow> exn option \<times> 'd archive" where
  "flush_archive P ar = (case flush P (ar_cass ar) of
     Inl e \<Rightarrow> (Some e, ar) | Inr st \<Rightarrow> (None, ar\<lparr>ar_cass := st\<rparr>))"

definition bulk_data :: "request \<Rightarrow> json list res" where
  "bulk_data rq =
     rbind (decode_request rq) (\<lambda>request_data.
     rbind (required ''data'' (''Request must contain '' @ quoted ''data'' @ '' element'') request_data) (\<lambda>data.
     case data of JList items \<Rightarrow> Inr items
       | _ \<Rightarrow> Inl (ParseError (''The '' @ quoted ''data'' @ '' element must be an array''))))"

definition archive_update ::
  "'d pycassa \<Rightarrow> datetime \<Rightarrow> string \<Rightarrow> request \<Rightarrow> 'd archive \<Rightarrow> exn option \<times> 'd archive" where
  "archive_update P now metadata_key rq ar =
     (case bulk_data rq of
        Inl e \<Rightarrow> (Some e, ar)
      | Inr items \<Rightarrow>
         (case bulk_items P now metadata_key 1 items ar of
            (Some e, ar') \<Rightarrow> (Some e, ar')
          | (None, ar') \<Rightarrow> flush_archive P ar'))"

subsection \<open>The endpoint of one series\<close>

text \<open>POST: the checks in order, then the save and the flush.\<close>

definition check_create :: "string dict \<Rightarrow> request \<Rightarrow> ts_object res" where
  "check_create kwargs rq =
     rbind (decode_request rq) (\<lambda>request_data.
     rbind (py_contains ''ts'' request_data) (\<lambda>has_ts.
     if \<not> has_ts then Inl (ParseError ''Required field ts not provided in request'') else
     rbind (catch_all (ParseError ''Time must be a unix timestamp'') (rbind (py_getitem request_data ''ts'') py_int)) (\<lambda>_.
     rbind (py_contains ''val'' request_data) (\<lambda>has_val.
     if \<not> has_val then Inl (ParseError ''Required field val not provided in request'') else
     rbind (py_getitem request_data ''ts'') (\<lambda>ts. rbind (py_getitem request_data ''val'') (\<lambda>v.
     case map_of kwargs ''metadata_key'' of None \<Rightarrow> Inl (ParseError ''No metadata key provided in URL'') | Some mk \<Rightarrow>
     (case map_of kwargs ''event_type'' of None \<Rightarrow> Inl (ParseError ''event_type must be defined in URL.'') | Some et \<Rightarrow>
      if \<not> has_key et EVENT_TYPE_CONFIG then Inl (ParseError (''Invalid event type '' @ et))
      else (case map_of kwargs ''summary_type'' of
          None \<Rightarrow> Inr (new_ts_object ts v mk et)
        | Some s \<Rightarrow>
            if \<not> has_key s SUMMARY_TYPES then Inl (ParseError (''Invalid summary type '' @ s))
            else if s \<noteq> ''base'' then
              Inl (ParseError (''Only base summary-type allowed for writing. Cannot use '' @ s))
            else Inr (new_ts_object ts v mk et)))))))))"

definition timeseries_create ::
  "'d pycassa \<Rightarrow> datetime \<Rightarrow> string dict \<Rightarrow> request \<Rightarrow> 'd archive \<Rightarrow> exn option \<times> 'd archive" where
  "timeseries_create P now kwargs rq ar =
     (case check_create kwargs rq of
        Inl e \<Rightarrow> (Some e, ar)
      | Inr obj \<Rightarrow> (case save P now obj ar of
          (Some e, ar') \<Rightarrow> (Some e, ar') | (None, ar') \<Rightarrow> flush_archive P ar'))"

text \<open>The serializer: seconds instead of milliseconds, and only the time and the value.\<close>

fun div_1e3 :: "json \<Rightarrow> int res" where
  "div_1e3 (JInt n) = rbind (float_of_int n) (\<lambda>x. rbind (fdiv x (Fin 1000)) int_of_float)"
| "div_1e3 (JFloat x) = rbind (fdiv x (Fin 1000)) int_of_float"
| "div_1e3 (JBool b) = Inr 0"
| "div_1e3 _ = Inl TypeError"

definition serialize_datum :: "json dict \<Rightarrow> json dict res" where
  "serialize_datum obj =
     rbind (case map_of obj ''ts'' of None \<Rightarrow> Inr obj
            | Some ts \<Rightarrow> rbind (div_1e3 ts) (\<lambda>n. Inr (AList.update ''ts'' (JInt n) obj)))
       (\<lambda>o1. Inr (AList.delete ''cf'' (AList.delete ''is_valid'' o1)))"

end
