(* ===== verification/Api_Filters.thy ===== *)
theory Api_Filters
  imports Time_Series
begin

section \<open>Helpers of the API views\<close>

text \<open>
  \<open>UtilMixin\<close>, \<open>FilterUtilMixin\<close>, \<open>PSPaginator\<close> and \<open>IpAuth\<close> of
  \<open>esmond/api/perfsonar/api_v2.py\<close>: renaming of dictionary keys, the listing of event types,
  time filters, host names and authentication by address. Query parameters are a dictionary
  of strings; \<open>getaddrinfo\<close>, \<open>time.time()\<close>, the user table and the links of the REST
  framework's paginator are arguments.
\<close>

subsection \<open>Dictionaries\<close>

text \<open>Every key in turn is popped and set again under its new name.\<close>

definition rename_step :: "(string \<Rightarrow> string) \<Rightarrow> string \<Rightarrow> 'v dict \<Rightarrow> 'v dict" where
  "rename_step f k d = (case map_of d k of None \<Rightarrow> d | Some v \<Rightarrow> AList.update (f k) v (AList.delete k d))"

definition rename_keys :: "(string \<Rightarrow> string) \<Rightarrow> 'v dict \<Rightarrow> 'v dict" where
  "rename_keys f d = fold (rename_step f) (map fst d) d"

definition undash_dict :: "'v dict \<Rightarrow> 'v dict" where
  "undash_dict = rename_keys (replace_char (CHR ''-'') ''_'')"

definition to_dash_dict :: "'v dict \<Rightarrow> 'v dict" where
  "to_dash_dict = rename_keys (replace_char (CHR ''_'') ''-'')"

definition datetime_to_ts :: "datetime option \<Rightarrow> json" where
  "datetime_to_ts dt = (case dt of None \<Rightarrow> JNull | Some d \<Rightarrow> JInt (timegm d))"

subsection \<open>The list of event types\<close>

record et_entry =
  ee_time_updated :: "datetime option"
  ee_summaries :: "(string \<times> int \<times> datetime option) list"

definition add_event_type :: "event_type_row \<Rightarrow> et_entry dict \<Rightarrow> et_entry dict" where
  "add_event_type et et_map =
     (let e = (case map_of et_map (et_event_type et) of
                 None \<Rightarrow> \<lparr>ee_time_updated = None, ee_summaries = []\<rparr> | Some e \<Rightarrow> e)
      in AList.update (et_event_type et)
           (if et_summary_type et = ''base'' then e\<lparr>ee_time_updated := et_time_updated et\<rparr>
            else e\<lparr>ee_summaries := ee_summaries e @ [(et_summary_type et, et_summary_window et, et_time_updated et)]\<rparr>)
           et_map)"

definition summary_entry :: "string \<Rightarrow> string \<times> int \<times> datetime option \<Rightarrow> json res" where
  "summary_entry k a = (case a of (stype, window, updated) \<Rightarrow>
     (case map_of INVERSE_SUMMARY_TYPES stype of
        None \<Rightarrow> Inl KeyError
      | Some plural \<Rightarrow> Inr (JObj (to_dash_dict
          [(''uri'', JStr (k @ ''/'' @ plural @ ''/'' @ show_int window)), (''summary_type'', JStr stype),
           (''summary_window'', JStr (show_int window)), (''time_updated'', datetime_to_ts updated)]))))"

definition event_type_entry :: "string \<times> et_entry \<Rightarrow> json dict res" where
  "event_type_entry kv = (case kv of (k, v) \<Rightarrow>
     rbind (rmap (summary_entry k) (ee_summaries v)) (\<lambda>summaries.
       Inr (to_dash_dict [(''base_uri'', JStr (k @ ''/base'')), (''event_type'', JStr k),
         (''time_updated'', datetime_to_ts (ee_time_updated v)), (''summaries'', JList summaries)])))"

definition build_event_type_list :: "event_type_row list \<Rightarrow> json dict list res" where
  "build_event_type_list queryset = rmap event_type_entry (fold add_event_type queryset [])"

text \<open>Prefixing the URIs of the entries with the path of their metadata.\<close>

definition prefix_str :: "string \<Rightarrow> string \<Rightarrow> json dict \<Rightarrow> json dict res" where
  "prefix_str path k d = (case map_of d k of
     Some (JStr s) \<Rightarrow> Inr (AList.update k (JStr (path @ s)) d)
   | Some _ \<Rightarrow> Inl TypeError
   | None \<Rightarrow> Inl KeyError)"

definition prefix_summary :: "string \<Rightarrow> json \<Rightarrow> json res" where
  "prefix_summary path s = (case s of
     JObj d \<Rightarrow> rbind (prefix_str path ''uri'' d) (\<lambda>d'. Inr (JObj d')) | _ \<Rightarrow> Inl TypeError)"

definition add_uris :: "string \<Rightarrow> json dict \<Rightarrow> json dict res" where
  "add_uris path et =
     rbind (prefix_str path ''base-uri'' et) (\<lambda>et1.
     case map_of et1 ''summaries'' of
       Some (JList ss) \<Rightarrow> rbind (rmap (prefix_summary path) ss) (\<lambda>ss'.
         Inr (AList.update ''summaries'' (JList ss') et1))
     | Some _ \<Rightarrow> Inl TypeError
     | None \<Rightarrow> Inl KeyError)"

subsection \<open>Host names\<close>

datatype family = AF_INET | AF_INET6

text \<open>\<open>getaddrinfo\<close>: the addresses found, none when it raises.\<close>

definition lookup_hostname :: "(string \<Rightarrow> family \<Rightarrow> string list) \<Rightarrow> string \<Rightarrow> family \<Rightarrow> string option" where
  "lookup_hostname resolve host family = (case resolve host family of [] \<Rightarrow> None | a # _ \<Rightarrow> Some a)"

definition prepare_ip :: "(string \<Rightarrow> family \<Rightarrow> string list) \<Rightarrow> string \<Rightarrow> string option \<Rightarrow> string list res" where
  "prepare_ip resolve host dns_match_rule =
     (let rule = (case dns_match_rule of None \<Rightarrow> ''v4v6'' | Some r \<Rightarrow> r);
          v4 = lookup_hostname resolve host AF_INET;
          v6 = lookup_hostname resolve host AF_INET6 in
      rbind
        (if rule = ''only-v6'' then Inr (None, v6)
         else if rule = ''only-v4'' then Inr (v4, None)
         else if rule = ''prefer-v6'' then Inr (if v6 = None then v4 else None, v6)
         else if rule = ''prefer-v4'' then Inr (v4, if v4 = None then v6 else None)
         else if rule = ''v4v6'' then Inr (v4, v6)
         else Inl (ParseError (''Invalid dns-match-rule parameter '' @ rule)))
        (\<lambda>(addr4, addr6).
           let addrs = filter (\<lambda>a. a \<noteq> []) (map the (filter (\<lambda>a. a \<noteq> None) [addr4, addr6])) in
           if addrs = [] then Inl (ParseError (''Unable to find address for host '' @ host))
           else Inr addrs))"

subsection \<open>Time filters\<close>

definition valid_time :: "string \<Rightarrow> int res" where
  "valid_time t = catch_value_error (ParseError ''Time parameter must be an integer'') (py_int (JStr t))"

record time_filters =
  tf_begin :: int
  tf_end :: "int option"
  tf_has_filters :: bool

text \<open>The branches in the order of the code; the parameters given decide which one is taken.\<close>

definition select_times :: "int \<Rightarrow> string dict \<Rightarrow> (int \<times> int option \<times> bool) res" where
  "select_times now params =
     (case (map_of params ''time'', map_of params ''time-start'', map_of params ''time-end'', map_of params ''time-range'') of
        (Some t, _, _, _) \<Rightarrow> rbind (valid_time t) (\<lambda>b. Inr (b, Some b, True))
      | (None, Some s, Some e, _) \<Rightarrow> rbind (valid_time s) (\<lambda>b. rbind (valid_time e) (\<lambda>f. Inr (b, Some f, True)))
      | (None, Some s, None, Some r) \<Rightarrow> rbind (valid_time s) (\<lambda>b. rbind (valid_time r) (\<lambda>n. Inr (b, Some (b + n), True)))
      | (None, None, Some e, Some r) \<Rightarrow> rbind (valid_time e) (\<lambda>f. rbind (valid_time r) (\<lambda>n. Inr (f - n, Some f, True)))
      | (None, Some s, None, None) \<Rightarrow> rbind (valid_time s) (\<lambda>b. Inr (b, None, True))
      | (None, None, Some e, None) \<Rightarrow> rbind (valid_time e) (\<lambda>f. Inr (0, Some f, True))
      | (None, None, None, Some r) \<Rightarrow> rbind (valid_time r) (\<lambda>n. Inr (now - n, None, True))
      | (None, None, None, None) \<Rightarrow> Inr (0, Some now, False))"

definition handle_time_filters :: "int \<Rightarrow> string dict \<Rightarrow> time_filters res" where
  "handle_time_filters now params =
     rbind (select_times now params) (\<lambda>(b, e, has).
     if (case e of None \<Rightarrow> False | Some f \<Rightarrow> f < b)
     then Inl (ParseError ''Requested start time must be less than end time'')
     else Inr \<lparr>tf_begin = b, tf_end = e, tf_has_filters = has\<rparr>)"

definition valid_summary_window :: "string \<Rightarrow> string res" where
  "valid_summary_window sw =
     rbind (catch_value_error (ParseError ''Summary window parameter must be an integer'') (py_int (JStr sw)))
       (\<lambda>n. Inr (show_int n))"

subsection \<open>Page links\<close>

definition link_to :: "string \<Rightarrow> string \<Rightarrow> string" where
  "link_to url rel = ''<'' @ url @ ''>; rel='' @ [CHR 0x22] @ rel @ [CHR 0x22]"

definition link_header :: "string option \<Rightarrow> string option \<Rightarrow> string dict" where
  "link_header next_url previous_url =
     (let link = (case (next_url, previous_url) of
          (Some n, Some p) \<Rightarrow> link_to n ''next'' @ '', '' @ link_to p ''prev''
        | (Some n, None) \<Rightarrow> link_to n ''next''
        | (None, Some p) \<Rightarrow> link_to p ''prev''
        | (None, None) \<Rightarrow> [])
      in if link = [] then [] else [(''Link'', link)])"

text \<open>The metadata list carries the details of its page in its first item.\<close>

definition opt_str :: "string option \<Rightarrow> json" where
  "opt_str s = (case s of None \<Rightarrow> JNull | Some u \<Rightarrow> JStr u)"

definition metadata_page :: "int \<Rightarrow> string option \<Rightarrow> string option \<Rightarrow> json dict list \<Rightarrow> json dict list \<times> string dict" where
  "metadata_page count next_url previous_url data =
     ((case data of [] \<Rightarrow> []
       | d # ds \<Rightarrow> AList.update ''metadata-next-page'' (opt_str next_url)
           (AList.update ''metadata-previous-page'' (opt_str previous_url)
             (AList.update ''metadata-count-total'' (JInt count) d)) # ds),
      link_header next_url previous_url)"

subsection \<open>Authentication by address\<close>

text \<open>The user table gives the users of the subnets of an address, or fails with a DatabaseError.\<close>

definition ip_authenticate :: "(string \<Rightarrow> 'u list option) \<Rightarrow> string dict \<Rightarrow> 'u option res" where
  "ip_authenticate users meta =
     rbind (case map_of meta ''HTTP_X_FORWARDED_FOR'' of
              Some (c # cs) \<Rightarrow> Inr (c # cs)
            | _ \<Rightarrow> (case map_of meta ''REMOTE_ADDR'' of None \<Rightarrow> Inl KeyError | Some ip \<Rightarrow> Inr ip))
       (\<lambda>remoteip. Inr (case users remoteip of Some (u # _) \<Rightarrow> Some u | _ \<Rightarrow> None))"

subsection \<open>Renaming keys\<close>

lemma delete_id: "k \<notin> set (map fst d) \<Longrightarrow> AList.delete k d = d"
  by (induction d) auto

lemma update_new: "k \<notin> set (map fst d) \<Longrightarrow> AList.update k v d = d @ [(k, v)]"
  by (induction d) auto

text \<open>A renaming that maps no key onto another one renames every key in place.\<close>

definition no_clash :: "(string \<Rightarrow> string) \<Rightarrow> string set \<Rightarrow> bool" where
  "no_clash f K \<longleftrightarrow> (\<forall>k \<in> K. \<forall>k' \<in> K. (f k = f k' \<or> f k = k') \<longrightarrow> k = k')"

lemma rename_keys_map:
  assumes "dict_wf d" and "no_clash f (set (map fst d))"
  shows "rename_keys f d = map (\<lambda>(k, v). (f k, v)) d"
proof -
  have "fold (rename_step f) (map fst ys) (ys @ map (\<lambda>(k, v). (f k, v)) xs) = map (\<lambda>(k, v). (f k, v)) (xs @ ys)"
    if "d = xs @ ys" for xs ys
    using that
  proof (induction ys arbitrary: xs)
    case (Cons kv ys)
    obtain k v where kv: "kv = (k, v)" by (cases kv)
    have clash: "\<And>k k'. k \<in> set (map fst d) \<Longrightarrow> k' \<in> set (map fst d) \<Longrightarrow> f k = f k' \<or> f k = k' \<Longrightarrow> k = k'"
      using assms(2) unfolding no_clash_def by blast
    have ks: "k \<notin> set (map fst xs)" "k \<notin> set (map fst ys)" using assms(1) Cons.prems kv by auto
    let ?ren = "\<lambda>xs. map (\<lambda>(k, v). (f k, v)) xs"
    have in_d: "k \<in> set (map fst d)" "\<And>k'. k' \<in> set (map fst (xs @ ys)) \<Longrightarrow> k' \<in> set (map fst d)"
      using Cons.prems kv by auto
    have r1: "k \<notin> set (map fst (?ren xs))"
    proof
      assume "k \<in> set (map fst (?ren xs))"
      then obtain k' where "k' \<in> set (map fst xs)" "f k' = k" by (auto simp: case_prod_beta)
      then show False using clash [of k' k] in_d ks by auto
    qed
    have r2: "f k \<notin> set (map fst (ys @ ?ren xs))"
    proof
      assume "f k \<in> set (map fst (ys @ ?ren xs))"
      then obtain k' where "k' \<in> set (map fst (xs @ ys))" "f k = k' \<or> f k = f k'" by (auto simp: case_prod_beta)
      then show False using clash [of k k'] in_d ks by auto
    qed
    have "AList.delete k ((k, v) # ys @ ?ren xs) = ys @ ?ren xs"
      using delete_id [of k "ys @ ?ren xs"] ks(2) r1 by simp
    then have "rename_step f k ((kv # ys) @ ?ren xs) = ys @ ?ren (xs @ [kv])"
      using update_new [OF r2] by (simp add: rename_step_def kv)
    then show ?case using Cons.IH [of "xs @ [kv]"] Cons.prems kv by simp
  qed simp
  from this [of "[]" d] show ?thesis by (simp add: rename_keys_def)
qed

lemma replace_back: "b \<notin> set s \<Longrightarrow> replace_char b [a] (replace_char a [b] s) = s"
  by (induction s) auto

lemma replace_inj: "b \<notin> set s \<Longrightarrow> b \<notin> set t \<Longrightarrow> replace_char a [b] s = replace_char a [b] t \<Longrightarrow> s = t"
  by (metis replace_back)

lemma replace_fresh: "a \<noteq> b \<Longrightarrow> a \<notin> set (replace_char a [b] s)"
  by (induction s) auto

lemma no_clash_replace:
  assumes "a \<noteq> b" and "\<And>k. k \<in> K \<Longrightarrow> b \<notin> set k"
  shows "no_clash (replace_char a [b]) K"
  unfolding no_clash_def
proof (intro ballI impI)
  fix k k' assume k: "k \<in> K" "k' \<in> K" "replace_char a [b] k = replace_char a [b] k' \<or> replace_char a [b] k = k'"
  then show "k = k'"
  proof (elim disjE)
    assume "replace_char a [b] k = k'"
    then have "a \<notin> set k'" using replace_fresh [OF assms(1)] by blast
    then have "replace_char a [b] k' = replace_char a [b] k" using \<open>replace_char a [b] k = k'\<close> by simp
    then show ?thesis using replace_inj assms(2) k(1,2) by metis
  qed (use replace_inj assms(2) in metis)
qed

text \<open>
  Dashing the keys of a dictionary and undashing them gives the dictionary back, in its
  order, when no key holds a dash and the keys are distinct.
\<close>

theorem undash_dash:
  assumes "dict_wf d" and "\<And>k. has_key k d \<Longrightarrow> CHR ''-'' \<notin> set k"
  shows "undash_dict (to_dash_dict d) = d"
proof -
  let ?f = "replace_char (CHR ''_'') ''-''" and ?g = "replace_char (CHR ''-'') ''_''"
  have keys: "\<And>k. k \<in> set (map fst d) \<Longrightarrow> CHR ''-'' \<notin> set k" using assms(2) by (simp add: has_key_def)
  have f: "no_clash ?f (set (map fst d))" by (rule no_clash_replace) (use keys in auto)
  have dash: "to_dash_dict d = map (\<lambda>(k, v). (?f k, v)) d"
    unfolding to_dash_dict_def by (rule rename_keys_map [OF assms(1) f])
  have fst_dash: "map fst (to_dash_dict d) = map ?f (map fst d)" by (simp add: dash case_prod_beta)
  have "inj_on ?f (set (map fst d))" using f unfolding no_clash_def inj_on_def by blast
  then have wf: "dict_wf (to_dash_dict d)" unfolding fst_dash using assms(1) by (simp only: distinct_map [of ?f "map fst d"])
  have g: "no_clash ?g (set (map fst (to_dash_dict d)))"
    by (rule no_clash_replace) (auto simp: fst_dash replace_fresh)
  have inverse: "?g (?f k) = k" if "k \<in> set (map fst d)" for k using keys [OF that] by (rule replace_back)
  have "undash_dict (to_dash_dict d) = map (\<lambda>(k, v). (?g (?f k), v)) d"
    unfolding undash_dict_def rename_keys_map [OF wf g] by (simp add: dash case_prod_beta o_def)
  also have "\<dots> = map (\<lambda>kv. kv) d" by (rule map_cong) (auto intro: inverse simp: image_iff, metis inverse fst_conv image_eqI list.set_map)
  finally show ?thesis by simp
qed

theorem undash_dash_witness:
  "undash_dict (to_dash_dict [(''base_uri'', JStr ''a_b''), (''time_updated'', JNull)]) =
    [(''base_uri'', JStr ''a_b''), (''time_updated'', JNull)]"
  by (rule undash_dash) (auto simp: has_key_def)

subsection \<open>Time filters\<close>

lemma valid_time_errors: "valid_time t = Inl e \<Longrightarrow> e = ParseError ''Time parameter must be an integer''"
  by (auto simp: valid_time_def catch_value_error_def split: option.splits if_splits)

lemma valid_time_show [simp]: "valid_time (show_int n) = Inr n"
  by (simp add: valid_time_def parse_show_int)

text \<open>
  Time filters only ever fail as a bad request, and what they accept is a window that
  is not empty: the beginning is at most the end, where there is one. A window without end
  comes from a start or a range alone, and a point in time from \<open>time\<close>.
\<close>

theorem time_filters_sound:
  "case handle_time_filters now params of
     Inl e \<Rightarrow> \<exists>msg. e = ParseError msg
   | Inr tf \<Rightarrow> (case tf_end tf of
       None \<Rightarrow> (has_key ''time-start'' params \<noteq> has_key ''time-range'' params) \<and>
         \<not> has_key ''time'' params \<and> \<not> has_key ''time-end'' params
     | Some e \<Rightarrow> tf_begin tf \<le> e \<and> (has_key ''time'' params \<longrightarrow> tf_begin tf = e))"
proof -
  let ?m = "map_of params"
  have "\<exists>msg. e = ParseError msg" if "handle_time_filters now params = Inl e" for e
    using that valid_time_errors
    by (cases "?m ''time''"; cases "?m ''time-start''"; cases "?m ''time-end''"; cases "?m ''time-range''")
       (auto simp: handle_time_filters_def select_times_def res_simps split: if_splits)
  moreover have "case tf_end tf of
       None \<Rightarrow> (has_key ''time-start'' params \<noteq> has_key ''time-range'' params) \<and>
         \<not> has_key ''time'' params \<and> \<not> has_key ''time-end'' params
     | Some e \<Rightarrow> tf_begin tf \<le> e \<and> (has_key ''time'' params \<longrightarrow> tf_begin tf = e)"
    if "handle_time_filters now params = Inr tf" for tf
    using that
    by (cases "?m ''time''"; cases "?m ''time-start''"; cases "?m ''time-end''"; cases "?m ''time-range''")
       (auto simp: handle_time_filters_def select_times_def res_simps has_key_map_of split: if_splits)
  ultimately show ?thesis by (cases "handle_time_filters now params") auto
qed

theorem time_filters_sound_witness:
  "handle_time_filters 60 [(''time'', ''42'')] = Inr \<lparr>tf_begin = 42, tf_end = Some 42, tf_has_filters = True\<rparr> \<and>
    has_key ''time'' [(''time'', ''42'')] \<and> (42 :: int) = 42"
proof -
  have h: "handle_time_filters 60 [(''time'', ''42'')] = Inr \<lparr>tf_begin = 42, tf_end = Some 42, tf_has_filters = True\<rparr>"
    by (simp add: handle_time_filters_def select_times_def valid_time_def str_eval)
  show ?thesis using time_filters_sound [where now = 60 and params = "[(''time'', ''42'')]"] by (simp add: h has_key_def)
qed

subsection \<open>The list of event types\<close>

text \<open>The distinct elements of a list in the order of their first occurrences.\<close>

definition first_occurrences :: "'a list \<Rightarrow> 'a list" where
  "first_occurrences xs = rev (remdups (rev xs))"

definition entry_of :: "event_type_row list \<Rightarrow> string \<Rightarrow> et_entry" where
  "entry_of rows k = (let rs = filter (\<lambda>r. et_event_type r = k) rows in
     \<lparr>ee_time_updated = (case rev (filter (\<lambda>r. et_summary_type r = ''base'') rs) of
        [] \<Rightarrow> None | r # _ \<Rightarrow> et_time_updated r),
      ee_summaries = map (\<lambda>r. (et_summary_type r, et_summary_window r, et_time_updated r))
        (filter (\<lambda>r. et_summary_type r \<noteq> ''base'') rs)\<rparr>)"

lemma first_occurrences_snoc:
  "first_occurrences (xs @ [x]) = (if x \<in> set xs then first_occurrences xs else first_occurrences xs @ [x])"
  by (simp add: first_occurrences_def)

lemma set_first_occurrences [simp]: "set (first_occurrences xs) = set xs"
  by (simp add: first_occurrences_def)

lemma distinct_first_occurrences [simp]: "distinct (first_occurrences xs)"
  by (simp add: first_occurrences_def)

lemma update_map_snd:
  "distinct ks \<Longrightarrow> AList.update k v (map (\<lambda>k. (k, g k)) ks) =
     map (\<lambda>x. (x, if x = k then v else g x)) (if k \<in> set ks then ks else ks @ [k])"
  by (induction ks) auto

lemma add_event_types:
  "fold add_event_type rows [] = map (\<lambda>k. (k, entry_of rows k)) (first_occurrences (map et_event_type rows))"
proof (induction rows rule: rev_induct)
  case Nil
  then show ?case by (simp add: first_occurrences_def)
next
  case (snoc r rows)
  let ?ks = "first_occurrences (map et_event_type rows)"
  let ?m = "map (\<lambda>k. (k, entry_of rows k)) ?ks"
  let ?k = "et_event_type r"
  have other: "entry_of (rows @ [r]) k = entry_of rows k" if "k \<noteq> ?k" for k
    using that by (simp add: entry_of_def Let_def)
  have old: "(case map_of ?m ?k of None \<Rightarrow> \<lparr>ee_time_updated = None, ee_summaries = []\<rparr> | Some e \<Rightarrow> e) = entry_of rows ?k"
  proof (cases "?k \<in> set ?ks")
    case True
    then have "map_of ?m ?k = Some (entry_of rows ?k)" by (simp add: map_of_map_restrict)
    then show ?thesis by simp
  next
    case False
    then have "filter (\<lambda>r'. et_event_type r' = ?k) rows = []" by (auto simp: filter_empty_conv image_iff)
    moreover have "map_of ?m ?k = None" using False by (simp add: map_of_map_restrict)
    ultimately show ?thesis by (simp add: entry_of_def)
  qed
  have new: "(if et_summary_type r = ''base'' then (entry_of rows ?k)\<lparr>ee_time_updated := et_time_updated r\<rparr>
      else (entry_of rows ?k)\<lparr>ee_summaries := ee_summaries (entry_of rows ?k) @
        [(et_summary_type r, et_summary_window r, et_time_updated r)]\<rparr>) = entry_of (rows @ [r]) ?k"
    by (simp add: entry_of_def Let_def)
  have "fold add_event_type (rows @ [r]) [] = add_event_type r ?m" using snoc by simp
  also have "\<dots> = AList.update ?k (entry_of (rows @ [r]) ?k) ?m"
    unfolding add_event_type_def Let_def old new ..
  also have "\<dots> = map (\<lambda>k. (k, entry_of (rows @ [r]) k)) (first_occurrences (map et_event_type (rows @ [r])))"
    unfolding update_map_snd [OF distinct_first_occurrences] map_append list.map first_occurrences_snoc set_first_occurrences
    by (rule map_cong) (auto simp: other)
  finally show ?case .
qed

definition shown_summary :: "string \<Rightarrow> string \<times> int \<times> datetime option \<Rightarrow> json" where
  "shown_summary k a = (case a of (stype, window, updated) \<Rightarrow>
     JObj [(''uri'', JStr (k @ ''/'' @ the (map_of INVERSE_SUMMARY_TYPES stype) @ ''/'' @ show_int window)),
       (''summary-type'', JStr stype), (''summary-window'', JStr (show_int window)), (''time-updated'', datetime_to_ts updated)])"

lemma event_type_entry_known:
  assumes "\<And>a. a \<in> set (ee_summaries v) \<Longrightarrow> has_key (fst a) INVERSE_SUMMARY_TYPES"
  shows "event_type_entry (k, v) = Inr [(''base-uri'', JStr (k @ ''/base'')), (''event-type'', JStr k),
     (''time-updated'', datetime_to_ts (ee_time_updated v)), (''summaries'', JList (map (shown_summary k) (ee_summaries v)))]"
proof -
  have "summary_entry k a = Inr (shown_summary k a)" if "a \<in> set (ee_summaries v)" for a
    using assms [OF that]
    by (cases a) (auto simp: summary_entry_def shown_summary_def has_key_map_of to_dash_dict_def rename_keys_def rename_step_def)
  then have "rmap (summary_entry k) (ee_summaries v) = Inr (map (shown_summary k) (ee_summaries v))"
    by (rule rmap_all)
  then show ?thesis
    by (simp add: event_type_entry_def to_dash_dict_def rename_keys_def rename_step_def)
qed

lemma event_type_list_entries:
  assumes "\<And>r. r \<in> set rows \<Longrightarrow> has_key (et_summary_type r) INVERSE_SUMMARY_TYPES"
  shows "build_event_type_list rows = Inr (map (\<lambda>k.
     [(''base-uri'', JStr (k @ ''/base'')), (''event-type'', JStr k),
      (''time-updated'', datetime_to_ts (ee_time_updated (entry_of rows k))),
      (''summaries'', JList (map (shown_summary k) (ee_summaries (entry_of rows k))))])
     (first_occurrences (map et_event_type rows)))"
proof -
  have "event_type_entry (k, entry_of rows k) = Inr [(''base-uri'', JStr (k @ ''/base'')), (''event-type'', JStr k),
      (''time-updated'', datetime_to_ts (ee_time_updated (entry_of rows k))),
      (''summaries'', JList (map (shown_summary k) (ee_summaries (entry_of rows k))))]" for k
    by (rule event_type_entry_known) (use assms in \<open>auto simp: entry_of_def\<close>)
  then have "rmap event_type_entry (map (\<lambda>k. (k, entry_of rows k)) ks) = Inr (map (\<lambda>k.
     [(''base-uri'', JStr (k @ ''/base'')), (''event-type'', JStr k),
      (''time-updated'', datetime_to_ts (ee_time_updated (entry_of rows k))),
      (''summaries'', JList (map (shown_summary k) (ee_summaries (entry_of rows k))))]) ks)" for ks
    by (induction ks) auto
  then show ?thesis by (simp add: build_event_type_list_def add_event_types)
qed

text \<open>
  The listing of event types has one entry per event type of the rows, in the order in
  which they first occur, with the update time of its base row and all its summaries in
  order, whenever the summary types are known ones.
\<close>

theorem event_type_list_complete:
  assumes "\<And>r. r \<in> set rows \<Longrightarrow> has_key (et_summary_type r) INVERSE_SUMMARY_TYPES"
  shows "build_event_type_list rows = Inr (map (\<lambda>k.
     [(''base-uri'', JStr (k @ ''/base'')), (''event-type'', JStr k),
      (''time-updated'', datetime_to_ts (ee_time_updated (entry_of rows k))),
      (''summaries'', JList (map (shown_summary k) (ee_summaries (entry_of rows k))))])
     (first_occurrences (map et_event_type rows)))"
  using assms by (rule event_type_list_entries)

definition listed_rows :: "event_type_row list" where
  "listed_rows = [
     \<lparr>et_metadata_key = ''0cb1'', et_event_type = ''throughput'', et_summary_type = ''average'', et_summary_window = 86400, et_time_updated = None\<rparr>,
     \<lparr>et_metadata_key = ''0cb1'', et_event_type = ''throughput'', et_summary_type = ''base'', et_summary_window = 0,
       et_time_updated = Some (dt_of_secs 1398965989)\<rparr>,
     \<lparr>et_metadata_key = ''0cb1'', et_event_type = ''failures'', et_summary_type = ''base'', et_summary_window = 0, et_time_updated = None\<rparr>]"

theorem event_type_list_complete_witness:
  "build_event_type_list listed_rows = Inr [
     [(''base-uri'', JStr ''throughput/base''), (''event-type'', JStr ''throughput''), (''time-updated'', JInt 1398965989),
      (''summaries'', JList [JObj [(''uri'', JStr ''throughput/averages/86400''), (''summary-type'', JStr ''average''),
         (''summary-window'', JStr ''86400''), (''time-updated'', JNull)]])],
     [(''base-uri'', JStr ''failures/base''), (''event-type'', JStr ''failures''), (''time-updated'', JNull), (''summaries'', JList [])]]"
proof -
  have w: "show_int 86400 = ''86400''"
    by (simp add: show_eval)
  have known: "has_key (et_summary_type r) INVERSE_SUMMARY_TYPES" if "r \<in> set listed_rows" for r
    using that by (auto simp: listed_rows_def has_key_def INVERSE_SUMMARY_TYPES_eq)
  show ?thesis
    by (rule trans [OF event_type_list_complete [of listed_rows]], erule known) (simp add: listed_rows_def first_occurrences_def entry_of_def shown_summary_def INVERSE_SUMMARY_TYPES_eq
        datetime_to_ts_def timegm_def w)
qed

end
