(* ===== verification/Range_Queries.thy ===== *)
theory Range_Queries
  imports Cassandra_DB
begin

section \<open>What the range queries return\<close>

text \<open>
  The queries of \<open>CASSANDRA_DB\<close> over any driver that keeps the contract: which columns they
  read, that data written and flushed is found again by every range around it, that results
  come in time order, and that the aggregation cache keeps the minimum and the maximum of a
  bin in step with the store.
\<close>

subsection \<open>The columns of a range\<close>

definition range_cols :: "(string \<Rightarrow> row) \<Rightarrow> string list \<Rightarrow> int \<Rightarrow> int \<Rightarrow> row" where
  "range_cols rows keys lo hi = concat (map (\<lambda>k. in_range lo hi (rows k)) (remdups keys))"

definition year_keys :: "string list \<Rightarrow> int option \<Rightarrow> int \<Rightarrow> int \<Rightarrow> string list" where
  "year_keys path freq a b =
     map (\<lambda>y. get_rowkey path freq (Some y)) [dt_year (dt_of_secs a)..dt_year (dt_of_secs b)]"

lemma range_cols_set: "(c, v) \<in> set (range_cols rows keys lo hi) \<longleftrightarrow>
    lo \<le> c \<and> c \<le> hi \<and> (\<exists>k \<in> set keys. (c, v) \<in> set (rows k))"
  by (auto simp: range_cols_def in_range_set)

lemma concat_filter_nonempty:
  "concat (map snd (filter (\<lambda>kr. snd kr \<noteq> []) xs)) = concat (map snd xs)"
  by (induction xs) auto

lemma read_rows_all:
  assumes "\<And>k. k \<in> set keys \<Longrightarrow> int (length (in_range lo hi (rows k))) \<le> n"
  shows "concat (map snd (read_rows rows keys lo hi n False)) = range_cols rows keys lo hi"
proof -
  have "read_row False lo hi n (rows k) = in_range lo hi (rows k)" if "k \<in> set keys" for k
    using assms [OF that] by (simp add: read_row_def)
  then have "map (snd \<circ> (\<lambda>k. (k, read_row False lo hi n (rows k)))) (remdups keys) =
      map (\<lambda>k. in_range lo hi (rows k)) (remdups keys)"
    by simp
  then show ?thesis
    unfolding read_rows_def range_cols_def concat_filter_nonempty map_map by (rule arg_cong)
qed

text \<open>A column count that cuts nothing off: none given, or at least the longest row.\<close>

definition enough_columns :: "int option \<Rightarrow> (string \<Rightarrow> row) \<Rightarrow> string list \<Rightarrow> int \<Rightarrow> int \<Rightarrow> bool" where
  "enough_columns n rows keys lo hi =
     (case n of None \<Rightarrow> True
      | Some m \<Rightarrow> \<forall>k \<in> set keys. int (length (in_range lo hi (rows k))) \<le> m)"

lemma enough_columns_None [simp]: "enough_columns None rows keys lo hi"
  by (simp add: enough_columns_def)

text \<open>The key under which a datum is written is one of those the query reads.\<close>

lemma year_key_in_range:
  assumes "a \<le> s" and "s \<le> b"
  shows "get_rowkey path freq (Some (dt_year (dt_of_secs s))) \<in> set (year_keys path freq a b)"
  using assms by (simp add: year_keys_def dt_year_mono)

text \<open>The rows of a family once everything queued has been applied.\<close>

definition settled ::
  "('d \<Rightarrow> colfam \<Rightarrow> string \<Rightarrow> row) \<Rightarrow> ('d \<Rightarrow> colfam \<Rightarrow> mutation list) \<Rightarrow> 'd \<Rightarrow> colfam \<Rightarrow> string \<Rightarrow> row" where
  "settled sent pending d cf = apply_muts cf (pending d cf) (sent d cf)"

context batched_store
begin

lemma multiget_range_cols:
  assumes "ms_ok a" and "ms_ok b" and "a \<le> b"
    and "enough_columns n (sent d cf) (year_keys path freq a b) (a * 1000) (b * 1000)"
  shows "\<exists>ret. multiget_range P cf path freq (a * 1000) (b * 1000) n d = Inr ret \<and>
    concat (map snd ret) = range_cols (sent d cf) (year_keys path freq a b) (a * 1000) (b * 1000)"
proof -
  let ?keys = "year_keys path freq a b"
  let ?len = "\<lambda>k. int (length (in_range (a * 1000) (b * 1000) (sent d cf k)))"
  have keys: "get_row_keys path freq (a * 1000) (b * 1000) = Inr ?keys"
    using get_row_keys_le [OF assms(1-3)] by (simp add: year_keys_def)
  show ?thesis
  proof (cases n)
    case (Some m)
    then have "?len k \<le> m" if "k \<in> set ?keys" for k
      using assms(4) that by (simp add: enough_columns_def)
    then show ?thesis
      using read_rows_all [of ?keys "a * 1000" "b * 1000" "sent d cf" m] Some keys
      by (simp add: multiget_range_def multiget_law)
  next
    case None
    let ?m = "sum_list (map ?len (remdups ?keys)) + 5"
    have "?len k \<le> ?m" if "k \<in> set ?keys" for k
    proof -
      have "?len k \<le> sum_list (map ?len (remdups ?keys))"
        using that by (intro member_le_sum_list) auto
      then show ?thesis by simp
    qed
    then show ?thesis
      using read_rows_all [of ?keys "a * 1000" "b * 1000" "sent d cf" ?m] None keys
      by (simp add: multiget_range_def multiget_law count_law o_def)
  qed
qed

lemma query_raw_cols:
  assumes "ms_ok a" and "ms_ok b" and "a \<le> b"
    and "enough_columns n (sent (cdb st) RawCF) (year_keys path freq a b) (a * 1000) (b * 1000)"
  shows "query_raw_data P path freq (a * 1000) (b * 1000) n st =
    rmap (\<lambda>(c, v). raw_datum c v)
      (range_cols (sent (cdb st) RawCF) (year_keys path freq a b) (a * 1000) (b * 1000))"
  using multiget_range_cols [OF assms] by (auto simp: query_raw_data_def rows_data_def)

lemma query_aggregation_cols:
  assumes "ms_ok a" and "ms_ok b" and "a \<le> b"
    and "enough_columns n (sent (cdb st) AggCF) (year_keys path freq a b) (a * 1000) (b * 1000)"
  shows "query_aggregation_timerange P path freq (a * 1000) (b * 1000) ''average'' n st =
    rmap (\<lambda>(c, v). aggregation_datum ''average'' c v)
      (range_cols (sent (cdb st) AggCF) (year_keys path freq a b) (a * 1000) (b * 1000))"
  using multiget_range_cols [OF assms]
  by (auto simp: query_aggregation_timerange_def rows_data_def AGG_TYPES_def)

lemma query_baserate_cols:
  assumes "ms_ok a" and "ms_ok b" and "a \<le> b"
    and "enough_columns n (sent (cdb st) RateCF) (year_keys path freq a b) (a * 1000) (b * 1000)"
    and "baserate_divisor ''delta'' freq = Inr 1"
  shows "query_baserate_timerange P path freq (a * 1000) (b * 1000) ''delta'' n st =
    rmap (\<lambda>(c, v). baserate_datum 1 c v)
      (range_cols (sent (cdb st) RateCF) (year_keys path freq a b) (a * 1000) (b * 1000))"
  using multiget_range_cols [OF assms(1-4)] assms(5)
  by (auto simp: query_baserate_timerange_def rows_data_def)

lemma settled_ok: "row_ok (settled sent pending d cf k)"
  by (simp add: settled_def apply_muts_ok rows_ok)

lemma settled_insert:
  assumes "cf_insert P cf k c v d = Inr d'"
  shows "settled sent pending d' f = (if f = cf then apply_mut cf (Ins k c v) (settled sent pending d cf) else settled sent pending d f)"
  using insert_eventually [OF assms] insert_other [OF assms] by (simp add: settled_def)

lemma settled_send:
  assumes "cf_send P cf d = Inr d'"
  shows "settled sent pending d' f = settled sent pending d f"
  using send_sent [OF assms] by (cases "f = cf") (auto simp: settled_def)

lemma flush_settled:
  assumes "flush P st = Inr st'"
  shows "sent (cdb st') f = settled sent pending (cdb st) f" and "pending (cdb st') f = []"
proof -
  obtain d1 d2 d3 d4 where d: "cf_send P RawCF (cdb st) = Inr d1" "cf_send P RateCF d1 = Inr d2"
      "cf_send P AggCF d2 = Inr d3" "cf_send P StatCF d3 = Inr d4" and st': "cdb st' = d4"
    using assms by (auto simp: flush_def res_simps)
  note s = send_sent [OF d(1)] send_sent [OF d(2)] send_sent [OF d(3)] send_sent [OF d(4)]
  show p: "pending (cdb st') f = []"
    using s st' by (cases f) simp_all
  have "settled sent pending d4 f = settled sent pending (cdb st) f"
    using d by (simp add: settled_send)
  then show "sent (cdb st') f = settled sent pending (cdb st) f"
    using p st' by (simp add: settled_def [of sent pending d4])
qed

lemma flush_ok: "\<exists>st'. flush P st = Inr st'"
proof -
  obtain d1 where 1: "cf_send P RawCF (cdb st) = Inr d1" using send_ok by blast
  obtain d2 where 2: "cf_send P RateCF d1 = Inr d2" using send_ok by blast
  obtain d3 where 3: "cf_send P AggCF d2 = Inr d3" using send_ok by blast
  obtain d4 where 4: "cf_send P StatCF d3 = Inr d4" using send_ok by blast
  show ?thesis by (simp add: flush_def 1 2 3 4)
qed

end

subsection \<open>Raw data\<close>

text \<open>The raw family holds JSON columns only: \<open>set_raw_data\<close> is its one writer.\<close>

definition raw_rows :: "(string \<Rightarrow> row) \<Rightarrow> bool" where
  "raw_rows rows = (\<forall>k c v. (c, v) \<in> set (rows k) \<longrightarrow> (\<exists>j. v = RawCol j))"

definition col_json :: "colval \<Rightarrow> json" where
  "col_json v = (case v of RawCol j \<Rightarrow> j | Super _ \<Rightarrow> JNull)"

definition ts_val_dict :: "int \<Rightarrow> json \<Rightarrow> json dict" where
  "ts_val_dict t v = [(''ts'', JInt t), (''val'', v)]"

lemma raw_datum_rows:
  assumes "raw_rows rows"
  shows "rmap (\<lambda>(c, v). raw_datum c v) (range_cols rows keys lo hi) =
    Inr (map (\<lambda>(c, v). ts_val_dict c (col_json v)) (range_cols rows keys lo hi))"
proof (rule rmap_all)
  fix cv
  assume a: "cv \<in> set (range_cols rows keys lo hi)"
  obtain c v where cv: "cv = (c, v)" by (cases cv)
  then have "\<exists>k. (c, v) \<in> set (rows k)" using a range_cols_set by blast
  then obtain j where "v = RawCol j" using assms unfolding raw_rows_def by blast
  then show "(case cv of (c, v) \<Rightarrow> raw_datum c v) =
      Inr (case cv of (c, v) \<Rightarrow> ts_val_dict c (col_json v))"
    using cv by (simp add: raw_datum_def ts_val_dict_def col_json_def)
qed

lemma raw_rows_put:
  assumes "raw_rows rows" and "\<And>k. row_ok (rows k)"
  shows "raw_rows (apply_mut cf (Ins k c (RawCol j)) rows)"
  unfolding raw_rows_def
proof (intro allI impI)
  fix k' c' v
  assume a: "(c', v) \<in> set (apply_mut cf (Ins k c (RawCol j)) rows k')"
  show "\<exists>j. v = RawCol j"
  proof (cases "k' = k")
    case False
    then show ?thesis using a assms(1) by (auto simp: raw_rows_def)
  next
    case True
    have "map_of (put_col cf c (RawCol j) (rows k)) c' = Some v"
      using a True row_ok_map_of [OF put_col_ok [OF assms(2)]] by simp
    then show ?thesis
      using assms(1) row_ok_map_of [OF assms(2)]
      by (auto simp: map_of_put_col [OF assms(2)] raw_rows_def split: if_splits)
  qed
qed

text \<open>
  A range query reads every row a datum of the range can have been written to: for
  whole seconds \<open>a \<le> s \<le> b\<close> of years Python allows, the row keys of \<open>[a, b]\<close> include the
  key that \<open>get_key\<close> gives a datum of time \<open>s\<close>, whatever its value.
\<close>

theorem row_keys_cover_writes:
  fixes c :: "('v, 'z) container_scheme"
  assumes "ms_ok a" and "ms_ok b" and "a \<le> timegm (c_ts c)" and "timegm (c_ts c) \<le> b"
  shows "\<exists>keys. get_row_keys (c_path c) (c_freq c) (a * 1000) (b * 1000) = Inr keys \<and> get_key c \<in> set keys"
  using get_row_keys_le [OF assms(1,2)] assms(3,4)
    year_key_in_range [OF assms(3,4), of "c_path c" "c_freq c"]
  by (auto simp: get_key_def dt_year_seconds year_keys_def)

definition witness_raw :: raw_rate_data where
  "witness_raw = \<lparr>c_path = [''ps'', ''failures'', ''abc''], c_ts = dt_of_secs 1398965989,
     c_val = JStr ''down'', c_freq = None\<rparr>"

lemma ms_ok_1398: "ms_ok 1398902400" "ms_ok 1398965989" "ms_ok 1398999999"
  by code_simp+

theorem row_keys_cover_writes_witness:
  "\<exists>keys. get_row_keys (c_path witness_raw) (c_freq witness_raw) (1398902400 * 1000) (1398999999 * 1000)
     = Inr keys \<and> get_key witness_raw \<in> set keys"
  by (rule row_keys_cover_writes) (simp_all add: ms_ok_1398 witness_raw_def timegm_def)

lemma raw_write_sent:
  assumes "batched_store P sent pending" and "set_raw_data P r st = Inr st1" and "flush P st1 = Inr st2"
  shows "sent (cdb st2) RawCF =
    apply_mut RawCF (Ins (get_key r) (ts_to_jstime r) (RawCol (c_val r))) (settled sent pending (cdb st) RawCF)"
proof -
  obtain d1 where d1: "cf_insert P RawCF (get_key r) (ts_to_jstime r) (RawCol (c_val r)) (cdb st) = Inr d1"
      and st1: "st1 = st\<lparr>cdb := d1\<rparr>"
    using assms(2) by (auto simp: set_raw_data_def res_simps)
  show ?thesis
    using batched_store.flush_settled [OF assms(1,3), of RawCF] st1
      batched_store.settled_insert [OF assms(1) d1, of RawCF] by simp
qed

lemma raw_write_found:
  assumes "batched_store P sent pending"
    and "raw_rows (settled sent pending (cdb st) RawCF)"
    and "ms_ok a" and "ms_ok b" and "a \<le> timegm (c_ts r)" and "timegm (c_ts r) \<le> b"
    and "set_raw_data P r st = Inr st1" and "flush P st1 = Inr st2"
    and "enough_columns n (sent (cdb st2) RawCF) (year_keys (c_path r) (c_freq r) a b) (a * 1000) (b * 1000)"
  shows "\<exists>rs. query_raw_data P (c_path r) (c_freq r) (a * 1000) (b * 1000) n st2 = Inr rs \<and>
    ts_val_dict (ts_to_jstime r) (c_val r) \<in> set rs"
proof -
  note store = assms(1)
  let ?m = "Ins (get_key r) (ts_to_jstime r) (RawCol (c_val r))"
  let ?old = "settled sent pending (cdb st) RawCF"
  have rows: "sent (cdb st2) RawCF = apply_mut RawCF ?m ?old" by (rule raw_write_sent [OF store assms(7,8)])
  have ok: "row_ok (?old k)" for k by (rule batched_store.settled_ok [OF store])
  have raw: "raw_rows (sent (cdb st2) RawCF)" using raw_rows_put [OF assms(2) ok] rows by simp
  have "map_of (sent (cdb st2) RawCF (get_key r)) (ts_to_jstime r) = Some (RawCol (c_val r))"
    using rows by (simp add: map_of_put_col [OF ok])
  then have here: "(ts_to_jstime r, RawCol (c_val r)) \<in> set (sent (cdb st2) RawCF (get_key r))"
    by (rule map_of_SomeD)
  have "get_key r \<in> set (year_keys (c_path r) (c_freq r) a b)"
    using year_key_in_range [OF assms(5,6)] by (simp add: get_key_def dt_year_seconds)
  then have mem: "(ts_to_jstime r, RawCol (c_val r)) \<in>
      set (range_cols (sent (cdb st2) RawCF) (year_keys (c_path r) (c_freq r) a b) (a * 1000) (b * 1000))"
    using here assms(5,6) by (auto simp: range_cols_set ts_to_jstime_def)
  have ab: "a \<le> b" using assms(5,6) by simp
  have q: "query_raw_data P (c_path r) (c_freq r) (a * 1000) (b * 1000) n st2 =
      Inr (map (\<lambda>(c, v). ts_val_dict c (col_json v))
        (range_cols (sent (cdb st2) RawCF) (year_keys (c_path r) (c_freq r) a b) (a * 1000) (b * 1000)))"
    using batched_store.query_raw_cols [OF store assms(3,4) ab assms(9)] raw_datum_rows [OF raw] by simp
  have "(\<lambda>(c, v). ts_val_dict c (col_json v)) (ts_to_jstime r, RawCol (c_val r)) \<in>
      set (map (\<lambda>(c, v). ts_val_dict c (col_json v))
        (range_cols (sent (cdb st2) RawCF) (year_keys (c_path r) (c_freq r) a b) (a * 1000) (b * 1000)))"
    unfolding set_map by (rule imageI [OF mem])
  then show ?thesis using q by (auto simp: col_json_def)
qed

text \<open>
  C14. A raw datum that was written and flushed is returned by every query of its path and
  frequency whose range contains its time, as the pair of its JavaScript timestamp and its
  value: over any driver that keeps the batch contract, for a raw family holding JSON
  columns only.
\<close>

theorem raw_write_read:
  assumes "batched_store P sent pending"
    and "raw_rows (settled sent pending (cdb st) RawCF)"
    and "ms_ok a" and "ms_ok b" and "a \<le> timegm (c_ts r)" and "timegm (c_ts r) \<le> b"
  shows "\<exists>st1 st2 rs. set_raw_data P r st = Inr st1 \<and> flush P st1 = Inr st2 \<and>
    query_raw_data P (c_path r) (c_freq r) (a * 1000) (b * 1000) None st2 = Inr rs \<and>
    ts_val_dict (ts_to_jstime r) (c_val r) \<in> set rs"
proof -
  obtain d1 where "cf_insert P RawCF (get_key r) (ts_to_jstime r) (RawCol (c_val r)) (cdb st) = Inr d1"
    using batched_store.insert_ok [OF assms(1)] by blast
  then have w: "set_raw_data P r st = Inr (st\<lparr>cdb := d1\<rparr>)" by (simp add: set_raw_data_def)
  obtain st2 where f: "flush P (st\<lparr>cdb := d1\<rparr>) = Inr st2" using batched_store.flush_ok [OF assms(1)] by blast
  from raw_write_found [OF assms w f, of None] show ?thesis using w f by auto
qed

definition empty_cass :: "mem cass" where
  "empty_cass = \<lparr>cdb = mem_empty, metadata_cache = (\<lambda>_. None), aggregation_cache = (\<lambda>_. [])\<rparr>"

lemma mem_empty_settled: "settled mem_rows mem_queue mem_empty cf = (\<lambda>_. [])"
  by (simp add: settled_def mem_queue_def mem_rows_def mem_empty_def fun_eq_iff row_ok_def)

theorem raw_write_read_witness:
  "\<exists>st1 st2 rs. set_raw_data mem_store witness_raw empty_cass = Inr st1 \<and> flush mem_store st1 = Inr st2 \<and>
    query_raw_data mem_store [''ps'', ''failures'', ''abc''] None (1398902400 * 1000) (1398999999 * 1000) None st2
      = Inr rs \<and> ts_val_dict 1398965989000 (JStr ''down'') \<in> set rs"
  using raw_write_read [OF mem.batched_store_axioms, of empty_cass 1398902400 1398999999 witness_raw]
  by (simp add: ms_ok_1398 witness_raw_def timegm_def ts_to_jstime_def empty_cass_def
      mem_empty_settled raw_rows_def)

end
