(* ===== verification/Time_Series_Facts.thy ===== *)
theory Time_Series_Facts
  imports Time_Series Range_Queries
begin

section \<open>What a save does to the store\<close>

text \<open>
  Over any driver that keeps the batch contract. The abstract view of a counter family is the
  value of each counter once everything queued has been applied; a save of an integer adds
  its value to the counters of its base row and of every summary of its series, each in the
  bin of its window. A value already in the store is refused; one that is only in the batch
  is not seen.
\<close>

subsection \<open>Counters\<close>

definition counter :: "(string \<Rightarrow> row) \<Rightarrow> string \<Rightarrow> int \<Rightarrow> subname \<Rightarrow> int" where
  "counter rows k c n = (case map_of (rows k) c of
     Some (Super subs) \<Rightarrow> (case map_of subs n of Some v \<Rightarrow> v | None \<Rightarrow> 0) | _ \<Rightarrow> 0)"

definition two_counters :: "string \<Rightarrow> int \<Rightarrow> string \<Rightarrow> int \<Rightarrow> subname \<Rightarrow> int" where
  "two_counters a x b y n = (if n = Bs a then x else 0) + (if n = Bs b then y else 0)"

lemma counter_put:
  assumes "is_counter cf" and "\<And>k. row_ok (rows k)"
  shows "counter (apply_mut cf (Ins k c (Super [(St a, x), (St b, y)])) rows) k' c' n =
    counter rows k' c' n + (if k' = k \<and> c' = c then two_counters a x b y n else 0)"
  using assms(1) by (cases "map_of (rows k) c"; cases "the (map_of (rows k) c)")
    (auto simp: counter_def map_of_put_col [OF assms(2)] two_counters_def split: option.splits)

subsection \<open>Times and keys of the summaries\<close>

definition ok_time :: "int \<Rightarrow> bool" where
  "ok_time s = (0 \<le> s \<and> ms_ok s)"

definition summary_time :: "string \<Rightarrow> int \<Rightarrow> int \<Rightarrow> int" where
  "summary_time stype w s = (if stype \<noteq> ''base'' \<and> 0 < w then bin_start w s else s)"

definition summary_obj :: "ts_object \<Rightarrow> string \<times> int \<Rightarrow> ts_object" where
  "summary_obj obj et = obj\<lparr>to_summary_type := fst et, to_summary_window := snd et\<rparr>"

definition summary_key :: "ts_object \<Rightarrow> int \<Rightarrow> string \<times> int \<Rightarrow> string" where
  "summary_key obj s et = get_rowkey (datapath (summary_obj obj et)) (obj_freq (summary_obj obj et))
     (Some (dt_year (dt_of_secs (summary_time (fst et) (snd et) s))))"

lemma ok_time_below:
  assumes "ok_time s" and "0 \<le> b" and "b \<le> s"
  shows "ok_time b"
  using assms valid_secs_between [OF valid_secs_0, of s b] by (auto simp: ok_time_def ms_ok_def)

lemma summary_time_ok: "ok_time s \<Longrightarrow> ok_time (summary_time stype w s)"
  using ok_time_below [of s "bin_start w s"] bin_start_bounds [of w s]
  by (auto simp: summary_time_def bin_start_def ok_time_def pos_imp_zdiv_nonneg_iff)

lemma summary_obj_time:
  assumes "to_ts obj = JInt s" and "ok_time s" and "snd et < 2 ^ 63"
  shows "obj_time (summary_obj obj et) = Inr (JInt (summary_time (fst et) (snd et) s))"
proof -
  have "0 \<le> s" "s < 2 ^ 53" using assms(2) by (auto simp: ok_time_def ms_ok_def)
  then show ?thesis
    using assms(1,3) obj_time_bin [of "summary_obj obj et" s]
    by (auto simp: summary_time_def summary_obj_def obj_time_def)
qed

lemma ok_time_datetime:
  assumes "obj_time obj = Inr (JInt b)" and "ok_time b"
  shows "get_datetime obj = Inr (dt_of_secs b)"
  using assms by (intro get_datetime_int) (auto simp: ok_time_def ms_ok_def)

lemma dt_of_secs_ts: "timegm (dt_of_secs s) = s"
  by (simp add: timegm_def)

subsection \<open>What one summary of an integer adds\<close>

definition contribution ::
  "ts_object \<Rightarrow> int \<Rightarrow> int \<Rightarrow> string \<times> int \<Rightarrow> colfam \<Rightarrow> string \<Rightarrow> int \<Rightarrow> subname \<Rightarrow> int" where
  "contribution obj n s et cf k c name =
     (if k = summary_key obj s et \<and> c = summary_time (fst et) (snd et) s * 1000 then
        if (fst et = ''base'' \<or> fst et = ''aggregation'') \<and> cf = RateCF then two_counters ''val'' n ''is_valid'' 1 name
        else if fst et = ''average'' \<and> cf = AggCF then two_counters ''val'' n ''1000'' 1 name
        else 0
      else 0)"

definition integer_object :: "ts_object \<Rightarrow> int \<Rightarrow> int \<Rightarrow> bool" where
  "integer_object obj n s = (event_type_config (to_event_type obj) = Inr TInteger \<and>
     py_int (to_value obj) = Inr n \<and> to_ts obj = JInt s \<and> to_summary_type obj = ''base'' \<and> ok_time s)"

lemma show_1000: "show_int 1000 = ''1000''"
  by (simp add: show_int_def show_nat.simps digit_char_def char_of_def bit_0)

lemma obj_time_value [simp]: "obj_time (obj\<lparr>to_value := v\<rparr>) = obj_time obj"
  by (simp add: obj_time_def)

text \<open>Room in the batches: as long as there is any, nothing is sent and reads see the old rows.\<close>

definition roomy :: "('d \<Rightarrow> colfam \<Rightarrow> mutation list) \<Rightarrow> nat \<Rightarrow> 'd \<Rightarrow> bool" where
  "roomy pending k d = (\<forall>f. length (pending d f) + k < queue_size)"

definition batched ::
  "('d \<Rightarrow> colfam \<Rightarrow> string \<Rightarrow> row) \<Rightarrow> ('d \<Rightarrow> colfam \<Rightarrow> mutation list) \<Rightarrow> nat \<Rightarrow> 'd \<Rightarrow> 'd \<Rightarrow> bool" where
  "batched sent pending n d d' =
     (\<forall>k. roomy pending (n + k) d \<longrightarrow> roomy pending k d' \<and> sent d' = sent d)"

lemma batched_0: "batched sent pending 0 d d"
  by (simp add: batched_def)

lemma batched_trans:
  assumes "batched sent pending m d d'" and "batched sent pending n d' d''"
  shows "batched sent pending (m + n) d d''"
  using assms unfolding batched_def by (metis add.assoc)

lemma roomy_mono: "roomy pending k d \<Longrightarrow> j \<le> k \<Longrightarrow> roomy pending j d"
  unfolding roomy_def by (meson add_left_mono order_le_less_trans)

lemma batched_more: "batched sent pending m d d' \<Longrightarrow> m \<le> n \<Longrightarrow> batched sent pending n d d'"
  unfolding batched_def by (meson add_right_mono roomy_mono)

context batched_store
begin

lemma insert_batched:
  assumes "cf_insert P cf k c v d = Inr d'"
  shows "batched sent pending 1 d d'"
  unfolding batched_def
proof (intro allI impI)
  fix j
  assume r: "roomy pending (1 + j) d"
  then have q: "length (pending d cf) + 1 < queue_size"
    unfolding roomy_def by (metis add_lessD1 add.assoc)
  have "sent d' f = sent d f" for f
    using insert_queued [OF assms q] insert_other [OF assms] by (cases "f = cf") auto
  moreover have "length (pending d' f) + j < queue_size" for f
    using r insert_queued [OF assms q] insert_other [OF assms, of f]
    unfolding roomy_def by (cases "f = cf") (auto dest: spec [of _ f])
  ultimately show "roomy pending j d' \<and> sent d' = sent d"
    unfolding roomy_def by (auto simp: fun_eq_iff)
qed

lemma insert_counter:
  assumes "is_counter cf" and "cf_insert P cf k c (Super [(St a, x), (St b, y)]) (cdb st) = Inr d"
  shows "counter (settled sent pending d f) k' c' n = counter (settled sent pending (cdb st) f) k' c' n +
    (if f = cf \<and> k' = k \<and> c' = c then two_counters a x b y n else 0)"
proof -
  have "row_ok (settled sent pending (cdb st) cf k)" for k by (rule settled_ok)
  from counter_put [OF assms(1) this] show ?thesis
    using settled_insert [OF assms(2), of f] by (auto simp del: apply_mut.simps)
qed

lemma store_integer:
  assumes "obj_time obj = Inr (JInt b)" and "ok_time b" and "base_freq obj = Inr 1000"
  shows "to_value obj = JInt n \<Longrightarrow> \<exists>st'. store_value P RateCF obj st = Inr st' \<and> batched sent pending 1 (cdb st) (cdb st') \<and>
      (\<forall>f k c nm. counter (settled sent pending (cdb st') f) k c nm = counter (settled sent pending (cdb st) f) k c nm +
        (if f = RateCF \<and> k = get_rowkey (datapath obj) (obj_freq obj) (Some (dt_year (dt_of_secs b))) \<and> c = b * 1000
         then two_counters ''val'' n ''is_valid'' 1 nm else 0))"
    and "to_value obj = JObj [(''numerator'', JInt n), (''denominator'', JInt 1)] \<Longrightarrow>
      \<exists>st'. store_value P AggCF obj st = Inr st' \<and> batched sent pending 1 (cdb st) (cdb st') \<and>
      (\<forall>f k c nm. counter (settled sent pending (cdb st') f) k c nm = counter (settled sent pending (cdb st) f) k c nm +
        (if f = AggCF \<and> k = get_rowkey (datapath obj) (obj_freq obj) (Some (dt_year (dt_of_secs b))) \<and> c = b * 1000
         then two_counters ''val'' n ''1000'' 1 nm else 0))"
proof -
  note dt = ok_time_datetime [OF assms(1,2)]
  let ?k = "get_rowkey (datapath obj) (obj_freq obj) (Some (dt_year (dt_of_secs b)))"
  show "\<exists>st'. store_value P RateCF obj st = Inr st' \<and> batched sent pending 1 (cdb st) (cdb st') \<and>
      (\<forall>f k c nm. counter (settled sent pending (cdb st') f) k c nm = counter (settled sent pending (cdb st) f) k c nm +
        (if f = RateCF \<and> k = ?k \<and> c = b * 1000 then two_counters ''val'' n ''is_valid'' 1 nm else 0))"
    if "to_value obj = JInt n"
  proof -
    obtain d where d: "cf_insert P RateCF ?k (b * 1000) (Super [(St ''val'', n), (St ''is_valid'', 1)]) (cdb st) = Inr d"
      using insert_ok by blast
    have "store_value P RateCF obj st = Inr (st\<lparr>cdb := d\<rparr>)"
      using that d dt assms(3) by (simp add: store_value_def update_rate_bin_def get_key_def ts_to_jstime_def timegm_def)
    then show ?thesis using insert_counter [OF _ d] insert_batched [OF d] by (auto simp: is_counter_def)
  qed
  show "\<exists>st'. store_value P AggCF obj st = Inr st' \<and> batched sent pending 1 (cdb st) (cdb st') \<and>
      (\<forall>f k c nm. counter (settled sent pending (cdb st') f) k c nm = counter (settled sent pending (cdb st) f) k c nm +
        (if f = AggCF \<and> k = ?k \<and> c = b * 1000 then two_counters ''val'' n ''1000'' 1 nm else 0))"
    if "to_value obj = JObj [(''numerator'', JInt n), (''denominator'', JInt 1)]"
  proof -
    obtain d where d: "cf_insert P AggCF ?k (b * 1000) (Super [(St ''val'', n), (St ''1000'', 1)]) (cdb st) = Inr d"
      using insert_ok by blast
    have "store_value P AggCF obj st = Inr (st\<lparr>cdb := d\<rparr>)"
      using that d dt assms(3)
      by (simp add: store_value_def get_key_def ts_to_jstime_def timegm_def value_int_def show_1000)
    then show ?thesis using insert_counter [OF _ d] insert_batched [OF d] by (auto simp: is_counter_def)
  qed
qed

lemma write_integer:
  assumes "integer_object obj n s" and "snd et < 2 ^ 63"
  shows "\<exists>st'. database_write P (summary_obj obj et) cache st = Inr (cache, st') \<and>
    batched sent pending 1 (cdb st) (cdb st') \<and> (\<forall>f k c nm. counter (settled sent pending (cdb st') f) k c nm = counter (settled sent pending (cdb st) f) k c nm + contribution obj n s et f k c nm)"
proof -
  let ?o = "summary_obj obj et"
  let ?v = "?o\<lparr>to_value := JInt n\<rparr>"
  let ?b = "summary_time (fst et) (snd et) s"
  have o: "event_type_config (to_event_type obj) = Inr TInteger" "py_int (to_value obj) = Inr n"
      "to_ts obj = JInt s" "ok_time s"
    using assms(1) by (auto simp: integer_object_def)
  have t: "obj_time ?o = Inr (JInt ?b)" by (rule summary_obj_time [OF o(3,4) assms(2)])
  then have tv: "obj_time (?o\<lparr>to_value := v\<rparr>) = Inr (JInt ?b)" for v by simp
  have b: "ok_time ?b" by (rule summary_time_ok [OF o(4)])
  have bf: "base_freq (?o\<lparr>to_value := v\<rparr>) = Inr 1000" for v
    using o(1) by (simp add: base_freq_def summary_obj_def)
  have val: "validate TInteger ?o = Inr (JInt n)"
    using o(2) by (simp add: validate_def integer_validate_def summary_obj_def)
  have key: "summary_key obj s et = get_rowkey (datapath (?o\<lparr>to_value := v\<rparr>)) (obj_freq (?o\<lparr>to_value := v\<rparr>))
      (Some (dt_year (dt_of_secs ?b)))" for v
    by (simp add: summary_key_def datapath_def obj_freq_def)
  have type: "event_type_config (to_event_type ?o) = Inr TInteger" "to_summary_type ?o = fst et"
    using o(1) by (simp_all add: summary_obj_def)
  consider "fst et = ''base'' \<or> fst et = ''aggregation''" | "fst et = ''average''"
    | "fst et \<notin> {''base'', ''aggregation'', ''average''}" by blast
  then show ?thesis
  proof cases
    case 1
    obtain st' where st': "store_value P RateCF ?v st = Inr st'" "batched sent pending 1 (cdb st) (cdb st')"
        "\<forall>f k c nm. counter (settled sent pending (cdb st') f) k c nm = counter (settled sent pending (cdb st) f) k c nm +
          (if f = RateCF \<and> k = summary_key obj s et \<and> c = ?b * 1000 then two_counters ''val'' n ''is_valid'' 1 nm else 0)"
      using store_integer(1) [OF tv b bf, of "JInt n" n st] unfolding key [of "JInt n"] by auto
    have "col_family TInteger (fst et) = RateCF" using 1 by (auto simp: col_family_def summary_cf_def)
    then have "database_write P ?o cache st = Inr (cache, st')"
      using 1 st'(1) type val by (auto simp: database_write_def summarise_def aggregation_def)
    then show ?thesis using st'(2,3) 1 by (auto simp: contribution_def)
  next
    case 2
    let ?q = "?o\<lparr>to_value := JObj [(''numerator'', JInt n), (''denominator'', JInt 1)]\<rparr>"
    obtain st' where st': "store_value P AggCF ?q st = Inr st'" "batched sent pending 1 (cdb st) (cdb st')"
        "\<forall>f k c nm. counter (settled sent pending (cdb st') f) k c nm = counter (settled sent pending (cdb st) f) k c nm +
          (if f = AggCF \<and> k = summary_key obj s et \<and> c = ?b * 1000 then two_counters ''val'' n ''1000'' 1 nm else 0)"
      using store_integer(2) [OF tv b bf, of "JObj [(''numerator'', JInt n), (''denominator'', JInt 1)]" n st]
      unfolding key [of "JObj [(''numerator'', JInt n), (''denominator'', JInt 1)]"] by auto
    have "col_family TInteger (fst et) = AggCF" using 2 by (simp add: col_family_def summary_cf_def)
    then have "database_write P ?o cache st = Inr (cache, st')"
      using 2 st'(1) type val by (simp add: database_write_def summarise_def average_def)
    then show ?thesis using st'(2,3) 2 by (auto simp: contribution_def)
  next
    case 3
    then have "database_write P ?o cache st = Inr (cache, st)"
      using type by (simp add: database_write_def)
    then show ?thesis using 3 batched_more [OF batched_0] by (auto simp: contribution_def)
  qed
qed

lemma write_integer_summaries:
  assumes "integer_object obj n s" and "\<forall>et \<in> set ets. snd et < 2 ^ 63"
  shows "\<exists>st'. write_summaries P obj ets cache st = (None, st') \<and>
    batched sent pending (length ets) (cdb st) (cdb st') \<and> (\<forall>f k c nm. counter (settled sent pending (cdb st') f) k c nm =
       counter (settled sent pending (cdb st) f) k c nm + sum_list (map (\<lambda>et. contribution obj n s et f k c nm) ets))"
  using assms(2)
proof (induction ets arbitrary: st)
  case Nil
  then show ?case by (simp add: batched_0)
next
  case (Cons et ets)
  obtain stype w where et: "et = (stype, w)" by (cases et)
  have o: "obj_time obj = Inr (JInt s)" "to_ts obj = JInt s"
    using assms(1) by (auto simp: integer_object_def obj_time_def)
  have same: "obj\<lparr>to_ts := JInt s, to_summary_type := stype, to_summary_window := w\<rparr> = summary_obj obj et"
    using o(2) et by (simp add: summary_obj_def)
  have "snd et < 2 ^ 63" using Cons.prems by simp
  from write_integer [OF assms(1) this, of cache st] obtain st1 where
    w: "database_write P (summary_obj obj et) cache st = Inr (cache, st1)" "batched sent pending 1 (cdb st) (cdb st1)"
      "\<forall>f k c nm. counter (settled sent pending (cdb st1) f) k c nm = counter (settled sent pending (cdb st) f) k c nm + contribution obj n s et f k c nm"
    by blast
  from Cons.IH [of st1] Cons.prems obtain st2 where
    r: "write_summaries P obj ets cache st1 = (None, st2)" "batched sent pending (length ets) (cdb st1) (cdb st2)"
      "\<forall>f k c nm. counter (settled sent pending (cdb st2) f) k c nm =
         counter (settled sent pending (cdb st1) f) k c nm + sum_list (map (\<lambda>et. contribution obj n s et f k c nm) ets)"
    by auto
  have "write_summaries P obj (et # ets) cache st = (None, st2)"
    using w(1) r(1) o(1) same et by simp
  then show ?case using w(3) r(3) batched_trans [OF w(2) r(2)] by (auto simp: add.assoc)
qed

end

subsection \<open>Saves and batches of saves\<close>

lemma insert_by_map: "(\<And>a b. lt (f a) (f b) = lt a b) \<Longrightarrow> insert_by lt (f x) (map f ys) = map f (insert_by lt x ys)"
  by (induction ys) auto

lemma sort_by_map: "(\<And>a b. lt (f a) (f b) = lt a b) \<Longrightarrow> sort_by lt (map f xs) = map f (sort_by lt xs)"
  by (induction xs) (auto simp: sort_by_def insert_by_map)

lemma select_update_time [simp]: "select_summaries (update_time now et mk rows) et' mk' = select_summaries rows et' mk'"
proof -
  let ?upd = "\<lambda>r. if et_event_type r = et \<and> et_metadata_key r = mk then r\<lparr>et_time_updated := Some now\<rparr> else r"
  have f: "filter (\<lambda>r. et_event_type r = et' \<and> et_metadata_key r = mk') (map ?upd rows) =
      map ?upd (filter (\<lambda>r. et_event_type r = et' \<and> et_metadata_key r = mk') rows)"
    by (induction rows) auto
  have s: "sort_by (\<lambda>r s. et_summary_type r < et_summary_type s) (map ?upd xs) =
      map ?upd (sort_by (\<lambda>r s. et_summary_type r < et_summary_type s) xs)" for xs
    by (rule sort_by_map) auto
  show ?thesis unfolding select_summaries_def update_time_def f s by simp
qed

lemma select_length: "length (select_summaries rows et mk) \<le> length rows"
  by (simp add: select_summaries_def)

lemma select_windows: "\<forall>r \<in> set rows. et_summary_window r < 2 ^ 63 \<Longrightarrow>
    \<forall>w \<in> set (select_summaries rows et mk). snd w < 2 ^ 63"
  by (auto simp: select_summaries_def)

context batched_store
begin

lemma multiget_range_sent:
  assumes "sent d' = sent d"
  shows "multiget_range P cf path freq lo hi n d' = multiget_range P cf path freq lo hi n d"
  by (cases n) (simp_all add: multiget_range_def multiget_law count_law assms)

lemma query_database_sent:
  assumes "sent (cdb st') = sent (cdb st)"
  shows "query_database P mk et stype freq a b n now st' = query_database P mk et stype freq a b n now st"
proof -
  note m = multiget_range_sent [OF assms]
  have "query_raw_data P path fr lo hi n st' = query_raw_data P path fr lo hi n st"
    "query_baserate_timerange P path fr lo hi cf n st' = query_baserate_timerange P path fr lo hi cf n st"
    "query_aggregation_timerange P path fr lo hi cf n st' = query_aggregation_timerange P path fr lo hi cf n st"
    for path fr lo hi cf
    by (simp_all add: query_raw_data_def query_baserate_timerange_def query_aggregation_timerange_def m)
  note q = this
  show ?thesis unfolding query_database_def q ..
qed

lemma check_conflict_sent:
  assumes "sent (cdb st') = sent (cdb st)"
  shows "check_conflict P obj st' = check_conflict P obj st"
  unfolding check_conflict_def query_database_sent [OF assms] ..

lemma save_integer:
  assumes "integer_object obj n s" and "\<forall>r \<in> set (ar_event_types ar). et_summary_window r < 2 ^ 63"
    and "check_conflict P obj (ar_cass ar) = Inr ()"
  defines "ets \<equiv> select_summaries (ar_event_types ar) (to_event_type obj) (to_metadata_key obj)"
  shows "\<exists>st'. save P now obj ar = (None, ar\<lparr>ar_cass := st', ar_event_types :=
      update_time now (to_event_type obj) (to_metadata_key obj) (ar_event_types ar)\<rparr>) \<and>
    batched sent pending (length ets) (cdb (ar_cass ar)) (cdb st') \<and>
    (\<forall>f k c nm. counter (settled sent pending (cdb st') f) k c nm =
       counter (settled sent pending (cdb (ar_cass ar)) f) k c nm +
       sum_list (map (\<lambda>et. contribution obj n s et f k c nm) ets))"
  using write_integer_summaries [OF assms(1) select_windows [OF assms(2)],
      of "to_event_type obj" "to_metadata_key obj" "[]" "ar_cass ar"] assms(3)
  by (auto simp: save_def ets_def)

end

text \<open>A point of the bulk PUT, as the client library sends it: one value of one event type.\<close>

definition bulk_point :: "int \<times> string \<times> int \<Rightarrow> json" where
  "bulk_point p = (case p of (s, et, n) \<Rightarrow>
     JObj [(''ts'', JInt s), (''val'', JList [JObj [(''event-type'', JStr et), (''val'', JInt n)]])])"

definition point_object :: "string \<Rightarrow> int \<times> string \<times> int \<Rightarrow> ts_object" where
  "point_object mk p = (case p of (s, et, n) \<Rightarrow> new_ts_object (JInt s) (JInt n) mk et)"

definition point_ok :: "int \<times> string \<times> int \<Rightarrow> bool" where
  "point_ok p = (case p of (s, et, n) \<Rightarrow> event_type_config et = Inr TInteger \<and> ok_time s)"

definition point_contribution ::
  "event_type_row list \<Rightarrow> string \<Rightarrow> int \<times> string \<times> int \<Rightarrow> colfam \<Rightarrow> string \<Rightarrow> int \<Rightarrow> subname \<Rightarrow> int" where
  "point_contribution rows mk p f k c nm = (case p of (s, et, n) \<Rightarrow>
     sum_list (map (\<lambda>w. contribution (point_object mk p) n s w f k c nm) (select_summaries rows et mk)))"

lemma point_object_integer: "point_ok (s, et, n) \<Longrightarrow> integer_object (point_object mk (s, et, n)) n s"
  by (simp add: point_ok_def integer_object_def point_object_def new_ts_object_def)

lemma bulk_point_step:
  "bulk_items P now mk i (bulk_point p # items) ar =
     (case save P now (point_object mk p) ar of
        (Some e, ar') \<Rightarrow> (Some e, ar') | (None, ar') \<Rightarrow> bulk_items P now mk (Suc i) items ar')"
  by (cases p) (auto simp: bulk_point_def point_object_def required_def has_key_def save_value_def
      split: prod.splits option.splits)

lemma point_contribution_update [simp]:
  "point_contribution (update_time now et mk' rows) mk p = point_contribution rows mk p"
  by (simp add: point_contribution_def fun_eq_iff split: prod.splits)

context batched_store
begin

lemma bulk_integers:
  assumes "\<forall>p \<in> set points. point_ok p \<and> check_conflict P (point_object mk p) (ar_cass ar) = Inr ()"
    and "\<forall>r \<in> set (ar_event_types ar). et_summary_window r < 2 ^ 63"
    and "roomy pending (length points * length (ar_event_types ar)) (cdb (ar_cass ar))"
  shows "\<exists>ar'. bulk_items P now mk i (map bulk_point points) ar = (None, ar') \<and>
    sent (cdb (ar_cass ar')) = sent (cdb (ar_cass ar)) \<and>
    (\<forall>f k c nm. counter (settled sent pending (cdb (ar_cass ar')) f) k c nm =
       counter (settled sent pending (cdb (ar_cass ar)) f) k c nm +
       sum_list (map (\<lambda>p. point_contribution (ar_event_types ar) mk p f k c nm) points))"
  using assms
proof (induction points arbitrary: ar i)
  case Nil
  then show ?case by simp
next
  case (Cons p points)
  obtain s et n where p: "p = (s, et, n)" by (cases p)
  let ?obj = "point_object mk p"
  let ?rows = "ar_event_types ar"
  have obj: "integer_object ?obj n s" using Cons.prems(1) p point_object_integer by simp
  have names: "to_event_type ?obj = et" "to_metadata_key ?obj = mk"
    by (simp_all add: p point_object_def new_ts_object_def)
  have pc: "point_contribution ?rows mk p f k c nm =
      sum_list (map (\<lambda>w. contribution ?obj n s w f k c nm) (select_summaries ?rows et mk))" for f k c nm
    by (simp add: p point_contribution_def)
  have free: "check_conflict P ?obj (ar_cass ar) = Inr ()" using Cons.prems(1) by simp
  from save_integer [OF obj Cons.prems(2) free, of now] obtain st1 where
    s: "save P now ?obj ar = (None, ar\<lparr>ar_cass := st1, ar_event_types := update_time now et mk ?rows\<rparr>)"
      "batched sent pending (length (select_summaries ?rows et mk)) (cdb (ar_cass ar)) (cdb st1)"
      "\<forall>f k c nm. counter (settled sent pending (cdb st1) f) k c nm =
         counter (settled sent pending (cdb (ar_cass ar)) f) k c nm + point_contribution ?rows mk p f k c nm"
    unfolding names pc by blast
  let ?ar = "ar\<lparr>ar_cass := st1, ar_event_types := update_time now et mk ?rows\<rparr>"
  have len: "length (update_time now et mk ?rows) = length ?rows" by (simp add: update_time_def)
  have "batched sent pending (length ?rows) (cdb (ar_cass ar)) (cdb st1)"
    by (rule batched_more [OF s(2) select_length])
  then have room: "roomy pending (length points * length ?rows) (cdb st1)" "sent (cdb st1) = sent (cdb (ar_cass ar))"
    using Cons.prems(3) unfolding batched_def by simp_all
  have free1: "check_conflict P o' st1 = check_conflict P o' (ar_cass ar)" for o'
    by (rule check_conflict_sent [OF room(2)])
  have "\<forall>q \<in> set points. point_ok q \<and> check_conflict P (point_object mk q) (ar_cass ?ar) = Inr ()"
    using Cons.prems(1) free1 by simp
  moreover have "\<forall>r \<in> set (ar_event_types ?ar). et_summary_window r < 2 ^ 63"
    using Cons.prems(2) by (auto simp: update_time_def)
  moreover have "roomy pending (length points * length (ar_event_types ?ar)) (cdb (ar_cass ?ar))"
    using room(1) len by simp
  ultimately obtain ar2 where r: "bulk_items P now mk (Suc i) (map bulk_point points) ?ar = (None, ar2)"
      "sent (cdb (ar_cass ar2)) = sent (cdb st1)"
      "\<forall>f k c nm. counter (settled sent pending (cdb (ar_cass ar2)) f) k c nm =
         counter (settled sent pending (cdb st1) f) k c nm +
         sum_list (map (\<lambda>p. point_contribution ?rows mk p f k c nm) points)"
    using Cons.IH [of ?ar "Suc i"] by auto
  have "bulk_items P now mk i (map bulk_point (p # points)) ar = (None, ar2)"
    using s(1) r(1) by (simp add: bulk_point_step del: bulk_items.simps)
  then show ?case using s(3) r(2,3) room(2) by (auto simp: add.assoc simp del: bulk_items.simps)
qed

end

subsection \<open>The conflict check\<close>

lemma in_range_single: "row_ok r \<Longrightarrow> in_range c c r = (case map_of r c of None \<Rightarrow> [] | Some v \<Rightarrow> [(c, v)])"
proof (induction r)
  case Nil
  then show ?case by (simp add: in_range_def)
next
  case (Cons cv r)
  obtain c' v where cv: "cv = (c', v)" by (cases cv)
  have ok: "row_ok r" and above: "\<forall>x \<in> set (map fst r). c' < x"
    using Cons.prems cv by (auto simp: row_ok_def)
  show ?case
  proof (cases "c' = c")
    case True
    then have "map_of r c = None" using above by (force simp: map_of_eq_None_iff)
    then have "in_range c c r = []" using Cons.IH [OF ok] by simp
    then show ?thesis using cv True by (simp add: in_range_def)
  next
    case False
    then have "in_range c c (cv # r) = in_range c c r" using cv by (auto simp: in_range_def)
    then show ?thesis using Cons.IH [OF ok] cv False by simp
  qed
qed

lemma year_keys_single: "year_keys path freq s s = [get_rowkey path freq (Some (dt_year (dt_of_secs s)))]"
  by (simp add: year_keys_def)

lemma delta_divisor: "baserate_divisor ''delta'' None = Inr 1"
  using mkfloat_of_int [of 1]
  by (simp add: baserate_divisor_def true_div_def int_of_float_def trunc_rat_def)

definition base_key :: "ts_object \<Rightarrow> int \<Rightarrow> string" where
  "base_key obj s = get_rowkey (row_prefix (to_event_type obj) @ [to_metadata_key obj]) None
     (Some (dt_year (dt_of_secs s)))"

definition conflict_message :: "ts_object \<Rightarrow> int \<Rightarrow> string" where
  "conflict_message obj s = ''Time series value already exists with event type '' @ to_event_type obj @
     '' at time '' @ show_int s"

context batched_store
begin

lemma check_conflict_integer:
  assumes "integer_object obj n s"
  shows "check_conflict P obj st =
    (case map_of (sent (cdb st) RateCF (base_key obj s)) (s * 1000) of
       None \<Rightarrow> Inr ()
     | Some v \<Rightarrow> rbind (baserate_datum 1 (s * 1000) v) (\<lambda>_. Inl (ConflictException (conflict_message obj s))))"
proof -
  let ?rows = "sent (cdb st) RateCF"
  let ?path = "row_prefix (to_event_type obj) @ [to_metadata_key obj]"
  let ?row = "?rows (base_key obj s)"
  have o: "event_type_config (to_event_type obj) = Inr TInteger" "to_ts obj = JInt s"
      "to_summary_type obj = ''base''" "ms_ok s"
    using assms by (auto simp: integer_object_def ok_time_def)
  have one: "in_range (s * 1000) (s * 1000) ?row =
      (case map_of ?row (s * 1000) of None \<Rightarrow> [] | Some v \<Rightarrow> [(s * 1000, v)])"
    by (rule in_range_single [OF rows_ok])
  have keys: "year_keys ?path None s s = [base_key obj s]"
    by (simp add: year_keys_single base_key_def)
  have enough: "enough_columns (Some 1) ?rows (year_keys ?path None s s) (s * 1000) (s * 1000)"
    using one by (simp add: enough_columns_def keys split: option.splits)
  have cols: "range_cols ?rows (year_keys ?path None s s) (s * 1000) (s * 1000) =
      (case map_of ?row (s * 1000) of None \<Rightarrow> [] | Some v \<Rightarrow> [(s * 1000, v)])"
    using one by (simp add: range_cols_def keys)
  have q: "query_baserate_timerange P ?path None (s * 1000) (s * 1000) ''delta'' (Some 1) st =
      rmap (\<lambda>(c, v). baserate_datum 1 c v)
        (case map_of ?row (s * 1000) of None \<Rightarrow> [] | Some v \<Rightarrow> [(s * 1000, v)])"
    using query_baserate_cols [OF o(4,4) order_refl enough delta_divisor] unfolding cols .
  have db: "query_database P (to_metadata_key obj) (to_event_type obj) ''base'' JNull s (Some s) (Some 1) 0 st =
      query_baserate_timerange P ?path None (s * 1000) (s * 1000) ''delta'' (Some 1) st"
    using o(1) by (simp add: query_database_def SUMMARY_TYPES_def py_freq_def col_family_def summary_cf_def Let_def)
  have t: "obj_time obj = Inr (JInt s)" using o(2,3) by (simp add: obj_time_def)
  have "check_conflict P obj st = rbind (rmap (\<lambda>(c, v). baserate_datum 1 c v)
        (case map_of ?row (s * 1000) of None \<Rightarrow> [] | Some v \<Rightarrow> [(s * 1000, v)]))
      (\<lambda>existing. if existing \<noteq> [] then Inl (ConflictException (conflict_message obj s)) else Inr ())"
    using o(1) t db q unfolding check_conflict_def conflict_message_def by simp
  then show ?thesis by (cases "map_of ?row (s * 1000)") (simp_all add: rbind_assoc)
qed

end

subsection \<open>Properties of the writers\<close>

lemma bulk_put_counters:
  assumes "batched_store P sent pending"
    and "bulk_data rq = Inr (map bulk_point points)"
    and "\<forall>p \<in> set points. point_ok p \<and>
      map_of (sent (cdb (ar_cass ar)) RateCF (base_key (point_object mk p) (fst p))) (fst p * 1000) = None"
    and "\<forall>r \<in> set (ar_event_types ar). et_summary_window r < 2 ^ 63"
    and "roomy pending (length points * length (ar_event_types ar)) (cdb (ar_cass ar))"
  shows "\<exists>ar'. archive_update P now mk rq ar = (None, ar') \<and>
    (\<forall>f k c nm. counter (sent (cdb (ar_cass ar')) f) k c nm =
       counter (settled sent pending (cdb (ar_cass ar)) f) k c nm +
       sum_list (map (\<lambda>p. point_contribution (ar_event_types ar) mk p f k c nm) points))"
proof -
  note store = assms(1)
  have "check_conflict P (point_object mk p) (ar_cass ar) = Inr ()" if "p \<in> set points" for p
  proof -
    obtain s et n where p: "p = (s, et, n)" by (cases p)
    have "integer_object (point_object mk p) n s"
      using assms(3) that p point_object_integer by auto
    from batched_store.check_conflict_integer [OF store this] show ?thesis
      using assms(3) that p by auto
  qed
  then have "\<forall>p \<in> set points. point_ok p \<and> check_conflict P (point_object mk p) (ar_cass ar) = Inr ()"
    using assms(3) by blast
  from batched_store.bulk_integers [OF store this assms(4,5), of now 1] obtain ar1 where
    b: "bulk_items P now mk 1 (map bulk_point points) ar = (None, ar1)"
      "\<forall>f k c nm. counter (settled sent pending (cdb (ar_cass ar1)) f) k c nm =
         counter (settled sent pending (cdb (ar_cass ar)) f) k c nm +
         sum_list (map (\<lambda>p. point_contribution (ar_event_types ar) mk p f k c nm) points)"
    by blast
  obtain st2 where f: "flush P (ar_cass ar1) = Inr st2" using batched_store.flush_ok [OF store] by blast
  have "archive_update P now mk rq ar = (None, ar1\<lparr>ar_cass := st2\<rparr>)"
    using assms(2) b(1) f by (simp add: archive_update_def flush_archive_def)
  then show ?thesis using b(2) batched_store.flush_settled(1) [OF store f] by auto
qed

text \<open>
  C1. A bulk PUT of integer points adds every point to every counter it belongs to: when
  no point is in the store yet and the batches have room, the request succeeds, and after it
  each counter of the store holds what it held (or had queued) before plus the contributions
  of all points: the value itself in the base row, and in the bin of each aggregation window
  and of each average window of the series, with a count of 1 where an average is kept.
\<close>

theorem bulk_put_adds:
  assumes "batched_store P sent pending"
    and "bulk_data rq = Inr (map bulk_point points)"
    and "\<forall>p \<in> set points. point_ok p \<and>
      map_of (sent (cdb (ar_cass ar)) RateCF (base_key (point_object mk p) (fst p))) (fst p * 1000) = None"
    and "\<forall>r \<in> set (ar_event_types ar). et_summary_window r < 2 ^ 63"
    and "roomy pending (length points * length (ar_event_types ar)) (cdb (ar_cass ar))"
  shows "\<exists>ar'. archive_update P now mk rq ar = (None, ar') \<and>
    (\<forall>f k c nm. counter (sent (cdb (ar_cass ar')) f) k c nm =
       counter (settled sent pending (cdb (ar_cass ar)) f) k c nm +
       sum_list (map (\<lambda>p. point_contribution (ar_event_types ar) mk p f k c nm) points))"
  by (rule bulk_put_counters [OF assms])

definition witness_points :: "(int \<times> string \<times> int) list" where
  "witness_points = [(1398965989, ''packet-count-sent'', 5), (1398902400, ''packet-count-sent'', 7)]"

definition bulk_request :: "(int \<times> string \<times> int) list \<Rightarrow> request" where
  "bulk_request points = \<lparr>rq_content_type = ''application/json'', rq_body = ''{}'',
     rq_json = Some (JObj [(''data'', JList (map bulk_point points))]), rq_params = []\<rparr>"

definition witness_archive :: "mem archive" where
  "witness_archive = \<lparr>ar_cass = empty_cass, ar_event_types = [
     \<lparr>et_metadata_key = ''0CB1'', et_event_type = ''packet-count-sent'', et_summary_type = ''base'',
      et_summary_window = 0, et_time_updated = None\<rparr>,
     \<lparr>et_metadata_key = ''0CB1'', et_event_type = ''packet-count-sent'', et_summary_type = ''aggregation'',
      et_summary_window = 3600, et_time_updated = None\<rparr>]\<rparr>"

lemma bulk_data_request: "bulk_data (bulk_request points) = Inr (map bulk_point points)"
  by (simp add: bulk_data_def decode_request_def bulk_request_def required_def has_key_def)

lemma mem_empty_rows [simp]: "mem_rows mem_empty cf = (\<lambda>_. [])" "mem_queue mem_empty cf = []"
  by (simp_all add: mem_rows_def mem_queue_def mem_empty_def row_ok_def fun_eq_iff)

lemma witness_point_ok: "\<forall>p \<in> set witness_points. point_ok p"
  using ms_ok_1398 by (simp add: witness_points_def point_ok_def event_type_config_def EVENT_TYPE_CONFIG_def ok_time_def)

theorem bulk_put_adds_witness:
  "\<exists>ar'. archive_update mem_store (DT 0) ''0CB1'' (bulk_request witness_points) witness_archive = (None, ar') \<and>
    (\<forall>f k c nm. counter (mem_rows (cdb (ar_cass ar')) f) k c nm =
       sum_list (map (\<lambda>p. point_contribution (ar_event_types witness_archive) ''0CB1'' p f k c nm) witness_points))"
proof -
  have "counter (settled mem_rows mem_queue (cdb (ar_cass witness_archive)) f) k c nm = 0" for f k c nm
    by (simp add: witness_archive_def empty_cass_def mem_empty_settled counter_def)
  then show ?thesis
    using bulk_put_adds [OF mem.batched_store_axioms bulk_data_request, of witness_points witness_archive "''0CB1''" "DT 0"]
      witness_point_ok
    by (simp add: witness_archive_def empty_cass_def roomy_def queue_size_def) (simp add: witness_points_def)
qed

text \<open>
  C15. An integer that is in the store is not counted twice: when the base row of the series
  holds a readable counter at the time of the point, saving the point raises the conflict
  and leaves the archive, store and batches included, exactly as it was.
\<close>

theorem stored_point_is_refused:
  assumes "batched_store P sent pending" and "integer_object obj n s"
    and "map_of (sent (cdb (ar_cass ar)) RateCF (base_key obj s)) (s * 1000) = Some (Super subs)"
    and "map_of subs (Bs ''val'') = Some x" and "\<bar>x\<bar> \<le> 2 ^ 53" and "map_of subs (Bs ''is_valid'') = Some ok"
  shows "save P now obj ar = (Some (ConflictException (conflict_message obj s)), ar)"
proof -
  have "baserate_datum 1 (s * 1000) (Super subs) =
      Inr [(''ts'', JInt (s * 1000)), (''val'', JFloat (Fin (of_int x))), (''is_valid'', JInt ok)]"
    using assms(4-6) float_of_int_exact [of 1] float_of_int_exact [OF assms(5)] mkfloat_of_int [OF assms(5)]
    by (simp add: baserate_datum_def sub_get_def fdiv_def)
  then have "check_conflict P obj (ar_cass ar) = Inl (ConflictException (conflict_message obj s))"
    using batched_store.check_conflict_integer [OF assms(1,2), of "ar_cass ar"] assms(3) by simp
  then show ?thesis by (simp add: save_def)
qed

definition witness_integer :: ts_object where
  "witness_integer = new_ts_object (JInt 1398965989) (JInt 5) ''0CB1'' ''packet-count-sent''"

definition stored_archive :: "mem archive" where
  "stored_archive = witness_archive\<lparr>ar_cass := empty_cass\<lparr>cdb := mem_empty(RateCF :=
     ((\<lambda>_. [])(base_key witness_integer 1398965989 :=
       [(1398965989000, Super [(Bs ''val'', 5), (Bs ''is_valid'', 1)])]), []))\<rparr>\<rparr>"

theorem stored_point_is_refused_witness:
  "save mem_store (DT 0) witness_integer stored_archive =
     (Some (ConflictException (conflict_message witness_integer 1398965989)), stored_archive)"
proof (rule stored_point_is_refused [OF mem.batched_store_axioms, where x = 5 and ok = 1])
  show "integer_object witness_integer 5 1398965989"
    using ms_ok_1398 by (simp add: integer_object_def witness_integer_def new_ts_object_def
        event_type_config_def EVENT_TYPE_CONFIG_def ok_time_def)
  show "map_of (mem_rows (cdb (ar_cass stored_archive)) RateCF (base_key witness_integer 1398965989)) (1398965989 * 1000) =
      Some (Super [(Bs ''val'', 5), (Bs ''is_valid'', 1)])"
    by (simp add: stored_archive_def mem_rows_def row_ok_def)
qed simp_all

text \<open>
  C16. Within one bulk PUT the check does not see the points before it: two points of the
  same series and time in one request are both accepted, and the base counter ends up with
  the sum of the two values.
\<close>

theorem duplicate_in_one_put_doubles:
  assumes "batched_store P sent pending"
    and "bulk_data rq = Inr (map bulk_point [(s, et, n), (s, et, m)])" and "point_ok (s, et, n)"
    and "map_of (settled sent pending (cdb (ar_cass ar)) RateCF (base_key (point_object mk (s, et, n)) s)) (s * 1000) = None"
    and "map_of (sent (cdb (ar_cass ar)) RateCF (base_key (point_object mk (s, et, n)) s)) (s * 1000) = None"
    and "\<forall>r \<in> set (ar_event_types ar). et_summary_window r < 2 ^ 63"
    and "select_summaries (ar_event_types ar) et mk = [(''base'', 0)]"
    and "roomy pending (2 * length (ar_event_types ar)) (cdb (ar_cass ar))"
  shows "\<exists>ar'. archive_update P now mk rq ar = (None, ar') \<and>
    counter (sent (cdb (ar_cass ar')) RateCF) (base_key (point_object mk (s, et, n)) s) (s * 1000) (Bs ''val'') = n + m"
proof -
  let ?k = "base_key (point_object mk (s, et, n)) s"
  let ?points = "[(s, et, n), (s, et, m)]"
  have same: "base_key (point_object mk (s, et, m)) s = ?k"
    by (simp add: base_key_def point_object_def new_ts_object_def)
  have ok: "\<forall>p \<in> set ?points. point_ok p \<and>
      map_of (sent (cdb (ar_cass ar)) RateCF (base_key (point_object mk p) (fst p))) (fst p * 1000) = None"
    using assms(3,5) same by (simp add: point_ok_def)
  have c: "point_contribution (ar_event_types ar) mk (s, et, x) RateCF ?k (s * 1000) (Bs ''val'') = x" for x
    using assms(7)
    by (simp add: point_contribution_def contribution_def summary_key_def summary_time_def summary_obj_def
        point_object_def new_ts_object_def base_key_def datapath_def obj_freq_def two_counters_def)
  have "roomy pending (length ?points * length (ar_event_types ar)) (cdb (ar_cass ar))"
    using assms(8) by (simp add: mult_2)
  from bulk_put_counters [OF assms(1,2) ok assms(6) this, of now] obtain ar' where
    "archive_update P now mk rq ar = (None, ar')"
    "counter (sent (cdb (ar_cass ar')) RateCF) ?k (s * 1000) (Bs ''val'') =
       counter (settled sent pending (cdb (ar_cass ar)) RateCF) ?k (s * 1000) (Bs ''val'') + (n + m)"
    using c by auto
  then show ?thesis using assms(4) by (auto simp: counter_def)
qed

definition base_only_archive :: "mem archive" where
  "base_only_archive = \<lparr>ar_cass = empty_cass, ar_event_types = [
     \<lparr>et_metadata_key = ''0CB1'', et_event_type = ''packet-count-sent'', et_summary_type = ''base'',
      et_summary_window = 0, et_time_updated = None\<rparr>]\<rparr>"

theorem duplicate_in_one_put_doubles_witness:
  "\<exists>ar'. archive_update mem_store (DT 0) ''0CB1''
      (bulk_request [(1398965989, ''packet-count-sent'', 5), (1398965989, ''packet-count-sent'', 5)]) base_only_archive
      = (None, ar') \<and>
    counter (mem_rows (cdb (ar_cass ar')) RateCF)
      (base_key (point_object ''0CB1'' (1398965989, ''packet-count-sent'', 5)) 1398965989)
      (1398965989 * 1000) (Bs ''val'') = 10"
proof -
  have "point_ok (1398965989, ''packet-count-sent'', 5)"
    using ms_ok_1398 by (simp add: point_ok_def event_type_config_def EVENT_TYPE_CONFIG_def ok_time_def)
  from duplicate_in_one_put_doubles [OF mem.batched_store_axioms bulk_data_request this,
      where m = 5 and ar = base_only_archive and mk = "''0CB1''" and now = "DT 0"]
  show ?thesis
    by (simp add: base_only_archive_def empty_cass_def mem_empty_settled roomy_def queue_size_def
        select_summaries_def sort_by_def)
qed

subsection \<open>A JSON measurement, posted and queried\<close>

lemma check_create_base:
  assumes "check_create kwargs rq = Inr obj"
  shows "to_summary_type obj = ''base'' \<and> to_summary_window obj = 0"
proof -
  have "\<exists>ts v mk et. obj = new_ts_object ts v mk et"
    using assms unfolding check_create_def
    by (cases "map_of kwargs ''metadata_key''"; cases "map_of kwargs ''event_type''";
        cases "map_of kwargs ''summary_type''") (auto simp: res_simps split: if_split_asm)
  then show ?thesis by (auto simp: new_ts_object_def)
qed

definition json_datum :: "ts_object \<Rightarrow> int \<Rightarrow> raw_rate_data" where
  "json_datum obj s = \<lparr>c_path = row_prefix (to_event_type obj) @ [to_metadata_key obj], c_ts = dt_of_secs s,
     c_val = to_value obj, c_freq = None\<rparr>"

text \<open>A POST to a JSON series is one raw datum, written and flushed.\<close>

lemma json_post_writes:
  assumes "batched_store P sent pending"
    and "check_create kwargs rq = Inr obj" and "event_type_config (to_event_type obj) = Inr TJson"
    and "to_ts obj = JInt s" and "ms_ok s"
    and "select_summaries (ar_event_types ar) (to_event_type obj) (to_metadata_key obj) = [(''base'', 0)]"
  shows "\<exists>st1 ar'. set_raw_data P (json_datum obj s) (ar_cass ar) = Inr st1 \<and> flush P st1 = Inr (ar_cass ar') \<and>
    timeseries_create P now kwargs rq ar = (None, ar') \<and>
    (\<forall>et mk. select_summaries (ar_event_types ar') et mk = select_summaries (ar_event_types ar) et mk)"
proof -
  have base: "to_summary_type obj = ''base''" "to_summary_window obj = 0"
    using check_create_base [OF assms(2)] by simp_all
  let ?r = "json_datum obj s"
  have t: "obj_time obj = Inr (JInt s)" using assms(4) base by (simp add: obj_time_def)
  have same: "obj\<lparr>to_ts := JInt s, to_summary_type := ''base'', to_summary_window := 0\<rparr> = obj"
    using assms(4) base by simp
  have same_v: "obj\<lparr>to_value := to_value obj\<rparr> = obj" by simp
  obtain d1 where "cf_insert P RawCF (get_key ?r) (ts_to_jstime ?r) (RawCol (c_val ?r)) (cdb (ar_cass ar)) = Inr d1"
    using batched_store.insert_ok [OF assms(1)] by blast
  then have w: "set_raw_data P ?r (ar_cass ar) = Inr ((ar_cass ar)\<lparr>cdb := d1\<rparr>)" by (simp add: set_raw_data_def)
  let ?st1 = "(ar_cass ar)\<lparr>cdb := d1\<rparr>"
  have dt: "get_datetime obj = Inr (dt_of_secs s)"
    using t assms(5) by (intro get_datetime_int) (auto simp: ms_ok_def)
  have "database_write P obj [] (ar_cass ar) = Inr ([], ?st1)"
    using assms(3) base w dt same_v
    by (simp add: database_write_def validate_def json_validate_def summarise_def store_value_def col_family_def
        summary_cf_def base_freq_def datapath_def obj_freq_def json_datum_def)
  then have ws: "write_summaries P obj [(''base'', 0)] [] (ar_cass ar) = (None, ?st1)"
    using t same by simp
  have "check_conflict P obj (ar_cass ar) = Inr ()"
    using assms(3) by (simp add: check_conflict_def)
  then have sv: "save P now obj ar = (None, ar\<lparr>ar_cass := ?st1, ar_event_types :=
      update_time now (to_event_type obj) (to_metadata_key obj) (ar_event_types ar)\<rparr>)"
    using ws assms(6) by (simp add: save_def)
  obtain st2 where "flush P ?st1 = Inr st2" using batched_store.flush_ok [OF assms(1)] by blast
  then show ?thesis using assms(2) sv w by (simp add: timeseries_create_def flush_archive_def)
qed

lemma json_post_stores:
  assumes "batched_store P sent pending"
    and "raw_rows (settled sent pending (cdb (ar_cass ar)) RawCF)"
    and "check_create kwargs rq = Inr obj" and "event_type_config (to_event_type obj) = Inr TJson"
    and "to_ts obj = JInt s" and "ms_ok a" and "ms_ok b" and "ms_ok s" and "a \<le> s" and "s \<le> b"
    and "select_summaries (ar_event_types ar) (to_event_type obj) (to_metadata_key obj) = [(''base'', 0)]"
  shows "\<exists>ar'. timeseries_create P now kwargs rq ar = (None, ar') \<and>
    raw_rows (sent (cdb (ar_cass ar')) RawCF) \<and>
    (\<exists>k c v. sent (cdb (ar_cass ar')) RawCF = apply_mut RawCF (Ins k c v) (settled sent pending (cdb (ar_cass ar)) RawCF)) \<and>
    (\<forall>n. enough_columns n (sent (cdb (ar_cass ar')) RawCF)
        (year_keys (row_prefix (to_event_type obj) @ [to_metadata_key obj]) None a b) (a * 1000) (b * 1000) \<longrightarrow>
      (\<exists>rs. query_raw_data P (row_prefix (to_event_type obj) @ [to_metadata_key obj]) None (a * 1000) (b * 1000) n (ar_cass ar') = Inr rs \<and>
        ts_val_dict (s * 1000) (to_value obj) \<in> set rs))"
proof -
  note store = assms(1)
  obtain st1 ar' where w: "set_raw_data P (json_datum obj s) (ar_cass ar) = Inr st1"
      and f: "flush P st1 = Inr (ar_cass ar')" and create: "timeseries_create P now kwargs rq ar = (None, ar')"
    using json_post_writes [OF store assms(3-5,8,11)] by blast
  note mut = raw_write_sent [OF store w f]
  have raw: "raw_rows (sent (cdb (ar_cass ar')) RawCF)"
    unfolding mut using raw_rows_put [OF assms(2)] batched_store.settled_ok [OF store] by simp
  have found: "\<exists>rs. query_raw_data P (row_prefix (to_event_type obj) @ [to_metadata_key obj]) None (a * 1000) (b * 1000) n (ar_cass ar') = Inr rs \<and>
      ts_val_dict (s * 1000) (to_value obj) \<in> set rs"
    if "enough_columns n (sent (cdb (ar_cass ar')) RawCF)
      (year_keys (row_prefix (to_event_type obj) @ [to_metadata_key obj]) None a b) (a * 1000) (b * 1000)" for n
    using raw_write_found [OF store assms(2,6,7) _ _ w f, of n] that assms(9,10)
    by (simp add: json_datum_def ts_to_jstime_def timegm_def)
  show ?thesis using create found raw mut by blast
qed

lemma query_database_json:
  assumes "event_type_config et = Inr TJson"
  shows "query_database P mk et ''base'' JNull a (Some b) n now st =
    query_raw_data P (row_prefix et @ [mk]) None (a * 1000) (b * 1000) n st"
  using assms by (simp add: query_database_def SUMMARY_TYPES_def py_freq_def col_family_def summary_cf_def Let_def)

text \<open>
  What is posted can be queried: a POST to the endpoint of a JSON event type that passes
  the checks succeeds, and every later query of the base series whose range contains its time
  (and whose column count cuts nothing off) returns the posted value at the posted time.
\<close>

theorem json_post_then_query:
  assumes "batched_store P sent pending"
    and "raw_rows (settled sent pending (cdb (ar_cass ar)) RawCF)"
    and "check_create kwargs rq = Inr obj" and "event_type_config (to_event_type obj) = Inr TJson"
    and "to_ts obj = JInt s" and "ms_ok a" and "ms_ok b" and "ms_ok s" and "a \<le> s" and "s \<le> b"
    and "select_summaries (ar_event_types ar) (to_event_type obj) (to_metadata_key obj) = [(''base'', 0)]"
  shows "\<exists>ar'. timeseries_create P now kwargs rq ar = (None, ar') \<and>
    (\<forall>n. enough_columns n (sent (cdb (ar_cass ar')) RawCF)
        (year_keys (row_prefix (to_event_type obj) @ [to_metadata_key obj]) None a b) (a * 1000) (b * 1000) \<longrightarrow>
      (\<exists>rs. query_database P (to_metadata_key obj) (to_event_type obj) ''base'' JNull a (Some b) n 0 (ar_cass ar') = Inr rs \<and>
        ts_val_dict (s * 1000) (to_value obj) \<in> set rs))"
  using json_post_stores [OF assms, of now] unfolding query_database_json [OF assms(4)] by auto

definition json_kwargs :: "string dict" where
  "json_kwargs = [(''metadata_key'', ''0CB1''), (''event_type'', ''failures'')]"

definition json_request :: request where
  "json_request = \<lparr>rq_content_type = ''application/json'', rq_body = ''{}'',
     rq_json = Some (JObj [(''ts'', JInt 1398965989), (''val'', JStr ''down'')]), rq_params = []\<rparr>"

definition json_archive :: "mem archive" where
  "json_archive = \<lparr>ar_cass = empty_cass, ar_event_types = [
     \<lparr>et_metadata_key = ''0CB1'', et_event_type = ''failures'', et_summary_type = ''base'',
      et_summary_window = 0, et_time_updated = None\<rparr>]\<rparr>"

theorem json_post_then_query_witness:
  "\<exists>ar' rs. timeseries_create mem_store (DT 0) json_kwargs json_request json_archive = (None, ar') \<and>
    query_database mem_store ''0CB1'' ''failures'' ''base'' JNull 1398902400 (Some 1398999999) None 0 (ar_cass ar') = Inr rs \<and>
    ts_val_dict (1398965989 * 1000) (JStr ''down'') \<in> set rs"
proof -
  have c: "check_create json_kwargs json_request =
      Inr (new_ts_object (JInt 1398965989) (JStr ''down'') ''0CB1'' ''failures'')"
    by (simp add: check_create_def json_kwargs_def json_request_def decode_request_def has_key_def
        EVENT_TYPE_CONFIG_def)
  have raw: "raw_rows (settled mem_rows mem_queue (cdb (ar_cass json_archive)) RawCF)"
    by (simp add: json_archive_def empty_cass_def mem_empty_settled raw_rows_def)
  have sel: "select_summaries (ar_event_types json_archive) ''failures'' ''0CB1'' = [(''base'', 0)]"
    by (simp add: json_archive_def select_summaries_def sort_by_def)
  have ty: "event_type_config ''failures'' = Inr TJson"
    by (simp add: event_type_config_def EVENT_TYPE_CONFIG_def)
  from json_post_then_query [OF mem.batched_store_axioms raw c, of 1398965989 1398902400 1398999999 "DT 0"] ty sel
  obtain ar' where a: "timeseries_create mem_store (DT 0) json_kwargs json_request json_archive = (None, ar')"
      "\<forall>n. enough_columns n (mem_rows (cdb (ar_cass ar')) RawCF)
          (year_keys (row_prefix ''failures'' @ [''0CB1'']) None 1398902400 1398999999) (1398902400 * 1000) (1398999999 * 1000) \<longrightarrow>
        (\<exists>rs. query_database mem_store ''0CB1'' ''failures'' ''base'' JNull 1398902400 (Some 1398999999) n 0 (ar_cass ar')
            = Inr rs \<and> ts_val_dict (1398965989 * 1000) (JStr ''down'') \<in> set rs)"
    by (auto simp: new_ts_object_def ms_ok_1398)
  from a(2) [rule_format, of None] a(1) show ?thesis by auto
qed

end
