(* ===== verification/Series_Views.thy ===== *)
theory Series_Views
  imports Api_Filters Time_Series_Facts
begin

section \<open>The GET views\<close>

text \<open>
  The read side of \<open>esmond/api/perfsonar/api_v2.py\<close>: \<open>TimeSeriesViewset.retrieve\<close> and
  \<open>summary_details\<close>, and \<open>EventTypeDetailViewset\<close>. A request is the keyword arguments of its
  URL and its query parameters. The REST framework's paginator, which cuts a page out of the
  data and makes the links to its neighbours, and the path of the URL it reverses for a
  metadata record are arguments. A response is the list it holds and its headers.
\<close>

type_synonym response = "json dict list \<times> string dict"

type_synonym paginator = "string dict \<Rightarrow> json dict list \<Rightarrow> json dict list \<times> string option \<times> string option"

text \<open>The rows of a query set come in the order of the model.\<close>

definition event_type_less :: "event_type_row \<Rightarrow> event_type_row \<Rightarrow> bool" where
  "event_type_less r s =
     (if et_metadata_key r \<noteq> et_metadata_key s then et_metadata_key r < et_metadata_key s
      else if et_event_type r \<noteq> et_event_type s then et_event_type r < et_event_type s
      else if et_summary_type r \<noteq> et_summary_type s then et_summary_type r < et_summary_type s
      else et_summary_window r < et_summary_window s)"

definition event_types_where :: "(event_type_row \<Rightarrow> bool) \<Rightarrow> 'd archive \<Rightarrow> event_type_row list" where
  "event_types_where p ar = sort_by event_type_less (filter p (ar_event_types ar))"

definition summaries_of :: "json dict \<Rightarrow> json dict list res" where
  "summaries_of d = (case map_of d ''summaries'' of
     Some (JList ss) \<Rightarrow> rmap (\<lambda>s. case s of JObj o' \<Rightarrow> Inr o' | _ \<Rightarrow> Inl TypeError) ss
   | _ \<Rightarrow> Inl HttpNotFound)"

definition summary_details ::
  "(string \<Rightarrow> string) \<Rightarrow> string \<Rightarrow> string \<Rightarrow> string \<Rightarrow> 'd archive \<Rightarrow> json dict list res" where
  "summary_details url_path metadata_key event_type summary_type ar =
     (case map_of SUMMARY_TYPES summary_type of None \<Rightarrow> Inl KeyError | Some stype \<Rightarrow>
      rbind (build_event_type_list (event_types_where (\<lambda>r. et_metadata_key r = metadata_key \<and>
          et_event_type r = event_type \<and> et_summary_type r = stype) ar)) (\<lambda>event_type_detail.
      case event_type_detail of
        [] \<Rightarrow> Inl HttpNotFound
      | d # _ \<Rightarrow> rbind (summaries_of d) (rmap (prefix_str (url_path metadata_key) ''uri''))))"

text \<open>The checks of the URL: the event type, the metadata key and the summary type.\<close>

definition check_retrieve :: "string dict \<Rightarrow> (string \<times> string \<times> string) res" where
  "check_retrieve kwargs =
     (case map_of kwargs ''event_type'' of None \<Rightarrow> Inl (ParseError ''No event type specified for data query'')
      | Some event_type \<Rightarrow>
        (case map_of kwargs ''metadata_key'' of None \<Rightarrow> Inl (ParseError ''No metadata key specified for data query'')
         | Some metadata_key \<Rightarrow>
           if \<not> has_key event_type EVENT_TYPE_CONFIG then
             Inl (ParseError (''Unsupported event type '' @ quoted event_type @ '' provided''))
           else (case map_of kwargs ''summary_type'' of
               None \<Rightarrow> Inr (event_type, metadata_key, ''base'')
             | Some s \<Rightarrow> if has_key s SUMMARY_TYPES then Inr (event_type, metadata_key, s)
                 else Inl (ParseError (''Invalid summary type '' @ quoted s)))))"

text \<open>How many columns to read: enough for the page, or a million.\<close>

definition max_results :: "string dict \<Rightarrow> int res" where
  "max_results params =
     (case map_of params ''limit'' of
        None \<Rightarrow> Inr 1000000
      | Some l \<Rightarrow> rbind (py_int (JStr l)) (\<lambda>n.
          case map_of params ''offset'' of
            None \<Rightarrow> Inr n | Some off \<Rightarrow> rbind (py_int (JStr off)) (\<lambda>k. Inr (n + k))))"

text \<open>The data of a series, before it is cut into pages.\<close>

definition retrieve_data ::
  "'d pycassa \<Rightarrow> int \<Rightarrow> string \<Rightarrow> string \<Rightarrow> string \<Rightarrow> json \<Rightarrow> string dict \<Rightarrow> 'd archive \<Rightarrow> json dict list res" where
  "retrieve_data P now metadata_key event_type summary_type freq params ar =
     rbind (handle_time_filters now params) (\<lambda>tf.
     rbind (max_results params) (\<lambda>n.
     rbind (query_database P metadata_key event_type summary_type freq (tf_begin tf) (tf_end tf) (Some n) now (ar_cass ar))
       (rmap serialize_datum)))"

definition timeseries_retrieve ::
  "'d pycassa \<Rightarrow> paginator \<Rightarrow> (string \<Rightarrow> string) \<Rightarrow> int \<Rightarrow> string dict \<Rightarrow> string dict \<Rightarrow> 'd archive \<Rightarrow> response res" where
  "timeseries_retrieve P paginate url_path now kwargs params ar =
     rbind (check_retrieve kwargs) (\<lambda>(event_type, metadata_key, summary_type).
     case map_of kwargs ''summary_window'' of
       None \<Rightarrow>
         if summary_type \<noteq> ''base'' then
           rbind (summary_details url_path metadata_key event_type summary_type ar) (\<lambda>ss. Inr (ss, []))
         else rbind (retrieve_data P now metadata_key event_type summary_type JNull params ar)
           (\<lambda>data. case paginate params data of (page, n, p) \<Rightarrow> Inr (page, link_header n p))
     | Some w \<Rightarrow> rbind (valid_summary_window w) (\<lambda>freq.
         rbind (retrieve_data P now metadata_key event_type summary_type (JStr freq) params ar)
           (\<lambda>data. case paginate params data of (page, n, p) \<Rightarrow> Inr (page, link_header n p))))"

definition event_type_retrieve :: "(string \<Rightarrow> string) \<Rightarrow> string \<Rightarrow> string \<Rightarrow> 'd archive \<Rightarrow> json dict list res" where
  "event_type_retrieve url_path metadata_key event_type ar =
     rbind (build_event_type_list (event_types_where (\<lambda>r. et_metadata_key r = metadata_key \<and> et_event_type r = event_type) ar))
       (rmap (add_uris (url_path metadata_key)))"

text \<open>The POST of an event type only checks that its body is JSON.\<close>

definition event_type_create :: "request \<Rightarrow> unit res" where
  "event_type_create rq = rbind (decode_request rq) (\<lambda>_. Inr ())"

subsection \<open>Seconds in, seconds out\<close>

lemma div_1e3_secs:
  assumes "ms_ok s"
  shows "div_1e3 (JInt (s * 1000)) = Inr s"
proof -
  have b: "\<bar>s * 1000\<bar> \<le> 2 ^ 53" "\<bar>s\<bar> \<le> 2 ^ 53" using assms by (auto simp: ms_ok_def)
  have "fdiv (Fin (of_int (s * 1000))) (Fin 1000) = Inr (Fin (of_int s))"
    using mkfloat_of_int [OF b(2)] by (simp add: fdiv_def)
  then show ?thesis using float_of_int_exact [OF b(1)] by (simp add: int_of_float_def)
qed

lemma serialize_ts_val:
  assumes "ms_ok s"
  shows "serialize_datum (ts_val_dict (s * 1000) v) = Inr (ts_val_dict s v)"
  unfolding serialize_datum_def ts_val_dict_def using div_1e3_secs [OF assms] by simp

lemma rmap_member:
  "rmap f xs = Inr ys \<Longrightarrow> x \<in> set xs \<Longrightarrow> \<exists>y \<in> set ys. f x = Inr y"
  by (induction xs arbitrary: ys) (auto simp: res_simps)

text \<open>Every JavaScript timestamp below \<open>2 ^ 53\<close> has a number of seconds.\<close>

lemma div_1e3_total:
  assumes "\<bar>c\<bar> \<le> 2 ^ 53"
  shows "\<exists>n. div_1e3 (JInt c) = Inr n"
proof -
  let ?x = "of_int c / 1000 :: rat"
  have "\<bar>fl ?x\<bar> < 2 ^ 1024"
  proof (cases "c = 0")
    case False
    have le: "\<bar>?x\<bar> \<le> 2 ^ 53" using assms by (simp add: abs_if split: if_splits)
    have "2 powi (-1022) \<le> (1 / 1000 :: rat)" by (simp add: power_int_minus)
    also have "\<dots> \<le> \<bar>?x\<bar>" using False by simp
    finally have "\<bar>fl ?x - ?x\<bar> \<le> \<bar>?x\<bar> / 2 ^ 53" by (rule fl_error)
    also have "\<dots> \<le> \<bar>?x\<bar>" by (simp add: field_simps)
    finally have "\<bar>fl ?x\<bar> \<le> 2 * \<bar>?x\<bar>" by linarith
    also have "\<dots> \<le> 2 * 2 ^ 53" using le by simp
    also have "\<dots> < 2 ^ 1024" by simp
    finally show ?thesis .
  qed simp
  then have "mkfloat ?x = Fin (fl ?x)" by (intro mkfloat_eval) simp_all
  then show ?thesis using float_of_int_exact [OF assms] by (simp add: fdiv_def int_of_float_def)
qed

lemma rmap_total: "(\<And>x. x \<in> set xs \<Longrightarrow> \<exists>y. f x = Inr y) \<Longrightarrow> \<exists>ys. rmap f xs = Inr ys"
proof (induction xs)
  case (Cons x xs)
  then obtain y ys where "f x = Inr y" "rmap f xs = Inr ys" by force
  then show ?case by simp
qed simp

lemma in_range_put: "length (in_range lo hi (put_col cf c v r)) \<le> Suc (length (in_range lo hi r))"
  by (induction cf c v r rule: put_col.induct) (auto simp: in_range_def)

lemma enough_after_insert:
  assumes "\<And>k. k \<in> set keys \<Longrightarrow> int (length (in_range lo hi (rows k))) < n"
  shows "enough_columns (Some n) (apply_mut cf (Ins k0 c v) rows) keys lo hi"
proof -
  have "int (length (in_range lo hi (apply_mut cf (Ins k0 c v) rows k))) \<le> n" if "k \<in> set keys" for k
    using assms [OF that] in_range_put [of lo hi cf c v "rows k"] by (cases "k = k0") auto
  then show ?thesis by (simp add: enough_columns_def)
qed

text \<open>
  A measurement that is posted is got back: after a POST to the endpoint of a JSON event
  type that passes the checks, a GET of the base series over a window around its time answers
  with a page of a list that holds the time in seconds, as it was posted, and the value. The
  paginator decides which page; the window must hold fewer columns than the limit.
\<close>

theorem json_post_then_get:
  assumes "batched_store P sent pending"
    and "raw_rows (settled sent pending (cdb (ar_cass ar)) RawCF)"
    and "check_create kwargs rq = Inr obj" and "event_type_config (to_event_type obj) = Inr TJson"
    and "to_ts obj = JInt s" and "ms_ok a" and "ms_ok b" and "ms_ok s" and "a \<le> s" and "s \<le> b"
    and "select_summaries (ar_event_types ar) (to_event_type obj) (to_metadata_key obj) = [(''base'', 0)]"
    and "check_retrieve kwargs = Inr (to_event_type obj, to_metadata_key obj, ''base'')"
    and "map_of kwargs ''summary_window'' = None"
    and "handle_time_filters now' params = Inr \<lparr>tf_begin = a, tf_end = Some b, tf_has_filters = h\<rparr>"
    and "max_results params = Inr n"
    and "\<And>k. int (length (in_range (a * 1000) (b * 1000) (settled sent pending (cdb (ar_cass ar)) RawCF k))) < n"
  shows "\<exists>ar' data. timeseries_create P now kwargs rq ar = (None, ar') \<and> ts_val_dict s (to_value obj) \<in> set data \<and>
    timeseries_retrieve P paginate url_path now' kwargs params ar' =
      Inr (fst (paginate params data), link_header (fst (snd (paginate params data))) (snd (snd (paginate params data))))"
proof -
  let ?path = "row_prefix (to_event_type obj) @ [to_metadata_key obj]"
  obtain ar' k c v where create: "timeseries_create P now kwargs rq ar = (None, ar')"
    and raw: "raw_rows (sent (cdb (ar_cass ar')) RawCF)"
    and mut: "sent (cdb (ar_cass ar')) RawCF = apply_mut RawCF (Ins k c v) (settled sent pending (cdb (ar_cass ar)) RawCF)"
    and found: "\<And>n. enough_columns n (sent (cdb (ar_cass ar')) RawCF) (year_keys ?path None a b) (a * 1000) (b * 1000) \<Longrightarrow>
      \<exists>rs. query_raw_data P ?path None (a * 1000) (b * 1000) n (ar_cass ar') = Inr rs \<and> ts_val_dict (s * 1000) (to_value obj) \<in> set rs"
    using json_post_stores [OF assms(1-11)] by blast
  have enough: "enough_columns (Some n) (sent (cdb (ar_cass ar')) RawCF) (year_keys ?path None a b) (a * 1000) (b * 1000)"
    unfolding mut by (rule enough_after_insert) (rule assms(16))
  obtain rs where rs: "query_raw_data P ?path None (a * 1000) (b * 1000) (Some n) (ar_cass ar') = Inr rs"
      and mem: "ts_val_dict (s * 1000) (to_value obj) \<in> set rs"
    using found [OF enough] by blast
  let ?cols = "range_cols (sent (cdb (ar_cass ar')) RawCF) (year_keys ?path None a b) (a * 1000) (b * 1000)"
  have "a \<le> b" using assms(9,10) by simp
  then have rs_eq: "rs = map (\<lambda>(c, v). ts_val_dict c (col_json v)) ?cols"
    using batched_store.query_raw_cols [OF assms(1,6,7) _ enough] raw_datum_rows [OF raw] rs by simp
  have "\<exists>y. serialize_datum x = Inr y" if "x \<in> set rs" for x
  proof -
    obtain c v where x: "x = ts_val_dict c (col_json v)" and "(c, v) \<in> set ?cols" using \<open>x \<in> set rs\<close> rs_eq by auto
    then have "a * 1000 \<le> c" "c \<le> b * 1000" by (auto simp: range_cols_set)
    then have "\<bar>c\<bar> \<le> 2 ^ 53" using assms(6,7) by (auto simp: ms_ok_def)
    then obtain k where "div_1e3 (JInt c) = Inr k" using div_1e3_total by blast
    then show ?thesis unfolding x serialize_datum_def ts_val_dict_def by (simp del: div_1e3.simps)
  qed
  then obtain data where data: "rmap serialize_datum rs = Inr data" using rmap_total by blast
  have "ts_val_dict s (to_value obj) \<in> set data"
    using rmap_member [OF data mem] serialize_ts_val [OF assms(8)] by auto
  moreover have "retrieve_data P now' (to_metadata_key obj) (to_event_type obj) ''base'' JNull params ar' = Inr data"
    using data rs by (simp add: retrieve_data_def assms(14,15) query_database_json [OF assms(4)])
  ultimately show ?thesis using create
    by (intro exI [of _ ar'] exI [of _ data]) (simp add: timeseries_retrieve_def assms(12,13) case_prod_beta)
qed

definition first_page :: paginator where
  "first_page params data = (take 1500 data, None, None)"

definition window_params :: "string dict" where
  "window_params = [(''time-start'', ''1398902400''), (''time-end'', ''1398999999'')]"

theorem json_post_then_get_witness:
  "\<exists>ar' data. timeseries_create mem_store (DT 0) json_kwargs json_request json_archive = (None, ar') \<and>
    ts_val_dict 1398965989 (JStr ''down'') \<in> set data \<and>
    timeseries_retrieve mem_store first_page (\<lambda>k. ''/'' @ k) 1399000000 json_kwargs window_params ar' = Inr (take 1500 data, [])"
proof -
  have c: "check_create json_kwargs json_request =
      Inr (new_ts_object (JInt 1398965989) (JStr ''down'') ''0CB1'' ''failures'')"
    by (simp add: check_create_def json_kwargs_def json_request_def decode_request_def has_key_def EVENT_TYPE_CONFIG_def)
  have empty: "settled mem_rows mem_queue (cdb (ar_cass json_archive)) RawCF = (\<lambda>_. [])"
    by (simp add: json_archive_def empty_cass_def mem_empty_settled)
  have sel: "select_summaries (ar_event_types json_archive) ''failures'' ''0CB1'' = [(''base'', 0)]"
    by (simp add: json_archive_def select_summaries_def sort_by_def)
  have ty: "event_type_config ''failures'' = Inr TJson"
    by (simp add: event_type_config_def EVENT_TYPE_CONFIG_def)
  have url: "check_retrieve json_kwargs = Inr (''failures'', ''0CB1'', ''base'')"
    by (simp add: check_retrieve_def json_kwargs_def has_key_def EVENT_TYPE_CONFIG_def)
  have times: "handle_time_filters 1399000000 window_params =
      Inr \<lparr>tf_begin = 1398902400, tf_end = Some 1398999999, tf_has_filters = True\<rparr>"
    by (simp add: handle_time_filters_def select_times_def window_params_def valid_time_def str_eval)
  show ?thesis
    using json_post_then_get [OF mem.batched_store_axioms _ c, where s = 1398965989 and a = 1398902400 and b = 1398999999
        and now = "DT 0" and now' = 1399000000 and params = window_params and n = 1000000 and h = True
        and ar = json_archive and paginate = first_page and url_path = "\<lambda>k. ''/'' @ k"] ty sel url times
    by (simp add: empty raw_rows_def new_ts_object_def ms_ok_1398 first_page_def link_header_def json_kwargs_def
        max_results_def window_params_def in_range_def)
qed

end
