(* ===== verification/Py_Text.thy ===== *)
theory Py_Text
  imports Py_Values Py_Datetime
begin

section \<open>Values as text\<close>

text \<open>
  \<open>str\<close>, \<open>repr\<close> and \<open>json.dumps\<close> of JSON values, and \<open>str\<close> of a datetime. A finite float is printed
  with the fewest digits (at most 17) that are read back as the same double, the nearest such
  decimal; the sign of zero is not kept by \<open>pyfloat\<close>, so that it is never printed.
\<close>

subsection \<open>Floats\<close>

text \<open>The \<open>e\<close> with \<open>10 ^ e \<le> x < 10 ^ (e + 1)\<close>, for \<open>x\<close> above zero.\<close>

definition dec_exp :: "rat \<Rightarrow> int" where
  "dec_exp x = (if 1 \<le> x then int (length (show_nat (nat \<lfloor>x\<rfloor>))) - 1
     else - int (length (show_nat (nat (\<lceil>1 / x\<rceil> - 1)))))"

text \<open>The decimals of \<open>n\<close> digits on both sides of \<open>x\<close>, the nearer one first.\<close>

definition decimals :: "nat \<Rightarrow> rat \<Rightarrow> int list" where
  "decimals n x = (let s = x * 10 powi (int n - 1 - dec_exp x); f = \<lfloor>s\<rfloor>; r = round_even s in
     if r = f then [f, f + 1] else [f + 1, f])"

definition reads_as :: "rat \<Rightarrow> nat \<Rightarrow> int \<Rightarrow> bool" where
  "reads_as x n m = (fl (of_int m * 10 powi (dec_exp x - int n + 1)) = x)"

definition shortest :: "rat \<Rightarrow> nat \<times> int" where
  "shortest x = (case concat (map (\<lambda>n. map (\<lambda>m. (n, m)) (filter (reads_as x n) (decimals n x))) [1..<18]) of
     [] \<Rightarrow> (17, round_even (x * 10 powi (16 - dec_exp x))) | d # _ \<Rightarrow> d)"

definition zeros :: "int \<Rightarrow> string" where
  "zeros n = replicate (nat n) (CHR ''0'')"

definition drop_zeros :: "string \<Rightarrow> string" where
  "drop_zeros s = rev (dropWhile (\<lambda>c. c = CHR ''0'') (rev s))"

text \<open>The digits, without trailing zeros, and the place of the decimal point after the first of them.\<close>

definition float_digits :: "rat \<Rightarrow> string \<times> int" where
  "float_digits x = (case shortest x of (n, m) \<Rightarrow>
     let ds = show_nat (nat m) in (drop_zeros ds, dec_exp x + (int (length ds) - int n) + 1))"

definition repr_positive :: "rat \<Rightarrow> string" where
  "repr_positive x = (case float_digits x of (ds, point) \<Rightarrow>
     let n = int (length ds) in
     if point \<le> -4 \<or> 16 < point then
       (let e = point - 1; es = show_nat (nat \<bar>e\<bar>) in
        take 1 ds @ (if n = 1 then [] else ''.'' @ drop 1 ds) @ ''e'' @ (if e < 0 then ''-'' else ''+'') @
        zeros (2 - int (length es)) @ es)
     else if point \<le> 0 then ''0.'' @ zeros (- point) @ ds
     else if n \<le> point then ds @ zeros (point - n) @ ''.0''
     else take (nat point) ds @ ''.'' @ drop (nat point) ds)"

definition repr_float :: "pyfloat \<Rightarrow> string" where
  "repr_float x = (case x of
     NaN \<Rightarrow> ''nan'' | PInf \<Rightarrow> ''inf'' | NInf \<Rightarrow> ''-inf''
   | Fin r \<Rightarrow> if r = 0 then ''0.0'' else if r < 0 then ''-'' @ repr_positive (- r) else repr_positive r)"

subsection \<open>Strings\<close>

definition hex_char :: "nat \<Rightarrow> char" where
  "hex_char n = (if n < 10 then char_of (48 + n) else char_of (87 + n))"

definition hex_pair :: "char \<Rightarrow> string" where
  "hex_pair c = (let n = of_char c :: nat in [hex_char (n div 16), hex_char (n mod 16)])"

definition printable :: "char \<Rightarrow> bool" where
  "printable c = (let n = of_char c :: nat in (32 \<le> n \<and> n \<le> 126) \<or> (161 \<le> n \<and> n \<noteq> 173))"

definition repr_char :: "char \<Rightarrow> char \<Rightarrow> string" where
  "repr_char q c = (if c = q \<or> c = CHR 0x5C then [CHR 0x5C, c]
     else if c = CHR 0x09 then [CHR 0x5C, CHR ''t''] else if c = CHR 0x0A then [CHR 0x5C, CHR ''n'']
     else if c = CHR 0x0D then [CHR 0x5C, CHR ''r''] else if printable c then [c]
     else [CHR 0x5C, CHR ''x''] @ hex_pair c)"

definition repr_str :: "string \<Rightarrow> string" where
  "repr_str s = (let q = (if CHR 0x27 \<in> set s \<and> CHR 0x22 \<notin> set s then CHR 0x22 else CHR 0x27) in
     [q] @ concat (map (repr_char q) s) @ [q])"

subsection \<open>\<open>str\<close> and \<open>repr\<close>\<close>

fun py_repr :: "json \<Rightarrow> string" where
  "py_repr JNull = ''None''"
| "py_repr (JBool b) = (if b then ''True'' else ''False'')"
| "py_repr (JInt n) = show_int n"
| "py_repr (JFloat x) = repr_float x"
| "py_repr (JStr s) = repr_str s"
| "py_repr (JList xs) = ''['' @ join '', '' (map py_repr xs) @ '']''"
| "py_repr (JObj d) = ''{'' @ join '', '' (map (\<lambda>(k, v). repr_str k @ '': '' @ py_repr v) d) @ ''}''"

definition shown :: "json \<Rightarrow> string" where
  "shown v = (case v of JStr s \<Rightarrow> s | _ \<Rightarrow> py_repr v)"

lemma shown_simps [simp]:
  "shown (JStr s) = s" "shown (JInt n) = show_int n" "shown JNull = ''None''"
  "shown (JBool b) = (if b then ''True'' else ''False'')"
  by (simp_all add: shown_def)

subsection \<open>\<open>json.dumps\<close>\<close>

definition dumps_char :: "char \<Rightarrow> string" where
  "dumps_char c = (if c = CHR 0x22 \<or> c = CHR 0x5C then [CHR 0x5C, c]
     else if c = CHR 0x08 then [CHR 0x5C, CHR ''b''] else if c = CHR 0x09 then [CHR 0x5C, CHR ''t'']
     else if c = CHR 0x0A then [CHR 0x5C, CHR ''n''] else if c = CHR 0x0C then [CHR 0x5C, CHR ''f'']
     else if c = CHR 0x0D then [CHR 0x5C, CHR ''r'']
     else if 32 \<le> (of_char c :: nat) \<and> (of_char c :: nat) \<le> 126 then [c]
     else [CHR 0x5C] @ ''u00'' @ hex_pair c)"

definition dumps_str :: "string \<Rightarrow> string" where
  "dumps_str s = [CHR 0x22] @ concat (map dumps_char s) @ [CHR 0x22]"

definition dumps_float :: "pyfloat \<Rightarrow> string" where
  "dumps_float x = (case x of NaN \<Rightarrow> ''NaN'' | PInf \<Rightarrow> ''Infinity'' | NInf \<Rightarrow> ''-Infinity'' | Fin r \<Rightarrow> repr_float x)"

fun json_dumps :: "json \<Rightarrow> string" where
  "json_dumps JNull = ''null''"
| "json_dumps (JBool b) = (if b then ''true'' else ''false'')"
| "json_dumps (JInt n) = show_int n"
| "json_dumps (JFloat x) = dumps_float x"
| "json_dumps (JStr s) = dumps_str s"
| "json_dumps (JList xs) = ''['' @ join '', '' (map json_dumps xs) @ '']''"
| "json_dumps (JObj d) = ''{'' @ join '', '' (map (\<lambda>(k, v). dumps_str k @ '': '' @ json_dumps v) d) @ ''}''"

subsection \<open>Replacing and joining\<close>

text \<open>\<open>s.replace(old, new)\<close> for a string that is not empty.\<close>

function replace_string :: "string \<Rightarrow> string \<Rightarrow> string \<Rightarrow> string" where
  "replace_string old new s =
     (if s = [] \<or> old = [] then s
      else if prefix old s then new @ replace_string old new (drop (length old) s)
      else hd s # replace_string old new (tl s))"
  by pat_completeness auto
termination by (relation "measure (\<lambda>(old, new, s). length s)") auto

declare replace_string.simps [simp del]

text \<open>\<open>os.path.join\<close> of two paths.\<close>

definition path_join :: "string \<Rightarrow> string \<Rightarrow> string" where
  "path_join a b = (if prefix ''/'' b then b else if a = [] \<or> last a = CHR ''/'' then a @ b else a @ ''/'' @ b)"

subsection \<open>Dates\<close>

definition is_leap :: "int \<Rightarrow> bool" where
  "is_leap y = (4 dvd y \<and> (\<not> 100 dvd y \<or> 400 dvd y))"

definition month_days :: "int \<Rightarrow> int list" where
  "month_days y = [31, if is_leap y then 29 else 28, 31, 30, 31, 30, 31, 31, 30, 31, 30, 31]"

text \<open>The month and the day of the \<open>n\<close>th day, from 0, of the months given.\<close>

fun month_and_day :: "int \<Rightarrow> int list \<Rightarrow> int \<Rightarrow> int \<times> int" where
  "month_and_day m (d # ds) n = (if n < d \<or> ds = [] then (m, n + 1) else month_and_day (m + 1) ds (n - d))"
| "month_and_day m [] n = (m, n + 1)"

definition dt_month_day :: "datetime \<Rightarrow> int \<times> int" where
  "dt_month_day d = (let y = dt_year d in
     month_and_day 1 (month_days y) (dt_micros d div 86400000000 + epoch_ordinal - days_before_year y - 1))"

definition padded :: "nat \<Rightarrow> int \<Rightarrow> string" where
  "padded n i = (let s = show_int i in zeros (int n - int (length s)) @ s)"

definition str_date :: "datetime \<Rightarrow> string" where
  "str_date d = (case dt_month_day d of (m, dd) \<Rightarrow> padded 4 (dt_year d) @ ''-'' @ padded 2 m @ ''-'' @ padded 2 dd)"

definition str_datetime :: "datetime \<Rightarrow> string" where
  "str_datetime d = (let s = dt_micros d div 1000000 mod 86400; u = dt_micros d mod 1000000 in
     str_date d @ '' '' @ padded 2 (s div 3600) @ '':'' @ padded 2 (s div 60 mod 60) @ '':'' @ padded 2 (s mod 60) @
     (if u = 0 then [] else ''.'' @ padded 6 u))"

end
