(* ===== verification/Archive_Metadata.thy ===== *)
theory Archive_Metadata
  imports Series_Views Py_Text
begin

section \<open>Metadata records\<close>

text \<open>
  \<open>ArchiveSerializer\<close> and \<open>ArchiveViewset.get_queryset\<close> of \<open>esmond/api/perfsonar/api_v2.py\<close>:
  what a POST of metadata accepts, the checksum that identifies a record, the rows a new
  record is stored as, its representation, and which records a search selects. The state is
  the record \<open>tables\<close>. SHA-256 and the fresh key are arguments, and so is what Django does when
  it stores a subject, an event type or a parameter (the record \<open>django\<close>): each may raise, and
  the rows created before stay, since nothing makes the creation one transaction.
\<close>

subsection \<open>Strings of values\<close>

text \<open>\<open>str.lower\<close> on the code points below 256.\<close>

definition py_lower_char :: "char \<Rightarrow> char" where
  "py_lower_char c = (let n = of_char c :: nat in
     if (65 \<le> n \<and> n \<le> 90) \<or> (192 \<le> n \<and> n \<le> 222 \<and> n \<noteq> 215) then char_of (n + 32) else c)"

definition py_lower :: "string \<Rightarrow> string" where
  "py_lower = map py_lower_char"

subsection \<open>Event types of a request\<close>

type_synonym event_type_spec = "string \<times> string \<times> json"

text \<open>A key of a constant dictionary: values that cannot be hashed raise.\<close>

definition hashed_str :: "json \<Rightarrow> string option res" where
  "hashed_str v = (case v of JStr s \<Rightarrow> Inr (Some s) | JList _ \<Rightarrow> Inl TypeError | JObj _ \<Rightarrow> Inl TypeError | _ \<Rightarrow> Inr None)"

definition deserialize_summary :: "string \<Rightarrow> data_type \<Rightarrow> json \<Rightarrow> event_type_spec list res" where
  "deserialize_summary et t summary =
     rbind (required ''summary-type'' ''Summary must contain summary-type'' summary) (\<lambda>v.
     rbind (hashed_str v) (\<lambda>key.
     case key of
       None \<Rightarrow> Inl (ParseError (''Invalid summary type '' @ quoted (shown v)))
     | Some stype \<Rightarrow>
         if \<not> has_key stype INVERSE_SUMMARY_TYPES then Inl (ParseError (''Invalid summary type '' @ quoted stype))
         else if stype = ''base'' then Inr []
         else if stype \<notin> set (ALLOWED_SUMMARIES t) then
           Inl (ParseError (''Summary type '' @ stype @ '' not allowed for event-type '' @ et))
         else rbind (required ''summary-window'' ''Summary must contain summary-window'' summary) (\<lambda>w.
           rbind (catch_value_error (ParseError ''Summary window must be an integer'') (py_int w))
             (\<lambda>_. Inr [(et, stype, w)]))))"

definition deserialize_event_type :: "json \<Rightarrow> event_type_spec list res" where
  "deserialize_event_type event_type =
     rbind (required ''event-type'' ''No event-type defined'' event_type) (\<lambda>v.
     rbind (hashed_str v) (\<lambda>key.
     case key of
       None \<Rightarrow> Inl (ParseError (''Invalid event-type '' @ shown v))
     | Some et \<Rightarrow>
        (case map_of EVENT_TYPE_CONFIG et of
           None \<Rightarrow> Inl (ParseError (''Invalid event-type '' @ et))
         | Some t \<Rightarrow>
             rbind (py_contains ''summaries'' event_type) (\<lambda>b.
             rbind (if b then rbind (rbind (py_getitem event_type ''summaries'') py_iter) (rmap (deserialize_summary et t))
                    else Inr [])
               (\<lambda>ss. Inr ((et, ''base'', JStr ''0'') # concat ss))))))"

definition deserialize_event_types :: "json \<Rightarrow> event_type_spec list res" where
  "deserialize_event_types event_types = (case event_types of
     JNull \<Rightarrow> Inr []
   | JList xs \<Rightarrow> rbind (rmap deserialize_event_type xs) (\<lambda>ets. Inr (concat ets))
   | _ \<Rightarrow> Inl (ParseError ''event_types must be a list''))"

subsection \<open>The checksum\<close>

fun num_val :: "json \<Rightarrow> rat option" where
  "num_val (JInt n) = Some (of_int n)"
| "num_val (JBool b) = Some (if b then 1 else 0)"
| "num_val (JFloat (Fin r)) = Some r"
| "num_val _ = None"

text \<open>The order of accepted windows: numbers by value, strings by code points.\<close>

definition window_less :: "json \<Rightarrow> json \<Rightarrow> bool" where
  "window_less v w = (case (v, w) of
     (JStr s, JStr t) \<Rightarrow> s < t
   | _ \<Rightarrow> (case (num_val v, num_val w) of (Some a, Some b) \<Rightarrow> a < b | _ \<Rightarrow> False))"

definition is_str :: "json \<Rightarrow> bool" where
  "is_str v = (case v of JStr _ \<Rightarrow> True | _ \<Rightarrow> False)"

definition spec_less :: "event_type_spec \<Rightarrow> event_type_spec \<Rightarrow> bool" where
  "spec_less a b = (case (a, b) of ((e, s, w), (e', s', w')) \<Rightarrow>
     if e \<noteq> e' then e < e' else if s \<noteq> s' then s < s' else window_less w w')"

text \<open>
  Sorting raises when a string and a number have to be compared, which any sort has to do when
  the windows of one event type and summary type are of both kinds.
\<close>

definition sort_event_types :: "event_type_spec list \<Rightarrow> event_type_spec list res" where
  "sort_event_types ets =
     (if \<exists>(e, s, w) \<in> set ets. \<exists>(e', s', w') \<in> set ets. e = e' \<and> s = s' \<and> is_str w \<noteq> is_str w'
      then Inl TypeError else Inr (sort_by spec_less ets))"

record validated =
  va_subject_type :: string
  va_subject_model :: string
  va_subject :: "json dict"
  va_params :: "json dict"
  va_event_types :: "event_type_spec list"

definition key_less :: "string \<times> json \<Rightarrow> string \<times> json \<Rightarrow> bool" where
  "key_less a b = (fst a < fst b)"

definition checksum_pair :: "string \<times> json \<Rightarrow> string" where
  "checksum_pair kv = '','' @ py_lower (fst kv) @ ''::'' @ py_lower (shown (snd kv))"

definition checksum_event_type :: "event_type_spec \<Rightarrow> string" where
  "checksum_event_type et = (case et of (e, s, w) \<Rightarrow>
     '','' @ py_lower e @ ''::'' @ py_lower s @ ''::'' @ py_lower (shown w))"

text \<open>What the digest is computed of.\<close>

definition checksum_text :: "validated \<Rightarrow> string res" where
  "checksum_text data =
     rbind (sort_event_types (va_event_types data)) (\<lambda>ets.
     Inr (''subject-type::'' @ py_lower (va_subject_type data) @
       concat (map checksum_pair (sort_by key_less (va_subject data))) @
       concat (map checksum_pair (sort_by key_less (va_params data))) @
       concat (map checksum_event_type ets)))"

definition calculate_checksum :: "(string \<Rightarrow> string) \<Rightarrow> validated \<Rightarrow> string res" where
  "calculate_checksum sha256 data = rbind (checksum_text data) (\<lambda>t. Inr (sha256 t))"

subsection \<open>Validation of a request\<close>

text \<open>The field of the subject a request key maps to, or the empty string when it has none.\<close>

definition subject_field :: "string \<Rightarrow> string \<Rightarrow> string" where
  "subject_field model k = (case map_of SUBJECT_FILTER_MAP k of
     None \<Rightarrow> []
   | Some fs \<Rightarrow> (case filter (prefix (model @ ''__'')) fs of [] \<Rightarrow> [] | f # _ \<Rightarrow> drop (length (model @ ''__'')) f))"

fun read_keys :: "json dict \<Rightarrow> validated \<Rightarrow> validated res" where
  "read_keys [] v = Inr v"
| "read_keys ((k, x) # d) v =
     rbind (if k = ''subject-type'' then
              (case x of JStr s \<Rightarrow> Inr (v\<lparr>va_subject_type := s\<rparr>) | _ \<Rightarrow> Inl Unmodelled)
            else if k = ''event-types'' then
              rbind (deserialize_event_types x) (\<lambda>ets. Inr (v\<lparr>va_event_types := ets\<rparr>))
            else if has_key k SUBJECT_FILTER_MAP then
              Inr (v\<lparr>va_subject := AList.update (subject_field (va_subject_model v) k) x (va_subject v)\<rparr>)
            else Inr (v\<lparr>va_params := va_params v @ [(k, x)]\<rparr>))
       (read_keys d)"

definition to_internal_value :: "json \<Rightarrow> validated res" where
  "to_internal_value data =
     rbind (py_contains ''subject-type'' data) (\<lambda>has_subject.
     if \<not> has_subject then Inl (ParseError ''Missing subject-type field in request'') else
     rbind (py_contains ''event-types'' data) (\<lambda>has_types.
     if \<not> has_types then Inl (ParseError ''Missing event-types field in request'') else
     rbind (py_getitem data ''subject-type'') (\<lambda>st. rbind (hashed_str st) (\<lambda>key.
     case (case key of None \<Rightarrow> None | Some s \<Rightarrow> map_of SUBJECT_MODEL_MAP s) of
       None \<Rightarrow> Inl (ParseError (''Invalid subject type '' @ shown st))
     | Some model \<Rightarrow>
         rbind (py_contains ''metadata-key'' data) (\<lambda>has_key.
         if has_key then Inl (ParseError ''metadata-key is not allowed to be specified'') else
         case data of
           JObj d \<Rightarrow> read_keys d \<lparr>va_subject_type = [], va_subject_model = model, va_subject = [],
                        va_params = [], va_event_types = []\<rparr>
         | _ \<Rightarrow> Inl TypeError)))))"

subsection \<open>Storing\<close>

record md_row =
  mr_key :: string
  mr_subject_type :: string
  mr_checksum :: string
  mr_subject :: "(string \<times> json dict) option"
  mr_params :: "string dict"

record tables =
  tb_metadata :: "md_row list"
  tb_event_types :: "event_type_row list"

text \<open>What the object-relational mapper does with the values it is given.\<close>

record django =
  dj_subject :: "string \<Rightarrow> json dict \<Rightarrow> json dict res"
  dj_window :: "json \<Rightarrow> int res"
  dj_text :: "json \<Rightarrow> string res"

definition set_md :: "md_row \<Rightarrow> md_row list \<Rightarrow> md_row list" where
  "set_md r rs = map (\<lambda>x. if mr_key x = mr_key r then r else x) rs"

fun store_event_types :: "django \<Rightarrow> string \<Rightarrow> event_type_spec list \<Rightarrow> tables \<Rightarrow> exn option \<times> tables" where
  "store_event_types D key [] tb = (None, tb)"
| "store_event_types D key ((et, stype, w) # ets) tb =
     (case dj_window D w of
        Inl e \<Rightarrow> (Some e, tb)
      | Inr n \<Rightarrow> store_event_types D key ets (tb\<lparr>tb_event_types := tb_event_types tb @
          [\<lparr>et_metadata_key = key, et_event_type = et, et_summary_type = stype, et_summary_window = n,
            et_time_updated = None\<rparr>]\<rparr>))"

fun store_params :: "django \<Rightarrow> json dict \<Rightarrow> md_row \<Rightarrow> exn option \<times> md_row" where
  "store_params D [] md = (None, md)"
| "store_params D ((k, x) # ps) md =
     (case dj_text D x of
        Inl e \<Rightarrow> (Some e, md)
      | Inr s \<Rightarrow> store_params D ps (md\<lparr>mr_params := mr_params md @ [(k, s)]\<rparr>))"

text \<open>The creation of a record that does not exist: metadata, subject, event types, parameters.\<close>

definition insert_metadata :: "django \<Rightarrow> string \<Rightarrow> string \<Rightarrow> validated \<Rightarrow> tables \<Rightarrow> (exn + md_row) \<times> tables" where
  "insert_metadata D checksum new_key v tb =
     (let md = \<lparr>mr_key = new_key, mr_subject_type = va_subject_type v, mr_checksum = checksum,
                mr_subject = None, mr_params = []\<rparr>;
          tb1 = tb\<lparr>tb_metadata := tb_metadata tb @ [md]\<rparr> in
      case dj_subject D (va_subject_model v) (va_subject v) of
        Inl e \<Rightarrow> (Inl e, tb1)
      | Inr subject \<Rightarrow>
         (let md2 = md\<lparr>mr_subject := Some (va_subject_model v, subject)\<rparr>;
              tb2 = tb1\<lparr>tb_metadata := set_md md2 (tb_metadata tb1)\<rparr> in
          case store_event_types D new_key (sort_by spec_less (va_event_types v)) tb2 of
            (Some e, tb3) \<Rightarrow> (Inl e, tb3)
          | (None, tb3) \<Rightarrow>
             (case store_params D (sort_by key_less (va_params v)) md2 of
                (r, md3) \<Rightarrow> (case r of Some e \<Rightarrow> Inl e | None \<Rightarrow> Inr md3,
                   tb3\<lparr>tb_metadata := set_md md3 (tb_metadata tb3)\<rparr>))))"

definition metadata_create :: "django \<Rightarrow> string \<Rightarrow> string \<Rightarrow> validated \<Rightarrow> tables \<Rightarrow> (exn + md_row) \<times> tables" where
  "metadata_create D checksum new_key v tb =
     (case filter (\<lambda>r. mr_checksum r = checksum) (tb_metadata tb) of
        r # _ \<Rightarrow> (Inr r, tb)
      | [] \<Rightarrow> insert_metadata D checksum new_key v tb)"

text \<open>The POST of \<open>/archive/\<close>.\<close>

definition archive_create ::
  "django \<Rightarrow> (string \<Rightarrow> string) \<Rightarrow> string \<Rightarrow> json \<Rightarrow> tables \<Rightarrow> (exn + md_row) \<times> tables" where
  "archive_create D sha256 new_key data tb =
     (case rbind (to_internal_value data) (\<lambda>v. rbind (calculate_checksum sha256 v) (\<lambda>c. Inr (v, c))) of
        Inl e \<Rightarrow> (Inl e, tb)
      | Inr (v, c) \<Rightarrow> metadata_create D c new_key v tb)"

subsection \<open>Representation\<close>

text \<open>\<open>UtilMixin.add_uris\<close> on a metadata record that is not dashed yet.\<close>

definition add_record_uris :: "(string \<Rightarrow> string) \<Rightarrow> json dict \<Rightarrow> json dict res" where
  "add_record_uris url_path rec =
     (case map_of rec ''url'' of
        Some (JStr (c # cs)) \<Rightarrow>
          (let path = url_path (c # cs); rec1 = AList.update ''uri'' (JStr path) rec in
           case map_of rec1 ''event_types'' of
             Some ets \<Rightarrow>
               if py_truthy ets then
                 rbind (py_iter ets) (\<lambda>xs.
                 rbind (rmap (\<lambda>x. case x of JObj d \<Rightarrow> rbind (add_uris path d) (\<lambda>d'. Inr (JObj d')) | _ \<Rightarrow> Inl AttributeError) xs)
                   (\<lambda>xs'. Inr (AList.update ''event_types'' (JList xs') rec1)))
               else Inr rec1
           | None \<Rightarrow> Inr rec1)
      | _ \<Rightarrow> Inr rec)"

text \<open>
  The serialized fields, the subject's fields moved up, the parameters set over them, URIs and
  dashes. The URL of a record is an argument.
\<close>

definition to_representation :: "(string \<Rightarrow> string) \<Rightarrow> (string \<Rightarrow> string) \<Rightarrow> md_row \<Rightarrow> tables \<Rightarrow> json dict res" where
  "to_representation record_url url_path md tb =
     rbind (build_event_type_list (sort_by event_type_less
       (filter (\<lambda>r. et_metadata_key r = mr_key md) (tb_event_types tb)))) (\<lambda>ets.
     let ret = [(''url'', JStr (record_url (mr_key md))), (''metadata_key'', JStr (mr_key md)),
                (''subject_type'', JStr (mr_subject_type md)), (''event_types'', JList (map JObj ets))];
         subject = (case mr_subject md of None \<Rightarrow> [] | Some (_, d) \<Rightarrow> d);
         ret1 = fold (\<lambda>(k, v). AList.update k v) subject ret;
         ret2 = fold (\<lambda>(k, v). AList.update k (JStr v)) (mr_params md) ret1 in
     rbind (add_record_uris url_path ret2) (\<lambda>r. Inr (to_dash_dict r)))"

subsection \<open>Searching\<close>

text \<open>
  The conditions of a search: on the record itself, on one of its event types (all of them on
  the same one), on a parameter each, and on a subject field each, which may be of either
  subject type.
\<close>

record search =
  se_records :: "(md_row \<Rightarrow> bool) list"
  se_event_type :: "(event_type_row \<Rightarrow> bool) list"
  se_params :: "(string \<times> string) list"
  se_subjects :: "(string \<times> string list) list list"

definition subject_value :: "md_row \<Rightarrow> string \<Rightarrow> json option" where
  "subject_value md db_field = (case mr_subject md of
     None \<Rightarrow> None
   | Some (model, d) \<Rightarrow> if prefix (model @ ''__'') db_field then map_of d (drop (length (model @ ''__'')) db_field) else None)"

definition subject_query ::
  "(string \<Rightarrow> family \<Rightarrow> string list) \<Rightarrow> string option \<Rightarrow> string \<Rightarrow> string \<Rightarrow> (string \<times> string list) list res" where
  "subject_query resolve rule name val =
     (case map_of SUBJECT_FILTER_MAP name of
        None \<Rightarrow> Inr []
      | Some db_fields \<Rightarrow>
          rmap (\<lambda>f. if name \<in> set IP_FIELDS then rbind (prepare_ip resolve val rule) (\<lambda>ips. Inr (f, ips)) else Inr (f, [val])) db_fields)"

definition add_condition ::
  "(string \<Rightarrow> family \<Rightarrow> string list) \<Rightarrow> string option \<Rightarrow> string \<times> string \<Rightarrow> search \<Rightarrow> search res" where
  "add_condition resolve rule nv s = (case nv of (name, val) \<Rightarrow>
     if has_key name SUBJECT_FILTER_MAP then
       rbind (subject_query resolve rule name val) (\<lambda>q. Inr (s\<lparr>se_subjects := se_subjects s @ [q]\<rparr>))
     else if name = ''event-type'' then
       Inr (s\<lparr>se_event_type := se_event_type s @ [\<lambda>r. et_event_type r = val]\<rparr>)
     else if name = ''summary-type'' then
       Inr (s\<lparr>se_event_type := se_event_type s @ [\<lambda>r. et_summary_type r = val]\<rparr>)
     else if name = ''summary-window'' then
       rbind (py_int (JStr val)) (\<lambda>n. Inr (s\<lparr>se_event_type := se_event_type s @ [\<lambda>r. et_summary_window r = n]\<rparr>))
     else if name = ''subject-type'' then
       Inr (s\<lparr>se_records := se_records s @ [\<lambda>m. mr_subject_type m = val]\<rparr>)
     else if name = ''metadata-key'' then
       Inr (s\<lparr>se_records := se_records s @ [\<lambda>m. mr_key m = val]\<rparr>)
     else if name \<notin> set RESERVED_GET_PARAMS then
       Inr (s\<lparr>se_params := se_params s @ [(name, val)]\<rparr>)
     else Inr s)"

text \<open>\<open>datetime.utcfromtimestamp\<close> of an integer.\<close>

definition dt_of_timestamp :: "int \<Rightarrow> datetime res" where
  "dt_of_timestamp n =
     (if n < - (2 ^ 63) \<or> 2 ^ 63 \<le> n then Inl OverflowError
      else if valid_secs n then Inr (dt_of_secs n) else Inl ValueError)"

definition updated_from :: "datetime \<Rightarrow> event_type_row \<Rightarrow> bool" where
  "updated_from d r = (case et_time_updated r of None \<Rightarrow> False | Some u \<Rightarrow> d \<le> u)"

definition updated_until :: "datetime \<Rightarrow> event_type_row \<Rightarrow> bool" where
  "updated_until d r = (case et_time_updated r of None \<Rightarrow> False | Some u \<Rightarrow> u \<le> d)"

definition add_times :: "time_filters \<Rightarrow> search \<Rightarrow> search res" where
  "add_times tf s =
     (if \<not> tf_has_filters tf then Inr s
      else rbind (dt_of_timestamp (tf_begin tf)) (\<lambda>b.
        let s1 = s\<lparr>se_event_type := se_event_type s @ [updated_from b]\<rparr> in
        case tf_end tf of
          None \<Rightarrow> Inr s1
        | Some e \<Rightarrow> rbind (dt_of_timestamp e) (\<lambda>f.
            Inr (s1\<lparr>se_event_type := se_event_type s1 @ [updated_until f]\<rparr>))))"

definition build_search :: "(string \<Rightarrow> family \<Rightarrow> string list) \<Rightarrow> int \<Rightarrow> string dict \<Rightarrow> search res" where
  "build_search resolve now params =
     rbind (rfold (add_condition resolve (map_of params ''dns-match-rule'')) params
              \<lparr>se_records = [], se_event_type = [], se_params = [], se_subjects = []\<rparr>) (\<lambda>s.
     rbind (handle_time_filters now params) (\<lambda>tf. add_times tf s))"

definition subject_matches :: "md_row \<Rightarrow> (string \<times> string list) list \<Rightarrow> bool" where
  "subject_matches md q = (\<exists>(f, vals) \<in> set q. \<exists>v \<in> set vals. subject_value md f = Some (JStr v))"

definition search_matches :: "search \<Rightarrow> tables \<Rightarrow> md_row \<Rightarrow> bool" where
  "search_matches s tb md =
     ((\<forall>p \<in> set (se_records s). p md) \<and>
      (se_event_type s = [] \<or>
        (\<exists>r \<in> set (tb_event_types tb). et_metadata_key r = mr_key md \<and> (\<forall>p \<in> set (se_event_type s). p r))) \<and>
      (\<forall>kv \<in> set (se_params s). kv \<in> set (mr_params md)) \<and>
      (\<forall>q \<in> set (se_subjects s). subject_matches md q))"

definition get_queryset :: "(string \<Rightarrow> family \<Rightarrow> string list) \<Rightarrow> int \<Rightarrow> string dict \<Rightarrow> tables \<Rightarrow> md_row list res" where
  "get_queryset resolve now params tb =
     rbind (build_search resolve now params) (\<lambda>s.
       Inr (sort_by (\<lambda>a b. mr_key a < mr_key b) (filter (search_matches s tb) (tb_metadata tb))))"

end
