(* ===== verification/Client_Query.thy ===== *)
theory Client_Query
  imports Archive_Metadata
begin

section \<open>The query client\<close>

text \<open>
  \<open>esmond/api/client/perfsonar/query.py\<close>, with the header helper of \<open>esmond/api/client/util.py\<close>:
  the filters a program sets, the objects a query returns, the loop that reads a series in
  pages of 1000 and the listing of metadata. The HTTP exchange is an argument: a function of
  the URL, the parameters and the headers, which raises what \<open>requests\<close> raises. Printing under
  \<open>verbose\<close>, warnings, the time-out and the SSL flag are left out.
\<close>

subsection \<open>URLs and headers\<close>

definition lstrip_slash :: "string \<Rightarrow> string" where
  "lstrip_slash s = dropWhile (\<lambda>c. c = CHR ''/'') s"

definition rstrip_slash :: "string \<Rightarrow> string" where
  "rstrip_slash s = rev (lstrip_slash (rev s))"

definition PS_ROOT :: string where
  "PS_ROOT = ''perfsonar''"

definition add_apikey_header :: "string \<Rightarrow> string \<Rightarrow> string dict \<Rightarrow> string dict" where
  "add_apikey_header user key header_dict = AList.update ''Authorization'' (''Token '' @ key) header_dict"

definition auth_headers :: "string \<Rightarrow> string \<Rightarrow> string dict \<Rightarrow> string dict" where
  "auth_headers user key headers =
     (if user \<noteq> [] \<and> key \<noteq> [] then add_apikey_header user key headers else headers)"

record reply =
  rp_status :: int
  rp_headers :: "string dict"
  rp_json :: "json option"

type_synonym http_get = "string \<Rightarrow> json dict \<Rightarrow> string dict \<Rightarrow> reply res"

text \<open>\<open>json.loads\<close> of the body, \<open>status == 200 and content-type == application/json\<close>.\<close>

definition reply_json :: "reply \<Rightarrow> json res" where
  "reply_json r = (case rp_json r of None \<Rightarrow> Inl ValueError | Some j \<Rightarrow> Inr j)"

definition is_json_reply :: "reply \<Rightarrow> bool res" where
  "is_json_reply r =
     (if rp_status r \<noteq> 200 then Inr False
      else (case map_of (rp_headers r) ''content-type'' of
          None \<Rightarrow> Inl KeyError | Some t \<Rightarrow> Inr (t = ''application/json'')))"

subsection \<open>ApiFilters\<close>

text \<open>The read/write properties: the attribute, and the key of the dictionary it stands for.\<close>

definition METADATA_FILTERS :: "string dict" where
  "METADATA_FILTERS = [
     (''metadata_key'', ''metadata-key''),
     (''destination'', ''destination''),
     (''input_destination'', ''input-destination''),
     (''input_source'', ''input-source''),
     (''measurement_agent'', ''measurement-agent''),
     (''source'', ''source''),
     (''tool_name'', ''tool-name''),
     (''event_type'', ''event-type''),
     (''subject_type'', ''subject-type''),
     (''summary_type'', ''summary-type''),
     (''summary_window'', ''summary-window'')]"

definition TIME_FILTERS :: "string dict" where
  "TIME_FILTERS = [
     (''time'', ''time''),
     (''time_start'', ''time-start''),
     (''time_end'', ''time-end''),
     (''time_range'', ''time-range'')]"

record api_filters =
  af_metadata :: "json dict"
  af_time :: "json dict"
  af_username :: string
  af_apikey :: string

definition new_filters :: api_filters where
  "new_filters = \<lparr>af_metadata = [], af_time = [], af_username = [], af_apikey = []\<rparr>"

definition get_or_none :: "json dict \<Rightarrow> string \<Rightarrow> json" where
  "get_or_none d k = (case map_of d k of None \<Rightarrow> JNull | Some v \<Rightarrow> v)"

text \<open>\<open>int(float(ts))\<close>; a value that is no number is warned of and stored as None.\<close>

definition check_time :: "json \<Rightarrow> json res" where
  "check_time ts = (case rbind (py_float ts) int_of_float of
     Inr t \<Rightarrow> Inr (JInt t)
   | Inl e \<Rightarrow> if e = ValueError then Inr JNull else Inl e)"

definition filter_get :: "string \<Rightarrow> api_filters \<Rightarrow> json res" where
  "filter_get attr f =
     (case map_of METADATA_FILTERS attr of
        Some k \<Rightarrow> Inr (get_or_none (af_metadata f) k)
      | None \<Rightarrow> (case map_of TIME_FILTERS attr of
          Some k \<Rightarrow> Inr (get_or_none (af_time f) k)
        | None \<Rightarrow> Inl AttributeError))"

text \<open>Any other name becomes an attribute of the object, which no query reads.\<close>

definition filter_set :: "string \<Rightarrow> json \<Rightarrow> api_filters \<Rightarrow> api_filters res" where
  "filter_set attr v f =
     (case map_of METADATA_FILTERS attr of
        Some k \<Rightarrow> Inr (f\<lparr>af_metadata := AList.update k v (af_metadata f)\<rparr>)
      | None \<Rightarrow> (case map_of TIME_FILTERS attr of
          Some k \<Rightarrow> rbind (check_time v) (\<lambda>t. Inr (f\<lparr>af_time := AList.update k t (af_time f)\<rparr>))
        | None \<Rightarrow> Inr f))"

definition filter_del :: "string \<Rightarrow> api_filters \<Rightarrow> api_filters res" where
  "filter_del attr f =
     (case map_of METADATA_FILTERS attr of
        Some k \<Rightarrow> if has_key k (af_metadata f) then Inr (f\<lparr>af_metadata := AList.delete k (af_metadata f)\<rparr>) else Inl KeyError
      | None \<Rightarrow> (case map_of TIME_FILTERS attr of
          Some k \<Rightarrow> if has_key k (af_time f) then Inr (f\<lparr>af_time := AList.delete k (af_time f)\<rparr>) else Inl KeyError
        | None \<Rightarrow> Inl AttributeError))"

subsection \<open>NodeInfo\<close>

record node_info =
  ni_data :: json
  ni_api_url :: string
  ni_filters :: api_filters
  ni_headers :: "string dict"

definition new_node :: "json \<Rightarrow> string \<Rightarrow> api_filters \<Rightarrow> node_info" where
  "new_node data api_url filters =
     \<lparr>ni_data = data, ni_api_url = rstrip_slash api_url, ni_filters = filters,
      ni_headers = auth_headers (af_username filters) (af_apikey filters) []\<rparr>"

definition MAX_DATETIME :: datetime where
  "MAX_DATETIME = DT (253402300799999999 - 2 * 86400000000)"

definition MAX_EPOCH :: int where
  "MAX_EPOCH = timegm MAX_DATETIME"

definition convert_to_datetime :: "json \<Rightarrow> datetime res" where
  "convert_to_datetime ts = rbind (py_int ts) (\<lambda>n.
     if MAX_EPOCH < n then Inr MAX_DATETIME else dt_of_timestamp n)"

text \<open>\<open>data.get(k, dflt)\<close>.\<close>

definition json_get :: "json \<Rightarrow> string \<Rightarrow> json \<Rightarrow> json res" where
  "json_get data k dflt = (case data of
     JObj d \<Rightarrow> Inr (case map_of d k of None \<Rightarrow> dflt | Some v \<Rightarrow> v)
   | _ \<Rightarrow> Inl AttributeError)"

subsection \<open>Reading a series\<close>

definition LIMIT :: int where
  "LIMIT = 1000"

text \<open>\<open>data[-1].get('ts') + 1\<close> for a page that is not empty.\<close>

definition next_start :: "json list \<Rightarrow> json res" where
  "next_start data = rbind (json_get (last data) ''ts'' JNull) (\<lambda>ts. case ts of
     JInt n \<Rightarrow> Inr (JInt (n + 1))
   | JBool b \<Rightarrow> Inr (JInt (of_bool b + 1))
   | JFloat x \<Rightarrow> Inl Unmodelled
   | _ \<Rightarrow> Inl TypeError)"

definition past_end :: "json dict \<Rightarrow> bool res" where
  "past_end params =
     (case (map_of params ''time-start'', map_of params ''time-end'') of
        (_, None) \<Rightarrow> Inr False
      | (Some (JInt s), Some (JInt e)) \<Rightarrow> Inr (e \<le> s)
      | _ \<Rightarrow> Inl TypeError)"

definition page_items :: "reply \<Rightarrow> json list res" where
  "page_items r = rbind (reply_json r) (\<lambda>j. case j of
     JList xs \<Rightarrow> Inr xs | JObj _ \<Rightarrow> Inl Unmodelled | JStr _ \<Rightarrow> Inl Unmodelled | _ \<Rightarrow> Inl TypeError)"

text \<open>
  One turn of the loop: the parameters and the payload are the state; it ends with the
  payload, with an exception, or goes on.
\<close>

datatype turn = Done "json list res" | Again "json dict" "json list"

definition query_turn :: "(json dict \<Rightarrow> reply res) \<Rightarrow> json dict \<Rightarrow> json list \<Rightarrow> turn" where
  "query_turn get q_params payload =
     (case rbind (get q_params) (\<lambda>r. rbind (is_json_reply r) (\<lambda>b. if b then page_items r else Inl QueryLimitException)) of
        Inl e \<Rightarrow> Done (Inl e)
      | Inr data \<Rightarrow>
          if int (length data) < LIMIT then Done (Inr (payload @ data))
          else (case rbind (next_start data) (\<lambda>s.
                    let p = AList.update ''time-start'' s q_params in rbind (past_end p) (\<lambda>b. Inr (p, b))) of
              Inl e \<Rightarrow> Done (Inl e)
            | Inr (p, b) \<Rightarrow> if b then Done (Inr (payload @ data)) else Again p (payload @ data)))"

partial_function (option) query_loop ::
  "(json dict \<Rightarrow> reply res) \<Rightarrow> json dict \<Rightarrow> json list \<Rightarrow> json list res option" where
  "query_loop get q_params payload =
     (case query_turn get q_params payload of
        Done r \<Rightarrow> Some r
      | Again p payload' \<Rightarrow> query_loop get p payload')"

definition query_with_limit :: "http_get \<Rightarrow> string \<Rightarrow> node_info \<Rightarrow> json list res option" where
  "query_with_limit http query_uri node =
     query_loop (\<lambda>p. http (ni_api_url node @ query_uri) p (ni_headers node))
       (AList.update ''limit'' (JInt LIMIT) (af_time (ni_filters node))) []"

subsection \<open>The payload\<close>

record data_payload =
  dl_data :: "json list"
  dl_type :: string

record data_point =
  dp_ts :: datetime
  dp_val :: json

definition new_point :: "json \<Rightarrow> json \<Rightarrow> data_point res" where
  "new_point dflt data =
     rbind (json_get data ''ts'' JNull) (\<lambda>ts. rbind (convert_to_datetime ts) (\<lambda>t.
     rbind (json_get data ''val'' dflt) (\<lambda>v. Inr \<lparr>dp_ts = t, dp_val = v\<rparr>)))"

text \<open>A DataHistogram differs from a DataPoint in the default of its value.\<close>

definition payload_points :: "data_payload \<Rightarrow> data_point list res" where
  "payload_points p = rmap (new_point (if dl_type p = ''histogram'' then JObj [] else JNull)) (dl_data p)"

definition ts_epoch :: "data_point \<Rightarrow> int" where
  "ts_epoch p = timegm (dp_ts p)"

text \<open>\<open>get_data\<close> of an event type or a summary: a failed query is an empty payload.\<close>

definition get_data :: "http_get \<Rightarrow> string \<Rightarrow> string \<Rightarrow> node_info \<Rightarrow> data_payload res option" where
  "get_data http query_uri data_type node =
     map_option (\<lambda>r. case r of
         Inr data \<Rightarrow> Inr \<lparr>dl_data = data, dl_type = data_type\<rparr>
       | Inl e \<Rightarrow> if e = QueryLimitException then Inr \<lparr>dl_data = [], dl_type = data_type\<rparr> else Inl e)
       (query_with_limit http query_uri node)"

subsection \<open>Metadata, event types and summaries\<close>

definition METADATA_PROPERTIES :: "string dict" where
  "METADATA_PROPERTIES = [
     (''destination'', ''destination''),
     (''input_destination'', ''input-destination''),
     (''input_source'', ''input-source''),
     (''ip_packet_interval'', ''ip-packet-interval''),
     (''ip_transport_protocol'', ''ip-transport-protocol''),
     (''measurement_agent'', ''measurement-agent''),
     (''metadata_count_total'', ''metadata-count-total''),
     (''metadata_key'', ''metadata-key''),
     (''sample_bucket_width'', ''sample-bucket-width''),
     (''source'', ''source''),
     (''subject_type'', ''subject-type''),
     (''time_duration'', ''time-duration''),
     (''time_interval'', ''time-interval''),
     (''time_interval_randomization'', ''time-interval-randomization''),
     (''tool_name'', ''tool-name''),
     (''uri'', ''uri'')]"

definition metadata_property :: "string \<Rightarrow> node_info \<Rightarrow> json res" where
  "metadata_property name node = (case map_of METADATA_PROPERTIES name of
     None \<Rightarrow> Inl AttributeError | Some k \<Rightarrow> json_get (ni_data node) k JNull)"

text \<open>The items of a list in the payload, the empty list when it is not there.\<close>

definition node_items :: "string \<Rightarrow> node_info \<Rightarrow> json list res" where
  "node_items k node = rbind (json_get (ni_data node) k (JList [])) py_iter"

definition client_event_types :: "node_info \<Rightarrow> json list res" where
  "client_event_types node = rbind (node_items ''event-types'' node) (rmap (\<lambda>e. py_getitem e ''event-type''))"

definition get_all_event_types :: "node_info \<Rightarrow> node_info list res" where
  "get_all_event_types node =
     rbind (node_items ''event-types'' node) (\<lambda>es. Inr (map (\<lambda>e. new_node e (ni_api_url node) (ni_filters node)) es))"

fun find_item :: "(json \<Rightarrow> bool res) \<Rightarrow> json list \<Rightarrow> json option res" where
  "find_item p [] = Inr None"
| "find_item p (x # xs) = rbind (p x) (\<lambda>b. if b then Inr (Some x) else find_item p xs)"

definition get_event_type :: "string \<Rightarrow> node_info \<Rightarrow> node_info option res" where
  "get_event_type event_type node =
     rbind (node_items ''event-types'' node) (\<lambda>es.
     rbind (find_item (\<lambda>e. rbind (py_getitem e ''event-type'') (\<lambda>v. Inr (v = JStr event_type))) es) (\<lambda>r.
     Inr (map_option (\<lambda>e. new_node e (ni_api_url node) (ni_filters node)) r)))"

definition data_type_of :: "node_info \<Rightarrow> string res" where
  "data_type_of node = rbind (json_get (ni_data node) ''event-type'' JNull) (\<lambda>v. case v of
     JNull \<Rightarrow> Inr ''unspecified''
   | JStr s \<Rightarrow> Inr (if prefix ''histogram-'' s then ''histogram'' else ''unspecified'')
   | _ \<Rightarrow> Inl AttributeError)"

definition client_summaries :: "node_info \<Rightarrow> (json \<times> json) list res" where
  "client_summaries node = rbind (node_items ''summaries'' node) (rmap (\<lambda>s.
     rbind (py_getitem s ''summary-type'') (\<lambda>t. rbind (py_getitem s ''summary-window'') (\<lambda>w. Inr (t, w)))))"

definition get_summary :: "string \<Rightarrow> json \<Rightarrow> node_info \<Rightarrow> node_info option res" where
  "get_summary s_type s_window node =
     rbind (node_items ''summaries'' node) (\<lambda>ss.
     rbind (find_item (\<lambda>s. rbind (py_getitem s ''summary-type'') (\<lambda>t.
         if t \<noteq> JStr s_type then Inr False
         else rbind (py_getitem s ''summary-window'') (\<lambda>w. Inr (w = JStr (shown s_window))))) ss) (\<lambda>r.
     Inr (map_option (\<lambda>s. new_node s (ni_api_url node) (ni_filters node)) r)))"

definition uri_of :: "string \<Rightarrow> node_info \<Rightarrow> string res" where
  "uri_of k node = rbind (json_get (ni_data node) k JNull) (\<lambda>u. Inr (shown u))"

definition event_type_data :: "http_get \<Rightarrow> node_info \<Rightarrow> data_payload res option" where
  "event_type_data http node =
     (case rbind (uri_of ''base-uri'' node) (\<lambda>u. rbind (data_type_of node) (\<lambda>t. Inr (u, t))) of
        Inl e \<Rightarrow> Some (Inl e) | Inr (u, t) \<Rightarrow> get_data http u t node)"

definition summary_data :: "http_get \<Rightarrow> string \<Rightarrow> node_info \<Rightarrow> data_payload res option" where
  "summary_data http data_type node =
     (case uri_of ''uri'' node of Inl e \<Rightarrow> Some (Inl e) | Inr u \<Rightarrow> get_data http u data_type node)"

subsection \<open>ApiConnect\<close>

record api_connect =
  ac_url :: string
  ac_filters :: api_filters
  ac_alias :: string
  ac_headers :: "string dict"

text \<open>Stripping the right end is overwritten by stripping the left end of the argument.\<close>

definition new_connection :: "string \<Rightarrow> api_filters \<Rightarrow> string \<Rightarrow> string \<Rightarrow> string \<Rightarrow> api_connect" where
  "new_connection api_url filters username api_key script_alias =
     \<lparr>ac_url = rstrip_slash api_url,
      ac_filters = filters\<lparr>af_username := username, af_apikey := api_key\<rparr>,
      ac_alias = lstrip_slash script_alias,
      ac_headers = auth_headers username api_key []\<rparr>"

definition archive_url :: "api_connect \<Rightarrow> string" where
  "archive_url c =
     (if ac_alias c \<noteq> [] then ac_url c @ ''/'' @ ac_alias c @ ''/'' @ PS_ROOT @ ''/archive/''
      else ac_url c @ ''/'' @ PS_ROOT @ ''/archive/'')"

definition dict_with :: "'v dict \<Rightarrow> 'v dict \<Rightarrow> 'v dict" where
  "dict_with extra d = fold (\<lambda>(k, v). AList.update k v) extra d"

definition query_params :: "api_connect \<Rightarrow> json dict" where
  "query_params c = dict_with (af_time (ac_filters c)) (af_metadata (ac_filters c))"

definition offset_params :: "api_connect \<Rightarrow> int \<Rightarrow> json dict" where
  "offset_params c offset =
     dict_with (af_time (ac_filters c)) (AList.update ''offset'' (JInt offset) (af_metadata (ac_filters c)))"

text \<open>
  \<open>raise StopIteration\<close> inside the generator: it ends without a record, and from Python 3.7 on
  raises RuntimeError in the caller.
\<close>

definition stop_generator :: "bool \<Rightarrow> json list res" where
  "stop_generator pep479 = (if pep479 then Inl (RuntimeError ''generator raised StopIteration'') else Inr [])"

partial_function (option) metadata_pages ::
  "(int \<Rightarrow> reply res) \<Rightarrow> bool \<Rightarrow> int \<Rightarrow> int \<Rightarrow> int \<Rightarrow> json list \<Rightarrow> json list res option" where
  "metadata_pages get pep479 initial_offset m_total offset data =
     (if \<not> offset < m_total then Some (Inr data)
      else case get offset of
          Inl e \<Rightarrow> Some (Inl e)
        | Inr r \<Rightarrow>
            if rp_status r \<noteq> 200 then Some (stop_generator pep479)
            else case rbind (reply_json r) py_iter of
                Inl e \<Rightarrow> Some (Inl e)
              | Inr tmp \<Rightarrow> metadata_pages get pep479 initial_offset m_total (offset + initial_offset) (data @ tmp))"

text \<open>The comparison with \<open>metadata-count-total\<close>, zero for an empty list.\<close>

definition total_of :: "json list \<Rightarrow> int res" where
  "total_of data = (case data of
     [] \<Rightarrow> Inr 0
   | d # _ \<Rightarrow> rbind (json_get d ''metadata-count-total'' JNull) (\<lambda>v. case v of
       JInt n \<Rightarrow> Inr n | JBool b \<Rightarrow> Inr (of_bool b) | JFloat x \<Rightarrow> Inl Unmodelled | _ \<Rightarrow> Inl TypeError))"

definition metadata_list :: "http_get \<Rightarrow> bool \<Rightarrow> api_connect \<Rightarrow> json list res option" where
  "metadata_list http pep479 c =
     (case http (archive_url c) (query_params c) (ac_headers c) of
        Inl e \<Rightarrow> Some (Inl e)
      | Inr r \<Rightarrow> (case is_json_reply r of
          Inl e \<Rightarrow> Some (Inl e)
        | Inr False \<Rightarrow> Some (stop_generator pep479)
        | Inr True \<Rightarrow> (case rbind (page_items r) (\<lambda>data. rbind (total_of data) (\<lambda>n. Inr (data, n))) of
            Inl e \<Rightarrow> Some (Inl e)
          | Inr (data, m_total) \<Rightarrow>
              metadata_pages (\<lambda>off. http (archive_url c) (offset_params c off) (ac_headers c)) pep479
                (int (length data)) m_total (int (length data)) data)))"

definition api_get_metadata :: "http_get \<Rightarrow> bool \<Rightarrow> api_connect \<Rightarrow> node_info list res option" where
  "api_get_metadata http pep479 c =
     map_option (\<lambda>r. rbind r (\<lambda>data. Inr (map (\<lambda>i. new_node i (ac_url c) (ac_filters c)) data)))
       (metadata_list http pep479 c)"

end
