(* ===== verification/Series_Pages.thy ===== *)
theory Series_Pages
  imports Series_Views
begin

section \<open>A series in pages\<close>

text \<open>
  What a limited GET of a base series answers: the row keys of different years differ, every
  column lies in the row of its year, so that the rows of a range, each cut at the limit and
  put one after the other, begin with the first columns of the range in the order of time.
\<close>

subsection \<open>The year of a key\<close>

lemma split_char_last: "split_char c (s @ c # t) = split_char c s @ split_char c t"
  by (induction s) auto

lemma join_snoc: "join d (ss @ [t]) = (if ss = [] then t else join d ss @ d @ t)"
  by (induction d ss rule: join.induct) auto

lemma show_int_no_delimiter: "KEY_DELIMITER \<notin> set (show_int y)"
  by (simp add: KEY_DELIMITER_def)

lemma get_rowkey_last:
  assumes "y \<noteq> 0"
  shows "last (split_char KEY_DELIMITER (get_rowkey path freq (Some y))) = show_int y"
proof -
  obtain ss where "escape_path path @ rowkey_appends freq (Some y) = ss @ [show_int y]"
    using assms by (simp add: rowkey_appends_def)
  then show ?thesis
    using show_int_no_delimiter [of y] by (simp add: get_rowkey_def join_snoc split_char_last)
qed

lemma get_rowkey_year:
  assumes "get_rowkey path freq (Some y) = get_rowkey path' freq' (Some y')" and "y \<noteq> 0" and "y' \<noteq> 0"
  shows "y = y'"
  using get_rowkey_last [OF assms(2), of path freq] get_rowkey_last [OF assms(3), of path' freq'] assms(1) by simp

subsection \<open>Every column in the row of its year\<close>

definition year_placed :: "(string \<Rightarrow> row) \<Rightarrow> bool" where
  "year_placed rows = (\<forall>path freq y c v. 1 \<le> y \<longrightarrow> (c, v) \<in> set (rows (get_rowkey path freq (Some y))) \<longrightarrow>
     1000 dvd c \<and> dt_year (dt_of_secs (c div 1000)) = y)"

lemma year_placedD:
  assumes "year_placed rows" and "1 \<le> y" and "(c, v) \<in> set (rows (get_rowkey path freq (Some y)))"
  shows "1000 dvd c" and "dt_year (dt_of_secs (c div 1000)) = y"
  using assms unfolding year_placed_def by blast+

lemma year_placed_put:
  assumes "year_placed rows" and "\<And>k. row_ok (rows k)" and "1 \<le> dt_year t"
  shows "year_placed (apply_mut cf (Ins (get_rowkey path freq (Some (dt_year t))) (timegm t * 1000) v) rows)"
  unfolding year_placed_def
proof (intro allI impI)
  fix path' freq' y c w
  let ?k = "get_rowkey path freq (Some (dt_year t))" and ?k' = "get_rowkey path' freq' (Some y)"
  assume y: "1 \<le> y" and mem: "(c, w) \<in> set (apply_mut cf (Ins ?k (timegm t * 1000) v) rows ?k')"
  show "1000 dvd c \<and> dt_year (dt_of_secs (c div 1000)) = y"
  proof (cases "?k' = ?k \<and> c = timegm t * 1000")
    case True
    then have "y = dt_year t" using get_rowkey_year [of path' freq' y path freq "dt_year t"] y assms(3) by simp
    then show ?thesis using True by (simp add: dt_year_seconds)
  next
    case False
    have "c \<in> set (map fst (rows ?k'))"
    proof (cases "?k' = ?k")
      case same: True
      have "c \<in> set (map fst (put_col cf (timegm t * 1000) v (rows ?k)))" using mem same by force
      then show ?thesis using False same unfolding put_col_cols by simp
    next
      case False
      then show ?thesis using mem by force
    qed
    then obtain w' where "(c, w') \<in> set (rows ?k')" by auto
    then show ?thesis using year_placedD [OF assms(1) y] by blast
  qed
qed

text \<open>
  Raw data is kept where the queries look for it: if every column of the raw family lies in
  the row of its year and at a whole second, then this still holds after any datum of a year
  Python knows is written, whatever its path, frequency and value.
\<close>

theorem raw_rows_stay_placed:
  assumes "batched_store P sent pending" and "year_placed (settled sent pending (cdb st) RawCF)"
    and "set_raw_data P r st = Inr st'" and "1 \<le> dt_year (c_ts r)"
  shows "year_placed (settled sent pending (cdb st') RawCF)"
proof -
  obtain d where "cf_insert P RawCF (get_key r) (ts_to_jstime r) (RawCol (c_val r)) (cdb st) = Inr d"
    and st': "st' = st\<lparr>cdb := d\<rparr>"
    using assms(3) by (auto simp: set_raw_data_def res_simps)
  from batched_store.settled_insert [OF assms(1) this(1), of RawCF]
  show ?thesis
    using year_placed_put [OF assms(2) batched_store.settled_ok [OF assms(1)] assms(4), of RawCF "c_path r" "c_freq r" "RawCol (c_val r)"]
    by (simp add: st' get_key_def ts_to_jstime_def)
qed

lemma empty_placed: "year_placed (settled mem_rows mem_queue (cdb empty_cass) RawCF)"
  by (simp add: empty_cass_def mem_empty_settled year_placed_def)

theorem raw_rows_stay_placed_witness:
  "\<exists>st'. set_raw_data mem_store witness_raw empty_cass = Inr st' \<and>
    year_placed (settled mem_rows mem_queue (cdb st') RawCF)"
proof -
  obtain d where "cf_insert mem_store RawCF (get_key witness_raw) (ts_to_jstime witness_raw)
      (RawCol (c_val witness_raw)) (cdb empty_cass) = Inr d"
    using mem.insert_ok by blast
  then have s: "set_raw_data mem_store witness_raw empty_cass = Inr (empty_cass\<lparr>cdb := d\<rparr>)"
    by (simp add: set_raw_data_def)
  have "valid_secs 1398965989" using ms_ok_1398(2) by (simp add: ms_ok_def)
  then have "1 \<le> dt_year (c_ts witness_raw)" by (simp add: witness_raw_def valid_secs_def)
  then show ?thesis
    using raw_rows_stay_placed [OF mem.batched_store_axioms empty_placed s] s by blast
qed

subsection \<open>The points of a range\<close>

lemma sorted_concat:
  "(\<And>x. x \<in> set xs \<Longrightarrow> sorted_wrt R (f x)) \<Longrightarrow>
   sorted_wrt (\<lambda>x y. \<forall>a \<in> set (f x). \<forall>b \<in> set (f y). R a b) xs \<Longrightarrow> sorted_wrt R (concat (map f xs))"
  by (induction xs) (auto simp: sorted_wrt_append)

lemma take_concat_take: "m \<le> n \<Longrightarrow> take m (concat (map (\<lambda>x. take n (f x)) xs)) = take m (concat (map f xs))"
proof (induction xs arbitrary: m)
  case (Cons x xs)
  then have "take (m - length (f x)) (concat (map (\<lambda>x. take n (f x)) xs)) = take (m - length (f x)) (concat (map f xs))"
    by simp
  then show ?case using Cons.prems by (cases "length (f x) \<le> n") (simp_all add: min_def)
qed simp

lemma first_year: "ms_ok a \<Longrightarrow> y \<in> set [dt_year (dt_of_secs a)..dt_year (dt_of_secs b)] \<Longrightarrow> 1 \<le> y"
  by (auto simp: ms_ok_def valid_secs_def)

lemma year_keys_distinct:
  assumes "ms_ok a"
  shows "distinct (year_keys path freq a b)"
  unfolding year_keys_def distinct_map
proof (intro conjI inj_onI)
  fix y y'
  assume "y \<in> set [dt_year (dt_of_secs a)..dt_year (dt_of_secs b)]" "y' \<in> set [dt_year (dt_of_secs a)..dt_year (dt_of_secs b)]"
    and same: "get_rowkey path freq (Some y) = get_rowkey path freq (Some y')"
  then have "1 \<le> y" "1 \<le> y'" using first_year [OF assms] by blast+
  then show "y = y'" using get_rowkey_year [OF same] by simp
qed simp

lemma range_cols_years:
  assumes "ms_ok a"
  shows "range_cols rows (year_keys path freq a b) lo hi =
    concat (map (\<lambda>y. in_range lo hi (rows (get_rowkey path freq (Some y)))) [dt_year (dt_of_secs a)..dt_year (dt_of_secs b)])"
  using year_keys_distinct [OF assms, of path freq b]
  by (simp add: range_cols_def distinct_remdups_id) (simp add: year_keys_def o_def)

lemma range_cols_sorted:
  assumes "ms_ok a" and "year_placed rows" and "\<And>k. row_ok (rows k)"
  shows "sorted_wrt (\<lambda>p q. fst p < fst q) (range_cols rows (year_keys path freq a b) lo hi)"
  unfolding range_cols_years [OF assms(1)]
proof (rule sorted_concat)
  show "sorted_wrt (\<lambda>p q. fst p < fst q) (in_range lo hi (rows (get_rowkey path freq (Some y))))" for y
    using assms(3) by (simp add: row_ok_def in_range_def sorted_wrt_map sorted_wrt_filter)
  let ?ys = "[dt_year (dt_of_secs a)..dt_year (dt_of_secs b)]"
  have "fst p < fst q" if y: "y \<in> set ?ys" "y' \<in> set ?ys" "y < y'"
      and p: "p \<in> set (in_range lo hi (rows (get_rowkey path freq (Some y))))"
      and q: "q \<in> set (in_range lo hi (rows (get_rowkey path freq (Some y'))))" for y y' p q
  proof -
    have "dt_year (dt_of_secs (fst p div 1000)) = y" "dt_year (dt_of_secs (fst q div 1000)) = y'"
      using p q year_placedD(2) [OF assms(2) first_year [OF assms(1)]] y
      by (metis in_range_set prod.collapse)+
    then have "\<not> fst q div 1000 \<le> fst p div 1000" 
      using y(3) dt_year_mono [of "dt_of_secs (fst q div 1000)" "dt_of_secs (fst p div 1000)"] by auto
    then show ?thesis using zdiv_mono1 [of "fst q" "fst p" 1000] by linarith
  qed
  then show "sorted_wrt (\<lambda>y y'. \<forall>p \<in> set (in_range lo hi (rows (get_rowkey path freq (Some y)))).
      \<forall>q \<in> set (in_range lo hi (rows (get_rowkey path freq (Some y')))). fst p < fst q) ?ys"
    by (intro sorted_wrt_mono_rel [OF _ sorted_wrt_upto]) blast
qed

lemma ms_ok_between: "ms_ok a \<Longrightarrow> ms_ok b \<Longrightarrow> a \<le> s \<Longrightarrow> s \<le> b \<Longrightarrow> ms_ok s"
  using valid_secs_between [of a b s] by (auto simp: ms_ok_def)

text \<open>A row holds nothing of a range that misses its year.\<close>

lemma in_range_other_year:
  assumes "year_placed rows" and "1 \<le> y" and "y < dt_year (dt_of_secs a) \<or> dt_year (dt_of_secs b) < y"
  shows "in_range (a * 1000) (b * 1000) (rows (get_rowkey path freq (Some y))) = []"
proof -
  have False if "(c, v) \<in> set (in_range (a * 1000) (b * 1000) (rows (get_rowkey path freq (Some y))))" for c v
  proof -
    have row: "(c, v) \<in> set (rows (get_rowkey path freq (Some y)))" and "a * 1000 \<le> c" "c \<le> b * 1000"
      using that by (auto simp: in_range_set)
    then have "a \<le> c div 1000" "c div 1000 \<le> b"
      using zdiv_mono1 [of "a * 1000" c 1000] zdiv_mono1 [of c "b * 1000" 1000] by simp_all
    then have "dt_year (dt_of_secs a) \<le> y" "y \<le> dt_year (dt_of_secs b)"
      using dt_year_mono [of "dt_of_secs a" "dt_of_secs (c div 1000)"] dt_year_mono [of "dt_of_secs (c div 1000)" "dt_of_secs b"]
        year_placedD(2) [OF assms(1,2) row] by simp_all
    then show False using assms(3) by linarith
  qed
  then show ?thesis by (metis list.set_intros(1) neq_Nil_conv prod.collapse)
qed

text \<open>The columns of a shorter range are those columns of the longer one that lie in it.\<close>

lemma range_cols_window:
  assumes "ms_ok lo" and "ms_ok hi" and "year_placed rows" and "lo \<le> a" and "a \<le> b" and "b \<le> hi"
  shows "range_cols rows (year_keys path freq a b) (a * 1000) (b * 1000) =
    filter (\<lambda>p. a * 1000 \<le> fst p \<and> fst p \<le> b * 1000)
      (range_cols rows (year_keys path freq lo hi) (lo * 1000) (hi * 1000))"
proof -
  let ?y = "\<lambda>s. dt_year (dt_of_secs s)"
  let ?h = "\<lambda>y. in_range (a * 1000) (b * 1000) (rows (get_rowkey path freq (Some y)))"
  have ok: "ms_ok a" using ms_ok_between [OF assms(1,2)] assms(4-6) by simp
  have years: "1 \<le> ?y lo" "?y lo \<le> ?y a" "?y a \<le> ?y b" "?y b \<le> ?y hi"
    using assms(1,4-6) by (auto simp: ms_ok_def valid_secs_def intro!: dt_year_mono)
  have split: "[?y lo..?y hi] = [?y lo..?y a - 1] @ [?y a..?y b] @ [?y b + 1..?y hi]"
    using upto_split1 [of "?y lo" "?y a" "?y hi"] upto_split2 [of "?y a" "?y b" "?y hi"] years by simp
  have "filter (\<lambda>p. a * 1000 \<le> fst p \<and> fst p \<le> b * 1000) (in_range (lo * 1000) (hi * 1000) r) =
      in_range (a * 1000) (b * 1000) r" for r
    using assms(4,6) by (auto simp: in_range_def intro!: filter_cong)
  then have "filter (\<lambda>p. a * 1000 \<le> fst p \<and> fst p \<le> b * 1000)
      (range_cols rows (year_keys path freq lo hi) (lo * 1000) (hi * 1000)) = concat (map ?h [?y lo..?y hi])"
    by (simp add: range_cols_years [OF assms(1)] filter_concat o_def)
  also have "\<dots> = concat (map ?h [?y a..?y b])"
  proof -
    have "?h y = []" if "y \<in> set [?y lo..?y a - 1] \<union> set [?y b + 1..?y hi]" for y
      using that years by (intro in_range_other_year [OF assms(3)]) auto
    then have none: "concat (map ?h [?y lo..?y a - 1]) = []" "concat (map ?h [?y b + 1..?y hi]) = []" by auto
    show ?thesis unfolding split map_append concat_append none by simp
  qed
  finally show ?thesis by (simp add: range_cols_years [OF ok])
qed

subsection \<open>A limited query\<close>

lemma raw_datum_map:
  assumes "raw_rows rows" and "\<And>c v. (c, v) \<in> set cols \<Longrightarrow> \<exists>k. (c, v) \<in> set (rows k)"
  shows "rmap (\<lambda>(c, v). raw_datum c v) cols = Inr (map (\<lambda>(c, v). ts_val_dict c (col_json v)) cols)"
proof (rule rmap_all)
  fix cv
  assume cv: "cv \<in> set cols"
  obtain c v where e: "cv = (c, v)" by (cases cv)
  then obtain j where "v = RawCol j" using assms cv unfolding raw_rows_def by blast
  then show "(case cv of (c, v) \<Rightarrow> raw_datum c v) = Inr (case cv of (c, v) \<Rightarrow> ts_val_dict c (col_json v))"
    by (simp add: e raw_datum_def ts_val_dict_def col_json_def)
qed

lemma serialize_columns:
  assumes "ms_ok a" and "ms_ok b"
    and "\<And>c v. (c, v) \<in> set cols \<Longrightarrow> 1000 dvd c \<and> a * 1000 \<le> c \<and> c \<le> b * 1000"
  shows "rmap serialize_datum (map (\<lambda>(c, v). ts_val_dict c (col_json v)) cols) =
    Inr (map (\<lambda>(c, v). ts_val_dict (c div 1000) (col_json v)) cols)"
  using assms(3)
proof (induction cols)
  case (Cons cv cols)
  obtain c v where e: "cv = (c, v)" by (cases cv)
  have "1000 dvd c" and range: "a * 1000 \<le> c" "c \<le> b * 1000" using Cons.prems [of c v] e by simp_all
  then obtain s where c: "c = s * 1000" by (metis dvd_div_mult_self)
  then have "ms_ok s" using range ms_ok_between [OF assms(1,2), of s] by simp
  moreover have "rmap serialize_datum (map (\<lambda>(c, v). ts_val_dict c (col_json v)) cols) =
      Inr (map (\<lambda>(c, v). ts_val_dict (c div 1000) (col_json v)) cols)"
    using Cons.prems by (intro Cons.IH) auto
  ultimately show ?case by (simp add: e c serialize_ts_val)
qed simp

text \<open>The points of a series between two times, in the order of time, with their seconds.\<close>

definition series_points :: "(string \<Rightarrow> row) \<Rightarrow> string list \<Rightarrow> int \<Rightarrow> int \<Rightarrow> (int \<times> json) list" where
  "series_points rows path a b = map (\<lambda>(c, v). (c div 1000, col_json v))
     (range_cols rows (year_keys path None a b) (a * 1000) (b * 1000))"

definition window :: "int \<Rightarrow> int \<Rightarrow> (int \<times> 'v) list \<Rightarrow> (int \<times> 'v) list" where
  "window a b pts = filter (\<lambda>p. a \<le> fst p \<and> fst p \<le> b) pts"

lemma year_placed_cols:
  assumes "ms_ok a" and "year_placed rows" and "(c, v) \<in> set (range_cols rows (year_keys path freq a b) lo hi)"
  shows "1000 dvd c"
proof -
  obtain y where "y \<in> set [dt_year (dt_of_secs a)..dt_year (dt_of_secs b)]"
      and "(c, v) \<in> set (rows (get_rowkey path freq (Some y)))"
    using assms(3) by (auto simp: range_cols_set year_keys_def)
  then show ?thesis using year_placedD(1) [OF assms(2) first_year [OF assms(1)]] by blast
qed

lemma series_points_sorted:
  assumes "ms_ok a" and "year_placed rows" and "\<And>k. row_ok (rows k)"
  shows "sorted_wrt (\<lambda>p q. fst p < fst q) (series_points rows path a b)"
proof -
  let ?cols = "range_cols rows (year_keys path None a b) (a * 1000) (b * 1000)"
  have "sorted_wrt (\<lambda>p q. fst p div 1000 < fst q div 1000) ?cols"
  proof (rule sorted_wrt_mono_rel [OF _ range_cols_sorted [OF assms]])
    fix p q
    assume "p \<in> set ?cols" "q \<in> set ?cols" and less: "fst p < fst q"
    then have "1000 dvd fst p" "1000 dvd fst q"
      using year_placed_cols [OF assms(1,2)] by (metis prod.collapse)+
    then show "fst p div 1000 < fst q div 1000" using less by auto
  qed
  then show ?thesis by (simp add: series_points_def sorted_wrt_map case_prod_beta)
qed

lemma series_points_window:
  assumes "ms_ok lo" and "ms_ok hi" and "year_placed rows" and "lo \<le> a" and "a \<le> b" and "b \<le> hi"
  shows "series_points rows path a b = window a b (series_points rows path lo hi)"
proof -
  have "(a * 1000 \<le> fst p \<and> fst p \<le> b * 1000) = (a \<le> fst p div 1000 \<and> fst p div 1000 \<le> b)"
    if "p \<in> set (range_cols rows (year_keys path None lo hi) (lo * 1000) (hi * 1000))" for p
  proof -
    have "1000 dvd fst p" using year_placed_cols [OF assms(1,3)] that by (metis prod.collapse)
    then show ?thesis by auto
  qed
  then show ?thesis
    unfolding series_points_def range_cols_window [OF assms] window_def filter_map
    by (intro arg_cong [of _ _ "map _"] filter_cong) (auto simp: case_prod_beta)
qed

lemma limited_query:
  assumes "batched_store P sent pending" and "ms_ok a" and "ms_ok b" and "a \<le> b"
    and "raw_rows (sent (cdb st) RawCF)" and "year_placed (sent (cdb st) RawCF)"
  shows "\<exists>rs data. query_raw_data P path None (a * 1000) (b * 1000) (Some n) st = Inr rs \<and>
    rmap serialize_datum rs = Inr data \<and>
    take (nat n) data = map (\<lambda>(t, v). ts_val_dict t v) (take (nat n) (series_points (sent (cdb st) RawCF) path a b))"
proof -
  let ?rows = "sent (cdb st) RawCF" and ?keys = "year_keys path None a b"
  let ?row = "\<lambda>k. in_range (a * 1000) (b * 1000) (?rows k)"
  let ?cols = "concat (map (\<lambda>k. take (nat n) (?row k)) (remdups ?keys))"
  have "query_raw_data P path None (a * 1000) (b * 1000) (Some n) st = rmap (\<lambda>(c, v). raw_datum c v) ?cols"
    using get_row_keys_le [OF assms(2-4), of path None]
    by (simp add: query_raw_data_def multiget_range_def rows_data_def batched_store.multiget_law [OF assms(1)]
        read_rows_def concat_filter_nonempty read_row_def o_def year_keys_def)
  also have "\<dots> = Inr (map (\<lambda>(c, v). ts_val_dict c (col_json v)) ?cols)"
    by (rule raw_datum_map [OF assms(5)]) (auto dest!: in_set_takeD simp: in_range_set)
  finally have q: "query_raw_data P path None (a * 1000) (b * 1000) (Some n) st =
      Inr (map (\<lambda>(c, v). ts_val_dict c (col_json v)) ?cols)" .
  have in_cols: "(c, v) \<in> set (range_cols ?rows ?keys (a * 1000) (b * 1000))" if "(c, v) \<in> set ?cols" for c v
    using that by (auto dest!: in_set_takeD simp: range_cols_def)
  have "rmap serialize_datum (map (\<lambda>(c, v). ts_val_dict c (col_json v)) ?cols) =
      Inr (map (\<lambda>(c, v). ts_val_dict (c div 1000) (col_json v)) ?cols)"
  proof (rule serialize_columns [OF assms(2,3)])
    fix c v
    assume "(c, v) \<in> set ?cols"
    then show "1000 dvd c \<and> a * 1000 \<le> c \<and> c \<le> b * 1000"
      using year_placed_cols [OF assms(2,6) in_cols] in_cols by (simp add: range_cols_set)
  qed
  moreover have "take (nat n) ?cols = take (nat n) (range_cols ?rows ?keys (a * 1000) (b * 1000))"
    unfolding range_cols_def by (rule take_concat_take) simp
  ultimately show ?thesis using q
    by (intro exI conjI) (assumption, assumption, simp add: series_points_def take_map o_def case_prod_beta)
qed

end
