(* ===== verification/Client_Pages.thy ===== *)
theory Client_Pages
  imports Client_Query Series_Pages
begin

section \<open>The client's loop over the server's pages\<close>

text \<open>
  \<open>NodeInfo._query_with_limit\<close> against the GET view of a series. The locale \<open>series_server\<close> is
  what the loop needs of a server: the points of a series in the order of time, and for every
  window the first 1000 of its points. \<open>json_series\<close> is the view of this archive over a driver
  that keeps the batch contract, and gives that contract; it is interpreted on the store in
  memory. The loop returns every point of the window, except that it drops the point at
  \<open>time-end\<close> when a full page ends one second before it.
\<close>

definition point_json :: "int \<times> json \<Rightarrow> json" where
  "point_json p = JObj (ts_val_dict (fst p) (snd p))"

text \<open>Parameters that ask for the points from \<open>a\<close> to \<open>b\<close>, at most \<open>LIMIT\<close> of them.\<close>

definition asks :: "int \<Rightarrow> int \<Rightarrow> json dict \<Rightarrow> bool" where
  "asks a b p = (dict_wf p \<and> map_of p ''time-start'' = Some (JInt a) \<and> map_of p ''time-end'' = Some (JInt b) \<and>
     map_of p ''limit'' = Some (JInt LIMIT) \<and> map_of p ''time'' = None \<and> map_of p ''offset'' = None)"

lemma asks_update: "asks a b p \<Longrightarrow> asks a' b (AList.update ''time-start'' (JInt a') p)"
  by (simp add: asks_def dict_wf_update)

definition ok_reply :: "string dict \<Rightarrow> json list \<Rightarrow> reply" where
  "ok_reply hs items = \<lparr>rp_status = 200, rp_headers = (''content-type'', ''application/json'') # hs, rp_json = Some (JList items)\<rparr>"

lemma ok_reply_items [simp]: "is_json_reply (ok_reply hs items) = Inr True" "page_items (ok_reply hs items) = Inr items"
  by (simp_all add: is_json_reply_def page_items_def reply_json_def ok_reply_def)

lemma next_start_page: "pts \<noteq> [] \<Longrightarrow> next_start (map point_json pts) = Inr (JInt (fst (last pts) + 1))"
  by (simp add: next_start_def last_map point_json_def json_get_def ts_val_dict_def)

text \<open>What is left after a page begins one second after its last point.\<close>

lemma window_rest:
  assumes "sorted_wrt (\<lambda>p q. fst p < fst q) pts" and "window a b pts = page @ rest" and "page \<noteq> []"
  shows "window (fst (last page) + 1) b pts = rest"
proof -
  let ?t = "fst (last page)"
  have sorted: "sorted_wrt (\<lambda>p q. fst p < fst q) (page @ rest)"
    using assms(1) unfolding assms(2) [symmetric] window_def by (rule sorted_wrt_filter)
  have "last page \<in> set (window a b pts)" using assms(2,3) by simp
  then have "a \<le> ?t" by (simp add: window_def)
  then have "window (?t + 1) b pts = filter (\<lambda>p. ?t < fst p) (window a b pts)"
    by (auto simp: window_def intro!: filter_cong)
  also have "\<dots> = filter (\<lambda>p. ?t < fst p) page @ filter (\<lambda>p. ?t < fst p) rest" by (simp add: assms(2))
  also have "filter (\<lambda>p. ?t < fst p) rest = rest"
    using sorted assms(3) by (auto simp: sorted_wrt_append intro!: filter_True)
  also have "filter (\<lambda>p. ?t < fst p) page = []"
  proof -
    have "page = butlast page @ [last page]" using assms(3) by simp
    then have "sorted_wrt (\<lambda>p q. fst p < fst q) (butlast page @ [last page])" using sorted by (simp add: sorted_wrt_append)
    then have "\<forall>p \<in> set (butlast page @ [last page]). fst p \<le> ?t"
      by (simp add: sorted_wrt_append less_imp_le)
    then show ?thesis using assms(3) by (simp add: filter_empty_conv not_less)
  qed
  finally show ?thesis by simp
qed

locale series_server =
  fixes get :: "json dict \<Rightarrow> reply res"
    and pts :: "(int \<times> json) list"
    and lo :: int
    and hi :: int
  assumes in_order: "sorted_wrt (\<lambda>p q. fst p < fst q) pts"
    and page_law: "asks a b p \<Longrightarrow> lo \<le> a \<Longrightarrow> a \<le> b \<Longrightarrow> b \<le> hi \<Longrightarrow>
      \<exists>hs. get p = Inr (ok_reply hs (map point_json (take (nat LIMIT) (window a b pts))))"
begin

lemma one_turn:
  assumes "asks a b p" and "lo \<le> a" and "a \<le> b" and "b \<le> hi"
  defines "page \<equiv> take (nat LIMIT) (window a b pts)"
  shows "query_turn get p acc =
    (if length (window a b pts) < nat LIMIT \<or> b \<le> fst (last page) + 1 then Done (Inr (acc @ map point_json page))
     else Again (AList.update ''time-start'' (JInt (fst (last page) + 1)) p) (acc @ map point_json page))"
proof -
  obtain hs where get: "get p = Inr (ok_reply hs (map point_json page))"
    using page_law [OF assms(1-4)] unfolding page_def by blast
  show ?thesis
  proof (cases "length (window a b pts) < nat LIMIT")
    case True
    then have "length page < 1000" by (simp add: page_def LIMIT_def)
    then show ?thesis using True by (simp add: query_turn_def get LIMIT_def)
  next
    case False
    then have len: "length page = 1000" by (simp add: page_def LIMIT_def)
    then have "page \<noteq> []" by auto
    moreover have "past_end (AList.update ''time-start'' (JInt s) p) = Inr (b \<le> s)" for s
      using assms(1) by (simp add: past_end_def asks_def)
    ultimately show ?thesis
      using False by (simp add: query_turn_def get len LIMIT_def next_start_page)
  qed
qed

lemma reads_window:
  assumes "asks a b p" and "lo \<le> a" and "a \<le> b" and "b \<le> hi"
  shows "\<exists>out. query_loop get p acc = Some (Inr (acc @ map point_json out)) \<and>
    (out = window a b pts \<or> (\<exists>v. window a b pts = out @ [(b, v)] \<and> out \<noteq> [] \<and> fst (last out) = b - 1))"
  using assms
proof (induction "nat (b - a)" arbitrary: a p acc rule: less_induct)
  case less
  let ?w = "window a b pts" and ?page = "take (nat LIMIT) (window a b pts)"
  let ?rest = "drop (nat LIMIT) (window a b pts)" and ?t = "fst (last (take (nat LIMIT) (window a b pts)))"
  note turn = one_turn [OF less.prems, of acc]
  show ?case
  proof (cases "length ?w < nat LIMIT")
    case True
    then show ?thesis using turn by (subst query_loop.simps) (auto intro!: exI [of _ ?w])
  next
    case False
    then have "?page \<noteq> []" by (auto simp: LIMIT_def)
    have w: "?w = ?page @ ?rest" by simp
    have rest: "window (?t + 1) b pts = ?rest" by (rule window_rest [OF in_order w \<open>?page \<noteq> []\<close>])
    have "last ?page \<in> set ?w" using \<open>?page \<noteq> []\<close> by (meson in_set_takeD last_in_set)
    then have t: "a \<le> ?t" "?t \<le> b" by (simp_all add: window_def)
    show ?thesis
    proof (cases "b \<le> ?t + 1")
      case True
      have "?rest = [] \<or> (\<exists>v. ?rest = [(b, v)] \<and> ?t = b - 1)"
      proof (cases ?rest)
        case (Cons q qs)
        have "q \<in> set (window (?t + 1) b pts)" using rest Cons by simp
        then have q: "fst q = b" "?t = b - 1" using True by (auto simp: window_def)
        have "qs = []"
        proof (rule ccontr)
          assume "qs \<noteq> []"
          then obtain q' where "q' \<in> set qs" using hd_in_set by blast
          moreover have "sorted_wrt (\<lambda>p q. fst p < fst q) (window (?t + 1) b pts)"
            unfolding window_def by (rule sorted_wrt_filter [OF in_order])
          ultimately have "fst q < fst q'" "q' \<in> set (window (?t + 1) b pts)" using rest Cons by simp_all
          then show False using q by (simp add: window_def)
        qed
        then show ?thesis using Cons q by (cases q) auto
      qed simp
      then have "?page = ?w \<or> (\<exists>v. ?w = ?page @ [(b, v)] \<and> ?page \<noteq> [] \<and> ?t = b - 1)"
        using w \<open>?page \<noteq> []\<close> by (metis append_Nil2)
      moreover have "query_loop get p acc = Some (Inr (acc @ map point_json ?page))"
        using turn True by (subst query_loop.simps) simp
      ultimately show ?thesis by blast
    next
      case more: False
      let ?p = "AList.update ''time-start'' (JInt (?t + 1)) p"
      have "nat (b - (?t + 1)) < nat (b - a)" using t more by simp
      from less.hyps [OF this asks_update [OF less.prems(1)], of "acc @ map point_json ?page"]
      obtain out where out: "query_loop get ?p (acc @ map point_json ?page) = Some (Inr ((acc @ map point_json ?page) @ map point_json out))"
        and cases: "out = ?rest \<or> (\<exists>v. ?rest = out @ [(b, v)] \<and> out \<noteq> [] \<and> fst (last out) = b - 1)"
        using t more less.prems rest by auto
      have "query_loop get p acc = Some (Inr (acc @ map point_json (?page @ out)))"
        using turn more False out by (subst query_loop.simps) simp
      moreover have "?page @ out = ?w \<or> (\<exists>v. ?w = (?page @ out) @ [(b, v)] \<and> ?page @ out \<noteq> [] \<and> fst (last (?page @ out)) = b - 1)"
        using cases w by (metis append_assoc append_is_Nil_conv last_appendR)
      ultimately show ?thesis by blast
    qed
  qed
qed

text \<open>The point at the end of the window is dropped when the page before it is full.\<close>

lemma end_point_dropped:
  assumes "asks a b p" and "lo \<le> a" and "a \<le> b" and "b \<le> hi"
    and "window a b pts = page @ [(b, v)]" and "length page = nat LIMIT" and "fst (last page) = b - 1"
  shows "query_loop get p [] = Some (Inr (map point_json page))"
  using one_turn [OF assms(1-4), of "[]"] assms(5-7) by (subst query_loop.simps) simp

end

subsection \<open>The archive as the server\<close>

text \<open>
  What \<open>requests\<close> sends of a dictionary of parameters: None not at all, everything else as its
  string. The framework's LimitOffsetPagination cuts \<open>limit\<close> items from \<open>offset\<close>.
\<close>

definition sent_params :: "json dict \<Rightarrow> string dict" where
  "sent_params d = concat (map (\<lambda>(k, v). if v = JNull then [] else [(k, shown v)]) d)"

lemma sent_params_None: "map_of d k = None \<Longrightarrow> map_of (sent_params d) k = None"
  by (induction d) (auto simp: sent_params_def split: if_splits)

lemma sent_params_int: "dict_wf d \<Longrightarrow> map_of d k = Some (JInt n) \<Longrightarrow> map_of (sent_params d) k = Some (show_int n)"
proof (induction d)
  case (Cons kv d)
  then show ?case
    using sent_params_None [of d "fst kv"] by (cases kv) (auto simp: sent_params_def shown_def split: if_splits)
qed simp

definition pages_by_limit :: "paginator \<Rightarrow> bool" where
  "pages_by_limit paginate = (\<forall>params data n. map_of params ''limit'' = Some (show_int n) \<longrightarrow> 0 < n \<longrightarrow>
     map_of params ''offset'' = None \<longrightarrow> fst (paginate params data) = take (nat n) data)"

text \<open>The view behind HTTP: \<open>fail\<close> is the answer of the framework to an exception.\<close>

definition series_http ::
  "'d pycassa \<Rightarrow> paginator \<Rightarrow> (string \<Rightarrow> string) \<Rightarrow> int \<Rightarrow> (exn \<Rightarrow> reply res) \<Rightarrow> string dict \<Rightarrow> 'd archive \<Rightarrow> json dict \<Rightarrow> reply res" where
  "series_http P paginate url_path now fail kwargs ar p =
     (case timeseries_retrieve P paginate url_path now kwargs (sent_params p) ar of
        Inl e \<Rightarrow> fail e
      | Inr (data, headers) \<Rightarrow> Inr (ok_reply headers (map JObj data)))"

definition base_path :: "string \<Rightarrow> string \<Rightarrow> string list" where
  "base_path et mk = row_prefix et @ [mk]"

locale json_series = batched_store P sent pending
  for P :: "'d pycassa" and sent and pending +
  fixes ar :: "'d archive"
    and paginate :: paginator
    and url_path :: "string \<Rightarrow> string"
    and now :: int
    and fail :: "exn \<Rightarrow> reply res"
    and kwargs :: "string dict"
    and et :: string
    and mk :: string
    and lo :: int
    and hi :: int
  assumes raw: "raw_rows (sent (cdb (ar_cass ar)) RawCF)"
    and in_place: "year_placed (sent (cdb (ar_cass ar)) RawCF)"
    and pages: "pages_by_limit paginate"
    and url: "check_retrieve kwargs = Inr (et, mk, ''base'')"
    and no_window: "map_of kwargs ''summary_window'' = None"
    and json_type: "event_type_config et = Inr TJson"
    and span: "ms_ok lo" "ms_ok hi"
begin

lemma page:
  assumes "asks a b p" and "lo \<le> a" and "a \<le> b" and "b \<le> hi"
  shows "\<exists>hs. series_http P paginate url_path now fail kwargs ar p = Inr (ok_reply hs (map point_json
    (take (nat LIMIT) (window a b (series_points (sent (cdb (ar_cass ar)) RawCF) (base_path et mk) lo hi)))))"
proof -
  let ?rows = "sent (cdb (ar_cass ar)) RawCF" and ?p = "sent_params p"
  have ok: "ms_ok a" "ms_ok b" using ms_ok_between [OF span] assms(2-4) by simp_all
  have sent: "map_of ?p ''limit'' = Some (show_int LIMIT)" "map_of ?p ''time-start'' = Some (show_int a)"
      "map_of ?p ''time-end'' = Some (show_int b)" "map_of ?p ''time'' = None" "map_of ?p ''offset'' = None"
    using assms(1) by (simp_all add: asks_def sent_params_int sent_params_None)
  have times: "handle_time_filters now ?p = Inr \<lparr>tf_begin = a, tf_end = Some b, tf_has_filters = True\<rparr>"
    using assms(3) by (simp add: handle_time_filters_def select_times_def sent)
  have count: "max_results ?p = Inr LIMIT" by (simp add: max_results_def sent parse_show_int)
  obtain rs data where rs: "query_raw_data P (base_path et mk) None (a * 1000) (b * 1000) (Some LIMIT) (ar_cass ar) = Inr rs"
      and data: "rmap serialize_datum rs = Inr data"
      and take_data: "take (nat LIMIT) data = map (\<lambda>(t, v). ts_val_dict t v) (take (nat LIMIT) (series_points ?rows (base_path et mk) a b))"
    using limited_query [OF batched_store_axioms ok assms(3) raw in_place] by blast
  have "retrieve_data P now mk et ''base'' JNull ?p ar = Inr data"
    using rs data by (simp add: retrieve_data_def times count query_database_json [OF json_type] base_path_def)
  moreover have "fst (paginate ?p data) = take (nat LIMIT) data"
    using pages sent(1,5) by (simp add: pages_by_limit_def LIMIT_def)
  ultimately show ?thesis
    using take_data series_points_window [OF span in_place assms(2-4)]
    by (simp add: series_http_def timeseries_retrieve_def url no_window case_prod_beta point_json_def [abs_def] o_def) (rule exI, rule refl)
qed

end

text \<open>The view gives the loop the pages it needs.\<close>

sublocale json_series \<subseteq> reader: series_server "series_http P paginate url_path now fail kwargs ar"
  "series_points (sent (cdb (ar_cass ar)) RawCF) (base_path et mk) lo hi" lo hi
  by unfold_locales (rule series_points_sorted [OF span(1) in_place rows_ok], rule page)

context json_series
begin

lemma reads_whole:
  assumes "asks lo hi p" and "lo \<le> hi"
  shows "\<exists>out. query_loop (series_http P paginate url_path now fail kwargs ar) p [] = Some (Inr (map point_json out)) \<and>
    (out = series_points (sent (cdb (ar_cass ar)) RawCF) (base_path et mk) lo hi \<or>
     (\<exists>v. series_points (sent (cdb (ar_cass ar)) RawCF) (base_path et mk) lo hi = out @ [(hi, v)] \<and>
        out \<noteq> [] \<and> fst (last out) = hi - 1))"
  using reader.reads_window [OF assms(1) order.refl assms(2) order.refl, of "[]"]
  unfolding series_points_window [OF span in_place order.refl assms(2) order.refl, symmetric] by simp

end

text \<open>The parameters the client sends first.\<close>

lemma asks_limit:
  assumes "dict_wf d" and "map_of d ''time-start'' = Some (JInt a)" and "map_of d ''time-end'' = Some (JInt b)"
    and "map_of d ''time'' = None" and "map_of d ''offset'' = None"
  shows "asks a b (AList.update ''limit'' (JInt LIMIT) d)"
  using assms by (simp add: asks_def dict_wf_update)

text \<open>
  C26. The client reads a whole window: pointed at the view of a JSON series, with time-start
  \<open>a\<close> and time-end \<open>b\<close> as its filters, the loop of requests ends and returns every point stored
  between \<open>a\<close> and \<open>b\<close>, each once and in the order of time, whatever their number. The exception
  is the point at \<open>b\<close> itself, which is dropped only if a full page ends at \<open>b - 1\<close>.
\<close>

theorem client_reads_window:
  assumes "batched_store P sent pending"
    and "raw_rows (sent (cdb (ar_cass ar)) RawCF)" and "year_placed (sent (cdb (ar_cass ar)) RawCF)"
    and "pages_by_limit paginate"
    and "check_retrieve kwargs = Inr (et, mk, ''base'')" and "map_of kwargs ''summary_window'' = None"
    and "event_type_config et = Inr TJson"
    and "ms_ok a" and "ms_ok b" and "a \<le> b"
    and "(\<lambda>p. http (ni_api_url node @ uri) p (ni_headers node)) = series_http P paginate url_path now fail kwargs ar"
    and "dict_wf (af_time (ni_filters node))"
    and "map_of (af_time (ni_filters node)) ''time-start'' = Some (JInt a)"
    and "map_of (af_time (ni_filters node)) ''time-end'' = Some (JInt b)"
    and "map_of (af_time (ni_filters node)) ''time'' = None" and "map_of (af_time (ni_filters node)) ''offset'' = None"
  shows "\<exists>out. query_with_limit http uri node = Some (Inr (map point_json out)) \<and>
    (out = series_points (sent (cdb (ar_cass ar)) RawCF) (base_path et mk) a b \<or>
     (\<exists>v. series_points (sent (cdb (ar_cass ar)) RawCF) (base_path et mk) a b = out @ [(b, v)] \<and>
        out \<noteq> [] \<and> fst (last out) = b - 1))"
proof -
  have series: "json_series P sent pending ar paginate kwargs et mk a b"
    using assms(1-9) by (intro json_series.intro json_series_axioms.intro)
  show ?thesis
    using json_series.reads_whole [OF series asks_limit [OF assms(12-16)] assms(10)]
    unfolding query_with_limit_def assms(11) by simp
qed

text \<open>
  With time-start and time-range as filters the server takes their sum for the end of the
  window; the loop moves time-start on and leaves time-range, so that the end moves too.
\<close>

lemma range_window_moves:
  assumes "dict_wf p" and "map_of p ''time'' = None" and "map_of p ''time-end'' = None"
    and "map_of p ''time-start'' = Some (JInt a)" and "map_of p ''time-range'' = Some (JInt r)" and "0 \<le> r"
    and "get p = Inr (ok_reply hs (map point_json page))" and "length page = nat LIMIT"
  shows "\<exists>p'. query_turn get p acc = Again p' (acc @ map point_json page) \<and>
    handle_time_filters now (sent_params p) = Inr \<lparr>tf_begin = a, tf_end = Some (a + r), tf_has_filters = True\<rparr> \<and>
    handle_time_filters now (sent_params p') =
      Inr \<lparr>tf_begin = fst (last page) + 1, tf_end = Some (fst (last page) + 1 + r), tf_has_filters = True\<rparr>"
proof -
  let ?p' = "AList.update ''time-start'' (JInt (fst (last page) + 1)) p"
  have "page \<noteq> []" using assms(8) by (auto simp: LIMIT_def)
  then have "query_turn get p acc = Again ?p' (acc @ map point_json page)"
    using assms(3,8) by (simp add: query_turn_def assms(7) LIMIT_def next_start_page past_end_def)
  moreover have times: "handle_time_filters now (sent_params q) = Inr \<lparr>tf_begin = s, tf_end = Some (s + r), tf_has_filters = True\<rparr>"
    if "dict_wf q" "map_of q ''time'' = None" "map_of q ''time-end'' = None" "map_of q ''time-start'' = Some (JInt s)"
      "map_of q ''time-range'' = Some (JInt r)" for q s
    using that assms(6) by (simp add: handle_time_filters_def select_times_def sent_params_int sent_params_None)
  moreover have "handle_time_filters now (sent_params p) = Inr \<lparr>tf_begin = a, tf_end = Some (a + r), tf_has_filters = True\<rparr>"
    using assms(1-5) by (intro times)
  moreover have "handle_time_filters now (sent_params ?p') =
      Inr \<lparr>tf_begin = fst (last page) + 1, tf_end = Some (fst (last page) + 1 + r), tf_has_filters = True\<rparr>"
    using assms(1-3,5) by (intro times) (simp_all only: dict_wf_update map_of_dict_update fun_upd_other fun_upd_same, simp_all)
  ultimately show ?thesis by blast
qed

text \<open>A series of 1001 points, one a second.\<close>

definition limit_pages :: paginator where
  "limit_pages params data =
     (case map_of params ''limit'' of
        None \<Rightarrow> take 1500 data
      | Some l \<Rightarrow> (case parse_int l of None \<Rightarrow> data | Some n \<Rightarrow> take (nat n) data), None, None)"

definition crowded_row :: row where
  "crowded_row = map (\<lambda>i. (i * 1000, RawCol JNull)) [0..1000]"

definition crowded_key :: string where
  "crowded_key = get_rowkey (base_path ''failures'' ''0CB1'') None (Some 1970)"

definition crowded_archive :: "mem archive" where
  "crowded_archive = json_archive\<lparr>ar_cass := empty_cass\<lparr>cdb := mem_empty(RawCF := ((\<lambda>_. [])(crowded_key := crowded_row), []))\<rparr>\<rparr>"

lemma crowded_rows: "mem_rows (cdb (ar_cass crowded_archive)) RawCF = (\<lambda>_. [])(crowded_key := crowded_row)"
  by (auto simp: crowded_archive_def mem_rows_def Let_def row_ok_def crowded_row_def fun_eq_iff sorted_wrt_map
      intro!: sorted_wrt_mono_rel [OF _ sorted_wrt_upto])

lemma years_1970: "dt_year (dt_of_secs 0) = 1970" "dt_year (dt_of_secs 1000) = 1970" "ms_ok 0" "ms_ok 1000"
  by code_simp+

lemma crowded_placed: "year_placed ((\<lambda>_. [])(crowded_key := crowded_row))"
  unfolding year_placed_def
proof (intro allI impI)
  fix path freq y c v
  assume y: "1 \<le> y" and mem: "(c, v) \<in> set (((\<lambda>_. [])(crowded_key := crowded_row)) (get_rowkey path freq (Some y)))"
  then have "get_rowkey path freq (Some y) = crowded_key" by (auto split: if_splits)
  then have year: "y = 1970" using get_rowkey_year [of path freq y "base_path ''failures'' ''0CB1''" None 1970] y
    by (simp add: crowded_key_def)
  obtain i where i: "c = i * 1000" "0 \<le> i" "i \<le> 1000" using mem by (auto simp: crowded_row_def split: if_splits)
  have "1970 \<le> dt_year (dt_of_secs i)"
    using dt_year_mono [OF dt_of_secs_le [THEN iffD2, OF i(2)]] unfolding years_1970 .
  moreover have "dt_year (dt_of_secs i) \<le> 1970"
    using dt_year_mono [OF dt_of_secs_le [THEN iffD2, OF i(3)]] unfolding years_1970 .
  ultimately show "1000 dvd c \<and> dt_year (dt_of_secs (c div 1000)) = y" using i year by simp
qed

interpretation crowded: json_series mem_store mem_rows mem_queue crowded_archive limit_pages "\<lambda>k. ''/'' @ k" 2000 Inl
  json_kwargs "''failures''" "''0CB1''" 0 1000
proof (unfold_locales, goal_cases)
  case 1
  show ?case by (auto simp: crowded_rows raw_rows_def crowded_row_def)
next
  case 2
  show ?case unfolding crowded_rows by (rule crowded_placed)
next
  case 3
  show ?case by (simp add: pages_by_limit_def limit_pages_def parse_show_int)
qed (simp_all add: check_retrieve_def json_kwargs_def has_key_def EVENT_TYPE_CONFIG_def event_type_config_def years_1970)

lemma crowded_points:
  "series_points (mem_rows (cdb (ar_cass crowded_archive)) RawCF) (base_path ''failures'' ''0CB1'') 0 1000 =
    map (\<lambda>i. (i, JNull)) [0..1000]"
proof -
  have "in_range (0 * 1000) (1000 * 1000) crowded_row = crowded_row"
    by (auto simp: in_range_def crowded_row_def intro!: filter_True)
  then have "range_cols (mem_rows (cdb (ar_cass crowded_archive)) RawCF)
      (year_keys (base_path ''failures'' ''0CB1'') None 0 1000) (0 * 1000) (1000 * 1000) = crowded_row"
    unfolding range_cols_years [OF years_1970(3)] years_1970 crowded_rows by (simp add: crowded_key_def)
  then show ?thesis by (simp add: series_points_def crowded_row_def col_json_def)
qed

definition crowded_node :: node_info where
  "crowded_node = new_node (JObj [(''base-uri'', JStr ''/base'')]) ''http://host''
     (new_filters\<lparr>af_time := [(''time-start'', JInt 0), (''time-end'', JInt 1000)]\<rparr>)"

definition crowded_http :: http_get where
  "crowded_http u p h = series_http mem_store limit_pages (\<lambda>k. ''/'' @ k) 2000 Inl json_kwargs crowded_archive p"

lemma crowded_asks: "dict_wf (af_time (ni_filters crowded_node))"
  "map_of (af_time (ni_filters crowded_node)) ''time-start'' = Some (JInt 0)"
  "map_of (af_time (ni_filters crowded_node)) ''time-end'' = Some (JInt 1000)"
  "map_of (af_time (ni_filters crowded_node)) ''time'' = None"
  "map_of (af_time (ni_filters crowded_node)) ''offset'' = None"
  by (simp_all add: crowded_node_def new_node_def new_filters_def)

theorem client_reads_window_witness:
  "\<exists>out. query_with_limit crowded_http ''/base'' crowded_node = Some (Inr (map point_json out)) \<and>
    (out = map (\<lambda>i. (i, JNull)) [0..1000] \<or>
     (\<exists>v. map (\<lambda>i. (i, JNull)) [0..1000] = out @ [(1000, v)] \<and> out \<noteq> [] \<and> fst (last out) = 1000 - 1))"
  using client_reads_window [where sent = mem_rows and ar = crowded_archive and http = crowded_http and uri = "''/base''"
      and url_path = "\<lambda>k. ''/'' @ k" and now = 2000 and fail = Inl, OF mem.batched_store_axioms crowded.raw crowded.in_place crowded.pages crowded.url
      crowded.no_window crowded.json_type years_1970(3,4) _ _ crowded_asks]
  unfolding crowded_points by (simp add: fun_eq_iff crowded_http_def)

text \<open>
  The loop drops a stored point: of a series with one point a second from 0 to 1000, asked
  for with time-start 0 and time-end 1000, the client returns the points up to 999 only. The
  first page is full and ends at 999, and the loop stops because the next time-start, 1000, is
  not before time-end, although the server's windows include their end.
\<close>

theorem client_drops_end_point:
  "query_with_limit crowded_http ''/base'' crowded_node = Some (Inr (map (\<lambda>i. point_json (i, JNull)) [0..999])) \<and>
   series_points (mem_rows (cdb (ar_cass crowded_archive)) RawCF) (base_path ''failures'' ''0CB1'') 0 1000 =
     map (\<lambda>i. (i, JNull)) [0..1000]"
proof -
  have split: "[0..1000] = [0..999] @ [1000::int]" using upto_rec2 [of 0 "1000::int"] by simp
  have "window 0 1000 (map (\<lambda>i. (i, JNull)) [0..1000]) = map (\<lambda>i. (i, JNull)) [0..1000]"
    by (auto simp: window_def intro!: filter_True)
  then have "window 0 1000 (map (\<lambda>i. (i, JNull)) [0..1000]) = map (\<lambda>i. (i, JNull)) [0..999] @ [(1000, JNull)]"
    unfolding split by simp
  moreover have "fst (last (map (\<lambda>i. (i, JNull)) [0..999::int])) = 1000 - 1"
    by (simp add: last_map) (simp add: upto_rec2 [of 0 "999::int"])
  ultimately show ?thesis
    using crowded.reader.end_point_dropped [OF asks_limit [OF crowded_asks], of "map (\<lambda>i. (i, JNull)) [0..999]" JNull]
    unfolding crowded_points query_with_limit_def by (simp add: crowded_http_def LIMIT_def o_def)
qed

end
