(* ===== verification/Client_Listing.thy ===== *)
theory Client_Listing
  imports Client_Pages
begin

section \<open>The client's listing of metadata\<close>

text \<open>
  \<open>ApiConnect.get_metadata\<close> returns for every server, since its offset grows by the length of the
  first page, which is not empty when the total is larger. Against a server that pages its
  records the way \<open>PSMetadataPaginator\<close> does it yields every record once, in order. The last part
  is about the filters and the data points.
\<close>

lemma metadata_pages_return:
  assumes "0 < step"
  shows "\<exists>r. metadata_pages get pep479 step m_total offset data = Some r"
proof (induction "nat (m_total - offset)" arbitrary: offset data rule: less_induct)
  case less
  show ?case
  proof (cases "offset < m_total")
    case True
    then have "nat (m_total - (offset + step)) < nat (m_total - offset)" using assms by simp
    then have "\<exists>r. metadata_pages get pep479 step m_total (offset + step) d = Some r" for d by (rule less.hyps)
    then show ?thesis
      by (subst metadata_pages.simps) (auto split: sum.splits)
  qed (subst metadata_pages.simps, simp)
qed

text \<open>
  Listing metadata ends: whatever the server answers, and however it changes between the
  requests, \<open>get_metadata\<close> returns, with records or with an exception.
\<close>

theorem get_metadata_returns: "\<exists>r. api_get_metadata http pep479 c = Some r"
proof -
  have "\<exists>r. metadata_pages get pep479 (int (length data)) m_total (int (length data)) data = Some r"
    if "total_of data = Inr m_total" for get data m_total
  proof (cases data)
    case Nil
    then have "m_total = 0" using that by (simp add: total_of_def)
    then show ?thesis using Nil by (subst metadata_pages.simps) simp
  next
    case (Cons d ds)
    then show ?thesis by (intro metadata_pages_return) simp
  qed
  then have "\<exists>r. metadata_list http pep479 c = Some r"
    by (auto simp: metadata_list_def res_simps split: sum.splits bool.splits)
  then show ?thesis by (auto simp: api_get_metadata_def)
qed

subsection \<open>Every record, once\<close>

text \<open>The page of a list of records at an offset, with the total in its first record.\<close>

definition listing :: "nat \<Rightarrow> (int \<Rightarrow> string option) \<Rightarrow> (int \<Rightarrow> string option) \<Rightarrow> json dict list \<Rightarrow> int \<Rightarrow> json list" where
  "listing psize nxt prv recs offset =
     map JObj (fst (metadata_page (int (length recs)) (nxt offset) (prv offset) (take psize (drop (nat offset) recs))))"

definition PAGE_KEYS :: "string list" where
  "PAGE_KEYS = [''metadata-count-total'', ''metadata-previous-page'', ''metadata-next-page'']"

definition strip_page :: "json \<Rightarrow> json" where
  "strip_page j = (case j of JObj d \<Rightarrow> JObj (filter (\<lambda>kv. fst kv \<notin> set PAGE_KEYS) d) | _ \<Rightarrow> j)"

lemma page_keys: "''metadata-count-total'' \<in> set PAGE_KEYS" "''metadata-previous-page'' \<in> set PAGE_KEYS"
  "''metadata-next-page'' \<in> set PAGE_KEYS"
  by (simp_all add: PAGE_KEYS_def)

lemma filter_page_keys:
  "k \<in> set PAGE_KEYS \<Longrightarrow> filter (\<lambda>kv. fst kv \<notin> set PAGE_KEYS) (AList.update k v d) = filter (\<lambda>kv. fst kv \<notin> set PAGE_KEYS) d"
  by (induction d) auto

lemma strip_listing:
  "map strip_page (listing psize nxt prv recs offset) = map (strip_page \<circ> JObj) (take psize (drop (nat offset) recs))"
proof (cases "take psize (drop (nat offset) recs)")
  case Nil
  then show ?thesis unfolding listing_def metadata_page_def Nil by simp
next
  case (Cons d ds)
  have "strip_page (JObj (AList.update ''metadata-next-page'' x (AList.update ''metadata-previous-page'' y
      (AList.update ''metadata-count-total'' z d)))) = strip_page (JObj d)" for x y z
    by (simp add: strip_page_def filter_page_keys page_keys)
  then show ?thesis by (simp add: listing_def metadata_page_def Cons)
qed

lemma length_listing: "length (listing psize nxt prv recs offset) = min psize (length recs - nat offset)"
  by (simp add: listing_def metadata_page_def split: list.splits)
     (metis length_Cons length_drop length_take list.size(3) min.commute)

lemma listing_pages:
  assumes "0 < psize" and "\<And>off. get off = Inr (ok_reply (hs off) (listing psize nxt prv recs off))"
  shows "map strip_page data = map (strip_page \<circ> JObj) (take offset recs) \<Longrightarrow>
    \<exists>out. metadata_pages get pep479 (int psize) (int (length recs)) (int offset) data = Some (Inr out) \<and>
      map strip_page out = map (strip_page \<circ> JObj) recs"
proof (induction "length recs - offset" arbitrary: offset data rule: less_induct)
  case less
  show ?case
  proof (cases "offset < length recs")
    case True
    let ?page = "listing psize nxt prv recs (int offset)"
    have "take (offset + psize) recs = take offset recs @ take psize (drop offset recs)" by (rule take_add)
    then have "map strip_page (data @ ?page) = map (strip_page \<circ> JObj) (take (offset + psize) recs)"
      using less.prems by (simp add: strip_listing)
    moreover have "length recs - (offset + psize) < length recs - offset" using assms(1) True by linarith
    ultimately obtain out
      where "metadata_pages get pep479 (int psize) (int (length recs)) (int offset + int psize) (data @ ?page) = Some (Inr out)"
        and "map strip_page out = map (strip_page \<circ> JObj) recs"
      using less.hyps [of "offset + psize" "data @ ?page"] by auto
    then show ?thesis
      using True by (subst metadata_pages.simps) (simp add: assms(2) ok_reply_def reply_json_def)
  qed (use less.prems in \<open>subst metadata_pages.simps, simp\<close>)
qed

text \<open>
  C39. The client lists every record: against a server that answers an offset with that page of
  its records, \<open>get_metadata\<close> yields all of them, each once and in order, whatever their number and
  the psize of a page. Only the keys the paginator adds to the first record of a page differ.
\<close>

theorem get_metadata_complete:
  assumes "0 < psize"
    and "http (archive_url c) (query_params c) (ac_headers c) = Inr (ok_reply hs (listing psize nxt prv recs 0))"
    and "\<And>off. http (archive_url c) (offset_params c off) (ac_headers c) = Inr (ok_reply (hs' off) (listing psize nxt prv recs off))"
  shows "\<exists>nodes. api_get_metadata http pep479 c = Some (Inr nodes) \<and>
    map (strip_page \<circ> ni_data) nodes = map (strip_page \<circ> JObj) recs"
proof -
  let ?first = "listing psize nxt prv recs 0"
  have total: "total_of ?first = Inr (int (length recs))"
  proof (cases recs)
    case Nil
    then show ?thesis by (simp add: listing_def metadata_page_def total_of_def)
  next
    case (Cons d ds)
    then obtain n where "psize = Suc n" using assms(1) gr0_conv_Suc by blast
    then show ?thesis using Cons
      by (simp add: listing_def metadata_page_def total_of_def json_get_def)
  qed
  have first: "map strip_page ?first = map (strip_page \<circ> JObj) (take (length ?first) recs)"
    by (simp add: strip_listing length_listing min_def)
  let ?get = "\<lambda>off. http (archive_url c) (offset_params c off) (ac_headers c)"
  have "\<exists>out. metadata_pages ?get pep479 (int (length ?first)) (int (length recs)) (int (length ?first)) ?first = Some (Inr out) \<and>
      map strip_page out = map (strip_page \<circ> JObj) recs"
  proof (cases "length recs \<le> psize")
    case True
    then show ?thesis using first by (subst metadata_pages.simps) (simp add: length_listing)
  next
    case False
    then have "length ?first = psize" by (simp add: length_listing)
    then show ?thesis using listing_pages [of psize ?get, OF assms(1,3) first] by simp
  qed
  then obtain out where "metadata_list http pep479 c = Some (Inr out)" "map strip_page out = map (strip_page \<circ> JObj) recs"
    using total by (auto simp: metadata_list_def assms(2))
  then show ?thesis by (auto simp: api_get_metadata_def new_node_def o_def)
qed

text \<open>A server of three records, two on a page.\<close>

definition three_records :: "json dict list" where
  "three_records = map (\<lambda>k. [(''metadata-key'', JStr k)]) [''a'', ''b'', ''c'']"

definition listing_http :: http_get where
  "listing_http u p h = Inr (ok_reply [] (listing 2 (\<lambda>_. None) (\<lambda>_. None) three_records
     (case map_of p ''offset'' of Some (JInt n) \<Rightarrow> n | _ \<Rightarrow> 0)))"

definition plain_connection :: api_connect where
  "plain_connection = new_connection ''http://host/'' new_filters [] [] ''esmond''"

theorem get_metadata_complete_witness:
  "\<exists>nodes. api_get_metadata listing_http True plain_connection = Some (Inr nodes) \<and>
    map (strip_page \<circ> ni_data) nodes = map (strip_page \<circ> JObj) three_records"
  by (rule get_metadata_complete [where psize = 2])
     (simp_all add: listing_http_def plain_connection_def new_connection_def new_filters_def query_params_def
        offset_params_def dict_with_def)

subsection \<open>Data points\<close>

text \<open>
  The time of a data point is the one the server sent, up to the latest the client can
  show: a point with an integer \<open>ts\<close> is given a datetime whose epoch is \<open>ts\<close>, or \<open>MAX_EPOCH\<close> if it is
  later, whenever it can be made at all.
\<close>

theorem ts_epoch_clamped:
  assumes "new_point dflt (JObj d) = Inr p" and "map_of d ''ts'' = Some (JInt n)"
  shows "ts_epoch p = min n MAX_EPOCH"
proof (cases "MAX_EPOCH < n")
  case True
  then have "dp_ts p = MAX_DATETIME"
    using assms by (auto simp: new_point_def json_get_def convert_to_datetime_def res_simps)
  then show ?thesis using True by (simp add: ts_epoch_def MAX_EPOCH_def)
next
  case False
  then have "dp_ts p = dt_of_secs n"
    using assms by (auto simp: new_point_def json_get_def convert_to_datetime_def dt_of_timestamp_def res_simps split: if_splits)
  then show ?thesis using False by (simp add: ts_epoch_def min_def)
qed

theorem ts_epoch_clamped_witness:
  "\<exists>p. new_point JNull (JObj (ts_val_dict 300000000000 JNull)) = Inr p \<and> ts_epoch p = min 300000000000 MAX_EPOCH"
proof -
  have "new_point JNull (JObj (ts_val_dict 300000000000 JNull)) = Inr \<lparr>dp_ts = MAX_DATETIME, dp_val = JNull\<rparr>"
    by (simp add: new_point_def json_get_def convert_to_datetime_def ts_val_dict_def MAX_EPOCH_def MAX_DATETIME_def timegm_def)
  then show ?thesis using ts_epoch_clamped [of JNull _ _ 300000000000] by (simp add: ts_val_dict_def)
qed

end
