(* ===== verification/Client_Post.thy ===== *)
theory Client_Post
  imports Client_Query
begin

section \<open>The POST clients\<close>

text \<open>
  \<open>esmond/api/client/perfsonar/post.py\<close>: building a metadata record, posting the points of one
  event type, and collecting the points of many event types into one bulk PUT. A server is an
  argument: a function of the method, the URL, the headers, the body and its own state, which
  answers with a status and a body, or cannot be reached. \<open>requests\<close> may raise other exceptions,
  which pass through the code. A client keeps the warnings it has given.
\<close>

subsection \<open>PostBase\<close>

record post_base =
  pb_api_url :: string
  pb_username :: string
  pb_api_key :: string
  pb_schema_root :: string
  pb_headers :: "string dict"
  pb_warnings :: "string list"

text \<open>Stripping the right end is overwritten by stripping the left end of the argument.\<close>

definition schema_root :: "string \<Rightarrow> string" where
  "schema_root script_alias =
     (let root = PS_ROOT @ ''/archive''; a = lstrip_slash script_alias in
      if a = [] then root else a @ ''/'' @ root)"

definition new_post_base :: "string \<Rightarrow> string \<Rightarrow> string \<Rightarrow> string \<Rightarrow> post_base" where
  "new_post_base api_url username api_key script_alias =
     \<lparr>pb_api_url = rstrip_slash api_url, pb_username = username, pb_api_key = api_key,
      pb_schema_root = schema_root script_alias,
      pb_headers = auth_headers username api_key [(''content-type'', ''application/json'')],
      pb_warnings = (if username \<noteq> [] \<and> api_key \<noteq> [] then [] else [''username and api_key not set''])\<rparr>"

definition warn :: "string \<Rightarrow> post_base \<Rightarrow> post_base" where
  "warn msg b = b\<lparr>pb_warnings := pb_warnings b @ [msg]\<rparr>"

datatype outcome = Unreachable string | Raised exn | Reply int string "json option"

type_synonym 's server = "string \<Rightarrow> string \<Rightarrow> string dict \<Rightarrow> json \<Rightarrow> 's \<Rightarrow> outcome \<times> 's"

text \<open>One request: \<open>ex\<close> raises for an unreachable server and for any status but 201.\<close>

definition send_json :: "'s server \<Rightarrow> string \<Rightarrow> string \<Rightarrow> post_base \<Rightarrow> json \<Rightarrow> 's \<Rightarrow> json option res \<times> 's" where
  "send_json server verb url b body s =
     (case server verb url (pb_headers b) body s of
        (Unreachable msg, s') \<Rightarrow> (Inl (PostException (''POST connection error: '' @ msg)), s')
      | (Raised e, s') \<Rightarrow> (Inl e, s')
      | (Reply status content j, s') \<Rightarrow>
          if status \<noteq> 201 then
            (Inl (PostException (''POST error: status_code: '' @ show_int status @ '', message: '' @ content)), s')
          else (Inr j, s'))"

subsection \<open>MetadataPost\<close>

definition required_args :: "string list" where
  "required_args = [''subject_type'', ''source'', ''destination'', ''tool_name'', ''measurement_agent'',
     ''input_source'', ''input_destination'']"

definition optional_args :: "string list" where
  "optional_args = [''time_duration'', ''ip_transport_protocol'']"

definition redash :: "string \<Rightarrow> string" where
  "redash val = replace_char CHR ''_'' ''-'' val"

record metadata_post =
  mp_base :: post_base
  mp_args :: "json dict"
  mp_payload :: "json dict"

text \<open>The keyword arguments are a dictionary; one that is not given is None.\<close>

definition new_metadata_post :: "string \<Rightarrow> string \<Rightarrow> string \<Rightarrow> string \<Rightarrow> json dict \<Rightarrow> metadata_post" where
  "new_metadata_post api_url username api_key script_alias args =
     (let attrs = map (\<lambda>a. (a, get_or_none args a)) (required_args @ optional_args) in
      \<lparr>mp_base = new_post_base api_url username api_key script_alias, mp_args = attrs,
       mp_payload = map (\<lambda>(a, v). (redash a, v)) attrs @ [(''event-types'', JList [])]\<rparr>)"

text \<open>The event types of the payload; a freeform value may have taken their place.\<close>

definition payload_event_types :: "json dict \<Rightarrow> json list res" where
  "payload_event_types payload = (case map_of payload ''event-types'' of
     None \<Rightarrow> Inl KeyError
   | Some (JList xs) \<Rightarrow> Inr xs
   | Some (JStr _) \<Rightarrow> Inl AttributeError
   | Some (JObj _) \<Rightarrow> Inl AttributeError
   | Some _ \<Rightarrow> Inl TypeError)"

definition set_event_types :: "json list \<Rightarrow> metadata_post \<Rightarrow> metadata_post" where
  "set_event_types xs p = p\<lparr>mp_payload := AList.update ''event-types'' (JList xs) (mp_payload p)\<rparr>"

definition is_event_type :: "string \<Rightarrow> json \<Rightarrow> bool res" where
  "is_event_type etype entry = rbind (json_get entry ''event-type'' JNull) (\<lambda>v. Inr (v = JStr etype))"

definition already_exists :: "string \<Rightarrow> string" where
  "already_exists etype = ''Event type '' @ etype @ '' already exists - skipping''"

text \<open>A known event type is warned about, and added again.\<close>

definition post_add_event_type :: "string \<Rightarrow> metadata_post \<Rightarrow> metadata_post res" where
  "post_add_event_type etype p =
     rbind (payload_event_types (mp_payload p)) (\<lambda>xs.
     rbind (rmap (is_event_type etype) xs) (\<lambda>known.
     let b = fold (\<lambda>k b. if k then warn (already_exists etype) b else b) known (mp_base p) in
     Inr (set_event_types (xs @ [JObj [(''event-type'', JStr etype), (''summaries'', JList [])]]) (p\<lparr>mp_base := b\<rparr>))))"

definition summary_def_entry :: "string \<Rightarrow> json \<Rightarrow> json" where
  "summary_def_entry stype window = JObj [(''summary-type'', JStr stype), (''summary-window'', window)]"

text \<open>The summaries of other types, which are kept.\<close>

fun other_summaries :: "string \<Rightarrow> json list \<Rightarrow> json list res" where
  "other_summaries stype [] = Inr []"
| "other_summaries stype (s # ss) =
     rbind (py_getitem s ''summary-type'') (\<lambda>t. rbind (other_summaries stype ss) (\<lambda>rest.
       Inr (if t = JStr stype then rest else s # rest)))"

text \<open>The first entry of the event type gets the summaries; without one, a new entry does.\<close>

fun put_summaries :: "string \<Rightarrow> string \<Rightarrow> json list \<Rightarrow> json list \<Rightarrow> json list res" where
  "put_summaries etype stype new [] = Inr [JObj [(''event-type'', JStr etype), (''summaries'', JList new)]]"
| "put_summaries etype stype new (x # xs) =
     rbind (is_event_type etype x) (\<lambda>b.
     if b then rbind (rbind (py_getitem x ''summaries'') py_iter) (\<lambda>ss. rbind (other_summaries stype ss) (\<lambda>old.
       (case x of JObj d \<Rightarrow> Inr (JObj (AList.update ''summaries'' (JList (new @ old)) d) # xs) | _ \<Rightarrow> Inl TypeError)))
     else rbind (put_summaries etype stype new xs) (\<lambda>r. Inr (x # r)))"

definition check_window :: "json \<Rightarrow> unit res" where
  "check_window w = catch_value_error (PostException (''Invalid summary window int: '' @ shown w)) (rbind (py_int w) (\<lambda>_. Inr ()))"

definition add_summary_type :: "string \<Rightarrow> string \<Rightarrow> json list \<Rightarrow> metadata_post \<Rightarrow> metadata_post res" where
  "add_summary_type etype stype windows p =
     (if windows = [] then Inr (p\<lparr>mp_base := warn ''No summary windows were defined - skipping'' (mp_base p)\<rparr>)
      else rbind (rmap check_window windows) (\<lambda>_.
        rbind (payload_event_types (mp_payload p)) (\<lambda>xs.
        rbind (put_summaries etype stype (map (summary_def_entry stype) windows) xs) (\<lambda>ys.
        Inr (set_event_types ys p)))))"

definition add_freeform_key_value :: "string \<Rightarrow> json \<Rightarrow> metadata_post \<Rightarrow> metadata_post" where
  "add_freeform_key_value k v p =
     (if \<not> py_truthy (get_or_none (mp_payload p) k) then p\<lparr>mp_payload := AList.update k v (mp_payload p)\<rparr>
      else p\<lparr>mp_base := warn (''Payload key '' @ k @ '' exists - skipping'') (mp_base p)\<rparr>)"

text \<open>\<open>_validate\<close>: it deletes the optional keys whose argument was not given.\<close>

definition validate_metadata :: "metadata_post \<Rightarrow> metadata_post res" where
  "validate_metadata p =
     (case filter (\<lambda>a. \<not> py_truthy (get_or_none (mp_args p) a)) required_args of
        a # _ \<Rightarrow> Inl (PostException (''Reqired arg '' @ a @ '' not set''))
      | [] \<Rightarrow> Inr (p\<lparr>mp_payload := fold (\<lambda>a d. if py_truthy (get_or_none (mp_args p) a) then d else AList.delete (redash a) d)
                optional_args (mp_payload p)\<rparr>))"

definition post_metadata :: "'s server \<Rightarrow> metadata_post \<Rightarrow> 's \<Rightarrow> node_info res \<times> metadata_post \<times> 's" where
  "post_metadata server p s =
     (let b = mp_base p; url = pb_api_url b @ ''/'' @ pb_schema_root b @ ''/'' in
      case validate_metadata p of
        Inl e \<Rightarrow> (Inl e, p, s)
      | Inr p' \<Rightarrow>
         (case send_json server ''POST'' url b (JObj (mp_payload p')) s of
            (Inl e, s') \<Rightarrow> (Inl e, p', s')
          | (Inr None, s') \<Rightarrow> (Inl ValueError, p', s')
          | (Inr (Some j), s') \<Rightarrow>
              (let f = (if pb_username b \<noteq> [] \<and> pb_api_key b \<noteq> []
                        then new_filters\<lparr>af_username := pb_username b, af_apikey := pb_api_key b\<rparr> else new_filters) in
               (Inr (new_node j (pb_api_url b) f), p', s'))))"

subsection \<open>EventTypePost\<close>

record event_type_post =
  ep_base :: post_base
  ep_metadata_key :: string
  ep_event_type :: string
  ep_payload :: "(json \<times> json) list"

definition new_event_type_post :: "string \<Rightarrow> string \<Rightarrow> string \<Rightarrow> string \<Rightarrow> string \<Rightarrow> string \<Rightarrow> event_type_post res" where
  "new_event_type_post api_url username api_key script_alias metadata_key event_type =
     (if metadata_key = [] \<or> event_type = [] then Inl (PostException ''Must set metadata_key and event_type args'')
      else Inr \<lparr>ep_base = new_post_base api_url username api_key script_alias, ep_metadata_key = metadata_key,
                ep_event_type = event_type, ep_payload = []\<rparr>)"

text \<open>\<open>isinstance(ts, int)\<close>, which holds for a Boolean too, and the integer it is equal to.\<close>

definition int_value :: "json \<Rightarrow> int option" where
  "int_value ts = (case ts of JInt n \<Rightarrow> Some n | JBool b \<Rightarrow> Some (of_bool b) | _ \<Rightarrow> None)"

definition post_add_data_point :: "json \<Rightarrow> json \<Rightarrow> event_type_post \<Rightarrow> event_type_post res" where
  "post_add_data_point ts v p =
     (if int_value ts = None then Inl (PostException ''ts arg must be an integer'')
      else Inr (p\<lparr>ep_payload := ep_payload p @ [(ts, v)]\<rparr>))"

fun post_points :: "'s server \<Rightarrow> string \<Rightarrow> post_base \<Rightarrow> (json \<times> json) list \<Rightarrow> 's \<Rightarrow> exn option \<times> 's" where
  "post_points server url b [] s = (None, s)"
| "post_points server url b ((ts, v) # ps) s =
     (case send_json server ''POST'' url b (JObj [(''ts'', ts), (''val'', v)]) s of
        (Inl e, s') \<Rightarrow> (Some e, s')
      | (Inr _, s') \<Rightarrow> post_points server url b ps s')"

definition post_data :: "'s server \<Rightarrow> event_type_post \<Rightarrow> 's \<Rightarrow> exn option \<times> 's" where
  "post_data server p s =
     (let b = ep_base p;
          url = pb_api_url b @ ''/'' @ pb_schema_root b @ ''/'' @ ep_metadata_key p @ ''/'' @ ep_event_type p @ ''/base'' in
      post_points server url b (ep_payload p) s)"

subsection \<open>EventTypeBulkPost\<close>

type_synonym bulk_entry = "json \<times> (string \<times> json) list"

record bulk_post =
  bp_base :: post_base
  bp_metadata_key :: string
  bp_data :: "bulk_entry list"

definition new_bulk_post :: "string \<Rightarrow> string \<Rightarrow> string \<Rightarrow> string \<Rightarrow> string \<Rightarrow> bulk_post res" where
  "new_bulk_post api_url username api_key script_alias metadata_key =
     (if metadata_key = [] then Inl (PostException ''Must set metadata_key'')
      else Inr \<lparr>bp_base = new_post_base api_url username api_key script_alias, bp_metadata_key = metadata_key, bp_data = []\<rparr>)"

text \<open>The position of the entry of a time, the last one if there are several, or a new one.\<close>

definition get_ts_payload_entry :: "json \<Rightarrow> bulk_entry list \<Rightarrow> nat \<times> bulk_entry list" where
  "get_ts_payload_entry ts entries =
     (case filter (\<lambda>i. int_value (fst (entries ! i)) = int_value ts) [0..<length entries] of
        [] \<Rightarrow> (length entries, entries @ [(ts, [])])
      | i # is \<Rightarrow> (last (i # is), entries))"

definition bulk_add_data_point :: "string \<Rightarrow> json \<Rightarrow> json \<Rightarrow> bulk_post \<Rightarrow> bulk_post res" where
  "bulk_add_data_point event_type ts v p =
     (if int_value ts = None then Inl (PostException ''ts arg must be an integer'')
      else (case get_ts_payload_entry ts (bp_data p) of (i, entries) \<Rightarrow>
        Inr (p\<lparr>bp_data := entries[i := (fst (entries ! i), snd (entries ! i) @ [(event_type, v)])]\<rparr>)))"

definition entry_json :: "bulk_entry \<Rightarrow> json" where
  "entry_json e = JObj [(''ts'', fst e),
     (''val'', JList (map (\<lambda>(et, v). JObj [(''event-type'', JStr et), (''val'', v)]) (snd e)))]"

definition bulk_payload :: "bulk_post \<Rightarrow> json" where
  "bulk_payload p = JObj [(''data'', JList (map entry_json (bp_data p)))]"

definition bulk_post_data :: "'s server \<Rightarrow> bulk_post \<Rightarrow> 's \<Rightarrow> exn option \<times> 's" where
  "bulk_post_data server p s =
     (let b = bp_base p; url = pb_api_url b @ ''/'' @ pb_schema_root b @ ''/'' @ bp_metadata_key p @ ''/'' in
      case send_json server ''PUT'' url b (bulk_payload p) s of
        (Inl e, s') \<Rightarrow> (Some e, s') | (Inr _, s') \<Rightarrow> (None, s'))"

end
