(* ===== verification/Archive_Metadata_Facts.thy ===== *)
theory Archive_Metadata_Facts
  imports Archive_Metadata "HOL-Library.Multiset"
begin

section \<open>What a metadata record is\<close>

text \<open>
  The properties of \<open>Archive_Metadata\<close>: the event types a POST accepts are well-formed, its
  checksum does not depend on the order of the request, posting again changes nothing, and a
  new record is found by the searches that describe it. Three theorems are about what the
  code does not mean: different records with one checksum, a record that stays after its
  creation failed, and a parameter that breaks the representation.
\<close>

subsection \<open>Sorting\<close>

lemma sort_by_key:
  assumes "\<And>a b. lt a b \<longleftrightarrow> f a < (f b :: 'b :: linorder)"
  shows "sort_by lt xs = sort_key f xs"
proof -
  have "insert_by lt x ys = insort_key f x ys" for x ys
    by (induction ys) (auto simp: assms)
  then show ?thesis by (induction xs) (simp_all add: sort_by_def)
qed

lemma sort_pairs_perm:
  assumes "mset xs = mset ys" and "distinct (map fst xs)"
  shows "sort_by key_less xs = sort_by key_less ys"
proof -
  have k: "sort_by key_less zs = sort_key fst zs" for zs
    by (rule sort_by_key) (simp add: key_less_def)
  have "mset xs = mset (sort_key fst ys)" using assms(1) by simp
  moreover have "inj_on fst (set xs)" using assms(2) by (simp add: distinct_map)
  ultimately show ?thesis unfolding k by (rule sort_key_inj_key_eq) simp
qed

subsection \<open>Accepted event types\<close>

definition spec_ok :: "event_type_spec \<Rightarrow> bool" where
  "spec_ok p = (case p of (et, s, w) \<Rightarrow> (case map_of EVENT_TYPE_CONFIG et of
     None \<Rightarrow> False
   | Some t \<Rightarrow> (s = ''base'' \<and> w = JStr ''0'') \<or>
       (s \<in> set (ALLOWED_SUMMARIES t) \<and> has_key s INVERSE_SUMMARY_TYPES \<and> (case py_int w of Inr _ \<Rightarrow> True | Inl _ \<Rightarrow> False))))"

lemma hashed_str_Some: "hashed_str v = Inr (Some s) \<longleftrightarrow> v = JStr s"
  by (auto simp: hashed_str_def split: json.splits)

lemma deserialize_summary_ok:
  assumes run: "deserialize_summary et t x = Inr ps" and "map_of EVENT_TYPE_CONFIG et = Some t" and "p \<in> set ps"
  shows "spec_ok p \<and> fst p = et"
proof -
  obtain v key where "required ''summary-type'' ''Summary must contain summary-type'' x = Inr v" "hashed_str v = Inr key"
    using run by (auto simp: deserialize_summary_def res_simps)
  note * = run [unfolded deserialize_summary_def this rbind_Inr]
  obtain s where key: "key = Some s" using * by (cases key) auto
  have s: "has_key s INVERSE_SUMMARY_TYPES" using * key by (simp split: if_splits)
  show ?thesis
  proof (cases "s = ''base''")
    case True
    then show ?thesis using * key s assms(3) by simp
  next
    case False
    then have "s \<in> set (ALLOWED_SUMMARIES t)" using * key s by (simp split: if_splits)
    moreover obtain w n where "py_int w = Inr n" "ps = [(et, s, w)]"
      using * key s False calculation by (auto simp: res_simps)
    ultimately show ?thesis using assms(2,3) s by (simp add: spec_ok_def)
  qed
qed

lemma deserialize_event_type_parts:
  assumes run: "deserialize_event_type x = Inr ps"
  shows "\<exists>et t ss. map_of EVENT_TYPE_CONFIG et = Some t \<and> ps = (et, ''base'', JStr ''0'') # concat ss \<and>
    (ss = [] \<or> (\<exists>xs. rmap (deserialize_summary et t) xs = Inr ss))"
proof -
  obtain v key where "required ''event-type'' ''No event-type defined'' x = Inr v" "hashed_str v = Inr key"
    using run by (auto simp: deserialize_event_type_def res_simps)
  note * = run [unfolded deserialize_event_type_def this rbind_Inr]
  obtain et where key: "key = Some et" using * by (cases key) auto
  obtain t where t: "map_of EVENT_TYPE_CONFIG et = Some t" using * key by (cases "map_of EVENT_TYPE_CONFIG et") auto
  obtain b where b: "py_contains ''summaries'' x = Inr b" using * key t by (auto simp: res_simps)
  show ?thesis
  proof (cases b)
    case True
    obtain xs ss where "rmap (deserialize_summary et t) xs = Inr ss" "ps = (et, ''base'', JStr ''0'') # concat ss"
      using * key t b True by (auto simp: res_simps)
    then show ?thesis using t by blast
  next
    case False
    then have "ps = (et, ''base'', JStr ''0'') # concat []" using * key t b by (simp add: res_simps)
    then show ?thesis using t by blast
  qed
qed

lemma deserialize_event_type_ok:
  assumes "deserialize_event_type x = Inr ps"
  shows "(\<forall>p \<in> set ps. spec_ok p) \<and> (\<exists>et. (\<forall>p \<in> set ps. fst p = et) \<and> (et, ''base'', JStr ''0'') \<in> set ps)"
proof -
  obtain et t ss where t: "map_of EVENT_TYPE_CONFIG et = Some t" and ps: "ps = (et, ''base'', JStr ''0'') # concat ss"
    and ss: "ss = [] \<or> (\<exists>xs. rmap (deserialize_summary et t) xs = Inr ss)"
    using deserialize_event_type_parts [OF assms] by blast
  have "spec_ok p \<and> fst p = et" if "p \<in> set (concat ss)" for p
  proof -
    from that obtain qs where qs: "qs \<in> set ss" "p \<in> set qs" by auto
    then obtain xs where "rmap (deserialize_summary et t) xs = Inr ss" using ss by auto
    then obtain x where "deserialize_summary et t x = Inr qs" using rmap_set [OF _ qs(1)] by blast
    then show ?thesis using deserialize_summary_ok t qs(2) by blast
  qed
  moreover have "spec_ok (et, ''base'', JStr ''0'')" using t by (simp add: spec_ok_def)
  ultimately show ?thesis unfolding ps by auto
qed

text \<open>
  The event types a request is accepted with are well-formed: each is configured, its
  base row has the window 0, and each summary is of a type allowed for the data type of the
  event type and has a window that converts to an integer. Every event type that has a
  summary also has its base row.
\<close>

theorem accepted_event_types:
  assumes "deserialize_event_types x = Inr ps"
  shows "list_all (\<lambda>p. spec_ok p \<and> (fst p, ''base'', JStr ''0'') \<in> set ps) ps"
proof -
  have "spec_ok p \<and> (fst p, ''base'', JStr ''0'') \<in> set ps" if p: "p \<in> set ps" for p
  proof (cases x)
    case (JList xs)
    then obtain ets where ets: "rmap deserialize_event_type xs = Inr ets" "ps = concat ets"
      using assms by (auto simp: deserialize_event_types_def res_simps)
    then obtain qs where qs: "qs \<in> set ets" "p \<in> set qs" using p by auto
    obtain y where "deserialize_event_type y = Inr qs" using rmap_set [OF ets(1) qs(1)] by blast
    from deserialize_event_type_ok [OF this] show ?thesis using qs ets(2) by fastforce
  qed (use assms p in \<open>auto simp: deserialize_event_types_def\<close>)
  then show ?thesis by (simp add: list_all_iff)
qed

definition posted_event_types :: json where
  "posted_event_types = JList [JObj [(''event-type'', JStr ''throughput''),
     (''summaries'', JList [JObj [(''summary-type'', JStr ''average''), (''summary-window'', JInt 86400)]])]]"

lemma posted_event_types_accepted:
  "deserialize_event_types posted_event_types =
     Inr [(''throughput'', ''base'', JStr ''0''), (''throughput'', ''average'', JInt 86400)]"
  by (simp add: deserialize_event_types_def posted_event_types_def deserialize_event_type_def required_def has_key_def
      hashed_str_def EVENT_TYPE_CONFIG_def deserialize_summary_def INVERSE_SUMMARY_TYPES_eq)

theorem accepted_event_types_witness:
  "list_all (\<lambda>p. spec_ok p \<and> (fst p, ''base'', JStr ''0'') \<in> set [(''throughput'', ''base'', JStr ''0''), (''throughput'', ''average'', JInt 86400)])
     [(''throughput'', ''base'', JStr ''0''), (''throughput'', ''average'', JInt 86400)]"
  by (rule accepted_event_types [OF posted_event_types_accepted])

subsection \<open>The order of a request\<close>

definition is_subject :: "string \<Rightarrow> bool" where
  "is_subject k = (k \<noteq> ''subject-type'' \<and> k \<noteq> ''event-types'' \<and> has_key k SUBJECT_FILTER_MAP)"

definition is_param :: "string \<Rightarrow> bool" where
  "is_param k = (k \<noteq> ''subject-type'' \<and> k \<noteq> ''event-types'' \<and> \<not> has_key k SUBJECT_FILTER_MAP)"

lemma read_keys_parts:
  "read_keys d v0 = Inr v \<Longrightarrow> va_subject_model v = va_subject_model v0 \<and>
     va_params v = va_params v0 @ filter (\<lambda>kx. is_param (fst kx)) d \<and>
     va_subject v = fold (\<lambda>(k, x). AList.update (subject_field (va_subject_model v0) k) x)
       (filter (\<lambda>kx. is_subject (fst kx)) d) (va_subject v0)"
proof (induction d v0 rule: read_keys.induct)
  case (2 k x d v0)
  from "2.prems" obtain v1 where head: "(if k = ''subject-type'' then
              (case x of JStr s \<Rightarrow> Inr (v0\<lparr>va_subject_type := s\<rparr>) | _ \<Rightarrow> Inl Unmodelled)
            else if k = ''event-types'' then
              rbind (deserialize_event_types x) (\<lambda>ets. Inr (v0\<lparr>va_event_types := ets\<rparr>))
            else if has_key k SUBJECT_FILTER_MAP then
              Inr (v0\<lparr>va_subject := AList.update (subject_field (va_subject_model v0) k) x (va_subject v0)\<rparr>)
            else Inr (v0\<lparr>va_params := va_params v0 @ [(k, x)]\<rparr>)) = Inr v1" (is "?h = _")
      and rest: "read_keys d v1 = Inr v"
    by (auto simp: rbind_eq_Inr simp del: rbind_Inr)
  have v1: "va_subject_model v1 = va_subject_model v0" "va_params v1 = va_params v0 @ filter (\<lambda>kx. is_param (fst kx)) [(k, x)]"
      "va_subject v1 = fold (\<lambda>(k, x). AList.update (subject_field (va_subject_model v0) k) x)
         (filter (\<lambda>kx. is_subject (fst kx)) [(k, x)]) (va_subject v0)"
    using head by (auto simp: res_simps is_param_def is_subject_def split: if_splits json.splits)
  from "2.IH" [OF head rest] show ?case using v1 by simp
qed simp

lemma read_keys_lookups:
  "read_keys d v0 = Inr v \<Longrightarrow> dict_wf d \<Longrightarrow>
     va_subject_type v = (case map_of d ''subject-type'' of Some (JStr s) \<Rightarrow> s | _ \<Rightarrow> va_subject_type v0) \<and>
     va_event_types v = (case map_of d ''event-types'' of
       Some x \<Rightarrow> (case deserialize_event_types x of Inr ets \<Rightarrow> ets | Inl _ \<Rightarrow> []) | None \<Rightarrow> va_event_types v0)"
proof (induction d v0 rule: read_keys.induct)
  case (2 k x d v0)
  from "2.prems"(1) obtain v1 where head: "(if k = ''subject-type'' then
              (case x of JStr s \<Rightarrow> Inr (v0\<lparr>va_subject_type := s\<rparr>) | _ \<Rightarrow> Inl Unmodelled)
            else if k = ''event-types'' then
              rbind (deserialize_event_types x) (\<lambda>ets. Inr (v0\<lparr>va_event_types := ets\<rparr>))
            else if has_key k SUBJECT_FILTER_MAP then
              Inr (v0\<lparr>va_subject := AList.update (subject_field (va_subject_model v0) k) x (va_subject v0)\<rparr>)
            else Inr (v0\<lparr>va_params := va_params v0 @ [(k, x)]\<rparr>)) = Inr v1"
      and rest: "read_keys d v1 = Inr v"
    by (auto simp: rbind_eq_Inr simp del: rbind_Inr)
  have absent: "map_of d k = None" and wf: "dict_wf d" using "2.prems"(2) by (auto simp: map_of_eq_None_iff)
  note IH = "2.IH" [OF head rest wf]
  consider s where "k = ''subject-type''" "va_subject_type v1 = s" "x = JStr s" "va_event_types v1 = va_event_types v0"
    | "k = ''event-types''" "deserialize_event_types x = Inr (va_event_types v1)" "va_subject_type v1 = va_subject_type v0"
    | "k \<noteq> ''subject-type''" "k \<noteq> ''event-types''" "va_subject_type v1 = va_subject_type v0" "va_event_types v1 = va_event_types v0"
    using head by (auto simp: res_simps split: if_splits json.splits)
  then show ?case
  proof cases
    case (1 s)
    then show ?thesis using IH [unfolded 1(4)] absent by simp
  next
    case 2
    then show ?thesis using IH [unfolded 2(3)] absent by simp
  next
    case 3
    then show ?thesis using IH [unfolded 3(3,4)] by simp
  qed
qed simp

lemma subject_field_table:
  "subject_field ''pspointtopointsubject'' ''source'' = ''source''"
  "subject_field ''pspointtopointsubject'' ''destination'' = ''destination''"
  "subject_field ''pspointtopointsubject'' ''tool-name'' = ''tool_name''"
  "subject_field ''pspointtopointsubject'' ''measurement-agent'' = ''measurement_agent''"
  "subject_field ''pspointtopointsubject'' ''input-source'' = ''input_source''"
  "subject_field ''pspointtopointsubject'' ''input-destination'' = ''input_destination''"
  "subject_field ''psnetworkelementsubject'' ''source'' = ''source''"
  "subject_field ''psnetworkelementsubject'' ''destination'' = []"
  "subject_field ''psnetworkelementsubject'' ''tool-name'' = ''tool_name''"
  "subject_field ''psnetworkelementsubject'' ''measurement-agent'' = ''measurement_agent''"
  "subject_field ''psnetworkelementsubject'' ''input-source'' = ''input_source''"
  "subject_field ''psnetworkelementsubject'' ''input-destination'' = []"
  by (simp_all add: subject_field_def SUBJECT_FILTER_MAP_def)

lemma subject_filter_keys: "has_key k SUBJECT_FILTER_MAP \<longleftrightarrow>
  k \<in> {''source'', ''destination'', ''tool-name'', ''measurement-agent'', ''input-source'', ''input-destination''}"
  by (simp add: has_key_def SUBJECT_FILTER_MAP_def)

text \<open>Distinct subject keys are distinct fields, but those that are no field of the subject.\<close>

lemma subject_fields_distinct:
  assumes "has_key k SUBJECT_FILTER_MAP" and "has_key k' SUBJECT_FILTER_MAP"
    and "model \<in> {''pspointtopointsubject'', ''psnetworkelementsubject''}"
    and "subject_field model k = subject_field model k'" and "subject_field model k \<noteq> []"
  shows "k = k'"
proof -
  have p2p: "\<forall>k \<in> K. \<forall>k' \<in> K. subject_field ''pspointtopointsubject'' k = subject_field ''pspointtopointsubject'' k' \<longrightarrow> k = k'"
    if "K = {''source'', ''destination'', ''tool-name'', ''measurement-agent'', ''input-source'', ''input-destination''}" for K
    unfolding that by (simp add: subject_field_table)
  have ne: "\<forall>k \<in> K. \<forall>k' \<in> K. subject_field ''psnetworkelementsubject'' k = subject_field ''psnetworkelementsubject'' k' \<longrightarrow>
      subject_field ''psnetworkelementsubject'' k \<noteq> [] \<longrightarrow> k = k'"
    if "K = {''source'', ''destination'', ''tool-name'', ''measurement-agent'', ''input-source'', ''input-destination''}" for K
    unfolding that by (simp add: subject_field_table)
  note ks = assms(1,2) [unfolded subject_filter_keys]
  from assms(3) consider "model = ''pspointtopointsubject''" | "model = ''psnetworkelementsubject''" by blast
  then show ?thesis
  proof cases
    case 1
    show ?thesis using p2p [OF refl, rule_format, OF ks] assms(4) unfolding 1 .
  next
    case 2
    show ?thesis using ne [OF refl, rule_format, OF ks] assms(4,5) unfolding 2 .
  qed
qed

lemma fold_update_fresh:
  "distinct (map (f \<circ> fst) xs) \<Longrightarrow> set (map fst d) \<inter> set (map (f \<circ> fst) xs) = {} \<Longrightarrow>
   fold (\<lambda>(k, x). AList.update (f k) x) xs d = d @ map (\<lambda>(k, x). (f k, x)) xs"
proof (induction xs arbitrary: d)
  case (Cons kx xs)
  obtain k x where kx: "kx = (k, x)" by (cases kx)
  have "f k \<notin> set (map fst d)" using Cons.prems(2) kx by auto
  then have "AList.update (f k) x d = d @ [(f k, x)]" by (rule update_new)
  then show ?case using Cons.IH [of "d @ [(f k, x)]"] Cons.prems kx by auto
qed simp

text \<open>The keys of the subject that belong to its type.\<close>

definition subject_keys_fit :: "string \<Rightarrow> json dict \<Rightarrow> bool" where
  "subject_keys_fit model d = list_all (\<lambda>kx. is_subject (fst kx) \<longrightarrow> subject_field model (fst kx) \<noteq> []) d"

lemma subject_of_request:
  assumes "read_keys d v0 = Inr v" and "va_subject v0 = []" and "dict_wf d" and "subject_keys_fit (va_subject_model v0) d"
    and "va_subject_model v0 \<in> {''pspointtopointsubject'', ''psnetworkelementsubject''}"
  shows "va_subject v = map (\<lambda>(k, x). (subject_field (va_subject_model v0) k, x)) (filter (\<lambda>kx. is_subject (fst kx)) d)"
    and "distinct (map fst (va_subject v))"
proof -
  let ?f = "subject_field (va_subject_model v0)" and ?xs = "filter (\<lambda>kx. is_subject (fst kx)) d"
  have ks: "distinct (map fst ?xs)" using assms(3) by (simp add: distinct_map_filter)
  have "inj_on ?f (set (map fst ?xs))"
    using subject_fields_distinct [OF _ _ assms(5)] assms(4)
    by (intro inj_onI) (auto simp: subject_keys_fit_def list_all_iff is_subject_def)
  then have "distinct (map ?f (map fst ?xs))" using ks by (simp only: distinct_map [of ?f "map fst ?xs"])
  then have dist: "distinct (map (?f \<circ> fst) ?xs)" by simp
  show eq: "va_subject v = map (\<lambda>(k, x). (?f k, x)) ?xs"
    using read_keys_parts [OF assms(1)] fold_update_fresh [OF dist, of "[]"] assms(2) by simp
  show "distinct (map fst (va_subject v))" unfolding eq using dist by (simp add: case_prod_beta o_def)
qed

definition subject_model_of :: "json dict \<Rightarrow> string option" where
  "subject_model_of d = (case map_of d ''subject-type'' of Some (JStr s) \<Rightarrow> map_of SUBJECT_MODEL_MAP s | _ \<Rightarrow> None)"

lemma to_internal_value_read:
  assumes run: "to_internal_value (JObj d) = Inr v"
  shows "\<exists>model. subject_model_of d = Some model \<and> read_keys d \<lparr>va_subject_type = [], va_subject_model = model,
    va_subject = [], va_params = [], va_event_types = []\<rparr> = Inr v"
proof -
  obtain st key where st: "py_getitem (JObj d) ''subject-type'' = Inr st" "hashed_str st = Inr key"
    using run by (auto simp: to_internal_value_def res_simps split: if_splits)
  show ?thesis
  proof (cases "case key of None \<Rightarrow> None | Some s \<Rightarrow> map_of SUBJECT_MODEL_MAP s")
    case None
    then show ?thesis using run st by (auto simp: to_internal_value_def res_simps split: if_splits)
  next
    case (Some model)
    then have "subject_model_of d = Some model"
      using st by (auto simp: subject_model_of_def hashed_str_Some split: option.splits)
    then show ?thesis using run st Some by (auto simp: to_internal_value_def res_simps split: if_splits)
  qed
qed

lemma subject_models: "map_of SUBJECT_MODEL_MAP s = Some model \<Longrightarrow> model \<in> {''pspointtopointsubject'', ''psnetworkelementsubject''}"
  by (auto simp: SUBJECT_MODEL_MAP_def split: if_splits)

text \<open>
  C29. The identity of a record does not depend on the order in which a request gives its
  keys: two accepted requests with the same keys and values, whose subject keys belong to the
  subject type, have the same checksum.
\<close>

theorem checksum_order_irrelevant:
  assumes "mset d = mset d'" and "dict_wf d"
    and "to_internal_value (JObj d) = Inr v" and "to_internal_value (JObj d') = Inr v'"
    and "subject_keys_fit (va_subject_model v) d"
  shows "calculate_checksum sha256 v = calculate_checksum sha256 v'"
proof -
  have set: "set d = set d'" using assms(1) by (rule mset_eq_setD)
  have wf': "dict_wf d'"
    using assms(1,2) by (metis mset_map mset_eq_imp_distinct_iff)
  have same: "map_of d k = map_of d' k" for k
    using map_of_eq_Some_iff [OF assms(2), of k] map_of_eq_Some_iff [OF wf', of k] set
    by (cases "map_of d k"; cases "map_of d' k") auto
  obtain m where m: "subject_model_of d = Some m" and read: "read_keys d \<lparr>va_subject_type = [], va_subject_model = m,
      va_subject = [], va_params = [], va_event_types = []\<rparr> = Inr v"
    using to_internal_value_read [OF assms(3)] by blast
  obtain m' where "subject_model_of d' = Some m'" and read': "read_keys d' \<lparr>va_subject_type = [], va_subject_model = m',
      va_subject = [], va_params = [], va_event_types = []\<rparr> = Inr v'"
    using to_internal_value_read [OF assms(4)] by blast
  then have m': "m' = m" using m same by (simp add: subject_model_of_def)
  have model: "m \<in> {''pspointtopointsubject'', ''psnetworkelementsubject''}"
    using m subject_models by (auto simp: subject_model_of_def split: option.splits json.splits)
  note parts = read_keys_parts [OF read, simplified] and parts' = read_keys_parts [OF read', unfolded m', simplified]
  have fit: "subject_keys_fit m d" using assms(5) parts by simp
  then have fit': "subject_keys_fit m d'" using set by (simp add: subject_keys_fit_def list_all_iff)
  note subj = subject_of_request [OF read _ assms(2) _ _, simplified, OF fit model [simplified]]
  note subj' = subject_of_request [OF read' [unfolded m'] _ wf' _ _, simplified, OF fit' model [simplified]]
  have filt: "mset (filter p d) = mset (filter p d')" for p using assms(1) by (simp add: mset_filter)
  have "mset (va_subject v) = mset (va_subject v')" unfolding subj(1) subj'(1) mset_map filt ..
  then have s: "sort_by key_less (va_subject v) = sort_by key_less (va_subject v')" by (rule sort_pairs_perm) (rule subj(2))
  have p: "sort_by key_less (va_params v) = sort_by key_less (va_params v')"
    using parts parts' by (intro sort_pairs_perm) (simp_all add: assms(1,2) distinct_map_filter)
  have t: "va_subject_type v = va_subject_type v'" "va_event_types v = va_event_types v'"
    using read_keys_lookups [OF read assms(2), unfolded validated.simps]
      read_keys_lookups [OF read' wf', unfolded validated.simps] same by simp_all
  show ?thesis unfolding calculate_checksum_def checksum_text_def s p t ..
qed

definition posted_metadata :: "json dict" where
  "posted_metadata = [(''subject-type'', JStr ''point-to-point''), (''source'', JStr ''10.0.0.1''),
     (''event-types'', posted_event_types), (''ip-packet-interval'', JInt 5)]"

lemmas request_eval = to_internal_value_def hashed_str_def SUBJECT_MODEL_MAP_def posted_metadata_def
  posted_event_types_accepted subject_filter_keys has_key_def [of "''subject-type''"] has_key_def [of "''event-types''"]
  has_key_def [of "''metadata-key''"] subject_field_table

lemma posted_metadata_valid:
  "to_internal_value (JObj posted_metadata) = Inr \<lparr>va_subject_type = ''point-to-point'', va_subject_model = ''pspointtopointsubject'',
     va_subject = [(''source'', JStr ''10.0.0.1'')], va_params = [(''ip-packet-interval'', JInt 5)],
     va_event_types = [(''throughput'', ''base'', JStr ''0''), (''throughput'', ''average'', JInt 86400)]\<rparr>"
  "to_internal_value (JObj (rev posted_metadata)) = Inr \<lparr>va_subject_type = ''point-to-point'', va_subject_model = ''pspointtopointsubject'',
     va_subject = [(''source'', JStr ''10.0.0.1'')], va_params = [(''ip-packet-interval'', JInt 5)],
     va_event_types = [(''throughput'', ''base'', JStr ''0''), (''throughput'', ''average'', JInt 86400)]\<rparr>"
  by (simp_all add: request_eval)

theorem checksum_order_irrelevant_witness:
  "\<exists>v v'. to_internal_value (JObj posted_metadata) = Inr v \<and> to_internal_value (JObj (rev posted_metadata)) = Inr v' \<and>
    calculate_checksum id v = calculate_checksum id v'"
proof -
  have "subject_keys_fit ''pspointtopointsubject'' posted_metadata"
    by (simp add: subject_keys_fit_def posted_metadata_def is_subject_def subject_filter_keys subject_field_table)
  then show ?thesis
    using checksum_order_irrelevant [OF _ _ posted_metadata_valid, of id] posted_metadata_valid
    by (simp add: posted_metadata_def)
qed

subsection \<open>Creating records\<close>

lemma store_event_types_metadata:
  "store_event_types D key ets tb = (r, tb') \<Longrightarrow> tb_metadata tb' = tb_metadata tb"
  by (induction D key ets tb arbitrary: r rule: store_event_types.induct) (auto split: sum.splits)

lemma store_params_identity:
  "store_params D ps md = (r, md') \<Longrightarrow> mr_key md' = mr_key md \<and> mr_checksum md' = mr_checksum md \<and>
     mr_subject_type md' = mr_subject_type md \<and> mr_subject md' = mr_subject md"
  by (induction D ps md arbitrary: r rule: store_params.induct) (auto split: sum.splits)

lemma set_md_last: "mr_key x \<notin> set (map mr_key rs) \<Longrightarrow> mr_key y = mr_key x \<Longrightarrow> set_md x (rs @ [y]) = rs @ [x]"
  by (induction rs) (auto simp: set_md_def)

lemma insert_metadata_rows:
  assumes run: "insert_metadata D c k v tb = (r, tb')" and fresh: "k \<notin> set (map mr_key (tb_metadata tb))"
  shows "\<exists>md. tb_metadata tb' = tb_metadata tb @ [md] \<and> mr_checksum md = c \<and> mr_key md = k \<and>
    (\<forall>md'. r = Inr md' \<longrightarrow> md' = md)"
proof -
  let ?md = "\<lparr>mr_key = k, mr_subject_type = va_subject_type v, mr_checksum = c, mr_subject = None, mr_params = []\<rparr>"
  show ?thesis
  proof (cases "dj_subject D (va_subject_model v) (va_subject v)")
    case (Inl e)
    then show ?thesis using run by (auto simp: insert_metadata_def Let_def)
  next
    case (Inr subject)
    let ?md2 = "?md\<lparr>mr_subject := Some (va_subject_model v, subject)\<rparr>"
    let ?tb2 = "tb\<lparr>tb_metadata := set_md ?md2 (tb_metadata tb @ [?md])\<rparr>"
    have tb2: "tb_metadata ?tb2 = tb_metadata tb @ [?md2]" using fresh set_md_last [of ?md2 "tb_metadata tb" ?md] by simp
    obtain r3 tb3 where ets: "store_event_types D k (sort_by spec_less (va_event_types v)) ?tb2 = (r3, tb3)" by fastforce
    have tb3: "tb_metadata tb3 = tb_metadata tb @ [?md2]" using store_event_types_metadata [OF ets] tb2 by simp
    obtain r4 md3 where ps: "store_params D (sort_by key_less (va_params v)) ?md2 = (r4, md3)" by fastforce
    show ?thesis
    proof (cases r3)
      case (Some e)
      then have "tb' = tb3" "r = Inl e" using run Inr ets by (simp_all add: insert_metadata_def Let_def)
      then show ?thesis using tb3 by simp
    next
      case None
      have "tb' = tb3\<lparr>tb_metadata := set_md md3 (tb_metadata tb3)\<rparr>" "r = (case r4 of Some e \<Rightarrow> Inl e | None \<Rightarrow> Inr md3)"
        using run Inr ets ps None by (simp_all add: insert_metadata_def Let_def)
      moreover have "set_md md3 (tb_metadata tb3) = tb_metadata tb @ [md3]"
        unfolding tb3 using store_params_identity [OF ps] fresh by (intro set_md_last) simp_all
      ultimately show ?thesis using store_params_identity [OF ps] by (auto split: option.splits)
    qed
  qed
qed

lemma archive_create_valid:
  assumes "to_internal_value data = Inr v" and "calculate_checksum sha256 v = Inr c"
  shows "archive_create D sha256 k data tb = metadata_create D c k v tb"
  using assms by (simp add: archive_create_def)

text \<open>
  Posting metadata again changes nothing: after a POST, whatever came of it, a second
  POST of the same request answers with the record of that checksum and leaves all tables as
  they are; when the first one succeeded, both answer with the same record.
\<close>

theorem post_metadata_twice:
  assumes "to_internal_value data = Inr v" and "calculate_checksum sha256 v = Inr c"
    and "k \<notin> set (map mr_key (tb_metadata tb))"
    and "archive_create D sha256 k data tb = (r, tb')"
  shows "\<exists>md. archive_create D sha256 k' data tb' = (Inr md, tb') \<and> mr_checksum md = c \<and> (\<forall>md'. r = Inr md' \<longrightarrow> md' = md)"
proof (cases "filter (\<lambda>r. mr_checksum r = c) (tb_metadata tb)")
  case Nil
  then have "insert_metadata D c k v tb = (r, tb')"
    using assms(4) unfolding archive_create_valid [OF assms(1,2)] metadata_create_def by simp
  from insert_metadata_rows [OF this assms(3)]
  obtain md where "tb_metadata tb' = tb_metadata tb @ [md]" "mr_checksum md = c" "\<forall>md'. r = Inr md' \<longrightarrow> md' = md"
    by blast
  then show ?thesis using Nil by (simp add: archive_create_valid [OF assms(1,2)] metadata_create_def)
next
  case (Cons md mds)
  then have "r = Inr md" "tb' = tb"
    using assms(4) unfolding archive_create_valid [OF assms(1,2)] metadata_create_def by simp_all
  moreover have "mr_checksum md = c" using Cons by (metis (mono_tags, lifting) filter_eq_ConsD)
  ultimately show ?thesis using Cons by (simp add: archive_create_valid [OF assms(1,2)] metadata_create_def)
qed

definition plain_django :: django where
  "plain_django = \<lparr>dj_subject = (\<lambda>model d. if has_key [] d then Inl TypeError else Inr d),
     dj_window = py_int, dj_text = (\<lambda>v. Inr (shown v))\<rparr>"

definition no_tables :: tables where
  "no_tables = \<lparr>tb_metadata = [], tb_event_types = []\<rparr>"

lemma posted_checksum: "\<exists>v c. to_internal_value (JObj posted_metadata) = Inr v \<and> calculate_checksum sha256 v = Inr c \<and>
    va_event_types v = [(''throughput'', ''base'', JStr ''0''), (''throughput'', ''average'', JInt 86400)]"
  by (simp add: posted_metadata_valid calculate_checksum_def checksum_text_def sort_event_types_def is_str_def
      checksum_pair_def checksum_event_type_def sort_by_def spec_less_def)

theorem post_metadata_twice_witness:
  "\<exists>r tb md. archive_create plain_django (\<lambda>s. s) ''0cb1'' (JObj posted_metadata) no_tables = (r, tb) \<and>
    archive_create plain_django (\<lambda>s. s) ''77aa'' (JObj posted_metadata) tb = (Inr md, tb)"
proof -
  obtain v c where v: "to_internal_value (JObj posted_metadata) = Inr v" "calculate_checksum (\<lambda>s. s) v = Inr c"
    using posted_checksum by blast
  obtain r tb where r: "archive_create plain_django (\<lambda>s. s) ''0cb1'' (JObj posted_metadata) no_tables = (r, tb)" by fastforce
  show ?thesis using post_metadata_twice [OF v _ r, of "''77aa''"] r by (auto simp: no_tables_def)
qed

text \<open>
  A record stays after its creation failed: when storing the subject of a new record
  raises, the request fails, but the record itself has been stored, without subject and event
  types, and the next POST of the same request succeeds with it.
\<close>

theorem failed_post_leaves_record:
  assumes "to_internal_value data = Inr v" and "calculate_checksum sha256 v = Inr c"
    and "dj_subject D (va_subject_model v) (va_subject v) = Inl e"
    and "\<And>r. r \<in> set (tb_metadata tb) \<Longrightarrow> mr_checksum r \<noteq> c"
  shows "\<exists>tb' md. archive_create D sha256 k data tb = (Inl e, tb') \<and>
    archive_create D sha256 k' data tb' = (Inr md, tb') \<and> mr_subject md = None \<and> tb_event_types tb' = tb_event_types tb"
proof -
  have none: "filter (\<lambda>r. mr_checksum r = c) (tb_metadata tb) = []" using assms(4) by (auto simp: filter_empty_conv)
  show ?thesis
    using none assms(3) by (simp add: archive_create_valid [OF assms(1,2)] metadata_create_def insert_metadata_def Let_def)
qed

definition misfit_metadata :: "json dict" where
  "misfit_metadata = [(''subject-type'', JStr ''network-element''), (''source'', JStr ''10.0.0.1''),
     (''destination'', JStr ''10.0.0.2''), (''event-types'', JList [])]"

theorem failed_post_leaves_record_witness:
  "\<exists>tb' md. archive_create plain_django (\<lambda>s. s) ''0cb1'' (JObj misfit_metadata) no_tables = (Inl TypeError, tb') \<and>
    archive_create plain_django (\<lambda>s. s) ''77aa'' (JObj misfit_metadata) tb' = (Inr md, tb') \<and> mr_subject md = None \<and>
    tb_event_types tb' = []"
proof -
  let ?v = "\<lparr>va_subject_type = ''network-element'', va_subject_model = ''psnetworkelementsubject'',
     va_subject = [(''source'', JStr ''10.0.0.1''), ([], JStr ''10.0.0.2'')], va_params = [], va_event_types = []\<rparr>"
  have v: "to_internal_value (JObj misfit_metadata) = Inr ?v"
    by (simp add: request_eval misfit_metadata_def deserialize_event_types_def)
  have "\<exists>c. calculate_checksum (\<lambda>s. s) ?v = Inr c"
    by (simp add: calculate_checksum_def checksum_text_def sort_event_types_def checksum_pair_def sort_by_def key_less_def)
  then obtain c where c: "calculate_checksum (\<lambda>s. s) ?v = Inr c" ..
  show ?thesis
    using failed_post_leaves_record [OF v c, of plain_django TypeError no_tables "''0cb1''" "''77aa''"]
    by (simp add: plain_django_def no_tables_def has_key_def)
qed

definition one_param :: "json dict" where
  "one_param = [(''subject-type'', JStr ''point-to-point''), (''event-types'', JList []), (''a'', JStr ''1,b::2'')]"

definition two_params :: "json dict" where
  "two_params = [(''subject-type'', JStr ''point-to-point''), (''event-types'', JList []), (''a'', JStr ''1''), (''b'', JStr ''2'')]"

lemma collision_checksums:
  "\<exists>v1 v2 c. to_internal_value (JObj one_param) = Inr v1 \<and> to_internal_value (JObj two_params) = Inr v2 \<and>
     va_params v1 \<noteq> va_params v2 \<and> calculate_checksum sha256 v1 = Inr c \<and> calculate_checksum sha256 v2 = Inr c"
  by (simp add: one_param_def two_params_def request_eval deserialize_event_types_def calculate_checksum_def
      checksum_text_def sort_event_types_def checksum_pair_def sort_by_def key_less_def py_lower_def py_lower_char_def)

text \<open>
  Different records have one checksum: the separators are not escaped, so a parameter
  whose value holds them is not told from two parameters, and the POST of the second request
  is answered with the record of the first, whatever the digest function.
\<close>

theorem checksum_collision:
  "\<exists>v1 v2 c. to_internal_value (JObj one_param) = Inr v1 \<and> to_internal_value (JObj two_params) = Inr v2 \<and>
     va_params v1 \<noteq> va_params v2 \<and> calculate_checksum sha256 v1 = Inr c \<and> calculate_checksum sha256 v2 = Inr c \<and>
     (let tb = snd (archive_create D sha256 k (JObj one_param) no_tables) in
      \<exists>md. archive_create D sha256 k' (JObj two_params) tb = (Inr md, tb) \<and> tb_metadata tb = [md])"
proof -
  obtain v1 v2 c where v: "to_internal_value (JObj one_param) = Inr v1" "to_internal_value (JObj two_params) = Inr v2"
      "va_params v1 \<noteq> va_params v2" "calculate_checksum sha256 v1 = Inr c" "calculate_checksum sha256 v2 = Inr c"
    using collision_checksums by blast
  obtain r tb where r: "archive_create D sha256 k (JObj one_param) no_tables = (r, tb)" by fastforce
  then have "insert_metadata D c k v1 no_tables = (r, tb)"
    by (simp add: archive_create_valid [OF v(1,4)] metadata_create_def no_tables_def)
  from insert_metadata_rows [OF this] obtain md where md: "tb_metadata tb = [md]" "mr_checksum md = c"
    by (auto simp: no_tables_def)
  then have "archive_create D sha256 k' (JObj two_params) tb = (Inr md, tb)"
    by (simp add: archive_create_valid [OF v(2,5)] metadata_create_def)
  then show ?thesis using v r md by (intro exI [of _ v1] exI [of _ v2] exI [of _ c]) (simp add: Let_def)
qed

subsection \<open>Searching\<close>

lemma store_event_types_rows:
  "store_event_types D key ets tb = (None, tb') \<Longrightarrow>
     set (tb_event_types tb) \<subseteq> set (tb_event_types tb') \<and>
     (\<forall>(et, s, w) \<in> set ets. \<exists>r \<in> set (tb_event_types tb'). et_metadata_key r = key \<and> et_event_type r = et \<and> et_summary_type r = s)"
proof (induction D key ets tb rule: store_event_types.induct)
  case (2 D key et stype w ets tb)
  then obtain n where n: "dj_window D w = Inr n" by (auto split: sum.splits)
  have rest: "store_event_types D key ets (tb\<lparr>tb_event_types := tb_event_types tb @
      [\<lparr>et_metadata_key = key, et_event_type = et, et_summary_type = stype, et_summary_window = n, et_time_updated = None\<rparr>]\<rparr>)
      = (None, tb')"
    using "2.prems" n by simp
  show ?case using "2.IH" [OF n rest] by (auto intro!: bexI)
qed simp

lemma created_event_rows:
  assumes "insert_metadata D c k v tb = (Inr md, tb')" and "(et, s, w) \<in> set (va_event_types v)"
  shows "\<exists>r \<in> set (tb_event_types tb'). et_metadata_key r = k \<and> et_event_type r = et \<and> et_summary_type r = s"
proof -
  obtain tb2 tb3 where "store_event_types D k (sort_by spec_less (va_event_types v)) tb2 = (None, tb3)"
      and "tb_event_types tb' = tb_event_types tb3"
    using assms(1) unfolding insert_metadata_def Let_def by (auto split: sum.splits prod.splits option.splits)
  then show ?thesis using store_event_types_rows assms(2) by fastforce
qed

text \<open>A search for a key and for an event type and a summary type.\<close>

lemma search_by_key:
  assumes "0 \<le> now"
  shows "get_queryset resolve now [(''event-type'', et), (''summary-type'', s), (''metadata-key'', k)] tb =
    Inr (sort_by (\<lambda>a b. mr_key a < mr_key b) (filter (\<lambda>m. mr_key m = k \<and>
      (\<exists>r \<in> set (tb_event_types tb). et_metadata_key r = mr_key m \<and> et_event_type r = et \<and> et_summary_type r = s)) (tb_metadata tb)))"
proof -
  have "build_search resolve now [(''event-type'', et), (''summary-type'', s), (''metadata-key'', k)] =
      Inr \<lparr>se_records = [\<lambda>m. mr_key m = k], se_event_type = [\<lambda>r. et_event_type r = et, \<lambda>r. et_summary_type r = s],
        se_params = [], se_subjects = []\<rparr>"
    using assms by (simp add: build_search_def add_condition_def subject_filter_keys handle_time_filters_def select_times_def add_times_def)
  then show ?thesis by (simp add: get_queryset_def search_matches_def [abs_def])
qed

text \<open>
  A new record is found: once a POST has created a record with a fresh key and checksum,
  a search for this key and for the event type and summary type of any of the accepted event
  types selects exactly this record.
\<close>

theorem created_record_is_found:
  assumes "to_internal_value data = Inr v" and "calculate_checksum sha256 v = Inr c"
    and "\<And>r. r \<in> set (tb_metadata tb) \<Longrightarrow> mr_checksum r \<noteq> c \<and> mr_key r \<noteq> k"
    and "archive_create D sha256 k data tb = (Inr md, tb')"
    and "(et, s, w) \<in> set (va_event_types v)" and "0 \<le> now"
  shows "get_queryset resolve now [(''event-type'', et), (''summary-type'', s), (''metadata-key'', k)] tb' = Inr [md]"
proof -
  have none: "filter (\<lambda>r. mr_checksum r = c) (tb_metadata tb) = []" using assms(3) by (auto simp: filter_empty_conv)
  have fresh: "k \<notin> set (map mr_key (tb_metadata tb))" using assms(3) by auto
  have run: "insert_metadata D c k v tb = (Inr md, tb')"
    using assms(4) none by (simp add: archive_create_valid [OF assms(1,2)] metadata_create_def)
  have rows: "tb_metadata tb' = tb_metadata tb @ [md]" "mr_key md = k"
    using insert_metadata_rows [OF run fresh] by auto
  obtain r where r: "r \<in> set (tb_event_types tb')" "et_metadata_key r = k" "et_event_type r = et" "et_summary_type r = s"
    using created_event_rows [OF run assms(5)] by blast
  have "filter (\<lambda>m. mr_key m = k \<and> (\<exists>r \<in> set (tb_event_types tb'). et_metadata_key r = mr_key m \<and>
      et_event_type r = et \<and> et_summary_type r = s)) (tb_metadata tb') = [md]"
    unfolding rows(1) using r assms(3) rows(2) by (auto simp: filter_empty_conv)
  then show ?thesis by (simp add: search_by_key [OF assms(6)] sort_by_def)
qed

theorem created_record_is_found_witness:
  "\<exists>md tb. archive_create plain_django (\<lambda>s. s) ''0cb1'' (JObj posted_metadata) no_tables = (Inr md, tb) \<and>
    get_queryset (\<lambda>_ _. []) 0 [(''event-type'', ''throughput''), (''summary-type'', ''average''), (''metadata-key'', ''0cb1'')] tb = Inr [md]"
proof -
  obtain v c where v: "to_internal_value (JObj posted_metadata) = Inr v" "calculate_checksum (\<lambda>s. s) v = Inr c"
      "va_event_types v = [(''throughput'', ''base'', JStr ''0''), (''throughput'', ''average'', JInt 86400)]"
    using posted_checksum by blast
  have w: "py_int (JStr ''0'') = Inr 0" by (simp add: str_eval)
  have "\<exists>md tb. archive_create plain_django (\<lambda>s. s) ''0cb1'' (JObj posted_metadata) no_tables = (Inr md, tb)"
    using v(1) posted_metadata_valid w unfolding archive_create_valid [OF v(1,2)]
    by (auto simp: metadata_create_def no_tables_def insert_metadata_def Let_def plain_django_def has_key_def sort_by_def spec_less_def)
  then obtain md tb where r: "archive_create plain_django (\<lambda>s. s) ''0cb1'' (JObj posted_metadata) no_tables = (Inr md, tb)"
    by blast
  have "(''throughput'', ''average'', JInt 86400) \<in> set (va_event_types v)" by (simp add: v(3))
  from created_record_is_found [OF v(1,2) _ r this] show ?thesis using r by (auto simp: no_tables_def)
qed

subsection \<open>Parameters over fields\<close>

lemma map_of_updates: "k \<notin> set (map fst kvs) \<Longrightarrow> map_of (fold (\<lambda>(k, v). AList.update k v) kvs d) k = map_of d k"
  by (induction kvs arbitrary: d) auto

lemma add_record_uris_str:
  "map_of r ''url'' = Some (JStr (u # us)) \<Longrightarrow> map_of r ''event_types'' = Some (JStr (c # cs)) \<Longrightarrow>
   add_record_uris url_path r = Inl AttributeError"
  by (simp add: add_record_uris_def)

text \<open>
  A parameter can break its record: the name \<open>event_types\<close> is accepted as a parameter,
  but the representation sets parameters over the fields of the record and then walks its
  event types, so that every GET that lists such a record fails.
\<close>

theorem event_types_parameter_breaks:
  assumes "\<And>r. r \<in> set (tb_event_types tb) \<Longrightarrow> has_key (et_summary_type r) INVERSE_SUMMARY_TYPES"
    and "mr_subject md = Some (model, d)" and "\<not> has_key ''url'' d"
    and "mr_params md = [(''event_types'', c # cs)]" and "record_url (mr_key md) \<noteq> []"
  shows "is_param ''event_types'' \<and> to_representation record_url url_path md tb = Inl AttributeError"
proof -
  let ?rows = "sort_by event_type_less (filter (\<lambda>r. et_metadata_key r = mr_key md) (tb_event_types tb))"
  obtain ets where ets: "build_event_type_list ?rows = Inr ets"
    using event_type_list_entries [of ?rows] assms(1) by auto
  let ?ret = "[(''url'', JStr (record_url (mr_key md))), (''metadata_key'', JStr (mr_key md)),
                (''subject_type'', JStr (mr_subject_type md)), (''event_types'', JList (map JObj ets))]"
  let ?ret2 = "AList.update ''event_types'' (JStr (c # cs)) (fold (\<lambda>(k, v). AList.update k v) d ?ret)"
  have url: "map_of ?ret2 ''url'' = Some (JStr (record_url (mr_key md)))"
    using map_of_updates [of "''url''" d ?ret] assms(3) by (simp add: has_key_def)
  obtain u us where u: "record_url (mr_key md) = u # us" using assms(5) by (cases "record_url (mr_key md)") auto
  have "add_record_uris url_path ?ret2 = Inl AttributeError"
    by (rule add_record_uris_str) (use url u in simp_all)
  then show ?thesis
    by (simp add: to_representation_def ets assms(2,4) Let_def is_param_def subject_filter_keys)
qed

definition broken_row :: md_row where
  "broken_row = \<lparr>mr_key = ''0cb1'', mr_subject_type = ''point-to-point'', mr_checksum = ''c'',
     mr_subject = Some (''pspointtopointsubject'', [(''source'', JStr ''10.0.0.1'')]), mr_params = [(''event_types'', ''x'')]\<rparr>"

theorem event_types_parameter_breaks_witness:
  "to_representation (\<lambda>k. ''http://host/archive/'' @ k) (\<lambda>u. drop 11 u) broken_row no_tables = Inl AttributeError"
  using event_types_parameter_breaks [of no_tables broken_row "''pspointtopointsubject''" "[(''source'', JStr ''10.0.0.1'')]"
      "CHR ''x''" "[]" "\<lambda>k. ''http://host/archive/'' @ k" "\<lambda>u. drop 11 u"]
  by (simp add: broken_row_def no_tables_def has_key_def)

end
