(* ===== verification/Client_Post_Facts.thy ===== *)
theory Client_Post_Facts
  imports Client_Post Archive_Metadata_Facts
begin

section \<open>What the POST clients send\<close>

text \<open>
  A bulk post groups the points it was given by their times and loses none, and the server's
  bulk PUT saves exactly these points; the event types a metadata post is built of are a list of
  specifications, which the server reads as they were meant. The last part holds the cases in
  which the client does not do what it says.
\<close>

subsection \<open>Bulk posts\<close>

text \<open>A point is an event type, a time and a value; the entries, one after the other.\<close>

type_synonym point = "string \<times> json \<times> json"

definition flatten :: "bulk_entry list \<Rightarrow> point list" where
  "flatten es = concat (map (\<lambda>(ts, vals). map (\<lambda>(et, v). (et, ts, v)) vals) es)"

fun add_points :: "point list \<Rightarrow> bulk_post \<Rightarrow> bulk_post res" where
  "add_points [] p = Inr p"
| "add_points ((et, ts, v) # ps) p = rbind (bulk_add_data_point et ts v p) (add_points ps)"

text \<open>The values of a time, in the order of the entries.\<close>

definition values_at :: "int \<Rightarrow> bulk_entry list \<Rightarrow> (string \<times> json) list" where
  "values_at t es = concat (map snd (filter (\<lambda>e. int_value (fst e) = Some t) es))"

definition bulk_ok :: "bulk_entry list \<Rightarrow> bool" where
  "bulk_ok es = (distinct (map (int_value \<circ> fst) es) \<and> (\<forall>e \<in> set es. int_value (fst e) \<noteq> None))"

lemma get_entry_new:
  assumes "int_value ts \<notin> set (map (int_value \<circ> fst) es)"
  shows "get_ts_payload_entry ts es = (length es, es @ [(ts, [])])"
proof -
  have "filter (\<lambda>i. int_value (fst (es ! i)) = int_value ts) [0..<length es] = []"
    using assms by (auto simp: filter_empty_conv) (metis image_eqI nth_mem)
  then show ?thesis unfolding get_ts_payload_entry_def by simp
qed

lemma get_entry_old:
  assumes "distinct (map (int_value \<circ> fst) es)" and "i < length es" and "int_value (fst (es ! i)) = int_value ts"
  shows "get_ts_payload_entry ts es = (i, es)"
proof -
  have "j = i" if "j < length es" "int_value (fst (es ! j)) = int_value ts" for j
    using assms that nth_eq_iff_index_eq [OF assms(1), of j i] by simp
  then have "filter (\<lambda>j. int_value (fst (es ! j)) = int_value ts) [0..<length es] = filter (\<lambda>j. j = i) [0..<length es]"
    using assms(3) by (intro filter_cong) auto
  also have "\<dots> = [i]"
  proof -
    have "[0..<length es] = [0..<i] @ i # [Suc i..<length es]"
      using upt_add_eq_append [of 0 i "length es - i"] assms(2) by (simp add: upt_conv_Cons)
    then show ?thesis by simp
  qed
  finally show ?thesis unfolding get_ts_payload_entry_def by simp
qed

text \<open>One point goes to the end of the values of its time, and nothing else changes.\<close>

lemma add_point_step:
  assumes "bulk_ok (bp_data p)" and "int_value ts = Some t"
  shows "\<exists>es. bulk_add_data_point et ts v p = Inr (p\<lparr>bp_data := es\<rparr>) \<and> bulk_ok es \<and>
    (\<forall>u. values_at u es = values_at u (bp_data p) @ (if u = t then [(et, v)] else []))"
proof (cases "Some t \<in> set (map (int_value \<circ> fst) (bp_data p))")
  case False
  let ?es = "bp_data p @ [(ts, [(et, v)])]"
  have "bulk_add_data_point et ts v p = Inr (p\<lparr>bp_data := ?es\<rparr>)"
    using get_entry_new [of ts "bp_data p"] False assms(2) by (simp add: bulk_add_data_point_def)
  moreover have "bulk_ok ?es" using assms False by (auto simp: bulk_ok_def)
  ultimately show ?thesis using assms(2) by (intro exI [of _ ?es]) (auto simp: values_at_def)
next
  case True
  then obtain i where i: "i < length (bp_data p)" "int_value (fst (bp_data p ! i)) = Some t"
    by (auto simp: in_set_conv_nth)
  obtain xs e ys where es: "bp_data p = xs @ e # ys" "length xs = i" using id_take_nth_drop [OF i(1)] i(1)
    by (metis length_take min.absorb4)
  let ?es = "xs @ (fst e, snd e @ [(et, v)]) # ys"
  have at: "bp_data p ! i = e" and upd: "(bp_data p)[i := x] = xs @ x # ys" for x
    unfolding es(1) es(2) [symmetric] by simp_all
  then have e: "int_value (fst e) = Some t" using i by simp
  have "bulk_add_data_point et ts v p = Inr (p\<lparr>bp_data := ?es\<rparr>)"
    using get_entry_old [of "bp_data p" i ts] i assms by (simp add: bulk_add_data_point_def bulk_ok_def upd at)
  moreover have "bulk_ok ?es" using assms es by (auto simp: bulk_ok_def)
  moreover have "filter (\<lambda>e. int_value (fst e) = Some t) xs = []" "filter (\<lambda>e. int_value (fst e) = Some t) ys = []"
    using assms(1) e by (auto simp: bulk_ok_def es filter_empty_conv image_iff)
  ultimately show ?thesis using e by (intro exI [of _ ?es]) (auto simp: values_at_def es)
qed

lemma add_points_grouped:
  assumes "bulk_ok (bp_data p)" and "\<And>et ts v. (et, ts, v) \<in> set ps \<Longrightarrow> int_value ts \<noteq> None"
  shows "\<exists>es. add_points ps p = Inr (p\<lparr>bp_data := es\<rparr>) \<and> bulk_ok es \<and>
    (\<forall>u. values_at u es = values_at u (bp_data p) @ map (\<lambda>(et, ts, v). (et, v)) (filter (\<lambda>(et, ts, v). int_value ts = Some u) ps))"
  using assms
proof (induction ps arbitrary: p)
  case Nil
  then show ?case by (intro exI [of _ "bp_data p"]) simp
next
  case (Cons x ps)
  obtain et ts v where x: "x = (et, ts, v)" by (cases x)
  then obtain t where t: "int_value ts = Some t" using Cons.prems(2) [of et ts v] by auto
  obtain es where es: "bulk_add_data_point et ts v p = Inr (p\<lparr>bp_data := es\<rparr>)" "bulk_ok es"
      "\<forall>u. values_at u es = values_at u (bp_data p) @ (if u = t then [(et, v)] else [])"
    using add_point_step [OF Cons.prems(1) t] by blast
  have "\<exists>es'. add_points ps (p\<lparr>bp_data := es\<rparr>) = Inr (p\<lparr>bp_data := es\<rparr>\<lparr>bp_data := es'\<rparr>) \<and> bulk_ok es' \<and>
    (\<forall>u. values_at u es' = values_at u (bp_data (p\<lparr>bp_data := es\<rparr>)) @
      map (\<lambda>(et, ts, v). (et, v)) (filter (\<lambda>(et, ts, v). int_value ts = Some u) ps))"
    using Cons.prems(2) es(2) by (intro Cons.IH) auto
  then show ?case using es(1,3) t by (auto simp: x)
qed

text \<open>What the server does with points given one by one.\<close>

fun save_points :: "'d pycassa \<Rightarrow> datetime \<Rightarrow> string \<Rightarrow> point list \<Rightarrow> 'd archive \<Rightarrow> exn option \<times> 'd archive" where
  "save_points P now mk [] ar = (None, ar)"
| "save_points P now mk ((et, ts, v) # ps) ar =
     (case save P now (new_ts_object ts v mk et) ar of
        (Some e, ar') \<Rightarrow> (Some e, ar')
      | (None, ar') \<Rightarrow> save_points P now mk ps ar')"

lemma save_points_append: "save_points P now mk (ps @ qs) ar =
    (case save_points P now mk ps ar of (Some e, ar') \<Rightarrow> (Some e, ar') | (None, ar') \<Rightarrow> save_points P now mk qs ar')"
  by (induction P now mk ps ar rule: save_points.induct) (auto split: prod.splits option.splits)

lemma bulk_values_points:
  "bulk_values P now mk ts i j (map (\<lambda>(et, v). JObj [(''event-type'', JStr et), (''val'', v)]) vals) ar =
    save_points P now mk (map (\<lambda>(et, v). (et, ts, v)) vals) ar"
  by (induction vals arbitrary: j ar) (auto simp: required_def has_key_def save_value_def split: prod.splits option.splits)

lemma bulk_items_points:
  "bulk_items P now mk i (map entry_json es) ar = save_points P now mk (flatten es) ar"
proof (induction es arbitrary: i ar)
  case (Cons e es)
  obtain ts vals where e: "e = (ts, vals)" by (cases e)
  have "flatten (e # es) = map (\<lambda>(et, v). (et, ts, v)) vals @ flatten es" by (simp add: flatten_def e)
  then show ?case
    by (simp add: e entry_json_def [of "(ts, vals)"] Cons.IH required_def has_key_def bulk_values_points save_points_append
      split: prod.split option.split)
qed (simp add: flatten_def)

text \<open>The request the framework hands to the view, from the headers and the body.\<close>

definition json_request_of :: "string dict \<Rightarrow> json \<Rightarrow> request" where
  "json_request_of headers body =
     \<lparr>rq_content_type = (case map_of headers ''content-type'' of None \<Rightarrow> [] | Some t \<Rightarrow> t),
      rq_body = ''{}'', rq_json = Some body, rq_params = []\<rparr>"

text \<open>A server that hands PUTs of the URL of a metadata record to the bulk view.\<close>

definition put_view ::
  "'d pycassa \<Rightarrow> datetime \<Rightarrow> string \<Rightarrow> (exn \<Rightarrow> int) \<Rightarrow> 'd archive server" where
  "put_view P now mk status verb url headers body ar =
     (case archive_update P now mk (json_request_of headers body) ar of
        (None, ar') \<Rightarrow> (Reply 201 [] (Some (JStr [])), ar')
      | (Some e, ar') \<Rightarrow> (Reply (status e) [] None, ar'))"

lemma post_headers_json: "map_of (pb_headers (new_post_base u n k a)) ''content-type'' = Some ''application/json''"
  by (simp add: new_post_base_def auth_headers_def add_apikey_header_def)

definition save_and_flush :: "'d pycassa \<Rightarrow> datetime \<Rightarrow> string \<Rightarrow> point list \<Rightarrow> 'd archive \<Rightarrow> exn option \<times> 'd archive" where
  "save_and_flush P now mk ps ar =
     (case save_points P now mk ps ar of (Some e, ar') \<Rightarrow> (Some e, ar') | (None, ar') \<Rightarrow> flush_archive P ar')"

lemma bulk_request_saves:
  assumes "map_of headers ''content-type'' = Some ''application/json''"
  shows "archive_update P now mk (json_request_of headers (bulk_payload p)) ar = save_and_flush P now mk (flatten (bp_data p)) ar"
  using assms
  by (simp add: archive_update_def bulk_data_def decode_request_def json_request_of_def bulk_payload_def required_def
      has_key_def bulk_items_points save_and_flush_def)

definition refused :: "int \<Rightarrow> exn" where
  "refused status = PostException (''POST error: status_code: '' @ show_int status @ '', message: '')"

text \<open>
  C27. A bulk post saves the points it was given: after adding points with integer times to a new
  bulk post, sending it to the bulk view is the same as saving its points one by one and then
  flushing: same archive, and an exception exactly if there is one there. Each time has one
  entry, which holds the values added at that time, all of them and in the order they were added.
\<close>

theorem bulk_post_saves_points:
  assumes "new_bulk_post api_url username api_key script_alias mk = Inr p0"
    and "\<And>et ts v. (et, ts, v) \<in> set ps \<Longrightarrow> int_value ts \<noteq> None"
    and "\<And>e. status e \<noteq> 201"
  shows "\<exists>p. add_points ps p0 = Inr p \<and> bulk_ok (bp_data p) \<and>
    (\<forall>t. values_at t (bp_data p) = map (\<lambda>(et, ts, v). (et, v)) (filter (\<lambda>(et, ts, v). int_value ts = Some t) ps)) \<and>
    bulk_post_data (put_view P now mk status) p ar =
      (case save_and_flush P now mk (flatten (bp_data p)) ar of (r, ar') \<Rightarrow> (map_option (\<lambda>e. refused (status e)) r, ar'))"
proof -
  have p0: "bp_data p0 = []" "bp_base p0 = new_post_base api_url username api_key script_alias"
    using assms(1) by (auto simp: new_bulk_post_def split: if_splits)
  then have "bulk_ok (bp_data p0)" by (simp add: bulk_ok_def)
  then have "\<exists>es. add_points ps p0 = Inr (p0\<lparr>bp_data := es\<rparr>) \<and> bulk_ok es \<and>
    (\<forall>u. values_at u es = values_at u (bp_data p0) @ map (\<lambda>(et, ts, v). (et, v)) (filter (\<lambda>(et, ts, v). int_value ts = Some u) ps))"
    by (rule add_points_grouped) (rule assms(2))
  then obtain es where es: "add_points ps p0 = Inr (p0\<lparr>bp_data := es\<rparr>)" "bulk_ok es"
      "\<And>u. values_at u es = map (\<lambda>(et, ts, v). (et, v)) (filter (\<lambda>(et, ts, v). int_value ts = Some u) ps)"
    unfolding p0(1) by (auto simp: values_at_def)
  let ?p = "p0\<lparr>bp_data := es\<rparr>"
  have json: "map_of (pb_headers (bp_base ?p)) ''content-type'' = Some ''application/json''"
    using p0(2) post_headers_json by simp
  have "bulk_post_data (put_view P now mk status) ?p ar =
      (case save_and_flush P now mk (flatten es) ar of (r, ar') \<Rightarrow> (map_option (\<lambda>e. refused (status e)) r, ar'))"
    using bulk_request_saves [OF json, of P now mk ?p ar] assms(3)
    by (simp add: bulk_post_data_def Let_def send_json_def put_view_def refused_def split: prod.split option.split)
  then show ?thesis using es by (intro exI [of _ ?p]) simp
qed

definition three_points :: "point list" where
  "three_points = [(''throughput'', JInt 60, JInt 1), (''failures'', JInt 120, JNull), (''failures'', JInt 60, JStr ''down'')]"

theorem bulk_post_saves_points_witness:
  "\<exists>p0 p. new_bulk_post ''http://host/'' ''u'' ''k'' ''esmond'' ''0CB1'' = Inr p0 \<and> add_points three_points p0 = Inr p \<and>
    values_at 60 (bp_data p) = [(''throughput'', JInt 1), (''failures'', JStr ''down'')] \<and>
    bulk_post_data (put_view mem_store (DT 0) ''0CB1'' (\<lambda>_. 400)) p json_archive =
      (case save_and_flush mem_store (DT 0) ''0CB1'' (flatten (bp_data p)) json_archive of
         (r, ar') \<Rightarrow> (map_option (\<lambda>e. refused 400) r, ar'))"
proof -
  obtain p0 where p0: "new_bulk_post ''http://host/'' ''u'' ''k'' ''esmond'' ''0CB1'' = Inr p0"
    by (simp add: new_bulk_post_def)
  have ints: "(et, ts, v) \<in> set three_points \<Longrightarrow> int_value ts \<noteq> None" for et ts v
    by (auto simp: three_points_def int_value_def)
  show ?thesis
    using bulk_post_saves_points [OF p0, of three_points "\<lambda>_. 400" mem_store "DT 0" json_archive] p0 ints
    by (auto simp: three_points_def int_value_def)
qed

subsection \<open>The event types of a metadata post\<close>

text \<open>What the payload stands for: event types with their summaries and windows.\<close>

type_synonym et_spec = "string \<times> (string \<times> json) list"

definition spec_json :: "et_spec \<Rightarrow> json" where
  "spec_json e = JObj [(''event-type'', JStr (fst e)),
     (''summaries'', JList (map (\<lambda>(s, w). summary_def_entry s w) (snd e)))]"

definition built :: "metadata_post \<Rightarrow> et_spec list \<Rightarrow> bool" where
  "built p specs = (map_of (mp_payload p) ''event-types'' = Some (JList (map spec_json specs)))"

text \<open>New windows of a summary type take the place of its old ones, in the first entry.\<close>

fun put_spec :: "string \<Rightarrow> string \<Rightarrow> json list \<Rightarrow> et_spec list \<Rightarrow> et_spec list" where
  "put_spec et st ws [] = [(et, map (Pair st) ws)]"
| "put_spec et st ws ((e, ss) # specs) =
     (if e = et then (e, map (Pair st) ws @ filter (\<lambda>sw. fst sw \<noteq> st) ss) # specs else (e, ss) # put_spec et st ws specs)"

lemma built_new: "built (new_metadata_post u n k a args) []"
  by (simp add: built_def new_metadata_post_def Let_def required_args_def optional_args_def redash_def)

lemma built_event_types: "built p specs \<Longrightarrow> payload_event_types (mp_payload p) = Inr (map spec_json specs)"
  by (simp add: built_def payload_event_types_def)

lemma is_event_type_spec [simp]: "is_event_type etype (spec_json e) = Inr (fst e = etype)"
  by (simp add: is_event_type_def spec_json_def json_get_def)

lemma other_summaries_specs:
  "other_summaries st (map (\<lambda>(s, w). summary_def_entry s w) ss) =
     Inr (map (\<lambda>(s, w). summary_def_entry s w) (filter (\<lambda>sw. fst sw \<noteq> st) ss))"
  by (induction ss) (auto simp: summary_def_entry_def)

lemma put_summaries_specs:
  "put_summaries et st (map (summary_def_entry st) ws) (map spec_json specs) = Inr (map spec_json (put_spec et st ws specs))"
proof (induction specs)
  case Nil
  then show ?case by (simp add: spec_json_def o_def)
next
  case (Cons e specs)
  obtain et' ss where e: "e = (et', ss)" by (cases e)
  show ?case
  proof (cases "et' = et")
    case True
    then show ?thesis
      using other_summaries_specs [of st ss] by (simp add: e) (simp add: spec_json_def o_def)
  next
    case False
    then show ?thesis using Cons by (simp add: e)
  qed
qed

lemma built_set: "built (set_event_types (map spec_json specs) p) specs"
  by (simp add: built_def set_event_types_def)

lemma add_event_type_built:
  assumes "built p specs"
  shows "\<exists>p'. post_add_event_type et p = Inr p' \<and> built p' (specs @ [(et, [])])"
proof -
  have "rmap (is_event_type et) (map spec_json specs) = Inr (map (\<lambda>e. fst e = et) specs)"
    by (induction specs) simp_all
  moreover have "JObj [(''event-type'', JStr et), (''summaries'', JList [])] = spec_json (et, [])"
    by (simp add: spec_json_def)
  ultimately show ?thesis
    using built_set [of "specs @ [(et, [])]"] by (simp add: post_add_event_type_def built_event_types [OF assms] Let_def)
qed

lemma add_summary_type_built:
  assumes "built p specs" and "ws \<noteq> []" and "\<And>w. w \<in> set ws \<Longrightarrow> \<exists>n. py_int w = Inr n"
  shows "\<exists>p'. add_summary_type et st ws p = Inr p' \<and> built p' (put_spec et st ws specs)"
proof -
  have "check_window w = Inr ()" if "w \<in> set ws" for w
    using assms(3) [OF that] by (auto simp: check_window_def)
  then have "rmap check_window ws = Inr (map (\<lambda>_. ()) ws)" by (rule rmap_all)
  then show ?thesis
    using assms(2) built_set by (simp add: add_summary_type_def built_event_types [OF assms(1)] put_summaries_specs)
qed

text \<open>The rows the server reads out of a specification, and when it accepts it.\<close>

definition spec_rows :: "et_spec \<Rightarrow> event_type_spec list" where
  "spec_rows e = (fst e, ''base'', JStr ''0'') # map (\<lambda>(s, w). (fst e, s, w)) (filter (\<lambda>sw. fst sw \<noteq> ''base'') (snd e))"

definition spec_known :: "et_spec \<Rightarrow> bool" where
  "spec_known e = (case map_of EVENT_TYPE_CONFIG (fst e) of
     None \<Rightarrow> False
   | Some t \<Rightarrow> list_all (\<lambda>(s, w). has_key s INVERSE_SUMMARY_TYPES \<and> s \<in> set (ALLOWED_SUMMARIES t) \<and>
       (case py_int w of Inr _ \<Rightarrow> True | Inl _ \<Rightarrow> False)) (snd e))"

lemma deserialize_summary_spec:
  assumes "has_key s INVERSE_SUMMARY_TYPES" and "s \<in> set (ALLOWED_SUMMARIES t)" and "py_int w = Inr n"
  shows "deserialize_summary et t (summary_def_entry s w) = Inr (if s = ''base'' then [] else [(et, s, w)])"
  using assms by (simp add: deserialize_summary_def summary_def_entry_def required_def hashed_str_def has_key_def [of "''summary-type''"]
      has_key_def [of "''summary-window''"])

lemma deserialize_spec:
  assumes "spec_known e"
  shows "deserialize_event_type (spec_json e) = Inr (spec_rows e)"
proof -
  obtain et ss where e: "e = (et, ss)" by (cases e)
  obtain t where t: "map_of EVENT_TYPE_CONFIG et = Some t"
    and ok: "list_all (\<lambda>(s, w). has_key s INVERSE_SUMMARY_TYPES \<and> s \<in> set (ALLOWED_SUMMARIES t) \<and>
       (case py_int w of Inr _ \<Rightarrow> True | Inl _ \<Rightarrow> False)) ss"
    using assms by (auto simp: spec_known_def e split: option.splits)
  have "\<exists>xs. rmap (deserialize_summary et t) (map (\<lambda>(s, w). summary_def_entry s w) ss) = Inr xs \<and>
      concat xs = map (\<lambda>(s, w). (et, s, w)) (filter (\<lambda>sw. fst sw \<noteq> ''base'') ss)"
    using ok
  proof (induction ss)
    case (Cons sw ss)
    obtain s w where sw: "sw = (s, w)" by (cases sw)
    then obtain n where "py_int w = Inr n" using Cons.prems by (auto split: sum.splits)
    then have "deserialize_summary et t (summary_def_entry s w) = Inr (if s = ''base'' then [] else [(et, s, w)])"
      using Cons.prems sw by (intro deserialize_summary_spec) auto
    then show ?case using Cons by (auto simp: sw)
  qed simp
  then show ?thesis
    using t by (auto simp: deserialize_event_type_def spec_json_def required_def hashed_str_def e spec_rows_def
        has_key_def [of "''event-type''"] has_key_def [of "''summaries''"])
qed

lemma deserialize_specs:
  assumes "list_all spec_known specs"
  shows "deserialize_event_types (JList (map spec_json specs)) = Inr (concat (map spec_rows specs))"
proof -
  have "rmap deserialize_event_type (map spec_json specs) = Inr (map spec_rows specs)"
    using assms by (induction specs) (simp_all add: deserialize_spec)
  then show ?thesis by (simp add: deserialize_event_types_def)
qed

lemma read_keys_total:
  "(\<And>k x. (k, x) \<in> set d \<Longrightarrow> (k = ''subject-type'' \<longrightarrow> is_str x) \<and> (k = ''event-types'' \<longrightarrow> (\<exists>e. deserialize_event_types x = Inr e))) \<Longrightarrow>
   \<exists>v'. read_keys d v = Inr v'"
proof (induction d v rule: read_keys.induct)
  case (2 k x d v)
  have "\<exists>v1. (if k = ''subject-type'' then
              (case x of JStr s \<Rightarrow> Inr (v\<lparr>va_subject_type := s\<rparr>) | _ \<Rightarrow> Inl Unmodelled)
            else if k = ''event-types'' then
              rbind (deserialize_event_types x) (\<lambda>ets. Inr (v\<lparr>va_event_types := ets\<rparr>))
            else if has_key k SUBJECT_FILTER_MAP then
              Inr (v\<lparr>va_subject := AList.update (subject_field (va_subject_model v) k) x (va_subject v)\<rparr>)
            else Inr (v\<lparr>va_params := va_params v @ [(k, x)]\<rparr>)) = Inr v1" (is "\<exists>v1. ?h = Inr v1")
    using "2.prems" [of k x] by (cases x) (auto simp: is_str_def)
  then obtain v1 where v1: "?h = Inr v1" by blast
  then have "\<exists>v'. read_keys d v1 = Inr v'" using "2.prems" by (intro "2.IH" [OF v1]) auto
  then show ?case using v1 by simp
qed simp

lemma delete_keys:
  assumes "validate_metadata p = Inr p'"
  shows "\<exists>ks. set ks \<subseteq> {''time-duration'', ''ip-transport-protocol''} \<and>
    mp_payload p' = filter (\<lambda>kv. fst kv \<notin> set ks) (mp_payload p)"
proof -
  let ?absent = "filter (\<lambda>a. \<not> py_truthy (get_or_none (mp_args p) a)) optional_args"
  have fold: "fold (\<lambda>a d. if py_truthy (get_or_none (mp_args p) a) then d else AList.delete (redash a) d) as d =
      filter (\<lambda>kv. fst kv \<notin> redash ` set (filter (\<lambda>a. \<not> py_truthy (get_or_none (mp_args p) a)) as)) d" for as d
    by (induction as arbitrary: d) (auto simp: AList.delete_eq case_prod_beta intro!: filter_cong)
  have "mp_payload p' = filter (\<lambda>kv. fst kv \<notin> set (map redash ?absent)) (mp_payload p)"
    using assms fold by (auto simp: validate_metadata_def split: list.splits)
  moreover have "set (map redash ?absent) \<subseteq> {''time-duration'', ''ip-transport-protocol''}"
    by (simp add: optional_args_def redash_def)
  ultimately show ?thesis by blast
qed

lemma map_of_filter_key: "P k \<Longrightarrow> map_of (filter (\<lambda>kv. P (fst kv)) d) k = map_of d k"
  by (induction d) auto

text \<open>
  C28. What the metadata client builds, the server accepts, and reads as it was meant: a post
  whose event types stand for known specifications, that passes the client's own checks and
  whose subject type is a known one, is a valid request, with a base row for each event
  type and one row for each window of its summaries.
\<close>

theorem metadata_post_accepted:
  assumes "built p specs" and "list_all spec_known specs" and "validate_metadata p = Inr p'"
    and "dict_wf (mp_payload p)" and "map_of (mp_payload p) ''metadata-key'' = None"
    and "subject_model_of (mp_payload p) = Some model"
  shows "\<exists>v. to_internal_value (JObj (mp_payload p')) = Inr v \<and> va_subject_model v = model \<and>
    va_event_types v = concat (map spec_rows specs)"
proof -
  obtain ks where ks: "set ks \<subseteq> {''time-duration'', ''ip-transport-protocol''}"
      and sent: "mp_payload p' = filter (\<lambda>kv. fst kv \<notin> set ks) (mp_payload p)"
    using delete_keys [OF assms(3)] by blast
  let ?d = "mp_payload p'"
  have same: "map_of ?d k = map_of (mp_payload p) k" if "k \<notin> {''time-duration'', ''ip-transport-protocol''}" for k
    unfolding sent using ks that by (intro map_of_filter_key) blast
  have wf: "dict_wf ?d" using assms(4) by (simp add: sent distinct_map_filter)
  have ets: "map_of ?d ''event-types'' = Some (JList (map spec_json specs))" using assms(1) same by (simp add: built_def)
  obtain st where st: "map_of ?d ''subject-type'' = Some (JStr st)" "map_of SUBJECT_MODEL_MAP st = Some model"
    using assms(6) same [of "''subject-type''"] by (auto simp: subject_model_of_def split: option.splits json.splits)
  have key: "map_of ?d ''metadata-key'' = None" using assms(5) same by simp
  let ?v0 = "\<lparr>va_subject_type = [], va_subject_model = model, va_subject = [], va_params = [], va_event_types = []\<rparr>"
  have "\<exists>v. read_keys ?d ?v0 = Inr v"
  proof (rule read_keys_total)
    fix k x
    assume "(k, x) \<in> set ?d"
    then have "map_of ?d k = Some x" using wf by simp
    then show "(k = ''subject-type'' \<longrightarrow> is_str x) \<and> (k = ''event-types'' \<longrightarrow> (\<exists>e. deserialize_event_types x = Inr e))"
      using st(1) ets deserialize_specs [OF assms(2)] by (auto simp: is_str_def)
  qed
  then obtain v where v: "read_keys ?d ?v0 = Inr v" by blast
  then have "to_internal_value (JObj ?d) = Inr v"
    using st ets key by (simp add: to_internal_value_def has_key_map_of hashed_str_def)
  moreover have "va_event_types v = concat (map spec_rows specs)"
    using read_keys_lookups [OF v wf] ets deserialize_specs [OF assms(2)] by simp
  ultimately show ?thesis using read_keys_parts [OF v] by auto
qed

definition throughput_args :: "json dict" where
  "throughput_args = [(''subject_type'', JStr ''point-to-point''), (''source'', JStr ''10.0.0.1''),
     (''destination'', JStr ''10.0.0.2''), (''tool_name'', JStr ''iperf''), (''measurement_agent'', JStr ''10.0.0.1''),
     (''input_source'', JStr ''a''), (''input_destination'', JStr ''b'')]"

definition throughput_post :: metadata_post where
  "throughput_post = new_metadata_post ''http://host'' [] [] ''esmond'' throughput_args"

lemma throughput_payload: "mp_args throughput_post = throughput_args @ [(''time_duration'', JNull), (''ip_transport_protocol'', JNull)]"
  "mp_payload throughput_post = map (\<lambda>(a, v). (redash a, v)) throughput_args @
     [(''time-duration'', JNull), (''ip-transport-protocol'', JNull), (''event-types'', JList [])]"
  by (simp_all add: throughput_post_def new_metadata_post_def Let_def required_args_def optional_args_def throughput_args_def
      get_or_none_def redash_def)

theorem metadata_post_accepted_witness:
  "\<exists>p p' v. add_summary_type ''throughput'' ''average'' [JInt 86400] throughput_post = Inr p \<and> validate_metadata p = Inr p' \<and>
    to_internal_value (JObj (mp_payload p')) = Inr v \<and>
    va_event_types v = [(''throughput'', ''base'', JStr ''0''), (''throughput'', ''average'', JInt 86400)]"
proof -
  let ?specs = "[(''throughput'', [(''average'', JInt 86400)])]"
  let ?p = "set_event_types (map spec_json ?specs) throughput_post"
  have p: "add_summary_type ''throughput'' ''average'' [JInt 86400] throughput_post = Inr ?p"
    by (simp add: add_summary_type_def check_window_def payload_event_types_def throughput_payload spec_json_def
        throughput_args_def redash_def)
  obtain p' where p': "validate_metadata ?p = Inr p'"
    by (simp add: validate_metadata_def required_args_def set_event_types_def throughput_payload throughput_args_def get_or_none_def)
  have known: "list_all spec_known ?specs"
    by (simp add: spec_known_def EVENT_TYPE_CONFIG_def INVERSE_SUMMARY_TYPES_eq has_key_def)
  have payload: "dict_wf (mp_payload ?p)" "map_of (mp_payload ?p) ''metadata-key'' = None"
      "subject_model_of (mp_payload ?p) = Some ''pspointtopointsubject''"
    by (simp_all add: set_event_types_def throughput_payload throughput_args_def redash_def subject_model_of_def SUBJECT_MODEL_MAP_def)
  show ?thesis
    using metadata_post_accepted [OF built_set known p' payload] p p' by (auto simp: spec_rows_def)
qed

subsection \<open>Where the client does not do what it says\<close>

text \<open>The warning says that a known event type is skipped; it is added a second time.\<close>

lemma fold_warn_keeps: "m \<in> set (pb_warnings b) \<Longrightarrow> m \<in> set (pb_warnings (fold (\<lambda>k b. if k then warn msg b else b) ks b))"
  by (induction ks arbitrary: b) (auto simp: warn_def)

lemma fold_warn: "True \<in> set ks \<Longrightarrow> msg \<in> set (pb_warnings (fold (\<lambda>k b. if k then warn msg b else b) ks b))"
proof (induction ks arbitrary: b)
  case (Cons k ks)
  have "msg \<in> set (pb_warnings (warn msg b))" by (simp add: warn_def)
  then show ?case using Cons fold_warn_keeps [of msg "warn msg b" msg ks] by (cases k) auto
qed simp

lemma known_event_type_added:
  assumes "built p specs" and "(et, ss) \<in> set specs"
  shows "\<exists>p'. post_add_event_type et p = Inr p' \<and> built p' (specs @ [(et, [])]) \<and>
    already_exists et \<in> set (pb_warnings (mp_base p'))"
proof -
  let ?msg = "already_exists et"
  have known: "rmap (is_event_type et) (map spec_json specs) = Inr (map (\<lambda>e. fst e = et) specs)"
    by (induction specs) simp_all
  have "True \<in> set (map (\<lambda>e. fst e = et) specs)" using assms(2) by force
  then have "?msg \<in> set (pb_warnings (fold (\<lambda>k b. if k then warn ?msg b else b) (map (\<lambda>e. fst e = et) specs) (mp_base p)))"
    by (rule fold_warn)
  moreover have "JObj [(''event-type'', JStr et), (''summaries'', JList [])] = spec_json (et, [])"
    by (simp add: spec_json_def)
  ultimately show ?thesis
    by (simp add: post_add_event_type_def built_event_types [OF assms(1)] known Let_def set_event_types_def built_def)
qed

text \<open>A freeform value under the name of an optional argument that was not given is not sent.\<close>

lemma freeform_duration_dropped:
  assumes "validate_metadata (add_freeform_key_value ''time-duration'' v p) = Inr p'"
    and "\<not> py_truthy (get_or_none (mp_args p) ''time_duration'')"
  shows "map_of (mp_payload p') ''time-duration'' = None"
proof -
  have "mp_args (add_freeform_key_value k v p) = mp_args p" for k by (simp add: add_freeform_key_value_def)
  then show ?thesis
    using assms by (auto simp: validate_metadata_def optional_args_def redash_def delete_conv split: list.splits)
qed

text \<open>Only the left end of the script alias is stripped.\<close>

lemma alias_end_not_stripped: "schema_root ''/esmond/'' = ''esmond//perfsonar/archive''"
  by (simp add: schema_root_def lstrip_slash_def PS_ROOT_def)

end
