(* ===== verification/Client_Round_Trip.thy ===== *)
theory Client_Round_Trip
  imports Client_Pages Client_Post_Facts
begin

section \<open>From the POST client to the query client\<close>

text \<open>
  The whole way of a measurement: \<open>EventTypePost\<close> sends its points one by one to the POST view of a
  JSON series, each is written and flushed, and the loop of the query client reads them back
  through the GET view of the same series.
\<close>

text \<open>What the URL of a series captures, and its POST view behind HTTP.\<close>

definition series_kwargs :: "string \<Rightarrow> string \<Rightarrow> string dict" where
  "series_kwargs mk et = [(''metadata_key'', mk), (''event_type'', et)]"

definition post_view ::
  "'d pycassa \<Rightarrow> datetime \<Rightarrow> string dict \<Rightarrow> (exn \<Rightarrow> int) \<Rightarrow> 'd archive server" where
  "post_view P now kwargs status verb url headers body ar =
     (case timeseries_create P now kwargs (json_request_of headers body) ar of
        (None, ar') \<Rightarrow> (Reply 201 [] (Some body), ar')
      | (Some e, ar') \<Rightarrow> (Reply (status e) [] None, ar'))"

lemma json_type_known: "event_type_config et = Inr TJson \<Longrightarrow> has_key et EVENT_TYPE_CONFIG"
  by (simp add: event_type_config_def has_key_map_of split: option.splits)

lemma check_create_point:
  assumes "map_of headers ''content-type'' = Some ''application/json''" and "event_type_config et = Inr TJson"
  shows "check_create (series_kwargs mk et) (json_request_of headers (JObj [(''ts'', JInt s), (''val'', v)])) =
    Inr (new_ts_object (JInt s) v mk et)"
  using assms json_type_known [OF assms(2)]
  by (simp add: check_create_def series_kwargs_def json_request_of_def decode_request_def has_key_def [of "''ts''"] has_key_def [of "''val''"])

lemma check_retrieve_series:
  assumes "event_type_config et = Inr TJson"
  shows "check_retrieve (series_kwargs mk et) = Inr (et, mk, ''base'')" "map_of (series_kwargs mk et) ''summary_window'' = None"
  using json_type_known [OF assms] by (simp_all add: check_retrieve_def series_kwargs_def)

subsection \<open>Writing points\<close>

definition year_key :: "string list \<Rightarrow> int \<Rightarrow> string" where
  "year_key path t = get_rowkey path None (Some (dt_year (dt_of_secs t)))"

definition put_point :: "string list \<Rightarrow> int \<times> json \<Rightarrow> (string \<Rightarrow> row) \<Rightarrow> (string \<Rightarrow> row)" where
  "put_point path p = apply_mut RawCF (Ins (year_key path (fst p)) (fst p * 1000) (RawCol (snd p)))"

text \<open>The rows are well formed, hold raw columns, and each column is in the row of its year.\<close>

definition good_rows :: "(string \<Rightarrow> row) \<Rightarrow> bool" where
  "good_rows rows = ((\<forall>k. row_ok (rows k)) \<and> raw_rows rows \<and> year_placed rows)"

lemma put_point_good:
  assumes "good_rows rows" and "ms_ok (fst p)"
  shows "good_rows (put_point path p rows)"
proof -
  have ok: "row_ok (rows k)" for k using assms(1) by (simp add: good_rows_def)
  have "1 \<le> dt_year (dt_of_secs (fst p))" using assms(2) by (simp add: ms_ok_def valid_secs_def)
  have "year_placed rows" using assms(1) by (simp add: good_rows_def)
  from year_placed_put [OF this ok \<open>1 \<le> dt_year (dt_of_secs (fst p))\<close>, of RawCF path None "RawCol (snd p)"]
  have "year_placed (put_point path p rows)"
    by (simp add: good_rows_def put_point_def year_key_def timegm_def del: apply_mut.simps)
  moreover have "raw_rows (put_point path p rows)"
    unfolding put_point_def using raw_rows_put [OF _ ok] assms(1) by (simp add: good_rows_def del: apply_mut.simps)
  moreover have "row_ok (put_point path p rows k)" for k using ok by (simp add: put_point_def put_col_ok)
  ultimately show ?thesis by (simp add: good_rows_def)
qed

lemma put_points_good: "good_rows rows \<Longrightarrow> \<forall>p \<in> set pts. ms_ok (fst p) \<Longrightarrow> good_rows (fold (put_point path) pts rows)"
  by (induction pts arbitrary: rows) (simp_all add: put_point_good)

lemma put_point_column:
  assumes "row_ok (rows k)"
  shows "map_of (put_point path p rows k) c =
    (if k = year_key path (fst p) \<and> c = fst p * 1000 then Some (RawCol (snd p)) else map_of (rows k) c)"
  using map_of_put_col [of "rows k" RawCF "fst p * 1000" "RawCol (snd p)"] assms by (auto simp: put_point_def)

lemma put_points_column:
  assumes "good_rows rows" and "\<forall>p \<in> set pts. ms_ok (fst p)" and "distinct (map fst pts)"
  shows "map_of (fold (put_point path) pts rows (year_key path t)) (t * 1000) =
    (case map_of pts t of None \<Rightarrow> map_of (rows (year_key path t)) (t * 1000) | Some v \<Rightarrow> Some (RawCol v))"
  using assms
proof (induction pts arbitrary: rows)
  case (Cons p pts)
  have ok: "row_ok (rows k)" for k using Cons.prems(1) by (simp add: good_rows_def)
  have "map_of pts (fst p) = None" using Cons.prems(3) by (simp add: map_of_eq_None_iff)
  then show ?case
    using Cons.IH [OF put_point_good [OF Cons.prems(1), of p path]] Cons.prems(2,3) put_point_column [of rows _ path p, OF ok]
    by (cases p) (auto split: option.split)
qed simp

lemma written_points_in_series:
  assumes "good_rows rows" and "\<forall>p \<in> set pts. ms_ok (fst p) \<and> a \<le> fst p \<and> fst p \<le> b" and "distinct (map fst pts)"
  shows "set pts \<subseteq> set (series_points (fold (put_point path) pts rows) path a b)"
proof
  fix p assume p: "p \<in> set pts"
  let ?rows = "fold (put_point path) pts rows" and ?t = "fst p" and ?v = "snd p"
  have "map_of pts ?t = Some ?v" using assms(3) p by (simp add: map_of_eq_Some_iff)
  then have "map_of (?rows (year_key path ?t)) (?t * 1000) = Some (RawCol ?v)"
    using put_points_column [OF assms(1) _ assms(3), of path ?t] assms(2) by simp
  then have "(?t * 1000, RawCol ?v) \<in> set (?rows (year_key path ?t))" by (rule map_of_SomeD)
  then have "(?t * 1000, RawCol ?v) \<in> set (range_cols ?rows (year_keys path None a b) (a * 1000) (b * 1000))"
    using year_key_in_range [of a ?t b path None] assms(2) p by (auto simp: range_cols_set year_key_def)
  then show "p \<in> set (series_points ?rows path a b)" unfolding series_points_def by (force simp: col_json_def)
qed

subsection \<open>Sending points\<close>

fun add_readings :: "(int \<times> json) list \<Rightarrow> event_type_post \<Rightarrow> event_type_post res" where
  "add_readings [] p = Inr p"
| "add_readings ((t, v) # pts) p = rbind (post_add_data_point (JInt t) v p) (add_readings pts)"

lemma add_readings_payload:
  "add_readings pts p = Inr (p\<lparr>ep_payload := ep_payload p @ map (\<lambda>(t, v). (JInt t, v)) pts\<rparr>)"
  by (induction pts arbitrary: p) (auto simp: post_add_data_point_def int_value_def)

definition settled_rows :: "('d \<Rightarrow> colfam \<Rightarrow> string \<Rightarrow> row) \<Rightarrow> ('d \<Rightarrow> colfam \<Rightarrow> mutation list) \<Rightarrow> 'd archive \<Rightarrow> string \<Rightarrow> row" where
  "settled_rows sent pending ar = settled sent pending (cdb (ar_cass ar)) RawCF"

lemma post_one_point:
  assumes "batched_store P sent pending" and "event_type_config et = Inr TJson" and "ms_ok t"
    and "select_summaries (ar_event_types ar) et mk = [(''base'', 0)]"
    and "map_of (pb_headers b) ''content-type'' = Some ''application/json''"
  shows "\<exists>ar' j. send_json (post_view P now (series_kwargs mk et) status) ''POST'' url b (JObj [(''ts'', JInt t), (''val'', v)]) ar
      = (Inr j, ar') \<and>
    sent (cdb (ar_cass ar')) RawCF = put_point (base_path et mk) (t, v) (settled_rows sent pending ar) \<and>
    settled_rows sent pending ar' = sent (cdb (ar_cass ar')) RawCF \<and>
    select_summaries (ar_event_types ar') et mk = [(''base'', 0)]"
proof -
  let ?o = "new_ts_object (JInt t) v mk et"
  have o: "to_event_type ?o = et" "to_metadata_key ?o = mk" "to_ts ?o = JInt t" "to_value ?o = v"
    by (simp_all add: new_ts_object_def)
  obtain st1 ar' where w: "set_raw_data P (json_datum ?o t) (ar_cass ar) = Inr st1" "flush P st1 = Inr (ar_cass ar')"
      and create: "timeseries_create P now (series_kwargs mk et)
        (json_request_of (pb_headers b) (JObj [(''ts'', JInt t), (''val'', v)])) ar = (None, ar')"
      and sel: "select_summaries (ar_event_types ar') et mk = [(''base'', 0)]"
    using json_post_writes [OF assms(1) check_create_point [OF assms(5,2)], where s = t and ar = ar and now = now] assms(2-4) o by metis
  have "sent (cdb (ar_cass ar')) RawCF = put_point (base_path et mk) (t, v) (settled_rows sent pending ar)"
    unfolding raw_write_sent [OF assms(1) w]
    by (simp add: put_point_def settled_rows_def json_datum_def o base_path_def year_key_def get_key_def ts_to_jstime_def
        timegm_def del: apply_mut.simps)
  moreover have "settled_rows sent pending ar' = sent (cdb (ar_cass ar')) RawCF"
    using batched_store.flush_settled [OF assms(1) w(2)] by (simp add: settled_rows_def settled_def)
  ultimately show ?thesis
    using create sel by (intro exI [of _ ar']) (simp add: send_json_def post_view_def)
qed

lemma post_all_points:
  assumes "batched_store P sent pending" and "event_type_config et = Inr TJson"
    and "map_of (pb_headers b) ''content-type'' = Some ''application/json''"
    and "\<forall>p \<in> set pts. ms_ok (fst p)"
    and "select_summaries (ar_event_types ar) et mk = [(''base'', 0)]"
  shows "\<exists>ar'. post_points (post_view P now (series_kwargs mk et) status) url b (map (\<lambda>(t, v). (JInt t, v)) pts) ar = (None, ar') \<and>
    settled_rows sent pending ar' = fold (put_point (base_path et mk)) pts (settled_rows sent pending ar) \<and>
    (pts \<noteq> [] \<longrightarrow> sent (cdb (ar_cass ar')) RawCF = settled_rows sent pending ar')"
  using assms(4,5)
proof (induction pts arbitrary: ar)
  case (Cons p pts)
  obtain t v where p: "p = (t, v)" by (cases p)
  then have "ms_ok t" using Cons.prems(1) by simp
  from post_one_point [OF assms(1,2) this Cons.prems(2) assms(3), of now status url v]
  obtain ar1 j where one: "send_json (post_view P now (series_kwargs mk et) status) ''POST'' url b (JObj [(''ts'', JInt t), (''val'', v)]) ar
        = (Inr j, ar1)"
      "sent (cdb (ar_cass ar1)) RawCF = put_point (base_path et mk) (t, v) (settled_rows sent pending ar)"
      "settled_rows sent pending ar1 = sent (cdb (ar_cass ar1)) RawCF"
      "select_summaries (ar_event_types ar1) et mk = [(''base'', 0)]"
    by blast
  obtain ar' where rest: "post_points (post_view P now (series_kwargs mk et) status) url b (map (\<lambda>(t, v). (JInt t, v)) pts) ar1 = (None, ar')"
      "settled_rows sent pending ar' = fold (put_point (base_path et mk)) pts (settled_rows sent pending ar1)"
      "pts \<noteq> [] \<longrightarrow> sent (cdb (ar_cass ar')) RawCF = settled_rows sent pending ar'"
    using Cons.IH [OF _ one(4)] Cons.prems(1) by auto
  show ?case
  proof (cases pts)
    case Nil
    then show ?thesis using one p by simp
  next
    case (Cons q qs)
    then have "pts \<noteq> []" by simp
    then show ?thesis using one rest p by (intro exI [of _ ar']) simp
  qed
qed simp

text \<open>
  C34. What the POST client sends, the query client reads: points with distinct times from \<open>a\<close> up
  to before \<open>b\<close>, added to an \<open>EventTypePost\<close> of a JSON series and sent to the POST view, are
  accepted without an error; then the loop of requests, asking the GET view of the series for
  the window from \<open>a\<close> to \<open>b\<close>, ends and returns all of them, with the values they were sent with.
\<close>

theorem posted_points_are_read:
  assumes "batched_store P sent pending"
    and "new_event_type_post api_url username api_key script_alias mk et = Inr p0"
    and "event_type_config et = Inr TJson"
    and "select_summaries (ar_event_types ar) et mk = [(''base'', 0)]"
    and "good_rows (settled sent pending (cdb (ar_cass ar)) RawCF)"
    and "pages_by_limit paginate"
    and "pts \<noteq> []" and "distinct (map fst pts)" and "\<forall>p \<in> set pts. a \<le> fst p \<and> fst p < b"
    and "ms_ok a" and "ms_ok b"
    and "dict_wf (af_time (ni_filters node))"
    and "map_of (af_time (ni_filters node)) ''time-start'' = Some (JInt a)"
    and "map_of (af_time (ni_filters node)) ''time-end'' = Some (JInt b)"
    and "map_of (af_time (ni_filters node)) ''time'' = None" and "map_of (af_time (ni_filters node)) ''offset'' = None"
  shows "\<exists>p ar' out. add_readings pts p0 = Inr p \<and>
    post_data (post_view P now (series_kwargs mk et) status) p ar = (None, ar') \<and>
    query_with_limit (\<lambda>u q h. series_http P paginate url_path now' fail (series_kwargs mk et) ar' q) uri node =
      Some (Inr (map point_json out)) \<and> set pts \<subseteq> set out"
proof -
  let ?p = "p0\<lparr>ep_payload := map (\<lambda>(t, v). (JInt t, v)) pts\<rparr>" and ?path = "base_path et mk"
  have p0: "ep_payload p0 = []" "ep_base p0 = new_post_base api_url username api_key script_alias"
    using assms(2) by (auto simp: new_event_type_post_def split: if_splits)
  have ok: "\<forall>p \<in> set pts. ms_ok (fst p)" using assms(9) ms_ok_between [OF assms(10,11)] by auto
  have json: "map_of (pb_headers (ep_base ?p)) ''content-type'' = Some ''application/json''"
    using p0(2) post_headers_json by simp
  obtain ar' where post: "post_data (post_view P now (series_kwargs mk et) status) ?p ar = (None, ar')"
      and rows: "sent (cdb (ar_cass ar')) RawCF = fold (put_point ?path) pts (settled_rows sent pending ar)"
    using post_all_points [OF assms(1,3) json ok assms(4), of now status] assms(7) by (simp add: post_data_def Let_def) metis
  have good: "good_rows (settled_rows sent pending ar)" using assms(5) by (simp add: settled_rows_def)
  have "good_rows (sent (cdb (ar_cass ar')) RawCF)" unfolding rows using good ok by (rule put_points_good)
  then have raw: "raw_rows (sent (cdb (ar_cass ar')) RawCF)" "year_placed (sent (cdb (ar_cass ar')) RawCF)"
    by (simp_all add: good_rows_def)
  have "a \<le> b" using assms(7,9) by (cases pts) auto
  let ?http = "\<lambda>(u :: string) q (h :: string dict). series_http P paginate url_path now' fail (series_kwargs mk et) ar' q"
  obtain out where query: "query_with_limit ?http uri node = Some (Inr (map point_json out))"
      and out: "out = series_points (sent (cdb (ar_cass ar')) RawCF) ?path a b \<or>
        (\<exists>v. series_points (sent (cdb (ar_cass ar')) RawCF) ?path a b = out @ [(b, v)] \<and> out \<noteq> [] \<and> fst (last out) = b - 1)"
    using client_reads_window [where sent = sent and ar = ar' and http = ?http and url_path = url_path and now = now' and fail = fail and uri = uri,
        OF assms(1) raw assms(6) check_retrieve_series [OF assms(3)] assms(3,10,11) \<open>a \<le> b\<close> refl assms(12-16)] by blast
  have "set pts \<subseteq> set (series_points (sent (cdb (ar_cass ar')) RawCF) ?path a b)"
    unfolding rows using good ok assms(8,9) by (intro written_points_in_series) auto
  moreover have "(b, v) \<notin> set pts" for v using assms(9) by force
  ultimately have "set pts \<subseteq> set out" using out by (auto simp: subset_iff) metis
  then show ?thesis using add_readings_payload [of pts p0] p0(1) post query by auto
qed

text \<open>Two points, sent to an empty archive.\<close>

definition two_points :: "(int \<times> json) list" where
  "two_points = [(600, JStr ''down''), (60, JNull)]"

theorem posted_points_are_read_witness:
  "\<exists>p0 p ar' out. new_event_type_post ''http://host/'' ''u'' ''k'' ''esmond'' ''0CB1'' ''failures'' = Inr p0 \<and>
    add_readings two_points p0 = Inr p \<and>
    post_data (post_view mem_store (DT 0) (series_kwargs ''0CB1'' ''failures'') (\<lambda>_. 400)) p json_archive = (None, ar') \<and>
    query_with_limit (\<lambda>u q h. series_http mem_store limit_pages (\<lambda>k. ''/'' @ k) 2000 Inl (series_kwargs ''0CB1'' ''failures'') ar' q)
      ''/base'' crowded_node = Some (Inr (map point_json out)) \<and>
    (600, JStr ''down'') \<in> set out \<and> (60, JNull) \<in> set out"
proof -
  obtain p0 where p0: "new_event_type_post ''http://host/'' ''u'' ''k'' ''esmond'' ''0CB1'' ''failures'' = Inr p0"
    by (simp add: new_event_type_post_def)
  have sel: "select_summaries (ar_event_types json_archive) ''failures'' ''0CB1'' = [(''base'', 0)]"
    by (simp add: json_archive_def select_summaries_def sort_by_def)
  have good: "good_rows (settled mem_rows mem_queue (cdb (ar_cass json_archive)) RawCF)"
    by (simp add: json_archive_def empty_cass_def mem_empty_settled good_rows_def raw_rows_def year_placed_def row_ok_def)
  have pts: "two_points \<noteq> []" "distinct (map fst two_points)" "\<forall>p \<in> set two_points. 0 \<le> fst p \<and> fst p < 1000"
    by (simp_all add: two_points_def)
  show ?thesis
    using posted_points_are_read [where pts = two_points and ar = json_archive and now = "DT 0" and status = "\<lambda>_. 400"
        and url_path = "\<lambda>k. ''/'' @ k" and now' = 2000 and fail = Inl and uri = "''/base''",
        OF mem.batched_store_axioms p0 crowded.json_type sel good crowded.pages pts years_1970(3,4) crowded_asks] p0
    unfolding two_points_def by auto
qed

end
