(* ===== verification/Histogram_Percentiles.thy ===== *)
theory Histogram_Percentiles
  imports Validator_Facts
begin

section \<open>The percentiles of a histogram\<close>

text \<open>
  The loop of \<open>HistogramValidator.statistics\<close> finds four percentiles in one pass over the
  sorted buckets, holding back the one whose rank ends a bucket until the next bucket is
  seen. The reference is the definition the code cites (NIST/SEMATECH handbook, 7.2.6.2):
  with \<open>p (N + 1) / 100 = k + d\<close>, the value at rank \<open>k\<close> moved by the fraction \<open>d\<close> towards the
  value at rank \<open>k + 1\<close>, ranks outside the sample being clamped to it. For a histogram whose
  counts are positive the loop computes exactly this, in the same floating point operations.
\<close>

definition interpolate :: "pyfloat \<Rightarrow> pyfloat \<Rightarrow> pyfloat \<Rightarrow> pyfloat" where
  "interpolate d a b = fadd a (fmul d (fsub b a))"

text \<open>The measurement of rank \<open>j\<close>, counted from 1, of the sorted buckets.\<close>

fun item_at :: "(pyfloat \<times> int) list \<Rightarrow> int \<Rightarrow> pyfloat" where
  "item_at [] j = NaN"
| "item_at ((v, n) # items) j = (if j \<le> n \<or> items = [] then v else item_at items (j - n))"

definition nist_percentile :: "(pyfloat \<times> int) list \<Rightarrow> int \<Rightarrow> pyfloat \<Rightarrow> pyfloat" where
  "nist_percentile items k d = interpolate d (item_at items k) (item_at items (k + 1))"

definition double_value :: "pyfloat \<Rightarrow> bool" where
  "double_value v = (\<exists>r. v = Fin r \<and> double r \<and> \<bar>r\<bar> < 2 ^ 1024)"

definition good_items :: "(pyfloat \<times> int) list \<Rightarrow> bool" where
  "good_items items = (\<forall>(v, n) \<in> set items. double_value v \<and> 0 < n)"

definition sample_count :: "(pyfloat \<times> int) list \<Rightarrow> int" where
  "sample_count items = sum_list (map snd items)"

text \<open>The rank and the fraction add up again without rounding.\<close>

definition good_percentile :: "int \<Rightarrow> percentile \<Rightarrow> bool" where
  "good_percentile N p = (0 \<le> pc_k p \<and> pc_k p \<le> N \<and> pc_sample_size p = N \<and>
     (\<exists>\<delta> x. pc_d p = Fin \<delta> \<and> fadd (Fin (of_int (pc_k p))) (pc_d p) = Fin x \<and> \<lfloor>x\<rfloor> = pc_k p))"

definition rank_ordered :: "int \<Rightarrow> percentile list \<Rightarrow> bool" where
  "rank_ordered N pcs = sorted_wrt (\<lambda>p q. pc_k p < pc_k q \<or> pc_k q = N) pcs"

lemma interpolate_same: "double_value v \<Longrightarrow> interpolate (Fin \<delta>) v v = v"
  using mkfloat_of_int [of 0]
  by (auto simp: double_value_def interpolate_def fsub_def fneg_def fadd_def fmul_def mkfloat_double)

lemma sample_count_simps [simp]:
  "sample_count [] = 0" "sample_count ((v, n) # items) = n + sample_count items"
  by (simp_all add: sample_count_def)

lemma good_items_Cons [simp]:
  "good_items ((v, n) # items) \<longleftrightarrow> double_value v \<and> 0 < n \<and> good_items items"
  "good_items []"
  by (auto simp: good_items_def)

lemma sample_count_pos: "good_items items \<Longrightarrow> items \<noteq> [] \<Longrightarrow> 0 < sample_count items"
proof (induction items)
  case Nil
  then show ?case by simp
next
  case (Cons vn items)
  then show ?case by (cases vn; cases "items = []") auto
qed

lemma item_at_first: "j \<le> n \<Longrightarrow> item_at ((v, n) # items) j = v"
  by simp

lemma item_at_next: "n < j \<Longrightarrow> items \<noteq> [] \<Longrightarrow> item_at ((v, n) # items) j = item_at items (j - n)"
  by simp

subsection \<open>One percentile at one bucket\<close>

definition fresh :: "int \<Rightarrow> percentile \<Rightarrow> bool" where
  "fresh c p = (pc_value p = None \<and> \<not> pc_is_calculated p \<and> (c < pc_k p \<or> pc_k p = 0 \<and> c = 0))"

definition found_at :: "int \<Rightarrow> int \<Rightarrow> percentile \<Rightarrow> bool" where
  "found_at N c p = (pc_k p = 0 \<or> pc_k p < c \<or> c = N)"

lemma findvalue_fresh:
  assumes "good_percentile N p" and "pc_value p = None" and "\<not> pc_is_calculated p"
    and "pc_k p \<le> c" and "c \<le> N" and "N < 2 ^ 53"
  shows "findvalue p c v =
    Inr (p\<lparr>pc_value := Some v, pc_is_calculated := found_at N c p\<rparr>)"
proof -
  obtain \<delta> x where d: "pc_d p = Fin \<delta>" "fadd (Fin (of_int (pc_k p))) (pc_d p) = Fin x" "\<lfloor>x\<rfloor> = pc_k p"
    and k: "0 \<le> pc_k p" "pc_k p \<le> N" "pc_sample_size p = N"
    using assms(1) by (auto simp: good_percentile_def)
  have "x < of_int c \<longleftrightarrow> pc_k p < c" using d(3) by (metis floor_less_iff)
  moreover have "float_of_int (pc_k p) = Inr (Fin (of_int (pc_k p)))"
    using k assms(6) by (intro float_of_int_exact) linarith
  ultimately show ?thesis using assms(2-5) k d
    by (auto simp: findvalue_def found_at_def flt_def)
qed

text \<open>The loop of one bucket over percentiles none of which is held back.\<close>

lemma find_percentiles_fresh:
  assumes "\<forall>p \<in> set pcs. fresh c p \<and> good_percentile N p" and "rank_ordered N pcs"
    and "c < c'" and "0 \<le> c" and "c' \<le> N" and "N < 2 ^ 53" and "distinct (map pc_key pcs)"
  shows "\<exists>A B pcs' stats'. pcs = A @ B \<and> find_percentiles c' v pcs stats = Inr (pcs', stats') \<and>
    (\<forall>p \<in> set A. found_at N c' p \<and> pc_k p \<le> c' \<and> map_of stats' (pc_key p) = Some (JFloat v)) \<and>
    (\<forall>key. key \<notin> pc_key ` set A \<longrightarrow> map_of stats' key = map_of stats key) \<and>
    (pcs' = B \<and> (\<forall>q \<in> set B. fresh c' q) \<or>
     (\<exists>p ps. B = p # ps \<and> pcs' = p\<lparr>pc_value := Some v\<rparr> # ps \<and> pc_k p = c' \<and> c' < N \<and> fresh c p \<and>
        (\<forall>q \<in> set ps. fresh c' q)))"
  using assms(1,2,7)
proof (induction pcs arbitrary: stats)
  case Nil
  show ?case by (intro exI [of _ "[]"] exI [of _ stats]) simp
next
  case (Cons p ps)
  have p: "fresh c p" "good_percentile N p" using Cons.prems(1) by simp_all
  have ord: "\<forall>q \<in> set ps. pc_k p < pc_k q \<or> pc_k q = N" "rank_ordered N ps"
    using Cons.prems(2) by (simp_all add: rank_ordered_def)
  have later: "fresh c' q" if "q \<in> set ps" "c' \<le> pc_k p" "c' < N" for q
    using that ord(1) Cons.prems(1) assms(4) by (auto simp: fresh_def)
  have kN: "pc_k p \<le> N" using p(2) by (simp add: good_percentile_def)
  show ?case
  proof (cases "pc_k p \<le> c'")
    case False
    then have "\<forall>q \<in> set (p # ps). fresh c' q" using later p(1) kN by (auto simp: fresh_def)
    then show ?thesis using False
      by (intro exI [of _ "[]"] exI [of _ "p # ps"] exI [of _ stats]) simp
  next
    case True
    have f: "findvalue p c' v = Inr (p\<lparr>pc_value := Some v, pc_is_calculated := found_at N c' p\<rparr>)"
      using p True assms(5,6) by (intro findvalue_fresh) (auto simp: fresh_def)
    show ?thesis
    proof (cases "found_at N c' p")
      case False
      then have k: "pc_k p = c'" "c' < N" using True assms(5) by (auto simp: found_at_def)
      have "\<not> pc_is_calculated p" using p(1) by (simp add: fresh_def)
      then have "find_percentiles c' v (p # ps) stats = Inr (p\<lparr>pc_value := Some v\<rparr> # ps, stats)"
        using True f False by simp
      then show ?thesis using k p(1) later
        by (intro exI [of _ "[]"] exI [of _ "p # ps"] exI [of _ "p\<lparr>pc_value := Some v\<rparr> # ps"] exI [of _ stats]) auto
    next
      case found: True
      let ?stats = "AList.update (pc_key p) (JFloat v) stats"
      have step: "find_percentiles c' v (p # ps) stats = find_percentiles c' v ps ?stats"
        using True f found by simp
      have "\<forall>p \<in> set ps. fresh c p \<and> good_percentile N p" "distinct (map pc_key ps)"
        using Cons.prems by simp_all
      from Cons.IH [OF this(1) ord(2) this(2), of ?stats] obtain A B pcs' stats' where
        AB: "ps = A @ B" "find_percentiles c' v ps ?stats = Inr (pcs', stats')"
          "\<forall>p \<in> set A. found_at N c' p \<and> pc_k p \<le> c' \<and> map_of stats' (pc_key p) = Some (JFloat v)"
          "\<forall>key. key \<notin> pc_key ` set A \<longrightarrow> map_of stats' key = map_of ?stats key"
          "pcs' = B \<and> (\<forall>q \<in> set B. fresh c' q) \<or>
           (\<exists>p ps. B = p # ps \<and> pcs' = p\<lparr>pc_value := Some v\<rparr> # ps \<and> pc_k p = c' \<and> c' < N \<and> fresh c p \<and>
              (\<forall>q \<in> set ps. fresh c' q))"
        by blast
      have "pc_key p \<notin> pc_key ` set A" using Cons.prems(3) AB(1) by auto
      then have "map_of stats' (pc_key p) = Some (JFloat v)" using AB(4) by simp
      then have "\<forall>q \<in> set (p # A). found_at N c' q \<and> pc_k q \<le> c' \<and> map_of stats' (pc_key q) = Some (JFloat v)"
          "\<forall>key. key \<notin> pc_key ` set (p # A) \<longrightarrow> map_of stats' key = map_of stats key"
        using AB(3,4) found True by auto
      moreover have "p # ps = (p # A) @ B" "find_percentiles c' v (p # ps) stats = Inr (pcs', stats')"
        using AB(1,2) step by simp_all
      ultimately show ?thesis using AB(5) by blast
    qed
  qed
qed

subsection \<open>The pass over the buckets\<close>

text \<open>The loop between two buckets: nothing found beyond the rank counted, at most the head held back.\<close>

definition held_back :: "int \<Rightarrow> int \<Rightarrow> pyfloat \<Rightarrow> percentile \<Rightarrow> bool" where
  "held_back N c vp p = (pc_value p = Some vp \<and> \<not> pc_is_calculated p \<and> pc_k p = c \<and> 0 < c \<and> c < N)"

definition ready :: "int \<Rightarrow> int \<Rightarrow> pyfloat \<Rightarrow> percentile list \<Rightarrow> bool" where
  "ready N c vp pcs = (case pcs of [] \<Rightarrow> True
     | p # ps \<Rightarrow> (fresh c p \<or> held_back N c vp p) \<and> (\<forall>q \<in> set ps. fresh c q))"

definition expected :: "int \<Rightarrow> pyfloat \<Rightarrow> (pyfloat \<times> int) list \<Rightarrow> percentile \<Rightarrow> pyfloat" where
  "expected c vp items p =
     (case pc_value p of
        None \<Rightarrow> interpolate (pc_d p) (item_at items (pc_k p - c)) (item_at items (pc_k p + 1 - c))
      | Some _ \<Rightarrow> interpolate (pc_d p) vp (item_at items (pc_k p + 1 - c)))"

lemma items_left: "good_items items \<Longrightarrow> 0 < sample_count items \<Longrightarrow> items \<noteq> []"
  by auto

lemma expected_found:
  assumes "fresh c p" and "good_percentile N p" and "found_at N (c + n) p" and "pc_k p \<le> c + n"
    and "good_items ((v, n) # items)" and "0 \<le> c" and "c + sample_count ((v, n) # items) = N"
  shows "expected c vp ((v, n) # items) p = v"
proof -
  obtain \<delta> where d: "pc_d p = Fin \<delta>" using assms(2) by (auto simp: good_percentile_def)
  have none: "pc_value p = None" using assms(1) by (simp add: fresh_def)
  have "items = []" if "c + n = N" using that assms(5,7) sample_count_pos [of items] by fastforce
  then have "item_at ((v, n) # items) (pc_k p + 1 - c) = v"
    using assms(1,3,5,6) by (auto simp: found_at_def fresh_def)
  moreover have "item_at ((v, n) # items) (pc_k p - c) = v" using assms(4) by simp
  ultimately show ?thesis using interpolate_same [of v \<delta>] assms(5) none d by (simp add: expected_def)
qed

lemma expected_later:
  assumes "fresh c p" and "fresh (c + n) p" and "good_percentile N p"
    and "good_items ((v, n) # items)" and "0 \<le> c" and "c + sample_count ((v, n) # items) = N"
  shows "expected (c + n) v items p = expected c vp ((v, n) # items) p"
proof -
  have k: "c + n < pc_k p" "pc_k p \<le> N" "pc_value p = None"
    using assms(2-5) by (auto simp: fresh_def good_percentile_def)
  then have "items \<noteq> []" using assms(4,6) items_left [of items] by simp
  then show ?thesis using k by (simp add: expected_def algebra_simps)
qed

lemma expected_hold:
  assumes "fresh c p" and "pc_k p = c + n" and "c + n < N"
    and "good_items ((v, n) # items)" and "c + sample_count ((v, n) # items) = N"
  shows "expected (c + n) v items (p\<lparr>pc_value := Some v\<rparr>) = expected c vp ((v, n) # items) p"
proof -
  have "items \<noteq> []" using assms(3-5) items_left [of items] by simp
  then show ?thesis using assms(1,2) by (simp add: expected_def fresh_def algebra_simps)
qed

text \<open>What one bucket does to a ready list.\<close>

definition bucket_ok ::
  "int \<Rightarrow> int \<Rightarrow> pyfloat \<Rightarrow> pyfloat \<Rightarrow> int \<Rightarrow> (pyfloat \<times> int) list \<Rightarrow> percentile list \<Rightarrow> stats \<Rightarrow> percentile list \<Rightarrow> stats \<Rightarrow> bool" where
  "bucket_ok N c vp v n items pcs stats pcs' stats' = (\<exists>A B. pcs = A @ B \<and>
    (\<forall>p \<in> set A. map_of stats' (pc_key p) = Some (JFloat (expected c vp ((v, n) # items) p))) \<and>
    (\<forall>key. key \<notin> pc_key ` set A \<longrightarrow> map_of stats' key = map_of stats key) \<and>
    ready N (c + n) v pcs' \<and> map pc_key pcs' = map pc_key B \<and> rank_ordered N pcs' \<and>
    (\<forall>q \<in> set pcs'. good_percentile N q) \<and>
    map (expected (c + n) v items) pcs' = map (expected c vp ((v, n) # items)) B)"

lemma bucket_fresh:
  assumes "\<forall>p \<in> set pcs. fresh c p \<and> good_percentile N p" and "rank_ordered N pcs"
    and "distinct (map pc_key pcs)" and "good_items ((v, n) # items)" and "0 \<le> c"
    and "c + sample_count ((v, n) # items) = N" and "N < 2 ^ 53"
  shows "\<exists>pcs' stats'. find_percentiles (c + n) v pcs stats = Inr (pcs', stats') \<and>
    bucket_ok N c vp v n items pcs stats pcs' stats'"
proof -
  let ?c = "c + n"
  have n: "0 < n" "0 \<le> sample_count items"
    using assms(4) sample_count_pos [of items] by (cases "items = []"; simp)+
  then have "c < ?c" "?c \<le> N" using assms(6) by simp_all
  from find_percentiles_fresh [OF assms(1,2) this(1) assms(5) this(2) assms(7,3), of v stats]
  obtain A B pcs' stats' where AB: "pcs = A @ B" "find_percentiles ?c v pcs stats = Inr (pcs', stats')"
      "\<forall>p \<in> set A. found_at N ?c p \<and> pc_k p \<le> ?c \<and> map_of stats' (pc_key p) = Some (JFloat v)"
      "\<forall>key. key \<notin> pc_key ` set A \<longrightarrow> map_of stats' key = map_of stats key"
      "pcs' = B \<and> (\<forall>q \<in> set B. fresh ?c q) \<or>
       (\<exists>p ps. B = p # ps \<and> pcs' = p\<lparr>pc_value := Some v\<rparr> # ps \<and> pc_k p = ?c \<and> ?c < N \<and> fresh c p \<and>
          (\<forall>q \<in> set ps. fresh ?c q))"
    by blast
  have A: "expected c vp ((v, n) # items) p = v" if "p \<in> set A" for p
    using that AB(1,3) assms(1) by (intro expected_found [OF _ _ _ _ assms(4,5,6)]) auto
  have later: "expected ?c v items q = expected c vp ((v, n) # items) q"
    if "q \<in> set B" "fresh ?c q" for q
    using that AB(1) assms(1) by (intro expected_later [OF _ _ _ assms(4,5,6)]) auto
  have ordB: "rank_ordered N B" using assms(2) AB(1) by (simp add: rank_ordered_def sorted_wrt_append)
  have goodB: "\<forall>q \<in> set B. good_percentile N q" using assms(1) AB(1) by simp
  from AB(5) have "ready N ?c v pcs' \<and> map pc_key pcs' = map pc_key B \<and> rank_ordered N pcs' \<and>
      (\<forall>q \<in> set pcs'. good_percentile N q) \<and>
      map (expected ?c v items) pcs' = map (expected c vp ((v, n) # items)) B"
  proof (elim disjE exE conjE)
    assume B: "pcs' = B" "\<forall>q \<in> set B. fresh ?c q"
    then show ?thesis using later ordB goodB by (simp add: ready_def split: list.split)
  next
    fix p ps
    assume B: "B = p # ps" "pcs' = p\<lparr>pc_value := Some v\<rparr> # ps" "pc_k p = ?c" "?c < N" "fresh c p"
      "\<forall>q \<in> set ps. fresh ?c q"
    have "held_back N ?c v (p\<lparr>pc_value := Some v\<rparr>)"
      using B(3-5) n(1) assms(5) by (simp add: held_back_def fresh_def)
    moreover have "expected ?c v items (p\<lparr>pc_value := Some v\<rparr>) = expected c vp ((v, n) # items) p"
      by (rule expected_hold [OF B(5,3,4) assms(4,6)])
    moreover have "good_percentile N (p\<lparr>pc_value := Some v\<rparr>)"
      using goodB B(1) by (simp add: good_percentile_def)
    ultimately show ?thesis using B ordB goodB later by (simp add: ready_def rank_ordered_def)
  qed
  then show ?thesis using AB(1-4) A unfolding bucket_ok_def by (metis (no_types, lifting))
qed

lemma bucket_ready:
  assumes "ready N c vp pcs" and "\<forall>p \<in> set pcs. good_percentile N p" and "rank_ordered N pcs"
    and "distinct (map pc_key pcs)" and "good_items ((v, n) # items)" and "0 \<le> c"
    and "c + sample_count ((v, n) # items) = N" and "N < 2 ^ 53"
  shows "\<exists>pcs' stats'. find_percentiles (c + n) v pcs stats = Inr (pcs', stats') \<and>
    bucket_ok N c vp v n items pcs stats pcs' stats'"
proof (cases "\<forall>p \<in> set pcs. fresh c p")
  case True
  then show ?thesis using bucket_fresh [OF _ assms(3-8)] assms(2) by blast
next
  case False
  then obtain p ps where pcs: "pcs = p # ps" "held_back N c vp p" "\<forall>q \<in> set ps. fresh c q"
    using assms(1) by (auto simp: ready_def split: list.splits)
  let ?w = "interpolate (pc_d p) vp v"
  let ?stats = "AList.update (pc_key p) (JFloat ?w) stats"
  have n: "0 < n" using assms(5) by simp
  have step: "find_percentiles (c + n) v pcs stats = find_percentiles (c + n) v ps ?stats"
    using pcs(1,2) n by (simp add: held_back_def findvalue_def interpolate_def)
  have w: "expected c vp ((v, n) # items) p = ?w"
    using pcs(2) n by (simp add: expected_def held_back_def)
  have ps: "\<forall>q \<in> set ps. fresh c q \<and> good_percentile N q" "rank_ordered N ps" "distinct (map pc_key ps)"
    using pcs(1,3) assms(2-4) by (simp_all add: rank_ordered_def)
  from bucket_fresh [OF this assms(5-8), of ?stats vp] obtain pcs' stats' A B where
    AB: "find_percentiles (c + n) v ps ?stats = Inr (pcs', stats')" "ps = A @ B"
      "\<forall>p \<in> set A. map_of stats' (pc_key p) = Some (JFloat (expected c vp ((v, n) # items) p))"
      "\<forall>key. key \<notin> pc_key ` set A \<longrightarrow> map_of stats' key = map_of ?stats key"
    and rest: "ready N (c + n) v pcs'" "map pc_key pcs' = map pc_key B" "rank_ordered N pcs'"
      "\<forall>q \<in> set pcs'. good_percentile N q"
      "map (expected (c + n) v items) pcs' = map (expected c vp ((v, n) # items)) B"
    unfolding bucket_ok_def by blast
  have "pc_key p \<notin> pc_key ` set A" using assms(4) pcs(1) AB(2) by auto
  then have "\<forall>q \<in> set (p # A). map_of stats' (pc_key q) = Some (JFloat (expected c vp ((v, n) # items) q))"
      "\<forall>key. key \<notin> pc_key ` set (p # A) \<longrightarrow> map_of stats' key = map_of stats key"
    using AB(3,4) w by auto
  moreover have "pcs = (p # A) @ B" using pcs(1) AB(2) by simp
  ultimately show ?thesis using step AB(1) rest unfolding bucket_ok_def by metis
qed

lemma second_pass_step_eq [simp]:
  "second_pass_step mean (v, n) (sd, c, pcs, stats) =
     rbind (fpow2 (fsub v mean)) (\<lambda>sq. rbind (float_of_int n) (\<lambda>nf.
     rbind (find_percentiles (c + n) v pcs stats) (\<lambda>r.
       Inr (fadd sd (fmul sq nf), c + n, fst r, snd r))))"
  by (auto simp: second_pass_step_def Let_def split_def)

lemma second_pass:
  assumes "rfold (second_pass_step mean) items (sd, c, pcs, stats) = Inr (sd', c', pcs', stats')"
    and "ready N c vp pcs" and "\<forall>p \<in> set pcs. good_percentile N p" and "rank_ordered N pcs"
    and "distinct (map pc_key pcs)" and "good_items items" and "0 \<le> c" and "0 < N"
    and "c + sample_count items = N" and "N < 2 ^ 53"
  shows "pcs' = [] \<and>
    (\<forall>p \<in> set pcs. map_of stats' (pc_key p) = Some (JFloat (expected c vp items p))) \<and>
    (\<forall>key. key \<notin> pc_key ` set pcs \<longrightarrow> map_of stats' key = map_of stats key)"
  using assms
proof (induction items arbitrary: sd c vp pcs stats)
  case Nil
  have "pcs = []"
  proof (cases pcs)
    case (Cons p ps)
    then have "fresh c p \<or> held_back N c vp p" "pc_k p \<le> N"
      using Nil.prems(2,3) by (simp_all add: ready_def good_percentile_def)
    then show ?thesis using Nil.prems(8,9) by (auto simp: fresh_def held_back_def)
  qed simp
  then show ?case using Nil.prems(1) by simp
next
  case (Cons vn items)
  obtain v n where vn: "vn = (v, n)" by (cases vn)
  have good: "good_items ((v, n) # items)" and tot: "c + sample_count ((v, n) # items) = N"
    using Cons.prems(6,9) vn by simp_all
  from bucket_ready [OF Cons.prems(2-5) good Cons.prems(7) tot Cons.prems(10), of stats]
  obtain pcs1 stats1 where f: "find_percentiles (c + n) v pcs stats = Inr (pcs1, stats1)"
    and "bucket_ok N c vp v n items pcs stats pcs1 stats1" by blast
  then obtain A B where AB: "pcs = A @ B"
      "\<forall>p \<in> set A. map_of stats1 (pc_key p) = Some (JFloat (expected c vp ((v, n) # items) p))"
      "\<forall>key. key \<notin> pc_key ` set A \<longrightarrow> map_of stats1 key = map_of stats key"
      "ready N (c + n) v pcs1" "map pc_key pcs1 = map pc_key B" "rank_ordered N pcs1"
      "\<forall>q \<in> set pcs1. good_percentile N q"
      "map (expected (c + n) v items) pcs1 = map (expected c vp ((v, n) # items)) B"
    unfolding bucket_ok_def by blast
  obtain sd1 where rest: "rfold (second_pass_step mean) items (sd1, c + n, pcs1, stats1) = Inr (sd', c', pcs', stats')"
    using Cons.prems(1) vn f by (auto simp: res_simps)
  have keysB: "pc_key ` set pcs1 = pc_key ` set B" using AB(5) by (metis set_map)
  have dist: "distinct (map pc_key pcs1)" using Cons.prems(5) AB(1,5) by simp
  have n: "0 \<le> c + n" "good_items items" "c + n + sample_count items = N"
    using good tot Cons.prems(7) by simp_all
  note IH = Cons.IH [OF rest AB(4,7,6) dist n(2,1) Cons.prems(8) n(3) Cons.prems(10)]
  have "map (\<lambda>p. map_of stats' (pc_key p)) pcs1 = map (\<lambda>p. Some (JFloat (expected (c + n) v items p))) pcs1"
    using IH by simp
  then have "map (map_of stats') (map pc_key pcs1) = map (Some \<circ> JFloat) (map (expected (c + n) v items) pcs1)"
    by (simp add: o_def)
  then have "map (map_of stats') (map pc_key B) = map (Some \<circ> JFloat) (map (expected c vp ((v, n) # items)) B)"
    by (simp only: AB(5,8))
  then have B: "\<forall>p \<in> set B. map_of stats' (pc_key p) = Some (JFloat (expected c vp ((v, n) # items) p))"
    by simp
  have "\<forall>p \<in> set A. pc_key p \<notin> pc_key ` set pcs1"
    using Cons.prems(5) AB(1) keysB by auto
  then have A: "\<forall>p \<in> set A. map_of stats' (pc_key p) = Some (JFloat (expected c vp ((v, n) # items) p))"
    using IH AB(2) by simp
  have "map_of stats' key = map_of stats key" if "key \<notin> pc_key ` set pcs" for key
    using that IH AB(1,3) keysB by (simp add: image_Un)
  then show ?case using IH A B AB(1) vn by auto
qed

subsection \<open>The four percentiles\<close>

definition percentile_key :: "int \<Rightarrow> string" where
  "percentile_key p = (if p = 50 then ''median'' else ''percentile-'' @ show_int p)"

text \<open>A rank computed as \<open>floor n\<close> and \<open>n - floor n\<close> adds up to \<open>n\<close> again.\<close>

lemma new_percentile_good:
  assumes "fdiv (Fin (of_int p)) (Fin 100) = Inr (Fin q)" and "fmul (Fin q) (Fin (of_int (N + 1))) = Fin x"
    and "0 \<le> x" and "x < of_int (N + 1)" and "0 < N" and "N < 2 ^ 53"
  shows "\<exists>pc. new_percentile p N = Inr pc \<and> good_percentile N pc \<and> pc_k pc = \<lfloor>x\<rfloor> \<and>
    pc_d pc = Fin (x - of_int \<lfloor>x\<rfloor>) \<and> pc_key pc = percentile_key p \<and> pc_value pc = None \<and> \<not> pc_is_calculated pc"
proof -
  have dx: "double x" "\<bar>x\<bar> < 2 ^ 1024" using assms(2) mkfloat_Fin by (auto simp: fmul_def)
  have k: "0 \<le> \<lfloor>x\<rfloor>" "\<lfloor>x\<rfloor> \<le> N" using assms(3,4) by (simp, simp add: floor_le_iff)
  have N1: "float_of_int (N + 1) = Inr (Fin (of_int (N + 1)))"
    using assms(5,6) by (intro float_of_int_exact) linarith
  have kf: "float_of_int \<lfloor>x\<rfloor> = Inr (Fin (of_int \<lfloor>x\<rfloor>))"
    using k assms(6) by (intro float_of_int_exact) linarith
  have "0 \<le> x - of_int \<lfloor>x\<rfloor>" "x - of_int \<lfloor>x\<rfloor> < 1" by linarith+
  then have "\<bar>x - of_int \<lfloor>x\<rfloor>\<bar> < 2 ^ 1024" by (simp add: abs_less_iff)
  then have d: "fsub (Fin x) (Fin (of_int \<lfloor>x\<rfloor>)) = Fin (x - of_int \<lfloor>x\<rfloor>)"
    using mkfloat_double [OF double_frac [OF dx(1) assms(3)]]
    by (simp add: fsub_def fneg_def fadd_def)
  have "fadd (Fin (of_int \<lfloor>x\<rfloor>)) (Fin (x - of_int \<lfloor>x\<rfloor>)) = Fin x"
    using mkfloat_double [OF dx] by (simp add: fadd_def)
  then show ?thesis
    using assms(1,2) N1 kf d k by (simp add: new_percentile_def floor_float_def good_percentile_def percentile_key_def)
qed

text \<open>The scaled quantiles, up to one rounding.\<close>

lemma scaled_quantile:
  assumes "1 / 4 \<le> q" and "q \<le> 96 / 100" and "2 \<le> m" and "m \<le> 2 ^ 53"
  shows "\<exists>x. fmul (Fin q) (Fin (of_int m)) = Fin x \<and> x = fl (q * of_int m) \<and>
    q * of_int m * (1 - 1 / 2 ^ 53) \<le> x \<and> x \<le> q * of_int m * (1 + 1 / 2 ^ 53) \<and> 0 \<le> x \<and> x < of_int m"
proof -
  let ?y = "q * of_int m" and ?x = "fl (q * of_int m)"
  have m: "2 \<le> (of_int m :: rat)" "(of_int m :: rat) \<le> 2 ^ 53"
    using assms(3,4) by (simp, metis of_int_le_iff of_int_numeral of_int_power)
  have "1 / 4 * 2 \<le> ?y" by (rule mult_mono) (use assms m in simp_all)
  then have y: "1 / 2 \<le> ?y" by simp
  have hi: "?y \<le> 96 / 100 * of_int m" using assms(2) m by (intro mult_right_mono) simp_all
  have "2 powi (-1022) \<le> (1 / 2 :: rat)" by (simp add: power_int_minus field_simps)
  then have "2 powi (-1022) \<le> \<bar>?y\<bar>" using y by simp
  then have err: "\<bar>?x - ?y\<bar> \<le> ?y / 2 ^ 53" using fl_error [of ?y] y by simp
  then have b: "?y - ?y / 2 ^ 53 \<le> ?x" "?x \<le> ?y + ?y / 2 ^ 53" unfolding abs_le_iff by linarith+
  have "?y + ?y / 2 ^ 53 < of_int m" using hi m y by (simp add: field_simps)
  then have xm: "?x < of_int m" using b by linarith
  have "0 \<le> ?y - ?y / 2 ^ 53" using y by (simp add: field_simps)
  then have x0: "0 \<le> ?x" using b by linarith
  have "(2 :: rat) ^ 53 < 2 ^ 1024" by simp
  then have "\<bar>?x\<bar> < 2 ^ 1024" using x0 xm m by linarith
  then have "fmul (Fin q) (Fin (of_int m)) = Fin ?x" by (simp add: fmul_def mkfloat_eval)
  then show ?thesis using b x0 xm by (auto simp: algebra_simps)
qed

definition c95 :: rat where
  "c95 = 8556839292003942 / 2 ^ 53"

lemma quantile_factors:
  "fdiv (Fin (of_int 25)) (Fin 100) = Inr (Fin (1 / 4))" "fdiv (Fin (of_int 50)) (Fin 100) = Inr (Fin (1 / 2))"
  "fdiv (Fin (of_int 75)) (Fin 100) = Inr (Fin (3 / 4))" "fdiv (Fin (of_int 95)) (Fin 100) = Inr (Fin c95)"
proof -
  have "double (1 / 4)" by (rule doubleI [of _ 1 "-2"]) (simp_all add: power_int_minus)
  moreover have "double (1 / 2)" by (rule doubleI [of _ 1 "-1"]) (simp_all add: power_int_minus)
  moreover have "double (3 / 4)" by (rule doubleI [of _ 3 "-2"]) (simp_all add: power_int_minus)
  ultimately show "fdiv (Fin (of_int 25)) (Fin 100) = Inr (Fin (1 / 4))"
    "fdiv (Fin (of_int 50)) (Fin 100) = Inr (Fin (1 / 2))"
    "fdiv (Fin (of_int 75)) (Fin 100) = Inr (Fin (3 / 4))"
    by (simp_all add: fdiv_def mkfloat_double)
  have "fl (19 / 20) = c95"
    by (subst fl_eval [of "-1" _ 8556839292003942]) (auto simp: power_int_minus c95_def intro: round_even_eval)
  then show "fdiv (Fin (of_int 95)) (Fin 100) = Inr (Fin c95)"
    by (simp add: fdiv_def mkfloat_eval c95_def)
qed

text \<open>The exact rank times four, for the quarters.\<close>

lemma quarter_rank:
  assumes "0 \<le> i * m" and "i * m \<le> 2 ^ 53"
  shows "\<lfloor>fl (of_int i / 4 * of_int m)\<rfloor> = i * m div 4"
proof -
  have "of_int i / 4 * of_int m = (of_int (i * m) / 4 :: rat)" by simp
  moreover have "double (of_int (i * m) / 4)"
    using assms by (intro doubleI [of _ "i * m" "-2"]) (simp_all add: power_int_minus)
  ultimately have "fl (of_int i / 4 * of_int m) = of_int (i * m) / of_int 4" using fl_double by simp
  then show ?thesis by (simp only: floor_divide_of_int_eq)
qed

text \<open>How far apart the scaled quantiles are, rounding included.\<close>

lemma quantile_margins:
  fixes M C e :: rat
  assumes "0 \<le> e" and "e \<le> 1 / 1000000" and "94 / 100 * M \<le> C" and "C \<le> M" and "0 < M"
  shows "5 \<le> M \<Longrightarrow> 1 / 4 * M * (1 + e) + 1 \<le> 1 / 2 * M * (1 - e)"
    and "5 \<le> M \<Longrightarrow> 1 / 2 * M * (1 + e) + 1 \<le> 3 / 4 * M * (1 - e)"
    and "17 \<le> M \<Longrightarrow> 3 / 4 * M * (1 + e) + 1 \<le> C * (1 - e)"
    and "M \<le> 16 \<Longrightarrow> M - 1 \<le> C * (1 - e)"
proof -
  have t: "M * e \<le> M * (1 / 1000000)" using assms by (intro mult_left_mono) simp_all
  have c: "C * e \<le> M * e" using assms by (intro mult_right_mono) simp_all
  have d: "1 / 4 * M * (1 + e) = M / 4 + M * e / 4" "1 / 2 * M * (1 - e) = M / 2 - M * e / 2"
      "1 / 2 * M * (1 + e) = M / 2 + M * e / 2" "3 / 4 * M * (1 - e) = 3 * M / 4 - 3 * (M * e) / 4"
      "3 / 4 * M * (1 + e) = 3 * M / 4 + 3 * (M * e) / 4" "C * (1 - e) = C - C * e"
    by (simp_all add: field_simps)
  show "5 \<le> M \<Longrightarrow> 1 / 4 * M * (1 + e) + 1 \<le> 1 / 2 * M * (1 - e)" using t unfolding d by linarith
  show "5 \<le> M \<Longrightarrow> 1 / 2 * M * (1 + e) + 1 \<le> 3 / 4 * M * (1 - e)" using t unfolding d by linarith
  show "17 \<le> M \<Longrightarrow> 3 / 4 * M * (1 + e) + 1 \<le> C * (1 - e)" using t c assms(3) unfolding d by linarith
  show "M \<le> 16 \<Longrightarrow> M - 1 \<le> C * (1 - e)" using t c assms(3) unfolding d by linarith
qed

definition rank_of :: "int \<Rightarrow> rat \<Rightarrow> int" where
  "rank_of N q = \<lfloor>fl (q * of_int (N + 1))\<rfloor>"

lemma rank_of_step:
  assumes "q * of_int (N + 1) * (1 + 1 / 2 ^ 53) + 1 \<le> q' * of_int (N + 1) * (1 - 1 / 2 ^ 53)"
    and "1 / 4 \<le> q" and "q \<le> 96 / 100" and "1 / 4 \<le> q'" and "q' \<le> 96 / 100" and "0 < N" and "N < 2 ^ 53"
  shows "rank_of N q < rank_of N q'"
proof -
  have m: "2 \<le> N + 1" "N + 1 \<le> 2 ^ 53" using assms(6,7) by simp_all
  have "fl (q * of_int (N + 1)) + 1 \<le> fl (q' * of_int (N + 1))"
    using scaled_quantile [OF assms(2,3) m] scaled_quantile [OF assms(4,5) m] assms(1) by auto
  then have "\<lfloor>fl (q * of_int (N + 1)) + 1\<rfloor> \<le> rank_of N q'" unfolding rank_of_def by (rule floor_mono)
  then show ?thesis by (simp add: rank_of_def)
qed

lemma c95_bounds: "94 / 100 \<le> c95" "c95 \<le> 96 / 100" "1 / 4 \<le> c95"
  by (simp_all add: c95_def)

lemma rank_of_95:
  assumes "0 < N" and "N < 2 ^ 53" and "N \<le> 15"
  shows "rank_of N c95 = N"
proof -
  let ?M = "of_int (N + 1) :: rat"
  have m: "2 \<le> N + 1" "N + 1 \<le> 2 ^ 53" using assms(1,2) by simp_all
  have M: "0 < ?M" "?M \<le> 16" using assms by simp_all
  have "94 / 100 * ?M \<le> c95 * ?M" "c95 * ?M \<le> 1 * ?M"
    using M c95_bounds by (intro mult_right_mono; simp)+
  then have "?M - 1 \<le> c95 * ?M * (1 - 1 / 2 ^ 53)"
    using M by (intro quantile_margins(4)) simp_all
  then have "of_int N \<le> fl (c95 * ?M)" "fl (c95 * ?M) < of_int N + 1"
    using scaled_quantile [OF c95_bounds(3,2) m] by auto
  then show ?thesis by (simp add: rank_of_def floor_eq_iff)
qed

lemma quantile_ranks:
  assumes "0 < N" and "N < 2 ^ 53"
  shows "rank_of N (1/4) < rank_of N (1/2) \<or> rank_of N (1/2) = N"
    and "rank_of N (1/2) < rank_of N (3/4) \<or> rank_of N (3/4) = N"
    and "rank_of N (1/4) < rank_of N (3/4) \<or> rank_of N (3/4) = N"
    and "q \<in> {1/4, 1/2, 3/4} \<Longrightarrow> rank_of N q < rank_of N c95 \<or> rank_of N c95 = N"
proof -
  let ?M = "of_int (N + 1) :: rat"
  have M0: "0 < ?M" using assms(1) by simp
  have cM: "94 / 100 * ?M \<le> c95 * ?M" "c95 * ?M \<le> 1 * ?M"
    using M0 c95_bounds by (intro mult_right_mono; simp)+
  note margins = quantile_margins [of "1 / 2 ^ 53" ?M "c95 * ?M"]
  have small: "rank_of N (1/4) = (N + 1) div 4" "rank_of N (1/2) = 2 * (N + 1) div 4"
      "rank_of N (3/4) = 3 * (N + 1) div 4" if "N \<le> 3"
    using quarter_rank [of 1 "N + 1"] quarter_rank [of 2 "N + 1"] quarter_rank [of 3 "N + 1"] assms(1) that
    by (simp_all add: rank_of_def)
  have N123: "N = 1 \<or> N = 2 \<or> N = 3" if "N \<le> 3" using that assms(1) by linarith
  have M5: "5 \<le> ?M" if "\<not> N \<le> 3" using that by simp
  show q12: "rank_of N (1/4) < rank_of N (1/2) \<or> rank_of N (1/2) = N"
  proof (cases "N \<le> 3")
    case True
    then show ?thesis using small N123 by auto
  next
    case False
    then have "rank_of N (1/4) < rank_of N (1/2)"
      using margins(1) M5 cM M0 assms by (intro rank_of_step) simp_all
    then show ?thesis ..
  qed
  have s23: "rank_of N (1/2) < rank_of N (3/4)" if "\<not> N \<le> 3"
    using that margins(2) M5 cM M0 assms by (intro rank_of_step) simp_all
  show q23: "rank_of N (1/2) < rank_of N (3/4) \<or> rank_of N (3/4) = N"
    using small N123 s23 by (cases "N \<le> 3") auto
  have s12: "rank_of N (1/4) \<le> rank_of N (1/2)"
  proof (cases "N \<le> 3")
    case True
    then show ?thesis using small N123 by auto
  next
    case False
    then have "rank_of N (1/4) < rank_of N (1/2)"
      using margins(1) M5 cM M0 assms by (intro rank_of_step) simp_all
    then show ?thesis by simp
  qed
  show "rank_of N (1/4) < rank_of N (3/4) \<or> rank_of N (3/4) = N"
    using q23 s12 by linarith
  show "rank_of N q < rank_of N c95 \<or> rank_of N c95 = N" if "q \<in> {1/4, 1/2, 3/4}"
  proof (cases "N \<le> 15")
    case True
    then show ?thesis using rank_of_95 [OF assms] by simp
  next
    case False
    then have M17: "17 \<le> ?M" by simp
    have s: "rank_of N (3/4) < rank_of N c95"
      using margins(3) M17 cM M0 assms c95_bounds by (intro rank_of_step) simp_all
    have "rank_of N (1/2) < rank_of N (3/4)" using s23 False by simp
    moreover have "q = 1/4 \<or> q = 1/2 \<or> q = 3/4" using that by blast
    ultimately show ?thesis using s s12 by (elim disjE; hypsubst; linarith)
  qed
qed

lemma quantile_percentiles:
  assumes "0 < N" and "N < 2 ^ 53"
  shows "\<exists>pcs. rmap (\<lambda>q. new_percentile q N) quantiles = Inr pcs \<and>
    map pc_key pcs = map percentile_key quantiles \<and> rank_ordered N pcs \<and>
    (\<forall>p \<in> set pcs. good_percentile N p \<and> fresh 0 p)"
proof -
  have m: "2 \<le> N + 1" "N + 1 \<le> 2 ^ 53" using assms by simp_all
  have new: "\<exists>pc. new_percentile p N = Inr pc \<and> good_percentile N pc \<and> pc_k pc = rank_of N q \<and>
      pc_key pc = percentile_key p \<and> fresh 0 pc"
    if q: "fdiv (Fin (of_int p)) (Fin 100) = Inr (Fin q)" "1 / 4 \<le> q" "q \<le> 96 / 100" for p q
  proof -
    obtain x where x: "fmul (Fin q) (Fin (of_int (N + 1))) = Fin x" "x = fl (q * of_int (N + 1))"
        "0 \<le> x" "x < of_int (N + 1)"
      using scaled_quantile [OF q(2,3) m] by blast
    from new_percentile_good [OF q(1) x(1,3,4) assms] obtain pc where
      "new_percentile p N = Inr pc" "good_percentile N pc" "pc_k pc = \<lfloor>x\<rfloor>" "pc_key pc = percentile_key p"
      "pc_value pc = None" "\<not> pc_is_calculated pc" by blast
    moreover from this have "0 \<le> pc_k pc" by (simp add: good_percentile_def)
    ultimately have "fresh 0 pc" unfolding fresh_def by linarith
    moreover have "pc_k pc = rank_of N q" using \<open>pc_k pc = _\<close> x(2) by (simp add: rank_of_def)
    ultimately show ?thesis
      using \<open>new_percentile p N = Inr pc\<close> \<open>good_percentile N pc\<close> \<open>pc_key pc = _\<close> by blast
  qed
  obtain p25 where p25: "new_percentile 25 N = Inr p25" "good_percentile N p25" "pc_k p25 = rank_of N (1/4)"
      "pc_key p25 = percentile_key 25" "fresh 0 p25" using new [of 25 "1/4"] quantile_factors(1) by auto
  obtain p50 where p50: "new_percentile 50 N = Inr p50" "good_percentile N p50" "pc_k p50 = rank_of N (1/2)"
      "pc_key p50 = percentile_key 50" "fresh 0 p50" using new [of 50 "1/2"] quantile_factors(2) by auto
  obtain p75 where p75: "new_percentile 75 N = Inr p75" "good_percentile N p75" "pc_k p75 = rank_of N (3/4)"
      "pc_key p75 = percentile_key 75" "fresh 0 p75" using new [of 75 "3/4"] quantile_factors(3) by auto
  obtain p95 where p95: "new_percentile 95 N = Inr p95" "good_percentile N p95" "pc_k p95 = rank_of N c95"
      "pc_key p95 = percentile_key 95" "fresh 0 p95" using new [of 95 c95] quantile_factors(4) c95_bounds by auto
  have "rank_ordered N [p25, p50, p75, p95]"
    using quantile_ranks(1-3) [OF assms] quantile_ranks(4) [OF assms, of "1/4"]
      quantile_ranks(4) [OF assms, of "1/2"] quantile_ranks(4) [OF assms, of "3/4"]
    by (simp add: rank_ordered_def p25(3) p50(3) p75(3) p95(3))
  then show ?thesis using p25 p50 p75 p95 by (simp add: quantiles_def)
qed

text \<open>The pass over the buckets succeeds when the squared deviations are in range.\<close>

lemma second_pass_total:
  assumes "ready N c vp pcs" and "\<forall>p \<in> set pcs. good_percentile N p" and "rank_ordered N pcs"
    and "distinct (map pc_key pcs)" and "good_items items" and "0 \<le> c"
    and "c + sample_count items = N" and "N < 2 ^ 53"
    and "\<forall>(v, n) \<in> set items. \<exists>y. fpow2 (fsub v mean) = Inr y"
  shows "\<exists>r. rfold (second_pass_step mean) items (sd, c, pcs, stats) = Inr r"
  using assms
proof (induction items arbitrary: sd c vp pcs stats)
  case Nil
  then show ?case by simp
next
  case (Cons vn items)
  obtain v n where vn: "vn = (v, n)" by (cases vn)
  have good: "good_items ((v, n) # items)" and tot: "c + sample_count ((v, n) # items) = N"
    using Cons.prems(5,7) vn by simp_all
  from bucket_ready [OF Cons.prems(1-4) good Cons.prems(6) tot Cons.prems(8), of stats]
  obtain pcs1 stats1 where f: "find_percentiles (c + n) v pcs stats = Inr (pcs1, stats1)"
    and "bucket_ok N c vp v n items pcs stats pcs1 stats1" by blast
  then obtain A B where AB: "pcs = A @ B" "ready N (c + n) v pcs1" "map pc_key pcs1 = map pc_key B"
      "rank_ordered N pcs1" "\<forall>q \<in> set pcs1. good_percentile N q"
    unfolding bucket_ok_def by blast
  have n: "0 < n" "0 \<le> sample_count items"
    using good sample_count_pos [of items] by (cases "items = []"; simp)+
  have nf: "float_of_int n = Inr (Fin (of_int n))"
    using n tot Cons.prems(6,8) by (intro float_of_int_exact) simp
  obtain y where y: "fpow2 (fsub v mean) = Inr y" using Cons.prems(9) vn by auto
  have "distinct (map pc_key pcs1)" using Cons.prems(4) AB(1,3) by simp
  from Cons.IH [OF AB(2,5,4) this _ _ _ Cons.prems(8), of "fadd sd (fmul y (Fin (of_int n)))" stats1]
  show ?case using y nf f vn good tot Cons.prems(6,9) n by auto
qed

text \<open>Both passes of \<open>statistics\<close> at once.\<close>

definition hist_items :: "(string \<times> int) list \<Rightarrow> (pyfloat \<times> int) list res" where
  "hist_items h = rmap (\<lambda>(k, n). rbind (py_float (JStr k)) (\<lambda>x. Inr (x, n))) h"

definition sorted_items :: "(pyfloat \<times> int) list \<Rightarrow> (pyfloat \<times> int) list" where
  "sorted_items items = sort_by (\<lambda>a b. flt (fst a) (fst b)) items"

lemma sorted_items_set [simp]: "set (sorted_items items) = set items"
  by (simp add: sorted_items_def)

lemma good_sorted_items: "good_items items \<Longrightarrow> good_items (sorted_items items)"
  by (simp add: good_items_def)

lemma sample_count_sorted [simp]: "sample_count (sorted_items items) = sample_count items"
  by (simp add: sample_count_def sorted_items_def sum_list_sort_by)

lemma sorted_items_empty [simp]: "sorted_items items = [] \<longleftrightarrow> items = []"
  by (metis length_0_conv length_sort_by sorted_items_def)

lemma hist_items_total: "hist_items h = Inr items \<Longrightarrow> sample_count items = hist_total h"
  by (induction h arbitrary: items) (auto simp: hist_items_def hist_total_def res_simps split: prod.splits)

lemma item_at_ends:
  assumes "good_items items" and "items \<noteq> []"
  shows "item_at items 1 = fst (hd items)" and "item_at items (sample_count items) = fst (last items)"
proof -
  show "item_at items 1 = fst (hd items)" using assms by (cases items) auto
  show "item_at items (sample_count items) = fst (last items)"
    using assms
  proof (induction items)
    case (Cons vn items)
    then show ?case using sample_count_pos [of items] by (cases vn; cases "items = []") auto
  qed simp
qed

lemma sorted_items_extremes:
  assumes "good_items items" and "(v, n) \<in> set items"
  shows "\<not> flt v (fst (hd (sorted_items items)))" and "\<not> flt (fst (last (sorted_items items))) v"
proof -
  let ?lt = "\<lambda>a b :: pyfloat \<times> int. flt (fst a) (fst b)"
  have fin: "\<exists>r. fst a = Fin r" if "a \<in> set items" for a
    using assms(1) that by (cases a) (auto simp: good_items_def double_value_def)
  obtain f where f: "fst a = Fin (f a)" if "a \<in> set items" for a using fin by metis
  have lt: "?lt a b \<longleftrightarrow> f a < f b" if "a \<in> set items" "b \<in> set items" for a b
    using f that by (simp add: flt_def)
  have "weak_order ?lt (set items)"
    unfolding weak_order_def
  proof (intro conjI ballI impI)
    fix a b
    assume "a \<in> set items" "b \<in> set items" "?lt a b"
    then show "\<not> ?lt b a" using lt [of a b] lt [of b a] by simp
  next
    fix a b c
    assume "a \<in> set items" "b \<in> set items" "c \<in> set items" "\<not> ?lt b a" "\<not> ?lt c b"
    then show "\<not> ?lt c a" using lt [of b a] lt [of c b] lt [of c a] by simp
  qed
  then have s: "sorted_wrt (\<lambda>a b. \<not> ?lt b a) (sorted_items items)"
    unfolding sorted_items_def by (rule sorted_sort_by)
  have irr: "\<not> ?lt a a" if "a \<in> set items" for a using fin [OF that] by (auto simp: flt_def)
  have mem: "(v, n) \<in> set (sorted_items items)" using assms(2) by simp
  have "\<not> ?lt (v, n) (hd (sorted_items items))"
    using s mem irr [OF assms(2)] by (cases "sorted_items items") auto
  then show "\<not> flt v (fst (hd (sorted_items items)))" by simp
  have "\<not> ?lt (last (sorted_items items)) (v, n)"
    using s mem irr [OF assms(2)] by (cases "sorted_items items" rule: rev_cases) (auto simp: sorted_wrt_append)
  then show "\<not> flt (fst (last (sorted_items items))) v" by simp
qed

subsection \<open>The statistics\<close>

lemma first_pass_facts:
  assumes "rfold (first_pass_step h) xs s = Inr s'"
  shows "fp_sample_size s' = fp_sample_size s + hist_total xs"
    and "fp_mode s' = fold (mode_step h) (map fst xs) (fp_mode s)"
  using assms by (induction xs arbitrary: s)
    (auto simp: first_pass_step_def hist_total_def res_simps split: prod.splits)

lemma first_pass_error:
  assumes "hist_items xs = Inr items"
  shows "rfold (first_pass_step h) xs s \<noteq> Inl ValueError"
  using assms
proof (induction xs arbitrary: s items)
  case (Cons kn xs)
  obtain k n where kn: "kn = (k, n)" by (cases kn)
  obtain x items' where x: "py_float (JStr k) = Inr x" "hist_items xs = Inr items'"
    using Cons.prems kn by (auto simp: hist_items_def res_simps)
  have "float_of_int n \<noteq> Inl ValueError" by (auto simp: float_of_int_def split: pyfloat.splits)
  then show ?case using Cons.IH [OF x(2)] kn x(1)
    by (cases "float_of_int n") (auto simp: first_pass_step_def)
qed simp

lemma hist_statistics_elim:
  assumes "hist_statistics h = Inr v" and "hist_items h = Inr items"
  obtains mean mode pcs sd count rest stats variance dev where
    "rmap (\<lambda>q. new_percentile q (hist_total h)) quantiles = Inr pcs"
    "rmap (\<lambda>k. rbind (py_float (JStr k)) (\<lambda>x. Inr (JFloat x))) (fold (mode_step h) (map fst h) []) = Inr mode"
    "rfold (second_pass_step mean) (sorted_items items) (Fin 0, 0, pcs,
       [(''mode'', JList mode), (''mean'', JFloat mean),
        (''minimum'', JFloat (fst (hd (sorted_items items)))),
        (''maximum'', JFloat (fst (last (sorted_items items))))]) = Inr (sd, count, rest, stats)"
    "v = JObj (stats @ [(''variance'', JFloat variance), (''standard-deviation'', JFloat dev)])"
proof -
  let ?s0 = "\<lparr>fp_mode = [], fp_mean_num = Fin 0, fp_sample_size = 0\<rparr>"
  obtain s where s: "rfold (first_pass_step h) h ?s0 = Inr s"
  proof (cases "rfold (first_pass_step h) h ?s0")
    case (Inl e)
    then have "e \<noteq> ValueError" using first_pass_error [OF assms(2)] by metis
    then show ?thesis using Inl assms(1) by (simp add: hist_statistics_def)
  qed
  have size: "fp_sample_size s = hist_total h" and mode: "fp_mode s = fold (mode_step h) (map fst h) []"
    using first_pass_facts [OF s] by simp_all
  have "rmap (\<lambda>(k, n). rbind (py_float (JStr k)) (\<lambda>x. Inr (x, n))) h = Inr items"
    using assms(2) by (simp add: hist_items_def)
  then show ?thesis
    using assms(1) s size mode that
    by (auto simp: hist_statistics_def res_simps Let_def sorted_items_def split: prod.splits)
qed

text \<open>
  C4. The percentiles of a histogram are those of the definition the code cites: when the
  bucket names are numbers, the counts are positive and the sample is below \<open>2 ^ 53\<close>, each of
  the four reported percentiles is the value interpolated between its rank and the next, rank
  and fraction as its constructor computed them from the sample size, in the sorted sample
  with ranks outside it clamped to its ends.
\<close>

theorem percentiles_are_nist:
  assumes "hist_statistics h = Inr v" and "hist_items h = Inr items"
    and "good_items items" and "h \<noteq> []" and "hist_total h < 2 ^ 53"
  shows "\<exists>stats pcs. v = JObj stats \<and>
    rmap (\<lambda>q. new_percentile q (hist_total h)) quantiles = Inr pcs \<and>
    (\<forall>i < 4. map_of stats (percentile_key (quantiles ! i)) =
       Some (JFloat (nist_percentile (sorted_items items) (pc_k (pcs ! i)) (pc_d (pcs ! i)))))"
proof -
  let ?N = "hist_total h"
  have ne: "items \<noteq> []" using assms(2,4) by (cases h) (auto simp: hist_items_def res_simps)
  have tot: "sample_count items = ?N" by (rule hist_items_total [OF assms(2)])
  have N: "0 < ?N" using sample_count_pos [OF assms(3) ne] tot by simp
  obtain mean mode pcs sd count rest stats variance dev where
    e: "rmap (\<lambda>q. new_percentile q ?N) quantiles = Inr pcs"
      "rfold (second_pass_step mean) (sorted_items items) (Fin 0, 0, pcs,
         [(''mode'', JList mode), (''mean'', JFloat mean),
          (''minimum'', JFloat (fst (hd (sorted_items items)))),
          (''maximum'', JFloat (fst (last (sorted_items items))))]) = Inr (sd, count, rest, stats)"
      "v = JObj (stats @ [(''variance'', JFloat variance), (''standard-deviation'', JFloat dev)])"
    by (rule hist_statistics_elim [OF assms(1,2)])
  have p: "map pc_key pcs = map percentile_key quantiles" "rank_ordered ?N pcs"
      "\<forall>p \<in> set pcs. good_percentile ?N p" "\<forall>p \<in> set pcs. fresh 0 p"
    using quantile_percentiles [OF N assms(5)] e(1) by auto
  have ready: "ready ?N 0 (Fin 0) pcs" using p(4) by (simp add: ready_def split: list.split)
  have dist: "distinct (map pc_key pcs)"
    unfolding p(1) by (simp add: quantiles_def percentile_key_def show_int_def show_nat.simps digit_char_def)
  have res: "\<forall>p \<in> set pcs. map_of stats (pc_key p) = Some (JFloat (expected 0 (Fin 0) (sorted_items items) p))"
    using second_pass [OF e(2) ready p(3,2) dist good_sorted_items [OF assms(3)] order_refl N] tot assms(5)
    by simp
  have len: "length pcs = 4" using arg_cong [OF p(1), of length] by (simp add: quantiles_def)
  have "map_of stats (percentile_key (quantiles ! i)) =
      Some (JFloat (nist_percentile (sorted_items items) (pc_k (pcs ! i)) (pc_d (pcs ! i))))" if "i < 4" for i
  proof -
    have key: "pc_key (pcs ! i) = percentile_key (quantiles ! i)"
      using p(1) that len by (metis length_map nth_map)
    have m: "pcs ! i \<in> set pcs" using that len by simp
    then have "pc_value (pcs ! i) = None" using p(4) by (simp add: fresh_def)
    then show ?thesis using res m key by (auto simp: expected_def nist_percentile_def)
  qed
  then show ?thesis using e(1,3) by (auto simp: map_add_def)
qed

text \<open>The keys of the greatest count.\<close>

lemma mode_fold:
  "fold (mode_step h) ks [] = filter (\<lambda>k. \<forall>k' \<in> set ks. the (map_of h k') \<le> the (map_of h k)) ks"
proof (induction ks rule: rev_induct)
  case Nil
  then show ?case by simp
next
  case (snoc k ks)
  let ?c = "\<lambda>k. the (map_of h k)"
  let ?best = "\<lambda>k. \<forall>k' \<in> set ks. ?c k' \<le> ?c k"
  have fold: "fold (mode_step h) (ks @ [k]) [] = mode_step h k (filter ?best ks)"
    using snoc.IH by simp
  show ?case
  proof (cases "filter ?best ks")
    case Nil
    have "ks = []"
    proof (rule ccontr)
      assume "ks \<noteq> []"
      then have "Max (?c ` set ks) \<in> ?c ` set ks" by (intro Max_in) auto
      then obtain m where m: "m \<in> set ks" "?c m = Max (?c ` set ks)" by auto
      have "?best m" unfolding m(2) by simp
      then have "m \<in> set (filter ?best ks)" using m(1) by simp
      then show False unfolding Nil by simp
    qed
    then show ?thesis by (simp add: mode_step_def)
  next
    case (Cons m ms)
    then have "m \<in> set (filter ?best ks)" by simp
    then have m: "m \<in> set ks" "?best m" by simp_all
    have best: "?best k' \<longleftrightarrow> ?c k' = ?c m" if "k' \<in> set ks" for k'
    proof
      assume "?best k'"
      then show "?c k' = ?c m" using m that by (intro order_antisym) simp_all
    next
      assume "?c k' = ?c m"
      then show "?best k'" using m(2) by simp
    qed
    have snoc_best: "filter (\<lambda>x. \<forall>y \<in> set (ks @ [k]). ?c y \<le> ?c x) (ks @ [k]) =
        filter (\<lambda>x. ?best x \<and> ?c k \<le> ?c x) ks @ (if ?best k then [k] else [])"
      by (simp add: conj_commute)
    have mode: "mode_step h k (filter ?best ks) = (if ?c m < ?c k then [k]
        else if ?c k = ?c m then filter ?best ks @ [k] else filter ?best ks)"
      using Cons by (simp add: mode_step_def)
    have bk: "?best k \<longleftrightarrow> ?c m \<le> ?c k" using m by (meson order_trans)
    show ?thesis
    proof (cases "?c m < ?c k")
      case True
      have "filter (\<lambda>x. ?best x \<and> ?c k \<le> ?c x) ks = []"
        unfolding filter_empty_conv using best True by fastforce
      then show ?thesis unfolding fold mode snoc_best using True bk by simp
    next
      case False
      have "filter (\<lambda>x. ?best x \<and> ?c k \<le> ?c x) ks = filter ?best ks"
        using best False by (intro filter_cong) auto
      then show ?thesis unfolding fold mode snoc_best using False bk by auto
    qed
  qed
qed

text \<open>
  C19. The extremes and the mode of a histogram: when the bucket names are finite numbers and
  the counts positive, the reported minimum and maximum are the first and the last
  measurement of the sorted sample, no bucket lies below or above them, and the reported
  mode lists the numbers of exactly those buckets whose count no bucket exceeds, in the order
  of the histogram.
\<close>

theorem statistics_extremes_and_mode:
  assumes "hist_statistics h = Inr v" and "hist_items h = Inr items"
    and "good_items items" and "h \<noteq> []" and "hist_total h < 2 ^ 53"
  shows "\<exists>stats lo hi mode. v = JObj stats \<and> map_of stats ''minimum'' = Some (JFloat lo) \<and>
    map_of stats ''maximum'' = Some (JFloat hi) \<and> map_of stats ''mode'' = Some (JList mode) \<and>
    lo = item_at (sorted_items items) 1 \<and> hi = item_at (sorted_items items) (hist_total h) \<and>
    (\<forall>(x, n) \<in> set items. \<not> flt x lo \<and> \<not> flt hi x) \<and>
    rmap (\<lambda>k. rbind (py_float (JStr k)) (\<lambda>x. Inr (JFloat x)))
      (filter (\<lambda>k. \<forall>k' \<in> set (map fst h). the (map_of h k') \<le> the (map_of h k)) (map fst h)) = Inr mode"
proof -
  let ?N = "hist_total h"
  have ne: "items \<noteq> []" using assms(2,4) by (cases h) (auto simp: hist_items_def res_simps)
  have tot: "sample_count items = ?N" by (rule hist_items_total [OF assms(2)])
  have N: "0 < ?N" using sample_count_pos [OF assms(3) ne] tot by simp
  let ?stats0 = "\<lambda>mode mean. [(''mode'', JList mode), (''mean'', JFloat mean),
      (''minimum'', JFloat (fst (hd (sorted_items items)))),
      (''maximum'', JFloat (fst (last (sorted_items items))))]"
  obtain mean mode pcs sd count rest stats variance dev where
    e: "rmap (\<lambda>q. new_percentile q ?N) quantiles = Inr pcs"
      "rmap (\<lambda>k. rbind (py_float (JStr k)) (\<lambda>x. Inr (JFloat x))) (fold (mode_step h) (map fst h) []) = Inr mode"
      "rfold (second_pass_step mean) (sorted_items items) (Fin 0, 0, pcs, ?stats0 mode mean) = Inr (sd, count, rest, stats)"
      "v = JObj (stats @ [(''variance'', JFloat variance), (''standard-deviation'', JFloat dev)])"
    by (rule hist_statistics_elim [OF assms(1,2)])
  have p: "map pc_key pcs = map percentile_key quantiles" "rank_ordered ?N pcs"
      "\<forall>p \<in> set pcs. good_percentile ?N p" "\<forall>p \<in> set pcs. fresh 0 p"
    using quantile_percentiles [OF N assms(5)] e(1) by auto
  have ready: "ready ?N 0 (Fin 0) pcs" using p(4) by (simp add: ready_def split: list.split)
  have keys: "pc_key ` set pcs = percentile_key ` set quantiles" using p(1) by (metis set_map)
  have dist: "distinct (map pc_key pcs)"
    unfolding p(1) by (simp add: quantiles_def percentile_key_def show_int_def show_nat.simps digit_char_def)
  have kept: "map_of stats key = map_of (?stats0 mode mean) key" if "key \<notin> percentile_key ` set quantiles" for key
    using second_pass [OF e(3) ready p(3,2) dist good_sorted_items [OF assms(3)] order_refl N]
      tot assms(5) that keys by simp
  have other: "key \<notin> percentile_key ` set quantiles" if "key \<in> {''mode'', ''minimum'', ''maximum''}" for key
    using that by (auto simp: quantiles_def percentile_key_def)
  have stats: "map_of stats ''mode'' = Some (JList mode)"
      "map_of stats ''minimum'' = Some (JFloat (fst (hd (sorted_items items))))"
      "map_of stats ''maximum'' = Some (JFloat (fst (last (sorted_items items))))"
    using kept [OF other] by simp_all
  have ends: "item_at (sorted_items items) 1 = fst (hd (sorted_items items))"
      "item_at (sorted_items items) ?N = fst (last (sorted_items items))"
    using item_at_ends [OF good_sorted_items [OF assms(3)]] ne tot by simp_all
  show ?thesis
    using e(2) [unfolded mode_fold] e(4) stats ends sorted_items_extremes [OF assms(3)]
    by (auto simp: map_add_def)
qed

subsection \<open>A histogram of two measurements\<close>

definition witness_hist :: "(string \<times> int) list" where
  "witness_hist = [(''3'', 1), (''1'', 1)]"

lemma float_literals:
  "parse_float ''3'' = Some (Fin 3)" "parse_float ''1'' = Some (Fin 1)"
  "mkfloat 0 = Fin 0" "mkfloat 1 = Fin 1" "mkfloat (-1) = Fin (-1)" "mkfloat 2 = Fin 2" "mkfloat 3 = Fin 3"
  "mkfloat 4 = Fin 4"
proof -
  show m: "mkfloat 0 = Fin 0" "mkfloat 1 = Fin 1" "mkfloat (-1) = Fin (-1)" "mkfloat 2 = Fin 2"
      "mkfloat 3 = Fin 3" "mkfloat 4 = Fin 4"
    using mkfloat_of_int [of 0] mkfloat_of_int [of 1] mkfloat_of_int [of "-1"] mkfloat_of_int [of 2]
      mkfloat_of_int [of 3] mkfloat_of_int [of 4] by simp_all
  show "parse_float ''3'' = Some (Fin 3)" "parse_float ''1'' = Some (Fin 1)"
    using m by (simp_all add: str_eval)
qed

lemma fsqrt_1: "fsqrt (Fin 1) = Inr (Fin 1)"
proof -
  have e: "fexp 1 = 0" by code_simp
  have i: "isqrt (2 ^ 128) = 2 ^ 64" by code_simp
  show ?thesis using i float_literals by (simp add: fsqrt_def e Let_def)
qed

lemma witness_hist_items: "hist_items witness_hist = Inr [(Fin 3, 1), (Fin 1, 1)]"
  by (simp add: hist_items_def witness_hist_def float_literals)

lemma witness_hist_good: "good_items [(Fin 3, 1), (Fin 1, 1)]"
  using double_of_int [of 3] double_of_int [of 1] by (simp add: double_value_def)

lemma witness_hist_sorted: "sorted_items [(Fin 3, 1), (Fin 1, 1)] = [(Fin 1, 1), (Fin 3, 1)]"
  by (simp add: sorted_items_def sort_by_def flt_def)

lemma witness_hist_statistics: "\<exists>v. hist_statistics witness_hist = Inr v"
proof -
  obtain pcs where p: "rmap (\<lambda>q. new_percentile q 2) quantiles = Inr pcs"
      "map pc_key pcs = map percentile_key quantiles" "rank_ordered 2 pcs"
      "\<forall>p \<in> set pcs. good_percentile 2 p \<and> fresh 0 p"
    using quantile_percentiles [of 2] by auto
  have ready: "ready 2 0 (Fin 0) pcs" using p(4) by (simp add: ready_def split: list.split)
  have dist: "distinct (map pc_key pcs)"
    unfolding p(2) by (simp add: quantiles_def percentile_key_def show_int_def show_nat.simps digit_char_def)
  let ?items = "[(Fin 1, 1), (Fin 3, 1)]"
  let ?stats = "[(''mode'', JList [JFloat (Fin 3), JFloat (Fin 1)]), (''mean'', JFloat (Fin 2)),
      (''minimum'', JFloat (Fin 1)), (''maximum'', JFloat (Fin 3))]"
  note eval = fsub_def fneg_def fadd_def fmul_def fdiv_def fpow2_def float_literals
  have good: "good_items ?items" using witness_hist_good by simp
  have "\<forall>(v, n) \<in> set ?items. \<exists>y. fpow2 (fsub v (Fin 2)) = Inr y" by (simp add: eval)
  from second_pass_total [OF ready _ p(3) dist good _ _ _ this, of "Fin 0" ?stats] p(4)
  obtain sd c rest stats where r:
    "rfold (second_pass_step (Fin 2)) ?items (Fin 0, 0, pcs, ?stats) = Inr (sd, c, rest, stats)" by auto
  have sd: "sd = Fin 2" using r by (auto simp: eval res_simps float_of_int_def)
  show ?thesis using p(1) r sd
    by (simp add: hist_statistics_def witness_hist_def first_pass_step_def mode_step_def float_of_int_def
        eval witness_hist_sorted [unfolded sorted_items_def] fsqrt_1)
qed

theorem percentiles_are_nist_witness:
  "\<exists>stats pcs. hist_statistics witness_hist = Inr (JObj stats) \<and>
    rmap (\<lambda>q. new_percentile q 2) quantiles = Inr pcs \<and>
    map_of stats (percentile_key 50) =
      Some (JFloat (nist_percentile [(Fin 1, 1), (Fin 3, 1)] (pc_k (pcs ! 1)) (pc_d (pcs ! 1))))"
proof -
  obtain v where v: "hist_statistics witness_hist = Inr v" using witness_hist_statistics by blast
  have "hist_total witness_hist = 2" by (simp add: witness_hist_def hist_total_def)
  then obtain stats pcs where s: "v = JObj stats" "rmap (\<lambda>q. new_percentile q 2) quantiles = Inr pcs"
      "\<forall>i < 4. map_of stats (percentile_key (quantiles ! i)) =
         Some (JFloat (nist_percentile [(Fin 1, 1), (Fin 3, 1)] (pc_k (pcs ! i)) (pc_d (pcs ! i))))"
    using percentiles_are_nist [OF v witness_hist_items witness_hist_good]
    by (auto simp: witness_hist_sorted witness_hist_def)
  moreover have "quantiles ! 1 = 50" by (simp add: quantiles_def)
  ultimately show ?thesis using v by (metis one_less_numeral_iff semiring_norm(76))
qed

theorem statistics_extremes_and_mode_witness:
  "\<exists>stats. hist_statistics witness_hist = Inr (JObj stats) \<and>
    map_of stats ''minimum'' = Some (JFloat (Fin 1)) \<and> map_of stats ''maximum'' = Some (JFloat (Fin 3)) \<and>
    map_of stats ''mode'' = Some (JList [JFloat (Fin 3), JFloat (Fin 1)])"
proof -
  obtain v where v: "hist_statistics witness_hist = Inr v" using witness_hist_statistics by blast
  have "hist_total witness_hist = 2" by (simp add: witness_hist_def hist_total_def)
  then show ?thesis
    using statistics_extremes_and_mode [OF v witness_hist_items witness_hist_good] v
    by (simp add: witness_hist_sorted) (auto simp: witness_hist_def float_literals)
qed

end
