(* ===== verification/Remove_Data.thy ===== *)
theory Remove_Data
  imports Time_Series
begin

section \<open>Expiring old data\<close>

text \<open>
  \<open>util/ps_remove_data.py\<close>: the retention policies of the configuration file, kept as nested
  dictionaries (event type, summary type, summary window), the choice of the most specific
  policy for an event type, and the run that deletes expired columns from Cassandra, a time
  chunk per query, and then the metadata with nothing left. The state is the \<open>archive\<close> of
  \<open>Time_Series\<close>. The command line is the record \<open>rm_args\<close>; \<open>datetime.utcnow()\<close>, read once per
  row, is the argument \<open>clock\<close>, and the configuration is its decoded JSON. What the script
  prints is left out. The chunk loop is a partial function: it returns whenever the chunk is
  positive, which is proved in \<open>Remove_Data_Facts\<close>.
\<close>

subsection \<open>Policies\<close>

text \<open>Numbers that are equal are one dictionary key; the accepted keys are strings and numbers.\<close>

fun dict_key :: "json \<Rightarrow> json" where
  "dict_key (JBool b) = JInt (if b then 1 else 0)"
| "dict_key (JFloat (Fin r)) = (if of_int \<lfloor>r\<rfloor> = r then JInt \<lfloor>r\<rfloor> else JFloat (Fin r))"
| "dict_key v = v"

datatype policy_tree = PAction "json dict" | PNode "(json \<times> policy_tree) list"

datatype match_field = MEventType | MSummaryType | MSummaryWindow

definition POLICY_MATCH_FIELD_DEFS :: "(match_field \<times> string) list" where
  "POLICY_MATCH_FIELD_DEFS = [(MEventType, ''event_type''), (MSummaryType, ''summary_type''),
     (MSummaryWindow, ''summary_window'')]"

text \<open>The type conversion and the membership check of one field.\<close>

definition check_field :: "match_field \<Rightarrow> json \<Rightarrow> unit res" where
  "check_field f val =
     (if val = JStr ''*'' then Inr ()
      else case f of
        MEventType \<Rightarrow> if val \<in> set (map (JStr \<circ> fst) EVENT_TYPE_CONFIG) then Inr ()
                      else Inl (RuntimeError ''Invalid value for event_type'')
      | MSummaryType \<Rightarrow> if val \<in> set (map (JStr \<circ> fst) INVERSE_SUMMARY_TYPES) then Inr ()
                      else Inl (RuntimeError ''Invalid value for summary_type'')
      | MSummaryWindow \<Rightarrow> rbind (py_int val) (\<lambda>_. Inr ()))"

definition build_policy_action :: "json \<Rightarrow> json res" where
  "build_policy_action policy =
     rbind (py_contains ''expire'' policy) (\<lambda>b.
     if \<not> b then Inl (RuntimeError ''Missing required field expire'')
     else rbind (py_getitem policy ''expire'') (\<lambda>v.
       if v = JStr ''never'' then Inr v else rbind (py_int v) (\<lambda>_. Inr v)))"

definition empty_policies :: "'f list \<Rightarrow> policy_tree" where
  "empty_policies defs = (if defs = [] then PAction [] else PNode [])"

text \<open>One policy is added: the builder descends a dictionary per field and sets the action.\<close>

fun add_policy :: "(match_field \<times> string) list \<Rightarrow> json \<Rightarrow> policy_tree \<Rightarrow> policy_tree res" where
  "add_policy [] p (PAction acts) =
     rbind (build_policy_action p) (\<lambda>v. Inr (PAction (AList.update ''expire'' v acts)))"
| "add_policy ((f, name) # defs) p (PNode ps) =
     rbind (py_contains name p) (\<lambda>b.
     if \<not> b then Inl (RuntimeError (''Missing required field '' @ name))
     else rbind (py_getitem p name) (\<lambda>val. rbind (check_field f val) (\<lambda>_.
       let k = dict_key val in
       rbind (add_policy defs p (case map_of ps k of Some t \<Rightarrow> t | None \<Rightarrow> empty_policies defs))
         (\<lambda>t. Inr (PNode (AList.update k t ps))))))"
| "add_policy _ _ _ = Inl Unmodelled"

definition build_policies :: "json \<Rightarrow> policy_tree res" where
  "build_policies config =
     rbind (py_contains ''policies'' config) (\<lambda>b.
     if \<not> b then Inl (RuntimeError ''Invalid JSON config. Missing required top-level policies object'')
     else rbind (rbind (py_getitem config ''policies'') py_iter)
       (\<lambda>ps. rfold (add_policy POLICY_MATCH_FIELD_DEFS) ps (PNode [])))"

text \<open>The attributes of a row, as \<open>str(getattr(et, field))\<close> gives them.\<close>

fun field_value :: "event_type_row \<Rightarrow> match_field \<Rightarrow> string" where
  "field_value et MEventType = et_event_type et"
| "field_value et MSummaryType = et_summary_type et"
| "field_value et MSummaryWindow = show_int (et_summary_window et)"

fun get_policy :: "event_type_row \<Rightarrow> policy_tree \<Rightarrow> match_field list \<Rightarrow> json dict option" where
  "get_policy et (PAction acts) [] = Some acts"
| "get_policy et (PNode ps) (f # fs) =
     (let curr_policy = (case map_of ps (JStr (field_value et f)) of
            Some t \<Rightarrow> get_policy et t fs | None \<Rightarrow> None)
      in case curr_policy of
           Some a \<Rightarrow> Some a
         | None \<Rightarrow> (case map_of ps (JStr ''*'') of Some t \<Rightarrow> get_policy et t fs | None \<Rightarrow> None))"
| "get_policy et _ _ = None"

subsection \<open>Deleting the columns of a series\<close>

text \<open>The result of a query, the family it came from and the path of the series.\<close>

definition query_data ::
  "'d pycassa \<Rightarrow> string \<Rightarrow> string \<Rightarrow> string \<Rightarrow> int \<Rightarrow> int \<Rightarrow> int \<Rightarrow> 'd cass
     \<Rightarrow> (json dict list \<times> colfam \<times> string list) res" where
  "query_data P metadata_key event_type summary_type freq begin_time end_time st =
     (let path = Ts_Object.row_prefix event_type @ [metadata_key] @
        (if summary_type \<noteq> ''base'' then [summary_type] else []) in
      rbind (event_type_config event_type) (\<lambda>query_type.
      let col_fam = col_family query_type summary_type in
      rbind (case col_fam of
          AggCF \<Rightarrow> query_aggregation_timerange P path (Some freq) (begin_time * 1000) (end_time * 1000) ''average'' None st
        | RateCF \<Rightarrow> query_baserate_timerange P path (Some freq) (begin_time * 1000) (end_time * 1000) ''delta'' None st
        | RawCF \<Rightarrow> query_raw_data P path (Some freq) (begin_time * 1000) (end_time * 1000) None st
        | StatCF \<Rightarrow> Inl (RuntimeError ''Requested data does not map to a known column-family''))
        (\<lambda>results. Inr (results, col_fam, path))))"

definition datum_ts :: "json dict \<Rightarrow> int res" where
  "datum_ts datum = (case map_of datum ''ts'' of
     None \<Rightarrow> Inl KeyError | Some (JInt ts) \<Rightarrow> Inr ts | Some _ \<Rightarrow> Inl Unmodelled)"

text \<open>One remove per column; a failing remove is reported and skipped.\<close>

fun remove_columns ::
  "'d pycassa \<Rightarrow> colfam \<Rightarrow> string list \<Rightarrow> int \<Rightarrow> json dict list \<Rightarrow> 'd \<Rightarrow> exn option \<times> 'd" where
  "remove_columns P cf path freq [] d = (None, d)"
| "remove_columns P cf path freq (col # cols) d =
     (case rbind (datum_ts col) (\<lambda>ts. rbind (year_of_ms ts) (\<lambda>year. Inr (ts, year))) of
        Inl e \<Rightarrow> (Some e, d)
      | Inr (ts, year) \<Rightarrow>
          remove_columns P cf path freq cols
            (case cf_remove P cf (get_rowkey path (Some freq) (Some year)) [ts] d of Inr d' \<Rightarrow> d' | Inl _ \<Rightarrow> d))"

definition send_quietly :: "'d pycassa \<Rightarrow> colfam \<Rightarrow> 'd \<Rightarrow> 'd" where
  "send_quietly P cf d = (case cf_send P cf d of Inr d' \<Rightarrow> d' | Inl _ \<Rightarrow> d)"

text \<open>The start of the chunk, clipped at the epoch, and the misses that end the loop there.\<close>

definition clip_chunk :: "int \<Rightarrow> int \<Rightarrow> int \<Rightarrow> int \<times> int" where
  "clip_chunk max_misses begin_time misses =
     (if begin_time = 0 then (0, max_misses)
      else if begin_time < 0 then (0, max_misses)
      else (begin_time, misses))"

partial_function (option) expire_chunks ::
  "'d pycassa \<Rightarrow> event_type_row \<Rightarrow> int \<Rightarrow> int \<Rightarrow> int \<Rightarrow> int \<Rightarrow> int \<Rightarrow> 'd cass \<Rightarrow> (exn option \<times> 'd cass) option" where
  "expire_chunks P et chunk max_misses misses begin_time end_time st =
     (if \<not> misses < max_misses then Some (None, st)
      else let (b, m) = clip_chunk max_misses begin_time misses in
        case query_data P (et_metadata_key et) (et_event_type et) (et_summary_type et) (et_summary_window et) b end_time st of
          Inl _ \<Rightarrow> Some (None, st)
        | Inr (expired_data, cf, path) \<Rightarrow>
            if expired_data = [] then expire_chunks P et chunk max_misses (m + 1) (b - chunk) b st
            else case remove_columns P cf path (et_summary_window et) expired_data (cdb st) of
                (Some e, d) \<Rightarrow> Some (Some e, st\<lparr>cdb := d\<rparr>)
              | (None, d) \<Rightarrow> expire_chunks P et chunk max_misses m (b - chunk) b (st\<lparr>cdb := send_quietly P cf d\<rparr>))"

subsection \<open>The run\<close>

record rm_args =
  ra_start :: "datetime option"
  ra_time_chunk :: int
  ra_max_misses :: int

definition DEFAULT_MAX_TIME_CHUNK :: int where
  "DEFAULT_MAX_TIME_CHUNK = 3600 * 24"

definition DEFAULT_MAX_MISSES :: int where
  "DEFAULT_MAX_MISSES = 50"

text \<open>\<open>datetime.utcnow() - timedelta(days=n)\<close>.\<close>

definition days_before :: "int \<Rightarrow> datetime \<Rightarrow> datetime res" where
  "days_before n now =
     (let d = DT (dt_micros now - n * 86400000000) in
      if 999999999 < \<bar>n\<bar> \<or> dt_year d < 1 \<or> 9999 < dt_year d then Inl OverflowError else Inr d)"

text \<open>The time a policy expires data at, unless the data is kept or \<open>--start\<close> skips the row.\<close>

definition expire_bound :: "rm_args \<Rightarrow> datetime \<Rightarrow> json dict \<Rightarrow> int option res" where
  "expire_bound args now policy =
     (case map_of policy ''expire'' of
        None \<Rightarrow> Inl KeyError
      | Some v \<Rightarrow>
         if (case v of JStr s \<Rightarrow> lower s = ''never'' | _ \<Rightarrow> False) then Inr None
         else rbind (py_int v) (\<lambda>n. rbind (days_before n now) (\<lambda>d.
           let expire_time = timegm d in
           case ra_start args of
             None \<Rightarrow> Inr (Some expire_time)
           | Some s \<Rightarrow> if timegm s \<le> expire_time then Inr (Some (timegm s)) else Inr None)))"

definition row_bound :: "rm_args \<Rightarrow> policy_tree \<Rightarrow> datetime \<Rightarrow> event_type_row \<Rightarrow> int option res" where
  "row_bound args policies now et =
     (case get_policy et policies (map fst POLICY_MATCH_FIELD_DEFS) of
        None \<Rightarrow> Inr None | Some policy \<Rightarrow> expire_bound args now policy)"

text \<open>A row not updated since the bound has expired as a whole, and is searched from its last update.\<close>

definition row_expired :: "int \<Rightarrow> event_type_row \<Rightarrow> bool" where
  "row_expired bound et = (case et_time_updated et of None \<Rightarrow> True | Some u \<Rightarrow> timegm u \<le> bound)"

definition search_from :: "int \<Rightarrow> event_type_row \<Rightarrow> int" where
  "search_from bound et = (case et_time_updated et of
     None \<Rightarrow> bound | Some u \<Rightarrow> if timegm u \<le> bound then timegm u else bound)"

text \<open>\<open>metadata_counts\<close>: per metadata key the rows expired and the rows counted.\<close>

type_synonym counts = "(string \<times> nat \<times> nat) list"

definition count_row :: "int \<Rightarrow> event_type_row \<Rightarrow> counts \<Rightarrow> counts" where
  "count_row bound et counts =
     (let (expired, total) = (case map_of counts (et_metadata_key et) of None \<Rightarrow> (0, 0) | Some c \<Rightarrow> c)
      in AList.update (et_metadata_key et)
           (if row_expired bound et then (expired + 1, total + 1) else (expired, total + 1)) counts)"

definition expire_row ::
  "'d pycassa \<Rightarrow> rm_args \<Rightarrow> policy_tree \<Rightarrow> datetime \<Rightarrow> event_type_row \<Rightarrow> counts \<times> 'd cass
     \<Rightarrow> (exn option \<times> counts \<times> 'd cass) option" where
  "expire_row P args policies now et s =
     (case s of (counts, st) \<Rightarrow>
        case row_bound args policies now et of
          Inl e \<Rightarrow> Some (Some e, counts, st)
        | Inr None \<Rightarrow> Some (None, counts, st)
        | Inr (Some bound) \<Rightarrow>
            (let expire_time = search_from bound et in
             case expire_chunks P et (ra_time_chunk args) (ra_max_misses args) 0
                    (expire_time - ra_time_chunk args) expire_time st of
               None \<Rightarrow> None
             | Some (e, st') \<Rightarrow> Some (e, count_row bound et counts, st')))"

fun expire_rows ::
  "'d pycassa \<Rightarrow> rm_args \<Rightarrow> policy_tree \<Rightarrow> (nat \<Rightarrow> datetime) \<Rightarrow> nat \<Rightarrow> event_type_row list \<Rightarrow> counts \<times> 'd cass
     \<Rightarrow> (exn option \<times> counts \<times> 'd cass) option" where
  "expire_rows P args policies clock i [] s = Some (None, s)"
| "expire_rows P args policies clock i (et # ets) s =
     (case expire_row P args policies (clock i) et s of
        None \<Rightarrow> None
      | Some (Some e, s') \<Rightarrow> Some (Some e, s')
      | Some (None, s') \<Rightarrow> expire_rows P args policies clock (Suc i) ets s')"

text \<open>Deleting a metadata record deletes its event types.\<close>

definition expired_metadata :: "counts \<Rightarrow> string list" where
  "expired_metadata counts = map fst (filter (\<lambda>(k, expired, total). total = expired) counts)"

definition delete_metadata :: "string list \<Rightarrow> event_type_row list \<Rightarrow> event_type_row list" where
  "delete_metadata ks rows = filter (\<lambda>r. et_metadata_key r \<notin> set ks) rows"

definition remove_data ::
  "'d pycassa \<Rightarrow> rm_args \<Rightarrow> json \<Rightarrow> (nat \<Rightarrow> datetime) \<Rightarrow> 'd archive \<Rightarrow> (exn option \<times> 'd archive) option" where
  "remove_data P args config clock ar =
     (case build_policies config of
        Inl e \<Rightarrow> Some (Some e, ar)
      | Inr policies \<Rightarrow>
         (case expire_rows P args policies clock 0 (ar_event_types ar) ([], ar_cass ar) of
            None \<Rightarrow> None
          | Some (Some e, counts, st) \<Rightarrow> Some (Some e, ar\<lparr>ar_cass := st\<rparr>)
          | Some (None, counts, st) \<Rightarrow> Some (None, ar\<lparr>ar_cass := st,
              ar_event_types := delete_metadata (expired_metadata counts) (ar_event_types ar)\<rparr>)))"

end
