(* ===== verification/Remove_Data_Policies.thy ===== *)
theory Remove_Data_Policies
  imports Remove_Data
begin

section \<open>The policy an event type gets\<close>

text \<open>
  The nested dictionaries of \<open>Remove_Data\<close> against a flat specification: a list of policies,
  each with the tuple of its three fields, of which an event type gets the last one with the
  most specific tuple that matches it, the event type counting before the summary type and
  the summary type before the window.
\<close>

subsection \<open>Specification\<close>

definition policy_field :: "json \<Rightarrow> string \<Rightarrow> json" where
  "policy_field p name = (case py_getitem p name of Inr v \<Rightarrow> dict_key v | Inl _ \<Rightarrow> JNull)"

definition policy_key :: "json \<Rightarrow> json list" where
  "policy_key p = map (policy_field p) [''event_type'', ''summary_type'', ''summary_window'']"

definition policy_expire :: "json \<Rightarrow> json" where
  "policy_expire p = (case py_getitem p ''expire'' of Inr v \<Rightarrow> v | Inl _ \<Rightarrow> JNull)"

text \<open>The tuples that match given values, from the most to the least specific.\<close>

fun matching_keys :: "string list \<Rightarrow> json list list" where
  "matching_keys [] = [[]]"
| "matching_keys (v # vs) = map ((#) (JStr v)) (matching_keys vs) @ map ((#) (JStr ''*'')) (matching_keys vs)"

definition row_fields :: "event_type_row \<Rightarrow> string list" where
  "row_fields et = [et_event_type et, et_summary_type et, show_int (et_summary_window et)]"

definition last_with_key :: "json list \<Rightarrow> json list \<Rightarrow> json option" where
  "last_with_key ps ks = find (\<lambda>p. policy_key p = ks) (rev ps)"

fun first_some :: "'a option list \<Rightarrow> 'a option" where
  "first_some [] = None"
| "first_some (None # xs) = first_some xs"
| "first_some (Some x # xs) = Some x"

definition chosen_policy :: "json list \<Rightarrow> event_type_row \<Rightarrow> json option" where
  "chosen_policy ps et = first_some (map (last_with_key ps) (matching_keys (row_fields et)))"

subsection \<open>The tree implements it\<close>

fun tree_find :: "policy_tree \<Rightarrow> json list \<Rightarrow> json dict option" where
  "tree_find (PAction acts) [] = Some acts"
| "tree_find (PNode ps) (k # ks) = (case map_of ps k of None \<Rightarrow> None | Some t \<Rightarrow> tree_find t ks)"
| "tree_find _ _ = None"

lemma first_some_append: "first_some (xs @ ys) = (case first_some xs of Some x \<Rightarrow> Some x | None \<Rightarrow> first_some ys)"
  by (induction xs rule: first_some.induct) auto

lemma first_some_map_option: "first_some (map (\<lambda>x. map_option f (g x)) xs) = map_option f (first_some (map g xs))"
proof (induction xs)
  case (Cons x xs)
  then show ?case by (cases "g x") auto
qed simp

lemma first_some_None: "first_some (map (\<lambda>_. None) xs) = None"
  by (induction xs) auto

lemma tree_find_step:
  "map (tree_find (PNode ps)) (map ((#) k) kss) =
     (case map_of ps k of None \<Rightarrow> map (\<lambda>_. None) kss | Some t \<Rightarrow> map (tree_find t) kss)"
  by (auto split: option.splits)

lemma get_policy_first:
  "get_policy et t fs = first_some (map (tree_find t) (matching_keys (map (field_value et) fs)))"
proof (induction et t fs rule: get_policy.induct)
  case (2 et ps f fs)
  have step: "get_policy et (PNode ps) (f # fs) =
      (case (case map_of ps (JStr (field_value et f)) of Some t \<Rightarrow> get_policy et t fs | None \<Rightarrow> None) of
         Some a \<Rightarrow> Some a
       | None \<Rightarrow> (case map_of ps (JStr ''*'') of Some t \<Rightarrow> get_policy et t fs | None \<Rightarrow> None))"
    by (simp add: Let_def)
  let ?kss = "matching_keys (map (field_value et) fs)"
  have sub: "(case map_of ps k of Some t \<Rightarrow> get_policy et t fs | None \<Rightarrow> None) =
      first_some (map (tree_find (PNode ps)) (map ((#) k) ?kss))"
    if "\<And>t. map_of ps k = Some t \<Longrightarrow> get_policy et t fs = first_some (map (tree_find t) ?kss)" for k
    unfolding tree_find_step using that by (cases "map_of ps k") (simp_all add: first_some_None)
  have a: "(case map_of ps (JStr (field_value et f)) of Some t \<Rightarrow> get_policy et t fs | None \<Rightarrow> None) =
      first_some (map (tree_find (PNode ps)) (map ((#) (JStr (field_value et f))) ?kss))"
    by (rule sub) (rule "2.IH"(1))
  show ?case
  proof (cases "case map_of ps (JStr (field_value et f)) of Some t \<Rightarrow> get_policy et t fs | None \<Rightarrow> None")
    case None
    then have "(case map_of ps (JStr ''*'') of Some t \<Rightarrow> get_policy et t fs | None \<Rightarrow> None) =
      first_some (map (tree_find (PNode ps)) (map ((#) (JStr ''*'')) ?kss))"
      by (intro sub "2.IH"(2)) auto
    then show ?thesis
      using a None unfolding step by (simp only: list.map matching_keys.simps map_append first_some_append)
  next
    case (Some x)
    then show ?thesis
      using a unfolding step by (simp only: list.map matching_keys.simps map_append first_some_append option.case)
  qed
qed (simp_all add: first_some_append first_some_None comp_def)

lemma tree_find_empty: "tree_find (empty_policies defs) ks = (if defs = [] \<and> ks = [] then Some [] else None)"
  by (cases ks) (simp_all add: empty_policies_def)

lemma add_policy_find:
  "add_policy defs p t = Inr t' \<Longrightarrow> tree_find t' ks =
     (if ks = map (\<lambda>(f, name). policy_field p name) defs
      then Some (AList.update ''expire'' (policy_expire p) (case tree_find t ks of None \<Rightarrow> [] | Some a \<Rightarrow> a))
      else tree_find t ks)"
proof (induction defs p t arbitrary: t' ks rule: add_policy.induct)
  case (1 p acts)
  then show ?case
    by (cases ks) (auto simp: build_policy_action_def policy_expire_def res_simps split: if_splits)
next
  case (2 f name defs p ps)
  from "2.prems" obtain val t1 where val: "py_getitem p name = Inr val" and chk: "check_field f val = Inr ()"
    and t1: "add_policy defs p (case map_of ps (dict_key val) of Some t \<Rightarrow> t | None \<Rightarrow> empty_policies defs) = Inr t1"
    and t': "t' = PNode (AList.update (dict_key val) t1 ps)" and b: "py_contains name p = Inr True"
    by (auto simp: res_simps Let_def split: if_splits)
  have fld: "policy_field p name = dict_key val" by (simp add: policy_field_def val)
  note IH = "2.IH" [OF b _ val chk refl t1, simplified]
  show ?case
  proof (cases ks)
    case (Cons k ks')
    show ?thesis
      using IH [of ks'] Cons fld
      by (cases "map_of ps (dict_key val)") (auto simp: t' tree_find_empty split: option.splits if_splits)
  qed (simp add: t')
qed simp_all

lemma policies_find:
  assumes "rfold (add_policy POLICY_MATCH_FIELD_DEFS) ps (PNode []) = Inr t"
  shows "tree_find t ks = map_option (\<lambda>p. [(''expire'', policy_expire p)]) (last_with_key ps ks)"
  using assms
proof (induction ps arbitrary: t rule: rev_induct)
  case Nil
  then show ?case by (cases ks) (auto simp: last_with_key_def)
next
  case (snoc p ps)
  then obtain t1 where t1: "rfold (add_policy POLICY_MATCH_FIELD_DEFS) ps (PNode []) = Inr t1"
      and t: "add_policy POLICY_MATCH_FIELD_DEFS p t1 = Inr t"
    by (auto simp: rfold_append res_simps)
  have key: "map (\<lambda>(f, name). policy_field p name) POLICY_MATCH_FIELD_DEFS = policy_key p"
    by (simp add: POLICY_MATCH_FIELD_DEFS_def policy_key_def)
  show ?case
    unfolding add_policy_find [OF t] key snoc.IH [OF t1]
    by (cases "last_with_key ps ks") (auto simp: last_with_key_def)
qed

text \<open>
  C22. An event type gets the most specific policy that matches it: if the configuration is
  accepted, the lookup in the nested dictionaries returns, for every row, the action of the
  last policy of the list with the first tuple, in the order of specificity, that any policy
  has; and no action when no policy matches.
\<close>

theorem policy_most_specific:
  assumes "build_policies config = Inr t" and "py_getitem config ''policies'' = Inr (JList ps)"
  shows "get_policy et t (map fst POLICY_MATCH_FIELD_DEFS) =
    map_option (\<lambda>p. [(''expire'', policy_expire p)]) (chosen_policy ps et)"
proof -
  have "rfold (add_policy POLICY_MATCH_FIELD_DEFS) ps (PNode []) = Inr t"
    using assms by (auto simp: build_policies_def res_simps split: if_splits)
  note find = policies_find [OF this]
  have "map (field_value et) (map fst POLICY_MATCH_FIELD_DEFS) = row_fields et"
    by (simp add: row_fields_def POLICY_MATCH_FIELD_DEFS_def)
  then show ?thesis
    unfolding get_policy_first chosen_policy_def find first_some_map_option by simp
qed

definition policy :: "string \<Rightarrow> string \<Rightarrow> string \<Rightarrow> string \<Rightarrow> json" where
  "policy et st w e = JObj [(''event_type'', JStr et), (''summary_type'', JStr st),
     (''summary_window'', JStr w), (''expire'', JStr e)]"

definition witness_policies :: "json list" where
  "witness_policies = [policy ''*'' ''*'' ''*'' ''365'', policy ''*'' ''*'' ''86400'' ''1825'',
     policy ''throughput'' ''*'' ''*'' ''never'']"

definition witness_row :: event_type_row where
  "witness_row = \<lparr>et_metadata_key = ''0cb1'', et_event_type = ''failures'', et_summary_type = ''base'',
     et_summary_window = 0, et_time_updated = None\<rparr>"

lemmas policy_eval = rfold.simps POLICY_MATCH_FIELD_DEFS_def add_policy.simps build_policy_action_def
  check_field_def has_key_def empty_policies_def policy_def str_eval

definition witness_tree :: policy_tree where
  "witness_tree = PNode
     [(JStr ''*'', PNode [(JStr ''*'', PNode [(JStr ''*'', PAction [(''expire'', JStr ''365'')]),
        (JStr ''86400'', PAction [(''expire'', JStr ''1825'')])])]),
      (JStr ''throughput'', PNode [(JStr ''*'', PNode [(JStr ''*'', PAction [(''expire'', JStr ''never'')])])])]"

lemma build_witness: "build_policies (JObj [(''policies'', JList witness_policies)]) = Inr witness_tree"
  by (simp add: build_policies_def witness_policies_def witness_tree_def policy_eval EVENT_TYPE_CONFIG_def Let_def)

theorem policy_most_specific_witness:
  "get_policy witness_row witness_tree (map fst POLICY_MATCH_FIELD_DEFS) = Some [(''expire'', JStr ''365'')]"
  using policy_most_specific [OF build_witness, of witness_policies witness_row]
  by (simp add: chosen_policy_def witness_row_def row_fields_def last_with_key_def witness_policies_def
      policy_key_def policy_field_def policy_def policy_expire_def show_int_def show_nat.simps digit_char_def)

end
