(* ===== verification/Remove_Data_Facts.thy ===== *)
theory Remove_Data_Facts
  imports Remove_Data_Policies Range_Queries
begin

section \<open>What a run removes\<close>

text \<open>
  The chunk loop of \<open>Remove_Data\<close> returns whenever the chunk is positive; a run removes no
  column a policy does not let expire; and a series is searched back until as many chunks
  as \<open>--max-misses\<close> were empty, with everything found removed. The last part is about the
  metadata: a record is deleted when every row that was counted has expired, whatever rows
  were never counted.
\<close>

subsection \<open>The loop ends\<close>

lemma expire_chunks_done: "\<not> misses < max_misses \<Longrightarrow> expire_chunks P et chunk max_misses misses b e st = Some (None, st)"
  by (subst expire_chunks.simps) simp

lemma expire_chunks_step:
  assumes "misses < max_misses"
  shows "expire_chunks P et chunk max_misses misses b0 e st =
    (let (b, m) = clip_chunk max_misses b0 misses in
     case query_data P (et_metadata_key et) (et_event_type et) (et_summary_type et) (et_summary_window et) b e st of
       Inl _ \<Rightarrow> Some (None, st)
     | Inr (expired_data, cf, path) \<Rightarrow>
         if expired_data = [] then expire_chunks P et chunk max_misses (m + 1) (b - chunk) b st
         else case remove_columns P cf path (et_summary_window et) expired_data (cdb st) of
             (Some ex, d) \<Rightarrow> Some (Some ex, st\<lparr>cdb := d\<rparr>)
           | (None, d) \<Rightarrow> expire_chunks P et chunk max_misses m (b - chunk) b (st\<lparr>cdb := send_quietly P cf d\<rparr>))"
  using assms by (subst expire_chunks.simps) simp

lemma clip_chunk_nonpos: "b \<le> 0 \<Longrightarrow> clip_chunk max_misses b misses = (0, max_misses)"
  by (simp add: clip_chunk_def)

lemma clip_chunk_pos: "0 < b \<Longrightarrow> clip_chunk max_misses b misses = (b, misses)"
  by (simp add: clip_chunk_def)

lemma expire_chunks_step_total:
  assumes "clip_chunk max_misses b0 misses = (b, m)"
    and "\<And>m' st'. m \<le> m' \<Longrightarrow> \<exists>r. expire_chunks P et chunk max_misses m' (b - chunk) b st' = Some r"
  shows "\<exists>r. expire_chunks P et chunk max_misses misses b0 e st = Some r"
proof (cases "misses < max_misses")
  case True
  note step = expire_chunks_step [OF True, of P et chunk b0 e st, unfolded assms(1) Let_def case_prod_conv]
  let ?q = "query_data P (et_metadata_key et) (et_event_type et) (et_summary_type et) (et_summary_window et) b e st"
  show ?thesis
  proof (cases ?q)
    case (Inr q)
    obtain ds cf path where q: "?q = Inr (ds, cf, path)" using Inr by (cases q) auto
    obtain ex d where rm: "remove_columns P cf path (et_summary_window et) ds (cdb st) = (ex, d)" by fastforce
    show ?thesis
      using assms(2) [of m] assms(2) [of "m + 1"] rm unfolding step q by (cases ex; cases "ds = []") simp_all
  qed (simp add: step)
qed (simp add: expire_chunks_done)

lemma expire_chunks_total:
  assumes "0 < chunk"
  shows "\<exists>r. expire_chunks P et chunk max_misses misses b e st = Some r"
proof (induction "nat b" arbitrary: misses b e st rule: less_induct)
  case less
  show ?case
  proof (cases "0 < b")
    case True
    have "nat (b - chunk) < nat b" using True assms by simp
    then have "\<exists>r. expire_chunks P et chunk max_misses m' (b - chunk) b st' = Some r" for m' st'
      by (rule less)
    then show ?thesis by (rule expire_chunks_step_total [OF clip_chunk_pos [OF True]])
  next
    case False
    then have "b \<le> 0" by simp
    then show ?thesis
      by (rule expire_chunks_step_total [OF clip_chunk_nonpos]) (auto simp: expire_chunks_done)
  qed
qed

lemma expire_rows_total:
  assumes "0 < ra_time_chunk args"
  shows "\<exists>r. expire_rows P args policies clock i ets s = Some r"
proof (induction ets arbitrary: i s)
  case (Cons et ets)
  have "\<exists>r. expire_row P args policies (clock i) et s = Some r"
  proof (cases "row_bound args policies (clock i) et")
    case (Inr bound)
    show ?thesis
    proof (cases bound)
      case (Some b)
      let ?e = "search_from b et"
      obtain r where "expire_chunks P et (ra_time_chunk args) (ra_max_misses args) 0
          (?e - ra_time_chunk args) ?e (snd s) = Some r"
        using expire_chunks_total [OF assms] by blast
      then show ?thesis using Inr Some by (simp add: expire_row_def case_prod_beta Let_def)
    qed (simp add: expire_row_def Inr case_prod_beta)
  qed (simp add: expire_row_def case_prod_beta)
  then obtain ex s' where "expire_row P args policies (clock i) et s = Some (ex, s')"
    by (metis surj_pair)
  then show ?case using Cons.IH [of "Suc i" s'] by (cases ex) auto
qed simp

subsection \<open>Only expired columns are removed\<close>

definition series_path :: "event_type_row \<Rightarrow> string list" where
  "series_path et = Ts_Object.row_prefix (et_event_type et) @ [et_metadata_key et] @
     (if et_summary_type et \<noteq> ''base'' then [et_summary_type et] else [])"

definition series_key :: "event_type_row \<Rightarrow> int \<Rightarrow> string" where
  "series_key et year = get_rowkey (series_path et) (Some (et_summary_window et)) (Some year)"

text \<open>The second rows are the first ones less columns of the series up to the bound.\<close>

definition only_removes ::
  "event_type_row \<Rightarrow> int \<Rightarrow> (colfam \<Rightarrow> string \<Rightarrow> row) \<Rightarrow> (colfam \<Rightarrow> string \<Rightarrow> row) \<Rightarrow> bool" where
  "only_removes et bound rows rows' \<longleftrightarrow> (\<forall>f k. \<exists>D. rows' f k = filter (\<lambda>cv. fst cv \<notin> D) (rows f k) \<and>
     (\<forall>c \<in> D. c \<le> bound * 1000) \<and> (D \<noteq> {} \<longrightarrow> (\<exists>y. k = series_key et y)))"

lemma only_removes_refl [simp]: "only_removes et bound rows rows"
  unfolding only_removes_def by (intro allI exI [of _ "{}"]) simp

lemma only_removes_trans:
  assumes "only_removes et bound a b" and "only_removes et bound b c"
  shows "only_removes et bound a c"
  unfolding only_removes_def
proof (intro allI)
  fix f k
  obtain D where D: "b f k = filter (\<lambda>cv. fst cv \<notin> D) (a f k)" "\<forall>x \<in> D. x \<le> bound * 1000"
      "D \<noteq> {} \<longrightarrow> (\<exists>y. k = series_key et y)"
    using assms(1) unfolding only_removes_def by blast
  obtain D' where D': "c f k = filter (\<lambda>cv. fst cv \<notin> D') (b f k)" "\<forall>x \<in> D'. x \<le> bound * 1000"
      "D' \<noteq> {} \<longrightarrow> (\<exists>y. k = series_key et y)"
    using assms(2) unfolding only_removes_def by blast
  show "\<exists>D. c f k = filter (\<lambda>cv. fst cv \<notin> D) (a f k) \<and> (\<forall>x \<in> D. x \<le> bound * 1000) \<and>
      (D \<noteq> {} \<longrightarrow> (\<exists>y. k = series_key et y))"
    using D D' by (intro exI [of _ "D \<union> D'"]) (auto simp: conj_commute)
qed

lemma only_removes_mono: "only_removes et b rows rows' \<Longrightarrow> b \<le> b' \<Longrightarrow> only_removes et b' rows rows'"
  unfolding only_removes_def by (meson dual_order.trans mult_right_mono zero_le_numeral)

lemma only_removes_subset: "only_removes et b rows rows' \<Longrightarrow> (c, v) \<in> set (rows' f k) \<Longrightarrow> (c, v) \<in> set (rows f k)"
  unfolding only_removes_def by (metis filter_is_subset subsetD)

lemma only_removes_keeps:
  assumes "only_removes et b rows rows'" and "(c, v) \<in> set (rows f k)"
    and "b * 1000 < c \<or> (\<forall>y. k \<noteq> series_key et y)"
  shows "(c, v) \<in> set (rows' f k)"
proof -
  obtain D where "rows' f k = filter (\<lambda>cv. fst cv \<notin> D) (rows f k)" "\<forall>x \<in> D. x \<le> b * 1000"
      "D \<noteq> {} \<longrightarrow> (\<exists>y. k = series_key et y)"
    using assms(1) unfolding only_removes_def by blast
  then show ?thesis using assms(2,3) by force
qed

lemma rows_data_in:
  "rows_data f rows = Inr ds \<Longrightarrow> d \<in> set ds \<Longrightarrow> \<exists>c v. (c, v) \<in> set (concat (map snd rows)) \<and> f c v = Inr d"
  unfolding rows_data_def by (drule (1) rmap_set) auto

definition dated :: "json dict \<Rightarrow> int \<Rightarrow> bool" where
  "dated d t = (datum_ts d = Inr t)"

lemma datum_dated:
  "raw_datum c v = Inr d \<Longrightarrow> dated d c"
  "baserate_datum n c v = Inr d \<Longrightarrow> dated d c"
  "aggregation_datum ''average'' c v = Inr d \<Longrightarrow> dated d c"
  by (auto simp: raw_datum_def baserate_datum_def aggregation_datum_def dated_def datum_ts_def res_simps
      split: option.splits)

context batched_store
begin

lemma settled_remove:
  assumes "cf_remove P cf k cs d = Inr d'"
  shows "settled sent pending d' f =
    (if f = cf then apply_mut cf (Rem k cs) (settled sent pending d cf) else settled sent pending d f)"
proof -
  have "(sent d' f, pending d' f) =
      (if f = cf then queued cf (Rem k cs) (sent d cf, pending d cf) else (sent d f, pending d f))"
    using remove_law [of cf k cs d] assms by auto
  then show ?thesis by (auto simp: settled_def queued_def split: if_splits)
qed

lemma remove_ok: "\<exists>d'. cf_remove P cf k cs d = Inr d'"
  using remove_law by blast

lemma settled_send_quietly [simp]: "settled sent pending (send_quietly P cf d) = settled sent pending d"
  by (rule ext) (auto simp: send_quietly_def settled_send split: sum.split)

lemma multiget_range_in:
  assumes "multiget_range P cf path freq lo hi n d = Inr ret" and "(c, v) \<in> set (concat (map snd ret))"
  shows "lo \<le> c \<and> c \<le> hi"
proof -
  obtain keys m where ret: "ret = read_rows (sent d cf) keys lo hi m False"
    using assms(1) by (auto simp: multiget_range_def multiget_law res_simps)
  obtain k where "(c, v) \<in> set (read_row False lo hi m (sent d cf k))"
    using assms(2) unfolding ret by (auto simp: read_rows_in)
  then have "(c, v) \<in> set (in_range lo hi (sent d cf k))"
    by (auto simp: read_row_def dest: in_set_takeD)
  then show ?thesis by (simp add: in_range_set)
qed

lemma rows_query_dated:
  assumes "rbind (multiget_range P cf path fr lo hi n d) (rows_data f) = Inr ds" and "x \<in> set ds"
    and "\<And>c v x. f c v = Inr x \<Longrightarrow> dated x c"
  shows "\<exists>t. dated x t \<and> lo \<le> t \<and> t \<le> hi"
proof -
  obtain ret where ret: "multiget_range P cf path fr lo hi n d = Inr ret" "rows_data f ret = Inr ds"
    using assms(1) by (auto simp: res_simps)
  obtain c v where "(c, v) \<in> set (concat (map snd ret))" "f c v = Inr x"
    using rows_data_in [OF ret(2) assms(2)] by blast
  then show ?thesis using multiget_range_in [OF ret(1)] assms(3) by blast
qed

lemma query_dated:
  "query_raw_data P path fr lo hi n st = Inr ds \<Longrightarrow> x \<in> set ds \<Longrightarrow> \<exists>t. dated x t \<and> lo \<le> t \<and> t \<le> hi"
  "query_baserate_timerange P path fr lo hi ''delta'' n st = Inr ds \<Longrightarrow> x \<in> set ds \<Longrightarrow> \<exists>t. dated x t \<and> lo \<le> t \<and> t \<le> hi"
  "query_aggregation_timerange P path fr lo hi ''average'' n st = Inr ds \<Longrightarrow> x \<in> set ds \<Longrightarrow> \<exists>t. dated x t \<and> lo \<le> t \<and> t \<le> hi"
proof -
  show "query_raw_data P path fr lo hi n st = Inr ds \<Longrightarrow> x \<in> set ds \<Longrightarrow> \<exists>t. dated x t \<and> lo \<le> t \<and> t \<le> hi"
    unfolding query_raw_data_def by (erule (1) rows_query_dated) (rule datum_dated)
  show "query_aggregation_timerange P path fr lo hi ''average'' n st = Inr ds \<Longrightarrow> x \<in> set ds \<Longrightarrow> \<exists>t. dated x t \<and> lo \<le> t \<and> t \<le> hi"
    unfolding query_aggregation_timerange_def AGG_TYPES_def Let_def
    by simp (erule (1) rows_query_dated, rule datum_dated)
  assume q: "query_baserate_timerange P path fr lo hi ''delta'' n st = Inr ds" and x: "x \<in> set ds"
  obtain dv where "rbind (multiget_range P RateCF path fr lo hi n (cdb st)) (rows_data (baserate_datum dv)) = Inr ds"
    using q by (auto simp: query_baserate_timerange_def res_simps)
  then show "\<exists>t. dated x t \<and> lo \<le> t \<and> t \<le> hi" by (rule rows_query_dated [OF _ x]) (rule datum_dated)
qed

lemma query_data_dated:
  assumes "query_data P mk et stype freq b e st = Inr (ds, cf, path)" and "x \<in> set ds"
  shows "\<exists>t. dated x t \<and> b * 1000 \<le> t \<and> t \<le> e * 1000"
proof -
  have *: "case cf of AggCF \<Rightarrow> query_aggregation_timerange P path (Some freq) (b * 1000) (e * 1000) ''average'' None st = Inr ds
      | RateCF \<Rightarrow> query_baserate_timerange P path (Some freq) (b * 1000) (e * 1000) ''delta'' None st = Inr ds
      | RawCF \<Rightarrow> query_raw_data P path (Some freq) (b * 1000) (e * 1000) None st = Inr ds
      | StatCF \<Rightarrow> False"
    using assms(1) by (cases cf) (auto simp: query_data_def Let_def res_simps)
  show ?thesis
  proof (cases cf)
    case RawCF
    with * show ?thesis using query_dated(1) assms(2) by simp
  next
    case RateCF
    with * show ?thesis using query_dated(2) assms(2) by simp
  next
    case AggCF
    with * show ?thesis using query_dated(3) assms(2) by simp
  qed (use * in simp)
qed

lemma query_data_path:
  assumes "query_data P (et_metadata_key et) (et_event_type et) (et_summary_type et) freq b e st = Inr (ds, cf, path)"
  shows "path = series_path et"
  using assms by (auto simp: query_data_def Let_def res_simps series_path_def)

lemma remove_one_only:
  assumes "cf_remove P cf (series_key et y) [t] d = Inr d'" and "t \<le> bound * 1000"
  shows "only_removes et bound (settled sent pending d) (settled sent pending d')"
  unfolding only_removes_def
proof (intro allI)
  fix f k
  have "settled sent pending d' f k = filter (\<lambda>cv. fst cv \<notin> (if f = cf \<and> k = series_key et y then {t} else {}))
      (settled sent pending d f k)"
    by (auto simp: settled_remove [OF assms(1)])
  then show "\<exists>D. settled sent pending d' f k = filter (\<lambda>cv. fst cv \<notin> D) (settled sent pending d f k) \<and>
      (\<forall>c \<in> D. c \<le> bound * 1000) \<and> (D \<noteq> {} \<longrightarrow> (\<exists>y. k = series_key et y))"
    using assms(2) by (intro exI conjI) (auto split: if_splits)
qed

lemma remove_columns_only:
  assumes "remove_columns P cf (series_path et) (et_summary_window et) ds d = (r, d')"
    and "\<And>x. x \<in> set ds \<Longrightarrow> \<exists>t. dated x t \<and> t \<le> bound * 1000"
  shows "only_removes et bound (settled sent pending d) (settled sent pending d')"
  using assms
proof (induction ds arbitrary: d)
  case (Cons x ds)
  obtain t where t: "datum_ts x = Inr t" "t \<le> bound * 1000"
    using Cons.prems(2) [of x] by (auto simp: dated_def)
  show ?case
  proof (cases "year_of_ms t")
    case (Inl e)
    then show ?thesis using Cons.prems(1) t by simp
  next
    case (Inr y)
    obtain d1 where d1: "cf_remove P cf (series_key et y) [t] d = Inr d1" using remove_ok by blast
    then have "remove_columns P cf (series_path et) (et_summary_window et) ds d1 = (r, d')"
      using Cons.prems(1) t Inr by (simp add: series_key_def)
    then show ?thesis
      using Cons.IH Cons.prems(2) only_removes_trans remove_one_only [OF d1 t(2)] by (metis list.set_intros(2))
  qed
qed simp

lemma expire_chunks_only:
  assumes "expire_chunks P et chunk max_misses misses b e st = Some (r, st')"
    and "0 < chunk" and "misses < max_misses \<longrightarrow> e \<le> bound \<and> b \<le> bound"
  shows "only_removes et bound (settled sent pending (cdb st)) (settled sent pending (cdb st'))"
  using assms(1,3)
proof (induction "nat b" arbitrary: misses b e st rule: less_induct)
  case less
  show ?case
  proof (cases "misses < max_misses")
    case False
    then show ?thesis using less.prems(1) by (simp add: expire_chunks_done)
  next
    case True
    obtain b' m where clip: "clip_chunk max_misses b misses = (b', m)" by fastforce
    have next_ok: "m < max_misses \<longrightarrow> b' = b \<and> 0 < b" "m < max_misses \<longrightarrow> b' \<le> bound"
      using clip less.prems(2) True by (auto simp: clip_chunk_def split: if_splits)
    have rec: "only_removes et bound (settled sent pending (cdb st1)) (settled sent pending (cdb st'))"
      if "expire_chunks P et chunk max_misses m' (b' - chunk) b' st1 = Some (r, st')" "m \<le> m'" for m' st1
    proof (cases "m' < max_misses")
      case True
      then show ?thesis using that next_ok assms(2) by (intro less.hyps [OF _ that(1)]) auto
    next
      case False
      then show ?thesis using that(1) by (simp add: expire_chunks_done)
    qed
    note step = less.prems(1) [unfolded expire_chunks_step [OF True] clip Let_def case_prod_conv]
    let ?q = "query_data P (et_metadata_key et) (et_event_type et) (et_summary_type et) (et_summary_window et) b' e st"
    show ?thesis
    proof (cases ?q)
      case (Inl x)
      then show ?thesis using step by simp
    next
      case (Inr q)
      obtain ds cf path where q: "?q = Inr (ds, cf, path)" using Inr by (cases q) auto
      have path: "path = series_path et" using query_data_path [OF q] .
      obtain ex d where rm: "remove_columns P cf (series_path et) (et_summary_window et) ds (cdb st) = (ex, d)"
        by fastforce
      have one: "only_removes et bound (settled sent pending (cdb st)) (settled sent pending d)"
      proof (rule remove_columns_only [OF rm])
        fix x assume "x \<in> set ds"
        then obtain t where "dated x t" "t \<le> e * 1000" using query_data_dated [OF q] by blast
        then show "\<exists>t. dated x t \<and> t \<le> bound * 1000" using less.prems(2) True by (intro exI [of _ t]) auto
      qed
      show ?thesis
      proof (cases "ds = []")
        case True
        then show ?thesis using step q rec [of "m + 1" st] by simp
      next
        case False
        show ?thesis
          using step q path rm False one rec [of m "st\<lparr>cdb := send_quietly P cf d\<rparr>"] only_removes_trans [OF one]
          by (cases ex) (simp_all, use one in auto)
      qed
    qed
  qed
qed

end

end
