(* ===== verification/Remove_Data_Run.thy ===== *)
theory Remove_Data_Run
  imports Remove_Data_Facts
begin

section \<open>A whole run of the expiry\<close>

text \<open>
  The properties of \<open>util/ps_remove_data.py\<close>: the run returns, keeps what no policy expires,
  removes what it finds, and deletes the metadata whose counted rows have all expired.
\<close>

subsection \<open>Everything found is removed\<close>

text \<open>Columns at whole seconds, in the row of their year, as every writer of the API puts them.\<close>

definition placed :: "event_type_row \<Rightarrow> (string \<Rightarrow> row) \<Rightarrow> bool" where
  "placed et rows \<longleftrightarrow> (\<forall>y c v. (c, v) \<in> set (rows (series_key et y)) \<longrightarrow>
     1000 dvd c \<and> dt_year (dt_of_secs (c div 1000)) = y)"

definition has_column :: "event_type_row \<Rightarrow> (string \<Rightarrow> row) \<Rightarrow> int \<Rightarrow> int \<Rightarrow> bool" where
  "has_column et rows lo hi \<longleftrightarrow> (\<exists>y c v. (c, v) \<in> set (rows (series_key et y)) \<and> lo * 1000 \<le> c \<and> c < hi * 1000)"

text \<open>How many of the \<open>n\<close> chunks before \<open>e\<close> hold no column.\<close>

fun empty_chunks :: "(int \<Rightarrow> int \<Rightarrow> bool) \<Rightarrow> int \<Rightarrow> int \<Rightarrow> nat \<Rightarrow> int" where
  "empty_chunks has chunk e 0 = 0"
| "empty_chunks has chunk e (Suc n) = (if has (e - chunk) e then 0 else 1) + empty_chunks has chunk (e - chunk) n"

lemma empty_chunks_cong:
  assumes "0 < chunk" and "\<And>lo hi. hi \<le> e \<Longrightarrow> has lo hi = has' lo hi"
  shows "empty_chunks has chunk e n = empty_chunks has' chunk e n"
  using assms(2)
proof (induction n arbitrary: e)
  case (Suc n)
  have "empty_chunks has chunk (e - chunk) n = empty_chunks has' chunk (e - chunk) n"
    by (rule Suc.IH) (use Suc.prems assms(1) in simp)
  then show ?case using Suc.prems [of e] by simp
qed simp

lemma empty_chunks_nonneg: "0 \<le> empty_chunks has chunk e n"
  by (induction n arbitrary: e) simp_all

lemma div_1000_between: "b * 1000 \<le> c \<Longrightarrow> c \<le> e * 1000 \<Longrightarrow> b \<le> c div 1000 \<and> c div 1000 \<le> (e::int)"
  using zdiv_mono1 [of "b * 1000" c 1000] zdiv_mono1 [of c "e * 1000" 1000] by simp

lemma ms_ok_below: "ms_ok e \<Longrightarrow> 0 \<le> s \<Longrightarrow> s \<le> e \<Longrightarrow> ms_ok s"
  using valid_secs_between [OF valid_secs_0, of e s] by (auto simp: ms_ok_def)

definition raw_series :: "event_type_row \<Rightarrow> (string \<Rightarrow> row) \<Rightarrow> bool" where
  "raw_series et rows = (raw_rows rows \<and> placed et rows)"

lemma raw_series_subset:
  assumes "raw_series et rows" and "\<And>k. set (rows' k) \<subseteq> set (rows k)"
  shows "raw_series et rows'"
  using assms unfolding raw_series_def raw_rows_def placed_def by (meson subsetD)

definition is_raw_series :: "event_type_row \<Rightarrow> bool" where
  "is_raw_series et = (case event_type_config (et_event_type et) of
     Inl _ \<Rightarrow> False | Inr t \<Rightarrow> col_family t (et_summary_type et) = RawCF)"

context batched_store
begin

lemma query_data_raw:
  assumes "is_raw_series et" and "raw_rows (sent (cdb st) RawCF)" and "ms_ok b" and "ms_ok e" and "b \<le> e"
  shows "query_data P (et_metadata_key et) (et_event_type et) (et_summary_type et) (et_summary_window et) b e st =
    Inr (map (\<lambda>(c, v). ts_val_dict c (col_json v))
      (range_cols (sent (cdb st) RawCF) (year_keys (series_path et) (Some (et_summary_window et)) b e) (b * 1000) (e * 1000)),
      RawCF, series_path et)"
proof -
  obtain t where t: "event_type_config (et_event_type et) = Inr t" "col_family t (et_summary_type et) = RawCF"
    using assms(1) by (auto simp: is_raw_series_def split: sum.splits)
  show ?thesis
    using query_raw_cols [OF assms(3-5), of None st "series_path et" "Some (et_summary_window et)"]
      raw_datum_rows [OF assms(2)]
    unfolding query_data_def series_path_def [symmetric] Let_def by (simp add: t)
qed

lemma remove_columns_all:
  assumes "\<And>c v. (c, v) \<in> set cols \<Longrightarrow> 1000 dvd c \<and> ms_ok (c div 1000)"
  shows "\<exists>d'. remove_columns P RawCF (series_path et) (et_summary_window et)
      (map (\<lambda>(c, v). ts_val_dict c (col_json v)) cols) d = (None, d') \<and>
    (\<forall>k c v. (c, v) \<in> set (settled sent pending d' RawCF k) \<longleftrightarrow> (c, v) \<in> set (settled sent pending d RawCF k) \<and>
       \<not> (c \<in> fst ` set cols \<and> k = series_key et (dt_year (dt_of_secs (c div 1000)))))"
  using assms
proof (induction cols arbitrary: d)
  case (Cons cv cols)
  obtain c v where cv: "cv = (c, v)" by (cases cv)
  have c: "1000 dvd c" "ms_ok (c div 1000)" using Cons.prems cv by auto
  let ?y = "dt_year (dt_of_secs (c div 1000))"
  have y: "year_of_ms c = Inr ?y" using year_of_ms_secs [OF c(2)] c(1) by (simp add: dvd_div_mult_self)
  obtain d1 where d1: "cf_remove P RawCF (series_key et ?y) [c] d = Inr d1" using remove_ok by blast
  have "\<exists>d'. remove_columns P RawCF (series_path et) (et_summary_window et)
      (map (\<lambda>(c, v). ts_val_dict c (col_json v)) cols) d1 = (None, d') \<and>
    (\<forall>k c v. (c, v) \<in> set (settled sent pending d' RawCF k) \<longleftrightarrow> (c, v) \<in> set (settled sent pending d1 RawCF k) \<and>
       \<not> (c \<in> fst ` set cols \<and> k = series_key et (dt_year (dt_of_secs (c div 1000)))))"
    by (rule Cons.IH) (use Cons.prems in auto)
  then obtain d' where d': "remove_columns P RawCF (series_path et) (et_summary_window et)
      (map (\<lambda>(c, v). ts_val_dict c (col_json v)) cols) d1 = (None, d')"
    and mem: "\<And>k c v. (c, v) \<in> set (settled sent pending d' RawCF k) \<longleftrightarrow> (c, v) \<in> set (settled sent pending d1 RawCF k) \<and>
       \<not> (c \<in> fst ` set cols \<and> k = series_key et (dt_year (dt_of_secs (c div 1000))))"
    by blast
  have "datum_ts (ts_val_dict c (col_json v)) = Inr c" by (simp add: datum_ts_def ts_val_dict_def)
  then have run: "remove_columns P RawCF (series_path et) (et_summary_window et)
      (map (\<lambda>(c, v). ts_val_dict c (col_json v)) (cv # cols)) d = (None, d')"
    using d' d1 y by (simp add: cv series_key_def)
  show ?case
    by (intro exI conjI, rule run) (auto simp: mem settled_remove [OF d1] cv)
qed simp

text \<open>One chunk of a raw series: the state after it, and what became of its columns.\<close>

lemma raw_chunk_step:
  assumes "is_raw_series et" and "raw_series et (settled sent pending (cdb st) RawCF)" and "pending (cdb st) RawCF = []"
    and "ms_ok e" and "0 \<le> b" and "b \<le> e" and "misses < max_misses" and "clip_chunk max_misses b0 misses = (b, m)"
  shows "\<exists>st1 m1. expire_chunks P et chunk max_misses misses b0 e st = expire_chunks P et chunk max_misses m1 (b - chunk) b st1 \<and>
    m \<le> m1 \<and> m1 \<le> m + 1 \<and> (has_column et (settled sent pending (cdb st) RawCF) b e \<longrightarrow> m1 = m) \<and>
    pending (cdb st1) RawCF = [] \<and> raw_series et (settled sent pending (cdb st1) RawCF) \<and>
    (\<forall>y c v. (c, v) \<in> set (settled sent pending (cdb st1) RawCF (series_key et y)) \<longleftrightarrow>
       (c, v) \<in> set (settled sent pending (cdb st) RawCF (series_key et y)) \<and> \<not> (b * 1000 \<le> c \<and> c \<le> e * 1000))"
proof -
  let ?rows = "settled sent pending (cdb st) RawCF"
  let ?cols = "range_cols ?rows (year_keys (series_path et) (Some (et_summary_window et)) b e) (b * 1000) (e * 1000)"
  have sent: "sent (cdb st) RawCF = ?rows" by (simp add: settled_def assms(3))
  have raw: "raw_rows ?rows" and pl: "placed et ?rows" using assms(2) by (auto simp: raw_series_def)
  have mb: "ms_ok b" by (rule ms_ok_below [OF assms(4-6)])
  note q = query_data_raw [OF assms(1) _ mb assms(4,6), of st, unfolded sent, OF raw]
  have in_cols: "(c, v) \<in> set ?cols" if "(c, v) \<in> set (?rows (series_key et y))" "b * 1000 \<le> c" "c \<le> e * 1000" for c v y
  proof -
    have c: "1000 dvd c" "dt_year (dt_of_secs (c div 1000)) = y" using pl that(1) unfolding placed_def by blast+
    have "b \<le> c div 1000" "c div 1000 \<le> e" using div_1000_between [OF that(2,3)] by blast+
    then have "series_key et y \<in> set (year_keys (series_path et) (Some (et_summary_window et)) b e)"
      unfolding series_key_def c(2) [symmetric] by (rule year_key_in_range)
    then show ?thesis using that unfolding range_cols_set by blast
  qed
  have from_cols: "(\<exists>y. (c, v) \<in> set (?rows (series_key et y))) \<and> b * 1000 \<le> c \<and> c \<le> e * 1000" if col: "(c, v) \<in> set ?cols" for c v
  proof -
    obtain k where k: "k \<in> set (year_keys (series_path et) (Some (et_summary_window et)) b e)" "(c, v) \<in> set (?rows k)"
        "b * 1000 \<le> c" "c \<le> e * 1000"
      using col unfolding range_cols_set by blast
    then obtain y where "k = series_key et y" unfolding year_keys_def series_key_def by auto
    then show ?thesis using k by blast
  qed
  have col_ok: "1000 dvd c \<and> ms_ok (c div 1000)" if "(c, v) \<in> set ?cols" for c v
  proof -
    have "1000 dvd c" "b \<le> c div 1000" "c div 1000 \<le> e"
    proof -
      show "1000 dvd c" using from_cols [OF that] pl unfolding placed_def by blast
      show "b \<le> c div 1000" "c div 1000 \<le> e" using from_cols [OF that] div_1000_between by blast+
    qed
    then show ?thesis using ms_ok_below [OF assms(4), of "c div 1000"] assms(5) by simp
  qed
  note step = expire_chunks_step [OF assms(7), of P et chunk b0 e st, unfolded assms(8) Let_def case_prod_conv q]
  show ?thesis
  proof (cases "?cols = []")
    case True
    then have "\<not> (b * 1000 \<le> c \<and> c \<le> e * 1000)" if "(c, v) \<in> set (?rows (series_key et y))" for c v y
      using in_cols [OF that] by auto
    moreover have "\<not> has_column et ?rows b e"
      using True in_cols unfolding has_column_def by fastforce
    ultimately show ?thesis using True assms(2,3) by (intro exI [of _ st] exI [of _ "m + 1"]) (auto simp: step)
  next
    case False
    obtain d where d: "remove_columns P RawCF (series_path et) (et_summary_window et)
        (map (\<lambda>(c, v). ts_val_dict c (col_json v)) ?cols) (cdb st) = (None, d)"
      and mem: "\<And>k c v. (c, v) \<in> set (settled sent pending d RawCF k) \<longleftrightarrow> (c, v) \<in> set (?rows k) \<and>
         \<not> (c \<in> fst ` set ?cols \<and> k = series_key et (dt_year (dt_of_secs (c div 1000))))"
      using remove_columns_all [of ?cols et "cdb st"] col_ok by blast
    let ?st1 = "st\<lparr>cdb := send_quietly P RawCF d\<rparr>"
    have pend: "pending (cdb ?st1) RawCF = []"
      using send_ok [of RawCF d] by (auto simp: send_quietly_def send_sent)
    have gone: "(c, v) \<in> set (settled sent pending d RawCF (series_key et y)) \<longleftrightarrow>
        (c, v) \<in> set (?rows (series_key et y)) \<and> \<not> (b * 1000 \<le> c \<and> c \<le> e * 1000)" for y c v
    proof (cases "(c, v) \<in> set (?rows (series_key et y))")
      case True
      then have "dt_year (dt_of_secs (c div 1000)) = y" using pl unfolding placed_def by blast
      moreover have "c \<in> fst ` set ?cols \<longleftrightarrow> b * 1000 \<le> c \<and> c \<le> e * 1000"
        using in_cols [OF True] from_cols by force
      ultimately show ?thesis using True mem by simp
    qed (simp add: mem)
    have "raw_series et (settled sent pending d RawCF)"
      by (rule raw_series_subset [OF assms(2)]) (use mem in auto)
    then show ?thesis using False pend gone by (intro exI [of _ ?st1] exI [of _ m]) (auto simp: step d)
  qed
qed

lemma raw_chunks_clean:
  assumes "expire_chunks P et chunk max_misses misses (e - chunk) e st = Some (r, st')"
    and "0 < chunk" and "is_raw_series et" and "raw_series et (settled sent pending (cdb st) RawCF)"
    and "pending (cdb st) RawCF = []" and "ms_ok e" and "0 \<le> e"
    and "misses + empty_chunks (has_column et (settled sent pending (cdb st) RawCF)) chunk e n < max_misses"
    and "(c, v) \<in> set (settled sent pending (cdb st') RawCF (series_key et y))" and "0 \<le> c"
    and "(e - int n * chunk) * 1000 < c"
  shows "e * 1000 < c"
  using assms(1,4-)
proof (induction n arbitrary: misses e st)
  case 0
  then show ?case by simp
next
  case (Suc n)
  let ?rows = "settled sent pending (cdb st) RawCF" and ?b = "max 0 (e - chunk)"
  have mm: "misses < max_misses" using Suc.prems(6) empty_chunks_nonneg [of "has_column et ?rows" chunk e "Suc n"] by simp
  obtain b m where clip: "clip_chunk max_misses (e - chunk) misses = (b, m)" by fastforce
  then have b: "b = ?b" by (auto simp: clip_chunk_def split: if_splits)
  have be: "0 \<le> b" "b \<le> e" using b assms(2) Suc.prems(5) by auto
  obtain st1 m1 where st1: "expire_chunks P et chunk max_misses m1 (b - chunk) b st1 = Some (r, st')"
    and m1: "m \<le> m1" "m1 \<le> m + 1" "has_column et ?rows b e \<longrightarrow> m1 = m"
    and wf: "pending (cdb st1) RawCF = []" "raw_series et (settled sent pending (cdb st1) RawCF)"
    and gone: "\<And>y c v. (c, v) \<in> set (settled sent pending (cdb st1) RawCF (series_key et y)) \<longleftrightarrow>
       (c, v) \<in> set (?rows (series_key et y)) \<and> \<not> (b * 1000 \<le> c \<and> c \<le> e * 1000)"
    using raw_chunk_step [OF assms(3) Suc.prems(2-4) be mm clip] Suc.prems(1) by metis
  have sub: "only_removes et b (settled sent pending (cdb st1)) (settled sent pending (cdb st'))"
    by (rule expire_chunks_only [OF st1 assms(2)]) (use assms(2) in simp)
  have here: "(c, v) \<in> set (settled sent pending (cdb st1) RawCF (series_key et y))"
    using only_removes_subset [OF sub Suc.prems(7)] .
  show ?case
  proof (rule ccontr)
    assume "\<not> e * 1000 < c"
    then have low: "c < b * 1000" using gone here by auto
    then have pos: "b = e - chunk" "m = misses"
      using b clip Suc.prems(8) by (auto simp: clip_chunk_def split: if_splits)
    have "empty_chunks (has_column et ?rows) chunk b n =
        empty_chunks (has_column et (settled sent pending (cdb st1) RawCF)) chunk b n"
    proof (rule empty_chunks_cong [OF assms(2)])
      fix lo hi assume "hi \<le> b"
      then have "c < hi * 1000 \<Longrightarrow> c < b * 1000" for c by simp
      then show "has_column et ?rows lo hi = has_column et (settled sent pending (cdb st1) RawCF) lo hi"
        unfolding has_column_def gone by (meson linorder_not_le)
    qed
    then have "m1 + empty_chunks (has_column et (settled sent pending (cdb st1) RawCF)) chunk b n < max_misses"
      using Suc.prems(6) m1 pos by (auto split: if_splits)
    moreover have "(b - int n * chunk) * 1000 < c" using Suc.prems(9) pos by (simp add: algebra_simps)
    ultimately have "b * 1000 < c"
      using Suc.IH [OF st1 wf(2,1) ms_ok_below [OF Suc.prems(4) be] be(1) _ Suc.prems(7,8)] by simp
    then show False using low by simp
  qed
qed

lemma expire_row_only:
  assumes "expire_row P args policies now et (counts, st) = Some (r, counts', st')" and "0 < ra_time_chunk args"
  shows "settled sent pending (cdb st') = settled sent pending (cdb st) \<or>
    (\<exists>bound. row_bound args policies now et = Inr (Some bound) \<and>
       only_removes et bound (settled sent pending (cdb st)) (settled sent pending (cdb st')))"
proof (cases "\<exists>bound. row_bound args policies now et = Inr (Some bound)")
  case True
  then obtain bound where bound: "row_bound args policies now et = Inr (Some bound)" by blast
  let ?e = "search_from bound et"
  have le: "?e \<le> bound" by (simp add: search_from_def split: option.split)
  have "\<exists>r. expire_chunks P et (ra_time_chunk args) (ra_max_misses args) 0 (?e - ra_time_chunk args) ?e st = Some (r, st')"
    using assms(1) bound by (auto simp: expire_row_def Let_def split: option.splits)
  then obtain r' where "expire_chunks P et (ra_time_chunk args) (ra_max_misses args) 0 (?e - ra_time_chunk args) ?e st = Some (r', st')"
    by blast
  from expire_chunks_only [OF this assms(2), of bound] show ?thesis using le assms(2) bound by auto
next
  case False
  then show ?thesis using assms(1) by (auto simp: expire_row_def split: sum.splits option.splits)
qed

lemma expire_rows_keeps:
  assumes "expire_rows P args policies clock i ets (counts, st) = Some (r, counts', st')" and "0 < ra_time_chunk args"
  shows "(c, v) \<in> set (settled sent pending (cdb st') f k) \<Longrightarrow> (c, v) \<in> set (settled sent pending (cdb st) f k)"
    and "(c, v) \<in> set (settled sent pending (cdb st) f k) \<Longrightarrow>
      (\<And>j bound y. j < length ets \<Longrightarrow> row_bound args policies (clock (i + j)) (ets ! j) = Inr (Some bound) \<Longrightarrow>
         k = series_key (ets ! j) y \<Longrightarrow> bound * 1000 < c) \<Longrightarrow> (c, v) \<in> set (settled sent pending (cdb st') f k)"
  using assms(1)
proof (induction ets arbitrary: i counts st)
  case (Cons et ets)
  {
    case 1
    obtain ex c1 st1 where row: "expire_row P args policies (clock i) et (counts, st) = Some (ex, c1, st1)"
      using 1(2) by (auto split: option.splits)
    have "(c, v) \<in> set (settled sent pending (cdb st1) f k)"
      using 1(1,2) row Cons.IH(1) [where i = "Suc i" and counts = c1 and st = st1] by (cases ex) auto
    then show ?case using expire_row_only [OF row assms(2)] only_removes_subset by metis
  next
    case 2
    obtain ex c1 st1 where row: "expire_row P args policies (clock i) et (counts, st) = Some (ex, c1, st1)"
      using 2(3) by (auto split: option.splits)
    have "(c, v) \<in> set (settled sent pending (cdb st1) f k)"
      using expire_row_only [OF row assms(2)] 2(1) 2(2) [of 0] only_removes_keeps by fastforce
    moreover have "bound * 1000 < c" if "j < length ets" "row_bound args policies (clock (Suc i + j)) (ets ! j) = Inr (Some bound)"
        "k = series_key (ets ! j) y" for j bound y
      using 2(2) [of "Suc j" bound y] that by simp
    ultimately show ?case using 2(3) row Cons.IH(2) [where i = "Suc i" and counts = c1 and st = st1] by (cases ex) auto
  }
qed auto

end

subsection \<open>Metadata\<close>

text \<open>The rows a run counts, with the bound each was held against.\<close>

fun counted_rows ::
  "rm_args \<Rightarrow> policy_tree \<Rightarrow> (nat \<Rightarrow> datetime) \<Rightarrow> nat \<Rightarrow> event_type_row list \<Rightarrow> (event_type_row \<times> int) list" where
  "counted_rows args policies clock i [] = []"
| "counted_rows args policies clock i (et # ets) =
     (case row_bound args policies (clock i) et of Inr (Some b) \<Rightarrow> [(et, b)] | _ \<Rightarrow> [])
       @ counted_rows args policies clock (Suc i) ets"

definition all_expired :: "(event_type_row \<times> int) list \<Rightarrow> string \<Rightarrow> bool" where
  "all_expired cs k = (let xs = filter (\<lambda>(et, b). et_metadata_key et = k) cs in
     xs \<noteq> [] \<and> list_all (\<lambda>(et, b). row_expired b et) xs)"

definition get_counts :: "counts \<Rightarrow> string \<Rightarrow> nat \<times> nat" where
  "get_counts counts k = (case map_of counts k of None \<Rightarrow> (0, 0) | Some c \<Rightarrow> c)"

lemma expire_rows_counts:
  "expire_rows P args policies clock i ets (counts, st) = Some (None, counts', st') \<Longrightarrow>
   counts' = fold (\<lambda>(et, b). count_row b et) (counted_rows args policies clock i ets) counts"
proof (induction ets arbitrary: i counts st)
  case (Cons et ets)
  then obtain c1 st1 where row: "expire_row P args policies (clock i) et (counts, st) = Some (None, c1, st1)"
      and rest: "expire_rows P args policies clock (Suc i) ets (c1, st1) = Some (None, counts', st')"
    by (auto split: option.splits prod.splits)
  have "c1 = (case row_bound args policies (clock i) et of Inr (Some b) \<Rightarrow> count_row b et counts | _ \<Rightarrow> counts)"
    using row by (auto simp: expire_row_def Let_def split: sum.splits option.splits)
  then show ?case using Cons.IH [OF rest] by (auto split: sum.splits option.splits)
qed simp

lemma count_row_get:
  "get_counts (count_row b et counts) k =
     (if k = et_metadata_key et
      then (fst (get_counts counts k) + (if row_expired b et then 1 else 0), snd (get_counts counts k) + 1)
      else get_counts counts k)"
  by (auto simp: get_counts_def count_row_def Let_def split: option.split)

lemma count_row_dom: "map_of (count_row b et counts) k = None \<longleftrightarrow> map_of counts k = None \<and> k \<noteq> et_metadata_key et"
  by (auto simp: count_row_def Let_def case_prod_beta)

lemma count_row_wf: "dict_wf counts \<Longrightarrow> dict_wf (count_row b et counts)"
  unfolding count_row_def Let_def case_prod_beta by (rule dict_wf_update)

lemma counted_fold:
  assumes "dict_wf counts"
  shows "dict_wf (fold (\<lambda>(et, b). count_row b et) cs counts)"
    and "get_counts (fold (\<lambda>(et, b). count_row b et) cs counts) k =
      (let xs = filter (\<lambda>(et, b). et_metadata_key et = k) cs in
       (fst (get_counts counts k) + length (filter (\<lambda>(et, b). row_expired b et) xs), snd (get_counts counts k) + length xs))"
    and "map_of (fold (\<lambda>(et, b). count_row b et) cs counts) k = None \<longleftrightarrow>
      map_of counts k = None \<and> filter (\<lambda>(et, b). et_metadata_key et = k) cs = []"
  using assms
proof (induction cs arbitrary: counts)
  case (Cons c cs)
  obtain et b where c: "c = (et, b)" by (cases c)
  {
    case 1
    then show ?case using Cons.IH(1) [OF count_row_wf] c by simp
  next
    case 2
    then show ?case using Cons.IH(2) [OF count_row_wf] c by (simp add: count_row_get Let_def)
  next
    case 3
    then show ?case using Cons.IH(3) [OF count_row_wf] c by (simp add: count_row_dom)
  }
qed (simp_all add: get_counts_def)

lemma filter_length_all: "length (filter Q xs) = length xs \<longleftrightarrow> list_all Q xs"
  by (induction xs) (auto simp: le_imp_less_Suc [THEN less_imp_neq] dest: sym)

lemma expired_metadata_fold:
  "k \<in> set (expired_metadata (fold (\<lambda>(et, b). count_row b et) cs [])) \<longleftrightarrow> all_expired cs k"
proof -
  let ?m = "fold (\<lambda>(et, b). count_row b et) cs []"
  let ?xs = "filter (\<lambda>(et, b). et_metadata_key et = k) cs"
  have wf: "dict_wf ?m" by (rule counted_fold) simp
  have "k \<in> set (expired_metadata ?m) \<longleftrightarrow> (\<exists>e t. (k, e, t) \<in> set ?m \<and> t = e)"
    by (force simp: expired_metadata_def)
  also have "\<dots> \<longleftrightarrow> (\<exists>e. map_of ?m k = Some (e, e))" using wf by simp
  also have "\<dots> \<longleftrightarrow> ?xs \<noteq> [] \<and> length (filter (\<lambda>(et, b). row_expired b et) ?xs) = length ?xs"
    using counted_fold(2) [of "[]" cs k] counted_fold(3) [of "[]" cs k]
    by (cases "map_of ?m k") (auto simp: get_counts_def Let_def)
  finally show ?thesis by (simp only: filter_length_all all_expired_def Let_def)
qed

subsection \<open>Properties\<close>

text \<open>
  The run returns: with a positive time chunk, whatever the driver, the configuration
  and the state, the loops over rows and chunks end, with an exception or without.
\<close>

theorem run_returns:
  assumes "0 < ra_time_chunk args"
  shows "\<exists>r ar'. remove_data P args config clock ar = Some (r, ar')"
proof (cases "build_policies config")
  case (Inr policies)
  obtain ex counts st where "expire_rows P args policies clock 0 (ar_event_types ar) ([], ar_cass ar) = Some (ex, counts, st)"
    using expire_rows_total [OF assms] by (metis surj_pair)
  then show ?thesis using Inr by (cases ex) (simp_all add: remove_data_def)
qed (simp add: remove_data_def)

definition default_args :: rm_args where
  "default_args = \<lparr>ra_start = None, ra_time_chunk = DEFAULT_MAX_TIME_CHUNK, ra_max_misses = DEFAULT_MAX_MISSES\<rparr>"

definition witness_config :: json where
  "witness_config = JObj [(''policies'', JList witness_policies)]"

definition witness_now :: datetime where
  "witness_now = dt_of_secs 1500000000"

definition throughput_row :: event_type_row where
  "throughput_row = witness_row\<lparr>et_event_type := ''throughput''\<rparr>"

definition witness_archive :: "mem archive" where
  "witness_archive = \<lparr>ar_cass = empty_cass, ar_event_types = [witness_row, throughput_row]\<rparr>"

theorem run_returns_witness:
  "\<exists>r ar'. remove_data mem_store default_args witness_config (\<lambda>_. witness_now) witness_archive = Some (r, ar')"
  by (rule run_returns) (simp add: default_args_def DEFAULT_MAX_TIME_CHUNK_def)

text \<open>
  C20. A run removes only what a policy lets expire: it adds no column, and it keeps every
  column that is later than the bound of each row whose series it belongs to, the bound
  being the time the policy of the row (or an earlier \<open>--start\<close>) gives. In particular the
  columns of a series without a policy, or whose policy is never, all stay.
\<close>

theorem run_keeps_unexpired:
  assumes "batched_store P sent pending" and "0 < ra_time_chunk args" and "build_policies config = Inr policies"
    and "\<And>j bound y. j < length (ar_event_types ar) \<Longrightarrow>
      row_bound args policies (clock j) (ar_event_types ar ! j) = Inr (Some bound) \<Longrightarrow>
      k = series_key (ar_event_types ar ! j) y \<Longrightarrow> bound * 1000 < c"
  shows "\<exists>r ar'. remove_data P args config clock ar = Some (r, ar') \<and>
    ((c, v) \<in> set (settled sent pending (cdb (ar_cass ar')) f k) \<longleftrightarrow>
     (c, v) \<in> set (settled sent pending (cdb (ar_cass ar)) f k))"
proof -
  obtain ex counts st where run: "expire_rows P args policies clock 0 (ar_event_types ar) ([], ar_cass ar) = Some (ex, counts, st)"
    using expire_rows_total [OF assms(2)] by (metis surj_pair)
  note keeps = batched_store.expire_rows_keeps [OF assms(1) run assms(2), of c v f k, simplified]
  have "(c, v) \<in> set (settled sent pending (cdb st) f k) \<longleftrightarrow> (c, v) \<in> set (settled sent pending (cdb (ar_cass ar)) f k)"
    using keeps assms(4) by blast
  then show ?thesis using run assms(3) by (cases ex) (simp_all add: remove_data_def)
qed

lemma witness_bounds:
  "row_bound default_args witness_tree witness_now witness_row = Inr (Some 1468464000)"
  "row_bound default_args witness_tree witness_now throughput_row = Inr None"
proof -
  have y: "dt_year (DT 1468464000000000) = 2016" by code_simp
  have "get_policy witness_row witness_tree (map fst POLICY_MATCH_FIELD_DEFS) = Some [(''expire'', JStr ''365'')]"
    by (simp add: POLICY_MATCH_FIELD_DEFS_def witness_row_def witness_tree_def show_int_def show_nat.simps digit_char_def)
  then show "row_bound default_args witness_tree witness_now witness_row = Inr (Some 1468464000)"
    by (simp add: row_bound_def expire_bound_def str_eval days_before_def witness_now_def y timegm_def default_args_def)
  show "row_bound default_args witness_tree witness_now throughput_row = Inr None"
    by (simp add: row_bound_def POLICY_MATCH_FIELD_DEFS_def witness_row_def throughput_row_def witness_tree_def
        expire_bound_def str_eval)
qed

lemma build_witness_config: "build_policies witness_config = Inr witness_tree"
  by (simp add: witness_config_def build_witness)

definition stocked_archive :: "(int \<times> colval) list \<Rightarrow> mem archive" where
  "stocked_archive r = witness_archive\<lparr>ar_cass := empty_cass\<lparr>cdb :=
     mem_empty(RawCF := ((\<lambda>_. [])(series_key witness_row 2017 := r), []))\<rparr>\<rparr>"

lemma stocked_rows:
  assumes "row_ok r"
  shows "settled mem_rows mem_queue (cdb (ar_cass (stocked_archive r))) RawCF = (\<lambda>_. [])(series_key witness_row 2017 := r)"
  using assms by (auto simp: stocked_archive_def settled_def mem_rows_def mem_queue_def fun_eq_iff Let_def row_ok_def)

theorem run_keeps_unexpired_witness:
  "\<exists>r ar'. remove_data mem_store default_args witness_config (\<lambda>_. witness_now)
       (stocked_archive [(1499999999000, RawCol (JStr ''down''))]) = Some (r, ar') \<and>
     (1499999999000, RawCol (JStr ''down'')) \<in>
       set (settled mem_rows mem_queue (cdb (ar_cass ar')) RawCF (series_key witness_row 2017))"
proof -
  let ?ar = "stocked_archive [(1499999999000, RawCol (JStr ''down''))]"
  have "\<exists>r ar'. remove_data mem_store default_args witness_config (\<lambda>_. witness_now) ?ar = Some (r, ar') \<and>
    ((1499999999000, RawCol (JStr ''down'')) \<in> set (settled mem_rows mem_queue (cdb (ar_cass ar')) RawCF (series_key witness_row 2017)) \<longleftrightarrow>
     (1499999999000, RawCol (JStr ''down'')) \<in> set (settled mem_rows mem_queue (cdb (ar_cass ?ar)) RawCF (series_key witness_row 2017)))"
  proof (rule run_keeps_unexpired [OF mem.batched_store_axioms _ build_witness_config])
    fix j bound y
    assume "j < length (ar_event_types ?ar)"
      and "row_bound default_args witness_tree witness_now (ar_event_types ?ar ! j) = Inr (Some bound)"
    then show "bound * 1000 < 1499999999000"
      using witness_bounds by (auto simp: stocked_archive_def witness_archive_def less_Suc_eq)
  qed (simp add: default_args_def DEFAULT_MAX_TIME_CHUNK_def)
  then show ?thesis by (simp add: stocked_rows row_ok_def)
qed

text \<open>
  C21. What has expired is found: for a series of the raw family whose columns are at whole
  seconds in the rows of their years and have all been sent, the search back from \<open>e\<close>
  removes every column of the \<open>n\<close> chunks before \<open>e\<close>, whenever fewer of these chunks than
  the misses allowed are empty.
\<close>

theorem expired_data_removed:
  assumes "batched_store P sent pending" and "0 < chunk" and "is_raw_series et"
    and "raw_series et (settled sent pending (cdb st) RawCF)" and "pending (cdb st) RawCF = []"
    and "ms_ok e" and "0 \<le> e"
    and "empty_chunks (has_column et (settled sent pending (cdb st) RawCF)) chunk e n < max_misses"
  shows "\<exists>r st'. expire_chunks P et chunk max_misses 0 (e - chunk) e st = Some (r, st') \<and>
    (\<forall>y c v. \<not> ((c, v) \<in> set (settled sent pending (cdb st') RawCF (series_key et y)) \<and>
       0 \<le> c \<and> (e - int n * chunk) * 1000 < c \<and> c \<le> e * 1000))"
proof -
  obtain r st' where run: "expire_chunks P et chunk max_misses 0 (e - chunk) e st = Some (r, st')"
    using expire_chunks_total [OF assms(2)] by (metis surj_pair)
  have "\<not> ((c, v) \<in> set (settled sent pending (cdb st') RawCF (series_key et y)) \<and>
      0 \<le> c \<and> (e - int n * chunk) * 1000 < c \<and> c \<le> e * 1000)" for y c v
    using batched_store.raw_chunks_clean [OF assms(1) run assms(2-7), of n c v y] assms(8) by force
  then show ?thesis using run by blast
qed

lemma empty_chunks_le: "empty_chunks has chunk e n \<le> int n"
proof (induction n arbitrary: e)
  case (Suc n)
  from Suc [of "e - chunk"] show ?case by simp
qed simp

lemma witness_key: "series_key witness_row y = series_key witness_row 2017 \<longleftrightarrow> y = 2017"
  by (auto simp: series_key_def series_path_def witness_row_def row_prefix_def get_rowkey_def escape_path_def
      rowkey_appends_def KEY_DELIMITER_def)

theorem expired_data_removed_witness:
  "\<exists>r st'. expire_chunks mem_store witness_row 86400 50 0 (1500000000 - 86400) 1500000000
       (ar_cass (stocked_archive [(1499999999000, RawCol (JStr ''down''))])) = Some (r, st') \<and>
    (\<forall>y c v. \<not> ((c, v) \<in> set (settled mem_rows mem_queue (cdb st') RawCF (series_key witness_row y)) \<and>
       0 \<le> c \<and> (1500000000 - int 3 * 86400) * 1000 < c \<and> c \<le> 1500000000 * 1000))"
proof (rule expired_data_removed [OF mem.batched_store_axioms])
  have y: "dt_year (DT 1499999999000000) = 2017" by code_simp
  show "raw_series witness_row (settled mem_rows mem_queue
      (cdb (ar_cass (stocked_archive [(1499999999000, RawCol (JStr ''down''))]))) RawCF)"
    using y by (auto simp: stocked_rows row_ok_def raw_series_def raw_rows_def placed_def witness_key)
  show "is_raw_series witness_row"
    by (simp add: is_raw_series_def witness_row_def event_type_config_def EVENT_TYPE_CONFIG_def col_family_def summary_cf_def)
  show "mem_queue (cdb (ar_cass (stocked_archive [(1499999999000, RawCol (JStr ''down''))]))) RawCF = []"
    by (simp add: stocked_archive_def mem_queue_def)
  show "ms_ok 1500000000" by code_simp
  show "empty_chunks has 86400 1500000000 3 < 50" for has
    using empty_chunks_le [of has 86400 1500000000 3] by simp
qed simp_all

text \<open>
  C23. Metadata goes when everything counted has expired: after a run without exception the
  event types left are those whose metadata had no counted row, or a counted row updated
  since its bound. Rows without a policy and rows that are never to expire are not counted,
  so they do not keep their metadata.
\<close>

theorem metadata_deletion_rule:
  assumes "build_policies config = Inr policies" and "remove_data P args config clock ar = Some (None, ar')"
  shows "ar_event_types ar' = filter (\<lambda>r. \<not> all_expired (counted_rows args policies clock 0 (ar_event_types ar)) (et_metadata_key r))
    (ar_event_types ar)"
proof -
  obtain counts st where run: "expire_rows P args policies clock 0 (ar_event_types ar) ([], ar_cass ar) = Some (None, counts, st)"
      and rows: "ar_event_types ar' = delete_metadata (expired_metadata counts) (ar_event_types ar)"
    using assms by (auto simp: remove_data_def split: option.splits prod.splits)
  show ?thesis
    unfolding rows delete_metadata_def expire_rows_counts [OF run] expired_metadata_fold ..
qed

lemma empty_search:
  assumes "is_raw_series et" and "ms_ok e" and "0 \<le> b" and "b \<le> e"
  shows "query_data mem_store (et_metadata_key et) (et_event_type et) (et_summary_type et) (et_summary_window et) b e empty_cass
    = Inr ([], RawCF, series_path et)"
  using mem.query_data_raw [OF assms(1) _ ms_ok_below [OF assms(2-4)] assms(2,4), of empty_cass]
  by (simp add: raw_rows_def empty_cass_def mem_rows_def mem_empty_def row_ok_def range_cols_def in_range_def)

lemma expire_chunks_empty:
  assumes "is_raw_series et" and "ms_ok e" and "0 \<le> e" and "0 < chunk"
  shows "expire_chunks mem_store et chunk max_misses misses (e - chunk) e empty_cass = Some (None, empty_cass)"
  using assms(2,3)
proof (induction "nat e" arbitrary: e misses rule: less_induct)
  case less
  show ?case
  proof (cases "misses < max_misses")
    case True
    obtain b m where clip: "clip_chunk max_misses (e - chunk) misses = (b, m)" by fastforce
    have b: "0 \<le> b" "b \<le> e" using clip less.prems assms(4) by (auto simp: clip_chunk_def split: if_splits)
    have "expire_chunks mem_store et chunk max_misses (m + 1) (b - chunk) b empty_cass = Some (None, empty_cass)"
    proof (cases "m < max_misses")
      case True
      then have "nat b < nat e" using clip less.prems assms(4) by (auto simp: clip_chunk_def split: if_splits)
      from less.hyps [OF this ms_ok_below [OF less.prems(1) b] b(1)] show ?thesis .
    qed (simp add: expire_chunks_done)
    then show ?thesis
      by (simp add: expire_chunks_step [OF True] clip empty_search [OF assms(1) less.prems(1) b])
  qed (simp add: expire_chunks_done)
qed

lemma witness_run:
  "\<exists>ar'. remove_data mem_store default_args witness_config (\<lambda>_. witness_now) witness_archive = Some (None, ar')"
proof -
  have raw: "is_raw_series witness_row"
    by (simp add: is_raw_series_def witness_row_def event_type_config_def EVENT_TYPE_CONFIG_def col_family_def summary_cf_def)
  have ok: "ms_ok 1468464000" by code_simp
  have "search_from 1468464000 witness_row = 1468464000" by (simp add: search_from_def witness_row_def)
  moreover have args: "ra_time_chunk default_args = 86400" "ra_max_misses default_args = 50"
    by (simp_all add: default_args_def DEFAULT_MAX_TIME_CHUNK_def DEFAULT_MAX_MISSES_def)
  ultimately have row: "expire_row mem_store default_args witness_tree witness_now witness_row ([], empty_cass) =
      Some (None, count_row 1468464000 witness_row [], empty_cass)"
    using expire_chunks_empty [OF raw ok, of 86400 50 0] by (simp add: expire_row_def witness_bounds Let_def)
  have "expire_row mem_store default_args witness_tree witness_now throughput_row s = Some (None, s)" for s :: "counts \<times> mem cass"
    by (cases s) (simp add: expire_row_def witness_bounds)
  then show ?thesis
    by (simp add: remove_data_def build_witness_config witness_archive_def row)
qed

lemma witness_idle:
  "et_metadata_key throughput_row = et_metadata_key witness_row" "row_expired b witness_row"
  by (simp_all add: witness_row_def throughput_row_def row_expired_def)

theorem metadata_deletion_rule_witness:
  "\<exists>ar'. remove_data mem_store default_args witness_config (\<lambda>_. witness_now) witness_archive = Some (None, ar') \<and>
    ar_event_types ar' = []"
proof -
  obtain ar' where run: "remove_data mem_store default_args witness_config (\<lambda>_. witness_now) witness_archive = Some (None, ar')"
    using witness_run by blast
  show ?thesis
    using run metadata_deletion_rule [OF build_witness_config run]
    by (simp add: witness_archive_def witness_bounds all_expired_def witness_idle)
qed

end
