(* ===== verification/Client_Output.thy ===== *)
theory Client_Output
  imports Client_Query
begin

section \<open>Output of the clients\<close>

text \<open>
  The output classes of \<open>esmond/api/client/perfsonar/util.py\<close>: a list of rows as text for people, as
  JSON or as CSV, and the replacement of addresses by names. The \<open>csv\<close> and \<open>json\<close> modules of the
  standard library are modelled for what is used of them (the excel dialect, minimal quoting).
  The resolver is an argument with a state of its own, since its answers may change.
\<close>

subsection \<open>Rows\<close>

datatype out_row = HeaderRow "json dict" | DataRow "json dict"

fun row_dict :: "out_row \<Rightarrow> json dict" where
  "row_dict (HeaderRow d) = d"
| "row_dict (DataRow d) = d"

fun with_dict :: "out_row \<Rightarrow> json dict \<Rightarrow> out_row" where
  "with_dict (HeaderRow _) d = HeaderRow d"
| "with_dict (DataRow _) d = DataRow d"

datatype out_kind = HumanOutput bool | JsonOutput | CSVOutput

text \<open>\<open>_output\<close> and \<open>_list_fields\<close> are computed once and kept.\<close>

record esmond_output =
  eo_kind :: out_kind
  eo_data :: "out_row list"
  eo_columns :: "string list"
  eo_output :: "string option"
  eo_list_fields :: "string list option"

definition new_output :: "out_kind \<Rightarrow> out_row list \<Rightarrow> string list \<Rightarrow> esmond_output" where
  "new_output kind data columns =
     \<lparr>eo_kind = kind, eo_data = data, eo_columns = columns, eo_output = None, eo_list_fields = None\<rparr>"

definition has_data :: "esmond_output \<Rightarrow> bool" where
  "has_data out = (eo_data out \<noteq> [])"

definition add_to_payload :: "out_row list \<Rightarrow> esmond_output \<Rightarrow> esmond_output" where
  "add_to_payload dat out = out\<lparr>eo_data := eo_data out @ dat\<rparr>"

text \<open>The fields that hold lists are those of the first row that is massaged.\<close>

definition is_list :: "json \<Rightarrow> bool" where
  "is_list v = (case v of JList _ \<Rightarrow> True | _ \<Rightarrow> False)"

definition list_fields_of :: "json dict \<Rightarrow> string list" where
  "list_fields_of dct = map fst (filter (\<lambda>(k, v). is_list v) dct)"

definition comma_separated :: "string \<Rightarrow> json dict \<Rightarrow> json dict res" where
  "comma_separated lfield new_d =
     rbind (py_iter (get_or_none new_d lfield)) (\<lambda>xs.
       Inr (AList.update lfield (JStr (join '', '' (map shown xs))) new_d))"

definition massage_row_dict :: "string list option \<Rightarrow> json dict \<Rightarrow> (json dict \<times> string list) res" where
  "massage_row_dict list_fields dct =
     (let fs = (case list_fields of None \<Rightarrow> list_fields_of dct | Some fs \<Rightarrow> fs) in
      rbind (rfold comma_separated fs dct) (\<lambda>d. Inr (d, fs)))"

subsection \<open>Text for people\<close>

definition newline :: string where
  "newline = [CHR 0x0A]"

definition entry_delim :: string where
  "entry_delim = ''= + = + = + = + = + ='' @ newline"

definition human_line :: "string \<times> json \<Rightarrow> string" where
  "human_line kv = fst kv @ '': '' @ shown (snd kv) @ newline"

definition human_data_row :: "bool \<Rightarrow> string list \<Rightarrow> json dict \<Rightarrow> string" where
  "human_data_row extended_data columns row =
     concat (map (\<lambda>c. human_line (c, get_or_none row c)) columns) @
     (if extended_data then concat (map human_line (filter (\<lambda>(k, v). k \<notin> set columns) row)) else [])"

fun human_rows :: "bool \<Rightarrow> string list \<Rightarrow> string list option \<Rightarrow> out_row list \<Rightarrow> (string \<times> string list option) res" where
  "human_rows ext columns fs [] = Inr ([], fs)"
| "human_rows ext columns fs (HeaderRow d # rows) =
     rbind (human_rows ext columns fs rows) (\<lambda>(t, fs').
       Inr (concat (map human_line d) @ entry_delim @ t, fs'))"
| "human_rows ext columns fs (DataRow d # rows) =
     rbind (massage_row_dict fs d) (\<lambda>(row, gs). rbind (human_rows ext columns (Some gs) rows) (\<lambda>(t, fs').
       Inr (human_data_row ext columns row @ entry_delim @ t, fs')))"

text \<open>\<open>s.rfind(t)\<close> and \<open>s[:i]\<close>.\<close>

fun rfind :: "string \<Rightarrow> string \<Rightarrow> int" where
  "rfind [] t = (if t = [] then 0 else -1)"
| "rfind (c # s) t = (let i = rfind s t in if 0 \<le> i then i + 1 else if prefix t (c # s) then 0 else -1)"

definition slice_to :: "string \<Rightarrow> int \<Rightarrow> string" where
  "slice_to s i = (if 0 \<le> i then take (nat i) s else take (length s - nat (- i)) s)"

subsection \<open>CSV\<close>

definition csv_special :: "char \<Rightarrow> bool" where
  "csv_special c = (c \<in> {CHR '','', CHR 0x22, CHR 0x0D, CHR 0x0A})"

definition csv_quoted :: "string \<Rightarrow> string" where
  "csv_quoted s = [CHR 0x22] @ replace_char (CHR 0x22) [CHR 0x22, CHR 0x22] s @ [CHR 0x22]"

definition csv_field :: "string \<Rightarrow> string" where
  "csv_field s = (if list_ex csv_special s then csv_quoted s else s)"

definition csv_end :: string where
  "csv_end = [CHR 0x0D, CHR 0x0A]"

definition csv_record :: "string list \<Rightarrow> string" where
  "csv_record cells = (if cells = [[]] then csv_quoted [] else join '','' (map csv_field cells)) @ csv_end"

definition csv_cell :: "json \<Rightarrow> string" where
  "csv_cell v = (if v = JNull then [] else shown v)"

text \<open>\<open>DictWriter\<close>: a missing key is the empty string, other keys are ignored.\<close>

definition csv_cells :: "string list \<Rightarrow> json dict \<Rightarrow> string list" where
  "csv_cells columns row = map (\<lambda>c. case map_of row c of None \<Rightarrow> [] | Some v \<Rightarrow> csv_cell v) columns"

fun csv_rows :: "string list \<Rightarrow> string list option \<Rightarrow> out_row list \<Rightarrow> (string list list \<times> string list option) res" where
  "csv_rows columns fs [] = Inr ([], fs)"
| "csv_rows columns fs (r # rows) =
     rbind (massage_row_dict fs (row_dict r)) (\<lambda>(row, gs). rbind (csv_rows columns (Some gs) rows) (\<lambda>(t, fs').
       Inr (csv_cells columns row # t, fs')))"

definition csv_text :: "string list list \<Rightarrow> string" where
  "csv_text records = concat (map csv_record records)"

subsection \<open>\<open>get_output\<close>\<close>

definition no_data :: string where
  "no_data = ''No data found.''"

definition rendered :: "esmond_output \<Rightarrow> (string \<times> string list option) res" where
  "rendered out = (case eo_kind out of
     HumanOutput ext \<Rightarrow>
       if \<not> has_data out then Inr (no_data, eo_list_fields out)
       else rbind (human_rows ext (eo_columns out) (eo_list_fields out) (eo_data out)) (\<lambda>(t, fs).
         Inr (slice_to t (rfind t entry_delim), fs))
   | JsonOutput \<Rightarrow>
       Inr (json_dumps (JList (if has_data out then map (JObj \<circ> row_dict) (eo_data out)
          else [JObj [(''msg'', JStr no_data)]])), eo_list_fields out)
   | CSVOutput \<Rightarrow>
       if \<not> has_data out then
         Inr (csv_text [eo_columns out, map (\<lambda>_. ''No data'') (eo_columns out)], eo_list_fields out)
       else rbind (csv_rows (eo_columns out) (eo_list_fields out) (eo_data out)) (\<lambda>(rs, fs).
         Inr (csv_text (eo_columns out # rs), fs)))"

definition get_output :: "esmond_output \<Rightarrow> (string \<times> esmond_output) res" where
  "get_output out = (case eo_output out of
     Some (c # s) \<Rightarrow> Inr (c # s, out)
   | _ \<Rightarrow> rbind (rendered out) (\<lambda>(t, fs). Inr (t, out\<lparr>eo_output := Some t, eo_list_fields := fs\<rparr>)))"

subsection \<open>Names for addresses\<close>

type_synonym 's resolver = "string \<Rightarrow> 's \<Rightarrow> string \<times> 's"

definition ip_fields :: "string list" where
  "ip_fields = [''source'', ''destination'', ''ip'', ''measurement_agent'']"

text \<open>A value that is a number is no key of the cache, and \<open>getfqdn\<close> calls \<open>strip\<close> on it.\<close>

definition convert_field ::
  "'s resolver \<Rightarrow> string \<Rightarrow> json dict \<times> string dict \<times> 's \<Rightarrow> (json dict \<times> string dict \<times> 's) res" where
  "convert_field getfqdn i st = (case st of (ddict, cache, s) \<Rightarrow>
     let v = get_or_none ddict i in
     if \<not> py_truthy v then Inr st
     else (case v of
        JStr ip \<Rightarrow>
          (let known = (case map_of cache ip of None \<Rightarrow> [] | Some name \<Rightarrow> name) in
           if known \<noteq> [] then Inr (AList.update i (JStr known) ddict, cache, s)
           else (case getfqdn ip s of (name, s') \<Rightarrow>
             Inr (AList.update i (JStr name) ddict, AList.update ip name cache, s')))
      | JList _ \<Rightarrow> Inl TypeError
      | JObj _ \<Rightarrow> Inl TypeError
      | _ \<Rightarrow> Inl AttributeError))"

definition convert_names ::
  "'s resolver \<Rightarrow> bool \<Rightarrow> json dict \<Rightarrow> string dict \<times> 's \<Rightarrow> (json dict \<times> string dict \<times> 's) res" where
  "convert_names getfqdn ip ddict cs =
     (if ip then Inr (ddict, cs) else rfold (convert_field getfqdn) ip_fields (ddict, cs))"

end
