(* ===== verification/Client_Formats.thy ===== *)
theory Client_Formats
  imports Client_Output
begin

section \<open>From measurements to rows\<close>

text \<open>
  \<open>data_format_factory\<close> of \<open>esmond/api/client/perfsonar/util.py\<close>: the points of one event type of
  every metadata record a connection lists, as rows with the columns of the format of that type.
  The rows of a point are computed one after the other and each is converted as soon as it is
  there, so that an exception of a later row comes after the look-ups of the earlier ones.
\<close>

subsection \<open>Event types and options\<close>

definition EVENT_MAP :: "string dict" where
  "EVENT_MAP = [
     (''failures'', ''failures''),
     (''histogram-owdelay'', ''histogram''),
     (''histogram-rtt'', ''histogram''),
     (''histogram-ttl'', ''histogram''),
     (''histogram-ttl-reverse'', ''histogram''),
     (''ntp-delay'', ''numeric''),
     (''ntp-dispersion'', ''numeric''),
     (''ntp-jitter'', ''numeric''),
     (''ntp-offset'', ''numeric''),
     (''ntp-polling-interval'', ''numeric''),
     (''ntp-reach'', ''numeric''),
     (''ntp-stratum'', ''numeric''),
     (''ntp-wander'', ''numeric''),
     (''packet-duplicates'', ''numeric''),
     (''packet-duplicates-bidir'', ''numeric''),
     (''packet-loss-rate'', ''numeric''),
     (''packet-loss-rate-bidir'', ''numeric''),
     (''packet-trace'', ''packet_trace''),
     (''packet-count-lost'', ''numeric''),
     (''packet-count-lost-bidir'', ''numeric''),
     (''packet-count-sent'', ''numeric''),
     (''packet-reorders'', ''numeric''),
     (''packet-reorders-bidir'', ''numeric''),
     (''packet-retransmits'', ''numeric''),
     (''packet-retransmits-subintervals'', ''subintervals''),
     (''path-mtu'', ''numeric''),
     (''streams-packet-retransmits'', ''number_list''),
     (''streams-packet-retransmits-subintervals'', ''subinterval_list''),
     (''streams-throughput'', ''number_list''),
     (''streams-throughput-subintervals'', ''subinterval_list''),
     (''throughput'', ''numeric''),
     (''throughput-subintervals'', ''subintervals''),
     (''time-error-estimates'', ''numeric'')]"

definition EVENT_TYPES :: "string list" where
  "EVENT_TYPES = map fst EVENT_MAP"

text \<open>What \<open>optparse\<close> returns; an option that is not given is None.\<close>

record cl_options =
  op_url :: "string option"
  op_src :: "string option"
  op_dest :: "string option"
  op_agent :: "string option"
  op_type :: "string option"
  op_tool :: "string option"
  op_start :: "string option"
  op_end :: "string option"
  op_filter :: "string list"
  op_list_event :: bool
  op_metadata :: bool
  op_summary_type :: "string option"
  op_summary_window :: int
  op_format :: string
  op_output_dir :: string
  op_ip :: bool

definition given :: "string option \<Rightarrow> bool" where
  "given o1 = (case o1 of None \<Rightarrow> False | Some s \<Rightarrow> s \<noteq> [])"

definition json_opt :: "string option \<Rightarrow> json" where
  "json_opt o1 = (case o1 of None \<Rightarrow> JNull | Some s \<Rightarrow> JStr s)"

definition event_format :: "string option \<Rightarrow> string res" where
  "event_format etype = (case etype of None \<Rightarrow> Inl KeyError
     | Some t \<Rightarrow> (case map_of EVENT_MAP t of None \<Rightarrow> Inl KeyError | Some f \<Rightarrow> Inr f))"

definition output_factory :: "cl_options \<Rightarrow> out_row list \<Rightarrow> string list \<Rightarrow> esmond_output option" where
  "output_factory options data columns =
     (if op_format options = ''human'' then Some (new_output (HumanOutput (op_metadata options)) data columns)
      else if op_format options = ''json'' then Some (new_output JsonOutput data [])
      else if op_format options = ''csv'' then Some (new_output CSVOutput data columns)
      else None)"

subsection \<open>Columns\<close>

definition header_base :: "string list" where
  "header_base = [''source'', ''destination'', ''event_type'', ''tool'', ''summary_type'', ''summary_window'', ''timestamp'']"

definition trace_header :: "string list" where
  "trace_header = [''ttl'', ''query'', ''success'', ''ip'', ''rtt'', ''mtu'', ''error_message'']"

text \<open>The columns of the statistics and the fields of the value they are taken from.\<close>

definition statistics_fields :: "string dict" where
  "statistics_fields = [(''min'', ''minimum''), (''median'', ''median''), (''max'', ''maximum''), (''mean'', ''mean''),
     (''mode'', ''mode''), (''standard_deviation'', ''standard-deviation''), (''variance'', ''variance''),
     (''percentile_25'', ''percentile-25''), (''percentile_75'', ''percentile-75''), (''percentile_95'', ''percentile-95'')]"

definition is_statistics :: "cl_options \<Rightarrow> bool" where
  "is_statistics options = (op_summary_type options = Some ''statistics'')"

definition is_human :: "cl_options \<Rightarrow> bool" where
  "is_human options = (op_format options = ''human'')"

subsection \<open>The rows of a point\<close>

definition summary_type_shown :: "cl_options \<Rightarrow> string" where
  "summary_type_shown options = (if given (op_summary_type options) then the (op_summary_type options) else ''base'')"

text \<open>The columns every measurement has.\<close>

definition base_columns :: "cl_options \<Rightarrow> node_info \<Rightarrow> data_point \<Rightarrow> json dict res" where
  "base_columns options meta dpay =
     rbind (metadata_property ''source'' meta) (\<lambda>src. rbind (metadata_property ''destination'' meta) (\<lambda>dst.
     rbind (metadata_property ''tool_name'' meta) (\<lambda>tool.
     Inr [(''source'', src), (''destination'', dst), (''event_type'', json_opt (op_type options)), (''tool'', tool),
       (''summary_type'', JStr (summary_type_shown options)), (''summary_window'', JInt (op_summary_window options)),
       (''timestamp'', JStr (str_datetime (dp_ts dpay)))])))"

text \<open>\<open>column=val.get(field)\<close> for a list of columns.\<close>

definition picked :: "string dict \<Rightarrow> json \<Rightarrow> json dict res" where
  "picked columns val = rmap (\<lambda>(c, f). rbind (json_get val f JNull) (\<lambda>v. Inr (c, v))) columns"

definition same_name :: "string list \<Rightarrow> string dict" where
  "same_name cs = map (\<lambda>c. (c, c)) cs"

definition interval_fields :: "string dict" where
  "interval_fields = [(''start'', ''start''), (''duration'', ''duration''), (''value'', ''val'')]"

definition data_row :: "cl_options \<Rightarrow> node_info \<Rightarrow> data_point \<Rightarrow> json dict res \<Rightarrow> out_row res" where
  "data_row options meta dpay extra =
     rbind (base_columns options meta dpay) (\<lambda>b. rbind extra (\<lambda>e. Inr (DataRow (b @ e))))"

definition header_row :: "cl_options \<Rightarrow> node_info \<Rightarrow> data_point \<Rightarrow> out_row res" where
  "header_row options meta dpay = rbind (base_columns options meta dpay) (\<lambda>b. Inr (HeaderRow b))"

text \<open>\<open>range(len(v))\<close> with \<open>v[i]\<close>: an object has a length, but no integer keys.\<close>

definition items_by_index :: "json \<Rightarrow> (int \<times> json res) list res" where
  "items_by_index v = (case v of
     JList xs \<Rightarrow> Inr (map (\<lambda>i. (int i, Inr (xs ! i))) [0..<length xs])
   | JStr s \<Rightarrow> Inr (map (\<lambda>i. (int i, Inr (JStr [s ! i]))) [0..<length s])
   | JObj d \<Rightarrow> Inr (map (\<lambda>i. (int i, Inl KeyError)) [0..<length d])
   | _ \<Rightarrow> Inl TypeError)"

definition stream_row :: "cl_options \<Rightarrow> node_info \<Rightarrow> data_point \<Rightarrow> int \<Rightarrow> json dict res \<Rightarrow> out_row res" where
  "stream_row options meta dpay n extra =
     data_row options meta dpay (rbind extra (\<lambda>e. Inr ((''stream_num'', JInt n) # e)))"

text \<open>
  A format: its columns, the rows of one point, and whether it asks for summaries.
\<close>

record point_format =
  pf_header :: "cl_options \<Rightarrow> string list"
  pf_rows :: "cl_options \<Rightarrow> node_info \<Rightarrow> data_point \<Rightarrow> out_row res list"
  pf_summaries :: bool

definition format_numeric :: point_format where
  "format_numeric = \<lparr>pf_header = (\<lambda>options. header_base @ [''value'']),
     pf_rows = (\<lambda>options meta dpay. [data_row options meta dpay (Inr [(''value'', dp_val dpay)])]),
     pf_summaries = True\<rparr>"

definition format_failures :: point_format where
  "format_failures = \<lparr>pf_header = (\<lambda>options. header_base @ [''msg'']),
     pf_rows = (\<lambda>options meta dpay. [data_row options meta dpay (picked [(''msg'', ''error'')] (dp_val dpay))]),
     pf_summaries = False\<rparr>"

definition trace_row :: "cl_options \<Rightarrow> node_info \<Rightarrow> data_point \<Rightarrow> json \<Rightarrow> out_row res" where
  "trace_row options meta dpay val =
     (let hop = picked (same_name trace_header) val in
      if is_human options then rbind hop (\<lambda>d. Inr (DataRow d)) else data_row options meta dpay hop)"

definition each_item :: "(json \<Rightarrow> out_row res) \<Rightarrow> json \<Rightarrow> out_row res list" where
  "each_item row v = (case py_iter v of Inl e \<Rightarrow> [Inl e] | Inr vs \<Rightarrow> map row vs)"

definition format_packet_trace :: point_format where
  "format_packet_trace = \<lparr>
     pf_header = (\<lambda>options. if is_human options then trace_header else header_base @ trace_header),
     pf_rows = (\<lambda>options meta dpay. (if is_human options then [header_row options meta dpay] else []) @
        each_item (trace_row options meta dpay) (dp_val dpay)),
     pf_summaries = False\<rparr>"

definition histogram_row :: "cl_options \<Rightarrow> node_info \<Rightarrow> data_point \<Rightarrow> out_row res" where
  "histogram_row options meta dpay = data_row options meta dpay
     (if is_statistics options then picked statistics_fields (dp_val dpay)
      else rbind (metadata_property ''sample_bucket_width'' meta) (\<lambda>b. Inr [(''bucket'', b), (''value'', dp_val dpay)]))"

definition format_histogram :: point_format where
  "format_histogram = \<lparr>
     pf_header = (\<lambda>options. header_base @ (if is_statistics options then map fst statistics_fields else [''bucket'', ''value''])),
     pf_rows = (\<lambda>options meta dpay. [histogram_row options meta dpay]),
     pf_summaries = True\<rparr>"

definition format_subintervals :: point_format where
  "format_subintervals = \<lparr>pf_header = (\<lambda>options. header_base @ [''start'', ''duration'', ''value'']),
     pf_rows = (\<lambda>options meta dpay. each_item (\<lambda>v. data_row options meta dpay (picked interval_fields v)) (dp_val dpay)),
     pf_summaries = False\<rparr>"

text \<open>\<open>row(i, v[i]) for i in range(len(v))\<close>.\<close>

definition each_index :: "(int \<Rightarrow> json res \<Rightarrow> out_row res list) \<Rightarrow> json \<Rightarrow> out_row res list" where
  "each_index rows v = (case items_by_index v of Inl e \<Rightarrow> [Inl e] | Inr ivs \<Rightarrow> concat (map (\<lambda>(i, x). rows i x) ivs))"

definition format_number_list :: point_format where
  "format_number_list = \<lparr>pf_header = (\<lambda>options. header_base @ [''stream_num'', ''value'']),
     pf_rows = (\<lambda>options meta dpay. each_index (\<lambda>i v.
        [stream_row options meta dpay i (rbind v (\<lambda>x. Inr [(''value'', x)]))]) (dp_val dpay)),
     pf_summaries = False\<rparr>"

definition stream_intervals :: "cl_options \<Rightarrow> node_info \<Rightarrow> data_point \<Rightarrow> int \<Rightarrow> json res \<Rightarrow> out_row res list" where
  "stream_intervals options meta dpay n v = (case v of
     Inl e \<Rightarrow> [Inl e]
   | Inr x \<Rightarrow> each_index (\<lambda>i w. [stream_row options meta dpay n (rbind w (picked interval_fields))]) x)"

definition format_subinterval_list :: point_format where
  "format_subinterval_list = \<lparr>pf_header = (\<lambda>options. header_base @ [''stream_num'', ''start'', ''duration'', ''value'']),
     pf_rows = (\<lambda>options meta dpay. each_index (stream_intervals options meta dpay) (dp_val dpay)),
     pf_summaries = False\<rparr>"

definition format_map :: "(string \<times> point_format) list" where
  "format_map = [(''failures'', format_failures), (''histogram'', format_histogram), (''number_list'', format_number_list),
     (''numeric'', format_numeric), (''packet_trace'', format_packet_trace), (''subintervals'', format_subintervals),
     (''subinterval_list'', format_subinterval_list)]"

subsection \<open>All measurements\<close>

text \<open>\<open>massage_output\<close> of a row, which is then appended to the data.\<close>

definition append_row ::
  "'s resolver \<Rightarrow> bool \<Rightarrow> out_row res \<Rightarrow> out_row list \<times> string dict \<times> 's \<Rightarrow> (out_row list \<times> string dict \<times> 's) res" where
  "append_row getfqdn ip r st = (case st of (data, cs) \<Rightarrow>
     rbind r (\<lambda>row. rbind (convert_names getfqdn ip (row_dict row) cs) (\<lambda>(d, cs').
       Inr (data @ [with_dict row d], cs'))))"

text \<open>A metadata record without the event type gives None, which has no data.\<close>

definition get_payload :: "http_get \<Rightarrow> cl_options \<Rightarrow> point_format \<Rightarrow> node_info option \<Rightarrow> data_payload res option" where
  "get_payload http options fmt etype = (case etype of
     None \<Rightarrow> Some (Inl AttributeError)
   | Some et \<Rightarrow>
       if \<not> (pf_summaries fmt \<and> given (op_summary_type options)) then event_type_data http et
       else (case rbind (data_type_of et) (\<lambda>t. rbind (get_summary (the (op_summary_type options)) (JInt (op_summary_window options)) et) (\<lambda>s. Inr (t, s))) of
          Inl e \<Rightarrow> Some (Inl e)
        | Inr (t, None) \<Rightarrow> Some (Inr \<lparr>dl_data = [], dl_type = ''unspecified''\<rparr>)
        | Inr (t, Some s) \<Rightarrow> summary_data http t s))"

definition metadata_points :: "http_get \<Rightarrow> cl_options \<Rightarrow> point_format \<Rightarrow> node_info \<Rightarrow> data_point list res option" where
  "metadata_points http options fmt meta =
     (case get_event_type (the (op_type options)) meta of
        Inl e \<Rightarrow> Some (Inl e)
      | Inr etype \<Rightarrow> map_option (\<lambda>p. rbind p payload_points) (get_payload http options fmt etype))"

fun format_metadata ::
  "http_get \<Rightarrow> 's resolver \<Rightarrow> cl_options \<Rightarrow> point_format \<Rightarrow> node_info list \<Rightarrow> out_row list \<times> string dict \<times> 's \<Rightarrow>
   (out_row list \<times> string dict \<times> 's) res option" where
  "format_metadata http getfqdn options fmt [] st = Some (Inr st)"
| "format_metadata http getfqdn options fmt (meta # metas) st =
     (case metadata_points http options fmt meta of
        None \<Rightarrow> None
      | Some (Inl e) \<Rightarrow> Some (Inl e)
      | Some (Inr ps) \<Rightarrow>
          (case rfold (append_row getfqdn (op_ip options)) (concat (map (pf_rows fmt options meta) ps)) st of
             Inl e \<Rightarrow> Some (Inl e)
           | Inr st' \<Rightarrow> format_metadata http getfqdn options fmt metas st'))"

text \<open>
  The connection is what its \<open>get_metadata\<close> returns; a bulk client passes a single record.
\<close>

definition data_format ::
  "http_get \<Rightarrow> 's resolver \<Rightarrow> cl_options \<Rightarrow> bool \<Rightarrow> node_info list res option \<Rightarrow> 's \<Rightarrow> (string list \<times> out_row list) res option" where
  "data_format http getfqdn options seed_bulk_output conn s =
     (case rbind (event_format (op_type options)) (\<lambda>f. case map_of format_map f of None \<Rightarrow> Inl TypeError | Some fmt \<Rightarrow> Inr fmt) of
        Inl e \<Rightarrow> Some (Inl e)
      | Inr fmt \<Rightarrow>
          if seed_bulk_output then Some (Inr (pf_header fmt options, []))
          else (case conn of
             None \<Rightarrow> None
           | Some (Inl e) \<Rightarrow> Some (Inl e)
           | Some (Inr metas) \<Rightarrow>
               map_option (\<lambda>r. rbind r (\<lambda>(data, cs). Inr (pf_header fmt options, data)))
                 (format_metadata http getfqdn options fmt metas ([], [], s))))"

subsection \<open>The file a bulk client writes\<close>

definition utciso :: "json \<Rightarrow> string res" where
  "utciso ts = (case ts of
     JInt n \<Rightarrow> rbind (dt_of_timestamp n) (\<lambda>d. case dt_month_day d of (m, dd) \<Rightarrow>
       Inr (show_int (dt_year d) @ ''-'' @ padded 2 m @ ''-'' @ padded 2 dd))
   | _ \<Rightarrow> Inl TypeError)"

definition host_name :: "'s resolver \<Rightarrow> bool \<Rightarrow> json \<Rightarrow> 's \<Rightarrow> (string \<times> 's) res" where
  "host_name getfqdn ip v s = (case v of
     JStr a \<Rightarrow> Inr (if ip then (a, s) else getfqdn a s)
   | _ \<Rightarrow> Inl (if ip then TypeError else AttributeError))"

definition get_outfile ::
  "(string \<Rightarrow> string) \<Rightarrow> 's resolver \<Rightarrow> cl_options \<Rightarrow> node_info \<Rightarrow> string \<Rightarrow> 's \<Rightarrow> string res" where
  "get_outfile abspath getfqdn options meta event_type s =
     rbind (metadata_property ''source'' meta) (\<lambda>src. rbind (host_name getfqdn (op_ip options) src s) (\<lambda>(source, s1).
     rbind (metadata_property ''destination'' meta) (\<lambda>dst. rbind (host_name getfqdn (op_ip options) dst s1) (\<lambda>(dest, s2).
     rbind (rbind (filter_get ''time_start'' (ni_filters meta)) utciso) (\<lambda>start.
     rbind (rbind (filter_get ''time_end'' (ni_filters meta)) utciso) (\<lambda>end_date.
     Inr (path_join (abspath (op_output_dir options))
       (join ''_'' [source, dest, event_type, start, end_date] @ ''.'' @ op_format options))))))))"

end
