(* ===== verification/Client_Options.thy ===== *)
theory Client_Options
  imports Client_Formats
begin

section \<open>Options of the clients\<close>

text \<open>
  The checks of the command line of \<open>esmond/api/client/perfsonar/util.py\<close> and the filters built of
  it. The options are what \<open>optparse\<close> returns. A check that fails prints a message and leaves the
  program (\<open>SystemExit\<close>). The resolver of host names, the directories that exist, the parser of
  dates (python-dateutil) and the clock are arguments.
\<close>

subsection \<open>The path of a URL\<close>

definition is_letter :: "char \<Rightarrow> bool" where
  "is_letter c = (let n = of_char c :: nat in (65 \<le> n \<and> n \<le> 90) \<or> (97 \<le> n \<and> n \<le> 122))"

definition scheme_char :: "char \<Rightarrow> bool" where
  "scheme_char c = (is_letter c \<or> is_digit c \<or> c \<in> set ''+-.'')"

text \<open>The schemes whose last path segment may have parameters.\<close>

definition uses_params :: "string list" where
  "uses_params = [[], ''ftp'', ''hdl'', ''prospero'', ''http'', ''https'', ''shttp'', ''rtsp'', ''rtspu'', ''sip'', ''sips'',
     ''mms'', ''sftp'', ''tel'']"

definition split_scheme :: "string \<Rightarrow> string \<times> string" where
  "split_scheme url =
     (let s = takeWhile (\<lambda>c. c \<noteq> CHR '':'') url; rest = dropWhile (\<lambda>c. c \<noteq> CHR '':'') url in
      if rest \<noteq> [] \<and> s \<noteq> [] \<and> is_letter (hd s) \<and> list_all scheme_char s then (lower s, tl rest) else ([], url))"

definition without_netloc :: "string \<Rightarrow> string" where
  "without_netloc url = (if prefix ''//'' url then dropWhile (\<lambda>c. c \<notin> set ''/?#'') (drop 2 url) else url)"

text \<open>The parameters begin at the first semicolon of the last segment.\<close>

definition without_params :: "string \<Rightarrow> string" where
  "without_params url =
     (let last_segment = rev (takeWhile (\<lambda>c. c \<noteq> CHR ''/'') (rev url)) in
      take (length url - length last_segment) url @ takeWhile (\<lambda>c. c \<noteq> CHR '';'') last_segment)"

definition url_path :: "string \<Rightarrow> string" where
  "url_path url = (case split_scheme url of (scheme, rest) \<Rightarrow>
     let p = takeWhile (\<lambda>c. c \<noteq> CHR ''?'') (takeWhile (\<lambda>c. c \<noteq> CHR ''#'') (without_netloc rest)) in
     if scheme \<in> set uses_params then without_params p else p)"

subsection \<open>Checks\<close>

definition ARCHIVE_PATH :: string where
  "ARCHIVE_PATH = ''/esmond/perfsonar/archive''"

definition exit_error :: "'a res" where
  "exit_error = Inl (SystemExit (- 1))"

definition check_url :: "cl_options \<Rightarrow> cl_options res" where
  "check_url options = (case op_url options of
     None \<Rightarrow> exit_error
   | Some url \<Rightarrow>
       if url = [] then exit_error
       else if prefix ARCHIVE_PATH (url_path url) then
         Inr (options\<lparr>op_url := Some (replace_string (url_path url) [] url)\<rparr>)
       else Inr options)"

definition check_valid_hostnames :: "(string \<Rightarrow> bool) \<Rightarrow> string option list \<Rightarrow> cl_options \<Rightarrow> cl_options res" where
  "check_valid_hostnames resolves hn_args options =
     (if list_all (\<lambda>h. given h \<longrightarrow> resolves (the h)) hn_args then Inr options else exit_error)"

definition check_event_types :: "bool \<Rightarrow> cl_options \<Rightarrow> cl_options res" where
  "check_event_types require_event options =
     (if given (op_type options) \<and> the (op_type options) \<notin> set EVENT_TYPES then exit_error
      else if require_event \<and> \<not> given (op_type options) then exit_error
      else Inr options)"

definition check_formats :: "cl_options \<Rightarrow> cl_options res" where
  "check_formats options =
     (if op_format options \<notin> {''human'', ''json'', ''csv''} then exit_error
      else if op_format options = ''csv'' \<and> op_metadata options then exit_error
      else Inr options)"

definition check_summary :: "cl_options \<Rightarrow> cl_options res" where
  "check_summary options =
     (if given (op_summary_type options) \<and> the (op_summary_type options) \<notin> {''aggregation'', ''average'', ''statistics''}
      then exit_error else Inr options)"

definition src_dest_required :: "cl_options \<Rightarrow> cl_options res" where
  "src_dest_required options =
     (if \<not> given (op_src options) \<or>
         \<not> (given (op_dest options) \<or> (op_type options \<noteq> None \<and> prefix ''ntp-'' (the (op_type options))))
      then exit_error else Inr options)"

definition valid_output_dir :: "(string \<Rightarrow> bool) \<Rightarrow> cl_options \<Rightarrow> cl_options res" where
  "valid_output_dir path_exists options =
     (if op_format options = ''human'' then exit_error
      else if \<not> path_exists (op_output_dir options) then exit_error
      else Inr options)"

text \<open>\<open>perfsonar_client_opts\<close> after the parsing: the list of event types ends the program with success.\<close>

definition perfsonar_client_opts ::
  "(string \<Rightarrow> bool) \<Rightarrow> (string \<Rightarrow> bool) \<Rightarrow> bool \<Rightarrow> bool \<Rightarrow> bool \<Rightarrow> cl_options \<Rightarrow> cl_options res" where
  "perfsonar_client_opts resolves path_exists require_src_dest require_event require_output options =
     (if op_list_event options then Inl (SystemExit 0)
      else rbind (check_url options) (\<lambda>o1.
        rbind (if require_src_dest then src_dest_required o1 else Inr o1) (\<lambda>o2.
        rbind (if require_output then valid_output_dir path_exists o2 else Inr o2) (\<lambda>o3.
        rbind (check_valid_hostnames resolves [op_src o3, op_dest o3, op_agent o3] o3) (\<lambda>o4.
        rbind (check_event_types require_event o4) (\<lambda>o5.
        rbind (check_summary o5) check_formats))))))"

subsection \<open>Filters\<close>

definition DAY_MICROS :: int where
  "DAY_MICROS = 86400000000"

definition parsed_date :: "(string \<Rightarrow> datetime option) \<Rightarrow> string \<Rightarrow> datetime res" where
  "parsed_date parse_date s = (case parse_date s of None \<Rightarrow> exit_error | Some d \<Rightarrow> Inr d)"

text \<open>The clock is read once for the start and once for the end.\<close>

definition get_start_and_end_times ::
  "(string \<Rightarrow> datetime option) \<Rightarrow> datetime \<Rightarrow> datetime \<Rightarrow> cl_options \<Rightarrow> (datetime \<times> datetime) res" where
  "get_start_and_end_times parse_date now1 now2 options =
     rbind (if \<not> given (op_start options) then Inr (DT (dt_micros now1 - DAY_MICROS))
            else parsed_date parse_date (the (op_start options))) (\<lambda>start.
     rbind (if \<not> given (op_end options) then Inr (dt_of_secs (timegm now2))
            else parsed_date parse_date (the (op_end options))) (\<lambda>end_date.
     Inr (start, end_date)))"

text \<open>
  The names \<open>hasattr\<close> finds besides the filters themselves: those that can be set, those that
  hold the dictionaries and cannot, and private ones.
\<close>

definition SET_ATTRIBUTES :: "string list" where
  "SET_ATTRIBUTES = [''verbose'', ''ssl_verify'', ''timeout'', ''wrn'', ''warn'']"

definition READ_ATTRIBUTES :: "string list" where
  "READ_ATTRIBUTES = [''metadata_filters'', ''time_filters'']"

definition PRIVATE_ATTRIBUTES :: "string list" where
  "PRIVATE_ATTRIBUTES = [''_metadata_filters'', ''_time_filters'', ''_check_time'']"

definition has_filter :: "string \<Rightarrow> bool" where
  "has_filter k = (k \<in> set (map fst METADATA_FILTERS @ map fst TIME_FILTERS @ [''auth_username'', ''auth_apikey''] @
     SET_ATTRIBUTES @ READ_ATTRIBUTES @ PRIVATE_ATTRIBUTES) \<or> prefix ''__'' k)"

definition set_filter :: "string \<Rightarrow> string \<Rightarrow> api_filters \<Rightarrow> api_filters res" where
  "set_filter key v f =
     (if key = ''auth_username'' then Inr (f\<lparr>af_username := v\<rparr>)
      else if key = ''auth_apikey'' then Inr (f\<lparr>af_apikey := v\<rparr>)
      else if key \<in> set READ_ATTRIBUTES then Inl AttributeError
      else if key \<in> set PRIVATE_ATTRIBUTES \<or> prefix ''__'' key then Inl Unmodelled
      else filter_set key (JStr v) f)"

text \<open>
  One \<open>-F key:value\<close>: it must have one colon; \<open>hasattr\<close> is asked for the key as it was given, not
  for the name it stands for.
\<close>

definition apply_filter :: "string \<Rightarrow> api_filters \<Rightarrow> api_filters res" where
  "apply_filter arg f = (case split_char (CHR '':'') arg of
     [_] \<Rightarrow> Inr f
   | [k, v] \<Rightarrow> if \<not> has_filter k then Inr f else set_filter (replace_char (CHR ''-'') ''_'' k) v f
   | _ \<Rightarrow> Inl ValueError)"

definition perfsonar_client_filters ::
  "(string \<Rightarrow> datetime option) \<Rightarrow> datetime \<Rightarrow> datetime \<Rightarrow> cl_options \<Rightarrow> api_filters res" where
  "perfsonar_client_filters parse_date now1 now2 options =
     rbind (get_start_and_end_times parse_date now1 now2 options) (\<lambda>(start, end_date).
     rbind (rfold (\<lambda>(a, v). filter_set a v) (
       [(''source'', json_opt (op_src options)), (''destination'', json_opt (op_dest options)),
        (''measurement_agent'', json_opt (op_agent options)), (''event_type'', json_opt (op_type options)),
        (''time_start'', JInt (timegm start)), (''time_end'', JInt (timegm end_date)),
        (''tool_name'', json_opt (op_tool options)), (''summary_type'', json_opt (op_summary_type options))] @
       (if op_summary_window options \<noteq> 0 then [(''summary_window'', JInt (op_summary_window options))] else []))
       new_filters) (\<lambda>f.
     rfold apply_filter (op_filter options) f))"

end
