(* ===== verification/Client_Output_Facts.thy ===== *)
theory Client_Output_Facts
  imports Client_Options
begin

section \<open>What the output shows\<close>

text \<open>
  The CSV a client prints, read by the rules of RFC 4180, is the table of its rows; the rows of
  every format have the columns of its header; and the names put in place of addresses do not
  depend on the cache.
\<close>

subsection \<open>A reader of CSV\<close>

datatype csv_mode = FieldStart | Unquoted | Quoted | QuoteInQuoted

text \<open>
  The arguments are the field and the record read so far. An empty line is an empty record; a
  carriage return outside quotes is skipped, the line feed after it ends the record.
\<close>

fun csv_read :: "csv_mode \<Rightarrow> string \<Rightarrow> string list \<Rightarrow> string \<Rightarrow> string list list" where
  "csv_read m f fs [] = (if m = FieldStart \<and> fs = [] then [] else [fs @ [f]])"
| "csv_read Quoted f fs (c # s) =
     (if c = CHR 0x22 then csv_read QuoteInQuoted f fs s else csv_read Quoted (f @ [c]) fs s)"
| "csv_read m f fs (c # s) =
     (if c = CHR 0x22 \<and> m = FieldStart then csv_read Quoted [] fs s
      else if c = CHR 0x22 \<and> m = QuoteInQuoted then csv_read Quoted (f @ [c]) fs s
      else if c = CHR '','' then csv_read FieldStart [] (fs @ [f]) s
      else if c = CHR 0x0D then csv_read m f fs s
      else if c = CHR 0x0A then (if m = FieldStart \<and> fs = [] then [] else fs @ [f]) # csv_read FieldStart [] [] s
      else csv_read Unquoted (f @ [c]) fs s)"

definition csv_parse :: "string \<Rightarrow> string list list" where
  "csv_parse s = csv_read FieldStart [] [] s"

lemma csv_read_plain:
  "\<not> list_ex csv_special s \<Longrightarrow> csv_read Unquoted f fs (s @ rest) = csv_read Unquoted (f @ s) fs rest"
  by (induction s arbitrary: f) (auto simp: csv_special_def)

lemma csv_read_quoted:
  "csv_read Quoted f fs (replace_char (CHR 0x22) [CHR 0x22, CHR 0x22] s @ CHR 0x22 # rest) = csv_read QuoteInQuoted (f @ s) fs rest"
  by (induction s arbitrary: f) auto

lemma csv_read_quoted_field: "csv_read FieldStart [] fs (csv_quoted s @ rest) = csv_read QuoteInQuoted s fs rest"
  using csv_read_quoted [of "[]" fs s rest] by (simp add: csv_quoted_def)

text \<open>After a field the reader is at its end, in one of three modes.\<close>

lemma csv_read_field:
  "\<exists>m. csv_read FieldStart [] fs (csv_field s @ rest) = csv_read m s fs rest \<and> m \<noteq> Quoted \<and> (m = FieldStart \<longrightarrow> s = [])"
proof (cases "list_ex csv_special s")
  case True
  then show ?thesis using csv_read_quoted_field by (intro exI [of _ QuoteInQuoted]) (simp add: csv_field_def)
next
  case False
  show ?thesis
  proof (cases s)
    case Nil
    then show ?thesis by (intro exI [of _ FieldStart]) (simp add: csv_field_def)
  next
    case (Cons c t)
    then have "csv_read FieldStart [] fs (s @ rest) = csv_read Unquoted s fs rest"
      using False csv_read_plain [of t "[c]" fs rest] by (simp add: csv_special_def)
    then show ?thesis using False by (intro exI [of _ Unquoted]) (simp add: csv_field_def)
  qed
qed

lemma csv_read_comma: "m \<noteq> Quoted \<Longrightarrow> csv_read m f fs (CHR '','' # rest) = csv_read FieldStart [] (fs @ [f]) rest"
  by (cases m) auto

lemma csv_read_end:
  "m \<noteq> Quoted \<Longrightarrow> m = FieldStart \<longrightarrow> fs \<noteq> [] \<Longrightarrow>
   csv_read m f fs (csv_end @ rest) = (fs @ [f]) # csv_read FieldStart [] [] rest"
  by (cases m) (auto simp: csv_end_def)

lemma csv_read_fields:
  "cells \<noteq> [] \<Longrightarrow> fs @ cells \<noteq> [[]] \<Longrightarrow>
   csv_read FieldStart [] fs (join '','' (map csv_field cells) @ csv_end @ rest) = (fs @ cells) # csv_read FieldStart [] [] rest"
proof (induction cells arbitrary: fs)
  case (Cons c cells)
  show ?case
  proof (cases "cells = []")
    case True
    obtain m where m: "csv_read FieldStart [] fs (csv_field c @ csv_end @ rest) = csv_read m c fs (csv_end @ rest)"
        "m \<noteq> Quoted" "m = FieldStart \<longrightarrow> c = []"
      using csv_read_field by blast
    moreover have "m = FieldStart \<longrightarrow> fs \<noteq> []" using m(3) Cons.prems(2) True by auto
    ultimately show ?thesis using csv_read_end [of m fs c rest] True by simp
  next
    case False
    obtain m where m: "csv_read FieldStart [] fs (csv_field c @ CHR '','' # join '','' (map csv_field cells) @ csv_end @ rest) =
        csv_read m c fs (CHR '','' # join '','' (map csv_field cells) @ csv_end @ rest)" "m \<noteq> Quoted"
      using csv_read_field by blast
    have "fs @ [c] @ cells \<noteq> [[]]" using False by (cases fs) auto
    then show ?thesis
      using m False csv_read_comma [OF m(2)] Cons.IH [OF False, of "fs @ [c]"] by (simp add: join_Cons)
  qed
qed simp

lemma csv_read_record: "cells \<noteq> [] \<Longrightarrow> csv_read FieldStart [] [] (csv_record cells @ rest) = cells # csv_read FieldStart [] [] rest"
  using csv_read_fields [of cells "[]" rest] csv_read_quoted_field [of "[]" "[]" "csv_end @ rest"] csv_read_end [of QuoteInQuoted "[]" "[]" rest]
  by (auto simp: csv_record_def)

lemma csv_parse_text: "[] \<notin> set records \<Longrightarrow> csv_parse (csv_text records) = records"
  unfolding csv_parse_def by (induction records) (auto simp: csv_text_def csv_read_record)


subsection \<open>The table of a list of rows\<close>

definition no_lists :: "out_row \<Rightarrow> bool" where
  "no_lists r = list_all (\<lambda>(k, v). \<not> is_list v) (row_dict r)"

lemma no_list_fields: "no_lists r \<Longrightarrow> list_fields_of (row_dict r) = []"
  by (auto simp: no_lists_def list_fields_of_def list_all_iff filter_empty_conv)

lemma massage_plain: "fs = None \<and> no_lists r \<or> fs = Some [] \<Longrightarrow> massage_row_dict fs (row_dict r) = Inr (row_dict r, [])"
  using no_list_fields by (auto simp: massage_row_dict_def)

lemma csv_rows_plain:
  "list_all no_lists rows \<Longrightarrow> fs \<in> {None, Some []} \<Longrightarrow>
   \<exists>fs'. csv_rows columns fs rows = Inr (map (csv_cells columns \<circ> row_dict) rows, fs')"
proof (induction rows arbitrary: fs)
  case (Cons r rows)
  moreover obtain fs' where "csv_rows columns (Some []) rows = Inr (map (csv_cells columns \<circ> row_dict) rows, fs')"
    using Cons by (auto simp: o_def)
  ultimately show ?case using massage_plain [of fs r] by auto
qed simp

text \<open>A row that has exactly the columns shows its values.\<close>

lemma csv_cells_row: "dict_wf d \<Longrightarrow> csv_cells (map fst d) d = map (csv_cell \<circ> snd) d"
  by (auto simp: csv_cells_def split: option.split dest: eq_key_imp_eq_value map_of_SomeD)

lemma csv_output:
  assumes "eo_kind out = CSVOutput" and "eo_output out = None" and "eo_list_fields out = None" and "eo_data out \<noteq> []"
    and "list_all no_lists (eo_data out)" and "eo_columns out \<noteq> []"
  shows "\<exists>t out'. get_output out = Inr (t, out') \<and>
    csv_parse t = eo_columns out # map (csv_cells (eo_columns out) \<circ> row_dict) (eo_data out)"
proof -
  obtain fs where "csv_rows (eo_columns out) None (eo_data out) = Inr (map (csv_cells (eo_columns out) \<circ> row_dict) (eo_data out), fs)"
    using csv_rows_plain [OF assms(5), of None "eo_columns out"] by auto
  moreover have "[] \<notin> set (eo_columns out # map (csv_cells (eo_columns out) \<circ> row_dict) (eo_data out))"
    using assms(6) by (auto simp: csv_cells_def)
  ultimately show ?thesis
    using csv_parse_text assms by (simp add: get_output_def rendered_def has_data_def)
qed

subsection \<open>Rows have the columns of the header\<close>

text \<open>A row of data has the columns of the header; a header row, which is for people, the common ones.\<close>

fun has_columns :: "cl_options \<Rightarrow> string list \<Rightarrow> out_row \<Rightarrow> bool" where
  "has_columns options header (DataRow d) = (map fst d = header)"
| "has_columns options header (HeaderRow d) = (is_human options \<and> map fst d = header_base)"

lemma base_columns_keys: "base_columns options meta dpay = Inr b \<Longrightarrow> map fst b = header_base"
  by (auto simp: base_columns_def header_base_def res_simps)

lemma picked_keys: "picked columns v = Inr d \<Longrightarrow> map fst d = map fst columns"
  by (induction columns arbitrary: d) (auto simp: picked_def res_simps)

lemma data_row_columns:
  assumes "data_row options meta dpay extra = Inr r" and "\<And>e. extra = Inr e \<Longrightarrow> map fst e = cs"
  shows "has_columns options (header_base @ cs) r"
  using assms base_columns_keys [of options meta dpay] by (auto simp: data_row_def res_simps)

lemma header_row_columns: "header_row options meta dpay = Inr r \<Longrightarrow> is_human options \<Longrightarrow> has_columns options header r"
  using base_columns_keys [of options meta dpay] by (auto simp: header_row_def res_simps)

lemma stream_row_columns:
  assumes "stream_row options meta dpay n extra = Inr r" and "\<And>e. extra = Inr e \<Longrightarrow> map fst e = cs"
  shows "has_columns options (header_base @ ''stream_num'' # cs) r"
  using assms(1) unfolding stream_row_def by (rule data_row_columns) (auto simp: res_simps assms(2))

lemma same_name_keys [simp]: "map fst (same_name cs) = cs"
  by (simp add: same_name_def o_def)

lemma interval_keys: "map fst interval_fields = [''start'', ''duration'', ''value'']"
  by (simp add: interval_fields_def)

lemma each_item_row: "Inr r \<in> set (each_item row v) \<Longrightarrow> \<exists>x. row x = Inr r"
  by (force simp: each_item_def split: sum.splits)

lemma each_index_row: "Inr r \<in> set (each_index rows v) \<Longrightarrow> \<exists>i x. Inr r \<in> set (rows i x)"
  by (force simp: each_index_def split: sum.splits)

definition keeps_header :: "point_format \<Rightarrow> bool" where
  "keeps_header fmt = (\<forall>options meta dpay r. Inr r \<in> set (pf_rows fmt options meta dpay) \<longrightarrow> has_columns options (pf_header fmt options) r)"

lemma simple_columns: "keeps_header format_numeric" "keeps_header format_failures"
  by (auto simp: keeps_header_def format_numeric_def format_failures_def dest: picked_keys intro!: data_row_columns [OF sym])

lemma histogram_columns: "keeps_header format_histogram"
  unfolding keeps_header_def format_histogram_def histogram_row_def
  by (auto intro!: data_row_columns [OF sym] dest: picked_keys simp: res_simps)

lemma subinterval_columns: "keeps_header format_subintervals"
  unfolding keeps_header_def format_subintervals_def
  by (auto dest!: each_item_row intro!: data_row_columns simp: interval_keys [symmetric] dest: picked_keys)

lemma stream_columns: "keeps_header format_number_list"
  unfolding keeps_header_def format_number_list_def
  by (auto dest!: each_index_row intro!: stream_row_columns [OF sym] simp: res_simps)

lemma stream_intervals_row:
  assumes "Inr r \<in> set (stream_intervals options meta dpay n v)"
  shows "has_columns options (header_base @ ''stream_num'' # map fst interval_fields) r"
proof -
  obtain i w where "stream_row options meta dpay n (rbind w (picked interval_fields)) = Inr r"
    using assms by (auto simp: stream_intervals_def split: sum.splits dest!: each_index_row)
  then show ?thesis by (rule stream_row_columns) (auto simp: res_simps picked_keys)
qed

lemma stream_interval_columns: "keeps_header format_subinterval_list"
  unfolding keeps_header_def format_subinterval_list_def
  by (auto dest!: each_index_row stream_intervals_row simp: interval_keys)

lemma trace_row_columns:
  assumes "trace_row options meta dpay v = Inr r"
  shows "has_columns options (pf_header format_packet_trace options) r"
proof -
  have hop: "map fst d = trace_header" if "picked (same_name trace_header) v = Inr d" for d
    using picked_keys [OF that] by simp
  show ?thesis
    using assms hop data_row_columns [of options meta dpay "picked (same_name trace_header) v" r trace_header]
    by (auto simp: trace_row_def Let_def res_simps format_packet_trace_def split: if_splits)
qed

lemma trace_columns: "keeps_header format_packet_trace"
  unfolding keeps_header_def
proof (intro allI impI)
  fix options meta dpay r
  assume "Inr r \<in> set (pf_rows format_packet_trace options meta dpay)"
  then consider "header_row options meta dpay = Inr r" "is_human options" | v where "trace_row options meta dpay v = Inr r"
    by (auto simp: format_packet_trace_def dest!: each_item_row split: if_splits)
  then show "has_columns options (pf_header format_packet_trace options) r"
    by cases (simp_all add: header_row_columns trace_row_columns)
qed

lemma formats_keep_header: "map_of format_map f = Some fmt \<Longrightarrow> keeps_header fmt"
  by (auto simp: format_map_def simple_columns histogram_columns subinterval_columns stream_columns stream_interval_columns
      trace_columns split: if_splits)


lemma headers_proper: "map_of format_map f = Some fmt \<Longrightarrow> distinct (pf_header fmt options) \<and> pf_header fmt options \<noteq> []"
  by (auto simp: format_map_def format_numeric_def format_failures_def format_packet_trace_def format_histogram_def
      format_subintervals_def format_number_list_def format_subinterval_list_def header_base_def trace_header_def
      statistics_fields_def split: if_splits)

text \<open>The conversion of addresses keeps the columns.\<close>

lemma update_keys: "has_key k d \<Longrightarrow> map fst (AList.update k v d) = map fst d"
  by (induction d) (auto simp: has_key_def)

lemma convert_field_keys:
  assumes "convert_field getfqdn i (d, cs) = Inr (d', cs')"
  shows "map fst d' = map fst d"
proof (cases "py_truthy (get_or_none d i)")
  case True
  then have "has_key i d" by (auto simp: get_or_none_def has_key_map_of split: option.splits)
  then show ?thesis
    using assms True by (cases cs) (auto simp: convert_field_def Let_def update_keys split: json.splits if_splits prod.splits)
next
  case False
  then show ?thesis using assms by (cases cs) (simp add: convert_field_def)
qed

lemma convert_names_keys:
  assumes "convert_names getfqdn ip d cs = Inr (d', cs')"
  shows "map fst d' = map fst d"
proof (cases ip)
  case False
  then have "rfold (convert_field getfqdn) ip_fields (d, cs) = Inr (d', cs')" using assms by (simp add: convert_names_def)
  then have "map fst (fst (d', cs')) = map fst d"
  proof (rule rfold_invariant)
    fix i st st'
    assume "map fst (fst st) = map fst d" and "convert_field getfqdn i st = Inr st'"
    then show "map fst (fst st') = map fst d" using convert_field_keys [of getfqdn i "fst st" "snd st" "fst st'" "snd st'"] by simp
  qed simp
  then show ?thesis by simp
qed (use assms in \<open>simp add: convert_names_def\<close>)

lemma with_dict_columns: "map fst d = map fst (row_dict r) \<Longrightarrow> has_columns options header (with_dict r d) = has_columns options header r"
  by (cases r) auto

lemma appended_columns:
  assumes "rfold (append_row getfqdn ip) rs (data, cs) = Inr (data', cs')" and "list_all (has_columns options header) data"
    and "\<And>r. Inr r \<in> set rs \<Longrightarrow> has_columns options header r"
  shows "list_all (has_columns options header) data'"
proof -
  have "list_all (has_columns options header) (fst (data', cs'))"
    using assms(1)
  proof (rule rfold_invariant)
    fix r st st'
    assume r: "r \<in> set rs" and ok: "list_all (has_columns options header) (fst st)" and step: "append_row getfqdn ip r st = Inr st'"
    obtain row d where "r = Inr row" "map fst d = map fst (row_dict row)" "fst st' = fst st @ [with_dict row d]"
      using step by (cases st) (auto simp: append_row_def res_simps dest: convert_names_keys)
    then show "list_all (has_columns options header) (fst st')"
      using ok assms(3) [of row] r with_dict_columns by auto
  qed (simp add: assms(2))
  then show ?thesis by simp
qed

lemma format_metadata_columns:
  assumes "format_metadata http getfqdn options fmt metas st = Some (Inr (data, cs))" and "keeps_header fmt"
    and "list_all (has_columns options (pf_header fmt options)) (fst st)"
  shows "list_all (has_columns options (pf_header fmt options)) data"
  using assms(1,3)
proof (induction metas arbitrary: st)
  case (Cons meta metas)
  obtain ps st' where ps: "metadata_points http options fmt meta = Some (Inr ps)"
      and st': "rfold (append_row getfqdn (op_ip options)) (concat (map (pf_rows fmt options meta) ps)) st = Inr st'"
      and rest: "format_metadata http getfqdn options fmt metas st' = Some (Inr (data, cs))"
    using Cons.prems(1) by (auto split: option.splits sum.splits)
  have "has_columns options (pf_header fmt options) r" if "Inr r \<in> set (concat (map (pf_rows fmt options meta) ps))" for r
    using that assms(2) by (auto simp: keeps_header_def)
  then have "list_all (has_columns options (pf_header fmt options)) (fst st')"
    using appended_columns [of getfqdn "op_ip options" "concat (map (pf_rows fmt options meta) ps)" "fst st" "snd st" "fst st'" "snd st'"
        options "pf_header fmt options"] st' Cons.prems(2) by (simp only: prod.collapse)
  then show ?case by (rule Cons.IH [OF rest])
qed simp

text \<open>What \<open>data_format\<close> computes, when it returns rows.\<close>

lemma data_format_elim:
  assumes "data_format http getfqdn options False conn s = Some (Inr (header, data))"
  obtains f fmt metas cs where "map_of format_map f = Some fmt" and "header = pf_header fmt options"
    and "event_format (op_type options) = Inr f" and "conn = Some (Inr metas)"
    and "format_metadata http getfqdn options fmt metas ([], [], s) = Some (Inr (data, cs))"
  using assms by (auto simp: data_format_def res_simps split: sum.splits option.splits)

lemma data_format_columns:
  assumes "data_format http getfqdn options False conn s = Some (Inr (header, data))"
  shows "distinct header \<and> header \<noteq> [] \<and> list_all (has_columns options header) data"
  using assms
proof (rule data_format_elim)
  fix f fmt metas cs
  assume f: "map_of format_map f = Some fmt" "header = pf_header fmt options"
    and run: "format_metadata http getfqdn options fmt metas ([], [], s) = Some (Inr (data, cs))"
  then show ?thesis
    using format_metadata_columns [OF run formats_keep_header [OF f(1)]] headers_proper [OF f(1)] by simp
qed

text \<open>
  Rows have the columns of their header: for every event type, whatever the records and the
  points are, each row of data a client computes has exactly the columns of the header it prints,
  in their order. Only the extra rows of the text for people have the common columns instead.
\<close>

theorem rows_have_columns:
  assumes "data_format http getfqdn options False conn s = Some (Inr (header, data))"
  shows "distinct header \<and> list_all (has_columns options header) data"
  using data_format_columns [OF assms] by simp

text \<open>A connection with one metadata record, whose series has two points.\<close>

definition shown_meta :: node_info where
  "shown_meta = new_node (JObj [(''source'', JStr ''10.0.0.1''), (''destination'', JStr ''10.0.0.2''), (''tool-name'', JStr ''ping''),
     (''event-types'', JList [JObj [(''event-type'', JStr ''path-mtu''), (''base-uri'', JStr ''/base'')]])]) ''http://host'' new_filters"

definition shown_http :: http_get where
  "shown_http u p h = Inr (\<lparr>rp_status = 200, rp_headers = [(''content-type'', ''application/json'')], rp_json = Some (JList [JObj [(''ts'', JInt 0), (''val'', JInt 1500)], JObj [(''ts'', JInt 60), (''val'', JStr ''a,b'')]])\<rparr>)"

definition csv_options :: cl_options where
  "csv_options = \<lparr>op_url = Some ''http://host'', op_src = Some ''10.0.0.1'', op_dest = Some ''10.0.0.2'', op_agent = None,
     op_type = Some ''path-mtu'', op_tool = None, op_start = None, op_end = None, op_filter = [], op_list_event = False,
     op_metadata = False, op_summary_type = None, op_summary_window = 0, op_format = ''csv'', op_output_dir = [], op_ip = True\<rparr>"

lemma shown_dates: "convert_to_datetime (JInt 0) = Inr (dt_of_secs 0)" "convert_to_datetime (JInt 60) = Inr (dt_of_secs 60)"
  "str_datetime (dt_of_secs 0) = ''1970-01-01 00:00:00''" "str_datetime (dt_of_secs 60) = ''1970-01-01 00:01:00''"
  by code_simp+

definition shown_rows :: "out_row list" where
  "shown_rows = map (\<lambda>(t, v). DataRow [(''source'', JStr ''10.0.0.1''), (''destination'', JStr ''10.0.0.2''),
     (''event_type'', JStr ''path-mtu''), (''tool'', JStr ''ping''), (''summary_type'', JStr ''base''), (''summary_window'', JInt 0),
     (''timestamp'', JStr t), (''value'', v)])
     [(''1970-01-01 00:00:00'', JInt 1500), (''1970-01-01 00:01:00'', JStr ''a,b'')]"

lemma shown_event_type: "get_event_type ''path-mtu'' shown_meta =
    Inr (Some (new_node (JObj [(''event-type'', JStr ''path-mtu''), (''base-uri'', JStr ''/base'')]) ''http://host'' new_filters))"
  by (simp add: get_event_type_def shown_meta_def new_node_def node_items_def json_get_def rstrip_slash_def lstrip_slash_def)

lemma shown_points: "metadata_points shown_http csv_options format_numeric shown_meta =
    Some (Inr [\<lparr>dp_ts = dt_of_secs 0, dp_val = JInt 1500\<rparr>, \<lparr>dp_ts = dt_of_secs 60, dp_val = JStr ''a,b''\<rparr>])"
  by (simp add: metadata_points_def shown_event_type csv_options_def get_payload_def given_def event_type_data_def uri_of_def
      json_get_def new_node_def data_type_of_def get_data_def query_with_limit_def query_loop.simps query_turn_def shown_http_def
      is_json_reply_def page_items_def reply_json_def LIMIT_def payload_points_def new_point_def shown_dates)

lemma shown_data_format: "data_format shown_http getfqdn csv_options False (Some (Inr [shown_meta])) () =
    Some (Inr (header_base @ [''value''], shown_rows))"
proof -
  have "event_format (op_type csv_options) = Inr ''numeric''" by (simp add: event_format_def csv_options_def EVENT_MAP_def)
  moreover have "map_of format_map ''numeric'' = Some format_numeric" by (simp add: format_map_def)
  moreover have "metadata_property ''source'' shown_meta = Inr (JStr ''10.0.0.1'')"
      "metadata_property ''destination'' shown_meta = Inr (JStr ''10.0.0.2'')" "metadata_property ''tool_name'' shown_meta = Inr (JStr ''ping'')"
    by (simp_all add: metadata_property_def METADATA_PROPERTIES_def shown_meta_def new_node_def json_get_def)
  ultimately show ?thesis
    by (simp add: data_format_def shown_points) (simp add: format_numeric_def data_row_def base_columns_def shown_dates(3,4) [simplified] append_row_def
        convert_names_def csv_options_def json_opt_def summary_type_shown_def given_def shown_rows_def)
qed

theorem rows_have_columns_witness: "distinct (header_base @ [''value'']) \<and> list_all (has_columns csv_options (header_base @ [''value''])) shown_rows"
  by (rule rows_have_columns [OF shown_data_format])

text \<open>
  C36. The CSV of the measurements is their table: what a client prints with CSV as its format,
  read by the rules of RFC 4180, is the header and then, for every row of data in order, the
  text of its values in order, also when values contain commas, quotes or line ends. Values that
  are lists are excluded; the code joins them before it writes them.
\<close>

theorem csv_shows_measurements:
  assumes "data_format http getfqdn options False conn s = Some (Inr (header, data))"
    and "op_format options = ''csv''" and "data \<noteq> []" and "list_all no_lists data"
  shows "\<exists>out t out'. output_factory options data header = Some out \<and> get_output out = Inr (t, out') \<and>
    csv_parse t = header # map (\<lambda>r. map (csv_cell \<circ> snd) (row_dict r)) data"
proof -
  have cols: "distinct header" "header \<noteq> []" "list_all (has_columns options header) data"
    using data_format_columns [OF assms(1)] by simp_all
  have row: "csv_cells header (row_dict r) = map (csv_cell \<circ> snd) (row_dict r)" if "r \<in> set data" for r
  proof -
    have "has_columns options header r" using cols(3) that by (simp add: list_all_iff)
    then have "map fst (row_dict r) = header" using assms(2) by (cases r) (simp_all add: is_human_def)
    then show ?thesis using csv_cells_row [of "row_dict r"] cols(1) by simp
  qed
  show ?thesis
    using csv_output [of "new_output CSVOutput data header"] assms(2-4) cols(2) row
    by (simp add: output_factory_def new_output_def cong: map_cong)
qed

theorem csv_shows_measurements_witness:
  "\<exists>out t out'. output_factory csv_options shown_rows (header_base @ [''value'']) = Some out \<and> get_output out = Inr (t, out') \<and>
    csv_parse t = [header_base @ [''value''],
      [''10.0.0.1'', ''10.0.0.2'', ''path-mtu'', ''ping'', ''base'', ''0'', ''1970-01-01 00:00:00'', ''1500''],
      [''10.0.0.1'', ''10.0.0.2'', ''path-mtu'', ''ping'', ''base'', ''0'', ''1970-01-01 00:01:00'', ''a,b'']]"
proof -
  have "op_format csv_options = ''csv''" "shown_rows \<noteq> []" "list_all no_lists shown_rows"
    by (simp_all add: csv_options_def shown_rows_def no_lists_def is_list_def)
  from csv_shows_measurements [OF shown_data_format this] show ?thesis
    by (simp add: shown_rows_def csv_cell_def show_int_def show_nat.simps digit_chars)
qed

subsection \<open>Names for addresses\<close>

fun name_of :: "(string \<Rightarrow> string) \<Rightarrow> json \<Rightarrow> json" where
  "name_of name (JStr a) = JStr (if a = [] then [] else name a)"
| "name_of name v = v"

definition renamed :: "(string \<Rightarrow> string) \<Rightarrow> string list \<Rightarrow> json dict \<Rightarrow> json dict" where
  "renamed name fs d = map (\<lambda>(k, v). (k, if k \<in> set fs then name_of name v else v)) d"

definition renamed_row :: "(string \<Rightarrow> string) \<Rightarrow> out_row \<Rightarrow> out_row" where
  "renamed_row name r = with_dict r (renamed name ip_fields (row_dict r))"

text \<open>The fields for addresses hold strings or nothing.\<close>

definition address_row :: "out_row \<Rightarrow> bool" where
  "address_row r = (dict_wf (row_dict r) \<and>
     list_all (\<lambda>(k, v). k \<in> set ip_fields \<longrightarrow> (v = JNull \<or> (\<exists>a. v = JStr a))) (row_dict r))"

definition right_names :: "(string \<Rightarrow> string) \<Rightarrow> string dict \<Rightarrow> bool" where
  "right_names name cache = (\<forall>a n. map_of cache a = Some n \<longrightarrow> n = name a)"

lemma update_as_map: "dict_wf d \<Longrightarrow> has_key k d \<Longrightarrow> AList.update k w d = map (\<lambda>(k', v). (k', if k' = k then w else v)) d"
proof (induction d)
  case (Cons kv d)
  obtain k' v where kv: "kv = (k', v)" by (cases kv)
  show ?case
  proof (cases "k' = k")
    case True
    then have "map (\<lambda>(k', v). (k', if k' = k then w else v)) d = d"
      using Cons.prems(1) by (intro map_idI) (force simp: kv)
    then show ?thesis using True by (simp add: kv)
  qed (use Cons in \<open>auto simp: kv has_key_def\<close>)
qed (simp add: has_key_def)

lemma convert_field_renames:
  assumes "\<And>a s. fst (getfqdn a s) = name a" and "\<And>a. name a \<noteq> []" and "right_names name cache" and "dict_wf d"
    and "get_or_none d i = JNull \<or> (\<exists>a. get_or_none d i = JStr a)"
  shows "\<exists>cache' s'. convert_field getfqdn i (d, cache, s) = Inr (renamed name [i] d, cache', s') \<and> right_names name cache'"
proof -
  consider "get_or_none d i = JNull \<or> get_or_none d i = JStr []" | a where "get_or_none d i = JStr a" "a \<noteq> []"
    using assms(5) by auto
  then show ?thesis
  proof cases
    case 1
    have "renamed name [i] d = d" unfolding renamed_def
    proof (rule map_idI)
      fix kv assume "kv \<in> set d"
      then have "map_of d (fst kv) = Some (snd kv)" using assms(4) by (simp add: map_of_eq_Some_iff)
      then show "(case kv of (k, v) \<Rightarrow> (k, if k \<in> set [i] then name_of name v else v)) = kv"
        using 1 by (cases kv) (auto simp: get_or_none_def)
    qed
    then show ?thesis using 1 assms(3) by (auto simp: convert_field_def)
  next
    case 2
    have key: "has_key i d" "map_of d i = Some (JStr a)" using 2 by (auto simp: get_or_none_def has_key_map_of split: option.splits)
    have "v = JStr a" if "(i, v) \<in> set d" for v using key(2) that assms(4) by (auto simp: map_of_eq_Some_iff)
    then have upd: "AList.update i (JStr (name a)) d = renamed name [i] d"
      unfolding update_as_map [OF assms(4) key(1)] renamed_def using 2(2) by (force intro!: map_cong)
    have "right_names name (AList.update a (name a) cache)" using assms(3) by (auto simp: right_names_def)
    moreover have "n = name a" if "map_of cache a = Some n" for n using that assms(3) by (auto simp: right_names_def)
    ultimately show ?thesis
      using 2 assms(1) [of a s] assms(2) [of a] upd assms(3)
      by (cases "getfqdn a s"; cases "map_of cache a") (auto simp: convert_field_def Let_def)
  qed
qed

lemma renamed_twice: "i \<notin> set fs \<Longrightarrow> renamed name fs (renamed name [i] d) = renamed name (i # fs) d"
  by (auto simp: renamed_def o_def intro!: map_cong)

lemma renamed_get: "i \<notin> set fs \<Longrightarrow> get_or_none (renamed name fs d) i = get_or_none d i"
  by (induction d) (auto simp: renamed_def get_or_none_def)

lemma renamed_keys [simp]: "map fst (renamed name fs d) = map fst d"
  by (induction d) (auto simp: renamed_def)

lemma convert_fields_rename:
  assumes "\<And>a s. fst (getfqdn a s) = name a" and "\<And>a. name a \<noteq> []"
    and "right_names name cache" and "dict_wf d" and "distinct fs"
    and "\<And>i. i \<in> set fs \<Longrightarrow> get_or_none d i = JNull \<or> (\<exists>a. get_or_none d i = JStr a)"
  shows "\<exists>cache' s'. rfold (convert_field getfqdn) fs (d, cache, s) = Inr (renamed name fs d, cache', s') \<and> right_names name cache'"
  using assms(3-6)
proof (induction fs arbitrary: d cache s)
  case Nil
  then show ?case by (auto simp: renamed_def intro!: map_idI)
next
  case (Cons i fs)
  obtain cache1 s1 where one: "convert_field getfqdn i (d, cache, s) = Inr (renamed name [i] d, cache1, s1)" "right_names name cache1"
    using convert_field_renames [OF assms(1,2) Cons.prems(1,2), of i] Cons.prems(4) by (meson list.set_intros(1))
  have "\<exists>cache' s'. rfold (convert_field getfqdn) fs (renamed name [i] d, cache1, s1) =
      Inr (renamed name fs (renamed name [i] d), cache', s') \<and> right_names name cache'"
  proof (rule Cons.IH [OF one(2)])
    fix j assume j: "j \<in> set fs"
    then have "j \<notin> set [i]" using Cons.prems(3) by auto
    then show "get_or_none (renamed name [i] d) j = JNull \<or> (\<exists>a. get_or_none (renamed name [i] d) j = JStr a)"
      using Cons.prems(4) [of j] j renamed_get [of j "[i]" name d] by auto
  qed (use Cons.prems in simp_all)
  moreover have "renamed name fs (renamed name [i] d) = renamed name (i # fs) d" using Cons.prems(3) by (intro renamed_twice) simp
  ultimately show ?case using one by auto
qed

lemma address_fields: "address_row r \<Longrightarrow> i \<in> set ip_fields \<Longrightarrow>
    get_or_none (row_dict r) i = JNull \<or> (\<exists>a. get_or_none (row_dict r) i = JStr a)"
  by (auto simp: address_row_def get_or_none_def list_all_iff split: option.split dest!: map_of_SomeD)

text \<open>Rows that are appended as they are, and with their names.\<close>

lemma append_row_plain: "append_row getfqdn True r (data, cs) = rbind r (\<lambda>row. Inr (data @ [row], cs))"
proof -
  have "with_dict row (row_dict row) = row" for row by (cases row) auto
  then show ?thesis by (simp add: append_row_def convert_names_def)
qed

lemma append_rows_plain:
  "rfold (append_row getfqdn True) rs (data, cs) = rbind (rmap (\<lambda>r. r) rs) (\<lambda>rows. Inr (data @ rows, cs))"
proof (induction rs arbitrary: data)
  case (Cons r rs)
  then show ?case by (cases r) (simp_all add: append_row_plain rbind_assoc)
qed simp

lemma append_rows_named:
  assumes "\<And>a s. fst (getfqdn a s) = name a" and "\<And>a. name a \<noteq> []"
    and "right_names name cache" and "rmap (\<lambda>r. r) rs = Inr rows" and "list_all address_row rows"
  shows "\<exists>cache' s'. rfold (append_row getfqdn False) rs (data, cache, s) = Inr (data @ map (renamed_row name) rows, cache', s') \<and>
    right_names name cache'"
  using assms(3-5)
proof (induction rs arbitrary: rows data cache s)
  case (Cons r rs)
  obtain row rest where r: "r = Inr row" "rows = row # rest" "rmap (\<lambda>r. r) rs = Inr rest" "address_row row" "list_all address_row rest"
    using Cons.prems(2,3) by (auto simp: res_simps)
  have "dict_wf (row_dict row)" "distinct ip_fields" using r(4) by (simp_all add: address_row_def ip_fields_def)
  then obtain cache1 s1 where one: "rfold (convert_field getfqdn) ip_fields (row_dict row, cache, s) =
      Inr (renamed name ip_fields (row_dict row), cache1, s1)" "right_names name cache1"
    using convert_fields_rename [where getfqdn = getfqdn and fs = ip_fields and s = s, OF assms(1,2) Cons.prems(1)] address_fields [OF r(4)] by blast
  then have "append_row getfqdn False r (data, cache, s) = Inr (data @ [renamed_row name row], cache1, s1)"
    by (simp add: append_row_def convert_names_def r(1) renamed_row_def)
  then show ?case
    using Cons.IH [where data = "data @ [renamed_row name row]" and s = s1, OF one(2) r(3,5)] r(2) by auto
qed simp

text \<open>Nothing but the conversion looks at the option.\<close>

lemma points_ignore_ip: "metadata_points http (options\<lparr>op_ip := b\<rparr>) fmt meta = metadata_points http options fmt meta"
proof -
  have "get_payload http (options\<lparr>op_ip := b\<rparr>) fmt = get_payload http options fmt"
    by (rule ext) (simp add: get_payload_def split: option.split)
  then show ?thesis by (simp add: metadata_points_def split: sum.split)
qed

lemma rows_ignore_ip:
  assumes "map_of format_map f = Some fmt"
  shows "pf_rows fmt (options\<lparr>op_ip := b\<rparr>) = pf_rows fmt options" "pf_header fmt (options\<lparr>op_ip := b\<rparr>) = pf_header fmt options"
proof -
  have base: "base_columns (options\<lparr>op_ip := b\<rparr>) = base_columns options"
    by (simp add: base_columns_def summary_type_shown_def fun_eq_iff)
  have "data_row (options\<lparr>op_ip := b\<rparr>) = data_row options" "header_row (options\<lparr>op_ip := b\<rparr>) = header_row options"
      "stream_row (options\<lparr>op_ip := b\<rparr>) = stream_row options"
    by (simp_all add: data_row_def header_row_def stream_row_def base fun_eq_iff)
  note eqs = this is_human_def is_statistics_def
  have more: "trace_row (options\<lparr>op_ip := b\<rparr>) = trace_row options" "stream_intervals (options\<lparr>op_ip := b\<rparr>) = stream_intervals options"
      "histogram_row (options\<lparr>op_ip := b\<rparr>) = histogram_row options"
    unfolding trace_row_def stream_intervals_def histogram_row_def eqs by simp_all
  show "pf_rows fmt (options\<lparr>op_ip := b\<rparr>) = pf_rows fmt options" "pf_header fmt (options\<lparr>op_ip := b\<rparr>) = pf_header fmt options"
    using assms
    by (auto simp: format_map_def format_numeric_def format_failures_def format_packet_trace_def format_histogram_def
        format_subintervals_def format_number_list_def format_subinterval_list_def eqs more split: if_splits intro!: ext)
qed

lemma rmap_parts: "rmap (\<lambda>r. r) rs = Inr rows \<Longrightarrow> rs = map Inr rows"
  by (induction rs arbitrary: rows) (auto simp: res_simps)

lemma format_metadata_named:
  assumes "\<And>a s. fst (getfqdn a s) = name a" and "\<And>a. name a \<noteq> []" and "map_of format_map f = Some fmt"
    and "format_metadata http getfqdn (options\<lparr>op_ip := True\<rparr>) fmt metas (data0, cs) = Some (Inr (data, cs'))"
    and "list_all address_row data" and "right_names name cache"
  shows "\<exists>cs''. format_metadata http getfqdn (options\<lparr>op_ip := False\<rparr>) fmt metas (map (renamed_row name) data0, cache, s) =
    Some (Inr (map (renamed_row name) data, cs'')) \<and> (\<exists>rows. data = data0 @ rows)"
  using assms(4-6)
proof (induction metas arbitrary: data0 cs cache s)
  case (Cons meta metas)
  let ?rs = "\<lambda>ps. concat (map (pf_rows fmt options meta) ps)"
  note same = points_ignore_ip rows_ignore_ip [OF assms(3)]
  obtain ps where ps: "metadata_points http options fmt meta = Some (Inr ps)"
    using Cons.prems(1) by (auto simp: same split: option.splits sum.splits)
  then obtain rows where rows: "rmap (\<lambda>r. r) (?rs ps) = Inr rows"
      and rest: "format_metadata http getfqdn (options\<lparr>op_ip := True\<rparr>) fmt metas (data0 @ rows, cs) = Some (Inr (data, cs'))"
    using Cons.prems(1) by (auto simp: same append_rows_plain res_simps split: sum.splits)
  obtain rows' where data: "data = data0 @ rows @ rows'"
    using Cons.IH [OF rest Cons.prems(2,3)] by auto
  then have "list_all address_row rows" using Cons.prems(2) by simp
  then obtain cache1 s1 where one: "rfold (append_row getfqdn False) (?rs ps) (map (renamed_row name) data0, cache, s) =
      Inr (map (renamed_row name) (data0 @ rows), cache1, s1)" "right_names name cache1"
    using append_rows_named [where getfqdn = getfqdn and data = "map (renamed_row name) data0" and s = s, OF assms(1,2) Cons.prems(3) rows]
    by auto
  show ?case
    using Cons.IH [where s = s1, OF rest Cons.prems(2) one(2)] ps one(1) data by (auto simp: same)
qed simp

text \<open>
  Names in place of addresses: if the resolver gives an address the same name whenever it is
  asked, what a client shows with names is what it shows with addresses, with the name in the
  place of every address of the fields for hosts. The cache of names changes none of this.
\<close>

theorem names_replace_addresses:
  assumes "\<And>a s. fst (getfqdn a s) = name a" and "\<And>a. name a \<noteq> []"
    and "data_format http getfqdn (options\<lparr>op_ip := True\<rparr>) False conn s = Some (Inr (header, data))"
    and "list_all address_row data"
  shows "data_format http getfqdn (options\<lparr>op_ip := False\<rparr>) False conn s = Some (Inr (header, map (renamed_row name) data))"
  using assms(3)
proof (rule data_format_elim)
  fix f fmt metas cs
  assume f: "map_of format_map f = Some fmt" "header = pf_header fmt (options\<lparr>op_ip := True\<rparr>)"
      "event_format (op_type (options\<lparr>op_ip := True\<rparr>)) = Inr f" "conn = Some (Inr metas)"
    and run: "format_metadata http getfqdn (options\<lparr>op_ip := True\<rparr>) fmt metas ([], [], s) = Some (Inr (data, cs))"
  have "right_names name []" by (simp add: right_names_def)
  from format_metadata_named [OF assms(1,2) f(1) run assms(4) this, of s]
  show ?thesis using f by (auto simp: data_format_def rows_ignore_ip [OF f(1)])
qed

theorem names_replace_addresses_witness:
  "data_format shown_http (\<lambda>a s. (''host-'' @ a, s)) (csv_options\<lparr>op_ip := False\<rparr>) False (Some (Inr [shown_meta])) () =
    Some (Inr (header_base @ [''value''], map (renamed_row (\<lambda>a. ''host-'' @ a)) shown_rows))"
proof (rule names_replace_addresses)
  have "csv_options\<lparr>op_ip := True\<rparr> = csv_options" by (simp add: csv_options_def)
  then show "data_format shown_http (\<lambda>a s. (''host-'' @ a, s)) (csv_options\<lparr>op_ip := True\<rparr>) False (Some (Inr [shown_meta])) () =
      Some (Inr (header_base @ [''value''], shown_rows))"
    using shown_data_format by simp
  show "list_all address_row shown_rows" by (simp add: shown_rows_def address_row_def ip_fields_def)
qed simp_all

subsection \<open>Filters of the command line\<close>

lemma no_dashed_attribute:
  "list_all (\<lambda>k. CHR ''-'' \<notin> set k) (map fst METADATA_FILTERS @ map fst TIME_FILTERS @ [''auth_username'', ''auth_apikey''] @
     SET_ATTRIBUTES @ READ_ATTRIBUTES @ PRIVATE_ATTRIBUTES)"
  by code_simp

text \<open>
  A filter of the command line whose key is written with a dash is ignored: the object is asked
  for an attribute of the key as it was given, and no attribute has a dash.
\<close>

theorem dashed_filters_ignored:
  assumes "CHR ''-'' \<in> set k" "CHR '':'' \<notin> set k" "CHR '':'' \<notin> set v" "\<not> prefix ''__'' k"
  shows "apply_filter (k @ '':'' @ v) f = Inr f"
proof -
  have "split_char (CHR '':'') (k @ '':'' @ v) = [k, v]"
    using assms(2,3) by (simp add: split_char_append)
  moreover have "\<not> has_filter k"
    using no_dashed_attribute assms(1,4) unfolding has_filter_def list_all_iff by blast
  ultimately show ?thesis
    by (simp add: apply_filter_def)
qed

lemma dashed_filters_ignored_witness:
  "apply_filter ''input-source:host1'' new_filters = Inr new_filters \<and>
   apply_filter ''input_source:host1'' new_filters \<noteq> Inr new_filters"
proof
  show "apply_filter ''input-source:host1'' new_filters = Inr new_filters"
    using dashed_filters_ignored [of "''input-source''" "''host1''" new_filters] by simp
  show "apply_filter ''input_source:host1'' new_filters \<noteq> Inr new_filters"
    by code_simp
qed

end
