(* ===== verification/Configuration.thy ===== *)
theory Configuration
  imports Py_Text
begin

section \<open>The configuration file\<close>

text \<open>
  \<open>esmond/config.py\<close>: reading the options of \<open>esmond.conf\<close>, converting them to their types, and the
  validation that is not called. A configuration is the dictionary of its attributes, as JSON
  values. The parsed file is the list of its sections, each with its raw options under their
  lower case names, as \<open>configparser\<close> holds them; what the code uses of that module, the
  interpolation of values, the defaults and \<open>getboolean\<close>, is modelled. The environment and the
  file system are arguments.
\<close>

subsection \<open>configparser\<close>

record ini_file =
  ini_defaults :: "string dict"
  ini_sections :: "string dict dict"

text \<open>
  \<open>BasicInterpolation\<close>: \<open>%%\<close> is a percent sign and \<open>%(name)s\<close> the value of an option, itself
  interpolated down to a depth of ten.
\<close>

definition reference :: "string \<Rightarrow> (string \<times> string) option" where
  "reference s =
     (let name = takeWhile (\<lambda>c. c \<noteq> CHR '')'') s; rest = dropWhile (\<lambda>c. c \<noteq> CHR '')'') s in
      if name \<noteq> [] \<and> prefix '')s'' rest then Some (lower name, drop 2 rest) else None)"

lemma reference_shorter: "reference s = Some (name, rest) \<Longrightarrow> length rest < length s"
proof -
  assume "reference s = Some (name, rest)"
  then have "rest = drop 2 (dropWhile (\<lambda>c. c \<noteq> CHR '')'') s)" "prefix '')s'' (dropWhile (\<lambda>c. c \<noteq> CHR '')'') s)"
    by (auto simp: reference_def Let_def split: if_splits)
  then show ?thesis
    using length_dropWhile_le [of "\<lambda>c. c \<noteq> CHR '')''" s] by (auto simp: prefix_def)
qed

function interpolate :: "nat \<Rightarrow> string dict \<Rightarrow> string \<Rightarrow> string res" where
  "interpolate depth options s = (case s of
     [] \<Rightarrow> Inr []
   | c # rest \<Rightarrow>
       if c \<noteq> CHR ''%'' then rbind (interpolate depth options rest) (\<lambda>t. Inr (c # t))
       else (case rest of
          [] \<Rightarrow> Inl (ConfigParserError ''InterpolationSyntaxError'')
        | d # after_d \<Rightarrow>
            if d = CHR ''%'' then rbind (interpolate depth options after_d) (\<lambda>t. Inr (d # t))
            else if d \<noteq> CHR ''('' then Inl (ConfigParserError ''InterpolationSyntaxError'')
            else (case reference after_d of
               None \<Rightarrow> Inl (ConfigParserError ''InterpolationSyntaxError'')
             | Some (name, after) \<Rightarrow> (case map_of options name of
                 None \<Rightarrow> Inl (ConfigParserError ''InterpolationMissingOptionError'')
               | Some v \<Rightarrow>
                   rbind (if CHR ''%'' \<notin> set v then Inr v
                          else (case depth of
                             0 \<Rightarrow> Inl (ConfigParserError ''InterpolationDepthError'')
                           | Suc n \<Rightarrow> interpolate n options v)) (\<lambda>t1.
                   rbind (interpolate depth options after) (\<lambda>t2. Inr (t1 @ t2)))))))"
  by pat_completeness auto
termination
  by (relation "measures [\<lambda>(depth, options, s). depth, \<lambda>(depth, options, s). length s]")
    (auto dest: reference_shorter)

declare interpolate.simps [simp del]

definition interpolated :: "string dict \<Rightarrow> string \<Rightarrow> string res" where
  "interpolated options s = interpolate 9 options s"

text \<open>The options of a section: the defaults, and over them its own.\<close>

definition section_options :: "ini_file \<Rightarrow> string \<Rightarrow> string dict res" where
  "section_options cfg name = (case map_of (ini_sections cfg) name of
     None \<Rightarrow> Inl (ConfigParserError ''NoSectionError'')
   | Some os \<Rightarrow> Inr (fold (\<lambda>(k, v). AList.update k v) os (ini_defaults cfg)))"

definition cfg_items :: "ini_file \<Rightarrow> string \<Rightarrow> string dict res" where
  "cfg_items cfg name = rbind (section_options cfg name) (\<lambda>os.
     rmap (\<lambda>(k, v). rbind (interpolated os v) (\<lambda>w. Inr (k, w))) os)"

definition cfg_get :: "ini_file \<Rightarrow> string \<Rightarrow> string \<Rightarrow> string res" where
  "cfg_get cfg name opt = rbind (section_options cfg name) (\<lambda>os. case map_of os opt of
     None \<Rightarrow> Inl (ConfigParserError ''NoOptionError'') | Some v \<Rightarrow> interpolated os v)"

definition cfg_getboolean :: "ini_file \<Rightarrow> string \<Rightarrow> string \<Rightarrow> bool res" where
  "cfg_getboolean cfg name opt = rbind (cfg_get cfg name opt) (\<lambda>v.
     if lower v \<in> {''1'', ''yes'', ''true'', ''on''} then Inr True
     else if lower v \<in> {''0'', ''no'', ''false'', ''off''} then Inr False
     else Inl ValueError)"

subsection \<open>Attributes\<close>

definition config_defaults :: "json dict" where
  "config_defaults = [
     (''agg_tsdb_root'', JNull),
     (''allowed_hosts'', JList []),
     (''api_anon_limit'', JNull),
     (''api_throttle_at'', JNull),
     (''api_throttle_timeframe'', JNull),
     (''api_throttle_expiration'', JNull),
     (''cassandra_keyspace'', JStr ''esmond''),
     (''cassandra_pass'', JNull),
     (''cassandra_servers'', JList []),
     (''cassandra_user'', JNull),
     (''cassandra_replicas'', JInt 1),
     (''db_clear_on_testing'', JBool False),
     (''db_profile_on_testing'', JNull),
     (''debug'', JBool False),
     (''error_email_from'', JNull),
     (''error_email_subject'', JNull),
     (''error_email_to'', JNull),
     (''esdb_uri'', JNull),
     (''espersistd_uri'', JNull),
     (''espoll_persist_uri'', JNull),
     (''htpasswd_file'', JNull),
     (''mib_dirs'', JList []),
     (''mibs'', JList []),
     (''pid_dir'', JNull),
     (''poll_retries'', JInt 5),
     (''poll_timeout'', JInt 2),
     (''profile_persister'', JBool False),
     (''reload_interval'', JInt 10),
     (''rrd_path'', JNull),
     (''send_error_email'', JBool False),
     (''sql_db_engine'', JStr []),
     (''sql_db_host'', JStr []),
     (''sql_db_name'', JStr []),
     (''sql_db_password'', JStr []),
     (''sql_db_port'', JStr []),
     (''sql_db_user'', JStr []),
     (''streaming_log_dir'', JNull),
     (''syslog_facility'', JNull),
     (''syslog_priority'', JNull),
     (''traceback_dir'', JNull),
     (''tsdb_chunk_prefixes'', JNull),
     (''tsdb_root'', JNull)]"

definition CONFIG_OPTIONS :: "string list" where
  "CONFIG_OPTIONS = [''agg_tsdb_root'', ''allowed_hosts'', ''api_anon_limit'', ''api_throttle_at'', ''api_throttle_timeframe'',
     ''api_throttle_expiration'', ''cassandra_pass'', ''cassandra_servers'', ''cassandra_user'', ''db_profile_on_testing'',
     ''db_uri'', ''debug'', ''error_email_from'', ''error_email_subject'', ''error_email_to'', ''esdb_uri'', ''espersistd_uri'',
     ''espoll_persist_uri'', ''htpasswd_file'', ''mib_dirs'', ''mibs'', ''pid_dir'', ''poll_retries'', ''poll_timeout'',
     ''profile_persister'', ''reload_interval'', ''rrd_path'', ''sql_db_engine'', ''sql_db_host'', ''sql_db_name'',
     ''sql_db_password'', ''sql_db_port'', ''sql_db_user'', ''streaming_log_dir'', ''syslog_facility'', ''syslog_priority'',
     ''traceback_dir'', ''tsdb_chunk_prefixes'', ''tsdb_root'']"

definition BOOLEAN_OPTIONS :: "string list" where
  "BOOLEAN_OPTIONS = [''db_profile_on_testing'', ''profile_persister'', ''debug'']"

definition set_attr :: "string \<Rightarrow> json \<Rightarrow> json dict \<Rightarrow> json dict" where
  "set_attr k v conf = AList.update k v conf"

definition attr :: "json dict \<Rightarrow> string \<Rightarrow> json" where
  "attr conf k = (case map_of conf k of None \<Rightarrow> JNull | Some v \<Rightarrow> v)"

subsection \<open>\<open>read_config\<close>\<close>

definition read_options :: "ini_file \<Rightarrow> json dict \<Rightarrow> json dict res" where
  "read_options cfg conf =
     rbind (cfg_items cfg ''main'') (\<lambda>items. rfold (\<lambda>opt conf.
       if has_key opt items then rbind (cfg_get cfg ''main'' opt) (\<lambda>v. Inr (set_attr opt (JStr v) conf)) else Inr conf)
     CONFIG_OPTIONS conf)"

definition read_booleans :: "ini_file \<Rightarrow> json dict \<Rightarrow> json dict res" where
  "read_booleans cfg conf =
     rbind (cfg_items cfg ''main'') (\<lambda>items. rfold (\<lambda>(key, val) conf.
       if key \<in> set BOOLEAN_OPTIONS
       then rbind (cfg_getboolean cfg ''main'' key) (\<lambda>b. Inr (set_attr key (JBool b) conf)) else Inr conf)
     items conf)"

text \<open>\<open>s.replace(' ', '').split(',')\<close>.\<close>

definition split_unspaced :: "string \<Rightarrow> json" where
  "split_unspaced s = JList (map JStr (split_char (CHR '','') (replace_char (CHR '' '') [] s)))"

definition own_items :: "ini_file \<Rightarrow> string \<Rightarrow> string dict res" where
  "own_items cfg name = rbind (cfg_items cfg name) (\<lambda>items. Inr (filter (\<lambda>(k, v). k \<noteq> ''esmond_root'') items))"

text \<open>\<open>val.split(':', 1)\<close>, the second part an integer.\<close>

definition persist_queue :: "string \<Rightarrow> json res" where
  "persist_queue val =
     (let name = takeWhile (\<lambda>c. c \<noteq> CHR '':'') val; rest = dropWhile (\<lambda>c. c \<noteq> CHR '':'') val in
      if rest = [] then Inl IndexError
      else (case parse_int (tl rest) of None \<Rightarrow> Inl ValueError | Some n \<Rightarrow> Inr (JList [JStr name, JInt n])))"

definition read_config :: "string option \<Rightarrow> string dict dict \<Rightarrow> json dict \<Rightarrow> json dict res" where
  "read_config esmond_root sections conf = (case esmond_root of
     None \<Rightarrow> Inl TypeError
   | Some dir \<Rightarrow>
      (let cfg = \<lparr>ini_defaults = [(''esmond_root'', dir)], ini_sections = sections\<rparr> in
       rbind (read_options cfg conf) (\<lambda>conf. rbind (read_booleans cfg conf) (\<lambda>conf.
       rbind (own_items cfg ''persist_map'') (\<lambda>m.
       rbind (own_items cfg ''persist_queues'') (\<lambda>q.
       rbind (rmap (\<lambda>(k, v). rbind (persist_queue v) (\<lambda>x. Inr (k, x))) q) (\<lambda>queues.
       let conf = set_attr ''persist_queues'' (JObj queues)
           (set_attr ''persist_map'' (JObj (map (\<lambda>(k, v). (k, split_unspaced v)) m)) conf) in
       Inr (case attr conf ''espoll_persist_uri'' of
          JStr (c # s) \<Rightarrow> set_attr ''espoll_persist_uri'' (split_unspaced (c # s)) conf
        | _ \<Rightarrow> conf))))))))"

subsection \<open>\<open>convert_types\<close>\<close>

definition facility_names :: "(string \<times> int) list" where
  "facility_names = [(''auth'', 4), (''authpriv'', 10), (''console'', 14), (''cron'', 9), (''daemon'', 3), (''ftp'', 11),
     (''kern'', 0), (''lpr'', 6), (''mail'', 2), (''news'', 7), (''ntp'', 12), (''security'', 13), (''solaris-cron'', 15),
     (''syslog'', 5), (''user'', 1), (''uucp'', 8), (''local0'', 16), (''local1'', 17), (''local2'', 18), (''local3'', 19),
     (''local4'', 20), (''local5'', 21), (''local6'', 22), (''local7'', 23)]"

definition priority_names :: "(string \<times> int) list" where
  "priority_names = [(''alert'', 1), (''crit'', 2), (''critical'', 2), (''debug'', 7), (''emerg'', 0), (''err'', 3),
     (''error'', 3), (''info'', 6), (''notice'', 5), (''panic'', 0), (''warn'', 4), (''warning'', 4)]"

text \<open>Only strings have \<open>split\<close>; a value that is false is left as it is.\<close>

definition to_list :: "string \<Rightarrow> json dict \<Rightarrow> json dict res" where
  "to_list k conf = (let v = attr conf k in
     if \<not> py_truthy v then Inr conf
     else (case v of
        JStr s \<Rightarrow> Inr (set_attr k (JList (map (JStr \<circ> strip) (split_char (CHR '','') s))) conf)
      | _ \<Rightarrow> Inl AttributeError))"

definition to_int :: "string \<Rightarrow> json dict \<Rightarrow> json dict res" where
  "to_int k conf = (let v = attr conf k in
     if \<not> py_truthy v then Inr conf else rbind (py_int v) (\<lambda>n. Inr (set_attr k (JInt n) conf)))"

text \<open>A value that is no string cannot be a name of these tables.\<close>

definition to_code :: "(string \<times> int) list \<Rightarrow> (string \<Rightarrow> string) \<Rightarrow> string \<Rightarrow> json dict \<Rightarrow> json dict res" where
  "to_code names msg k conf = (case attr conf k of
     JNull \<Rightarrow> Inr conf
   | v \<Rightarrow> (case (case v of JStr s \<Rightarrow> map_of names s | _ \<Rightarrow> None) of
        None \<Rightarrow> Inl (ConfigError (msg (shown v)))
      | Some n \<Rightarrow> Inr (set_attr k (JInt n) conf)))"

definition unknown_facility :: "string \<Rightarrow> string" where
  "unknown_facility v = ''invalid config: '' @ v @ '' syslog facility is unknown''"

definition unknown_priority :: "string \<Rightarrow> string" where
  "unknown_priority v = ''invaild config: unknown syslog_priority '' @ v"

definition email_flag :: "json dict \<Rightarrow> json dict" where
  "email_flag conf =
     (if attr conf ''error_email_to'' \<noteq> JNull \<and> attr conf ''error_email_subject'' \<noteq> JNull \<and> attr conf ''error_email_from'' \<noteq> JNull
      then set_attr ''send_error_email'' (JBool True) conf else conf)"

definition LIST_OPTIONS :: "string list" where
  "LIST_OPTIONS = [''allowed_hosts'', ''mib_dirs'', ''mibs'', ''cassandra_servers'']"

definition INT_OPTIONS :: "string list" where
  "INT_OPTIONS = [''poll_timeout'', ''poll_retries'', ''reload_interval'', ''api_anon_limit'', ''api_throttle_at'',
     ''api_throttle_timeframe'', ''api_throttle_expiration'']"

text \<open>Without a priority the code sets a local variable, and the attribute stays None.\<close>

definition convert_types :: "json dict \<Rightarrow> json dict res" where
  "convert_types conf =
     rbind (rfold to_list LIST_OPTIONS conf) (\<lambda>conf. rbind (rfold to_int INT_OPTIONS conf) (\<lambda>conf.
     rbind (to_code facility_names unknown_facility ''syslog_facility'' (email_flag conf)) (\<lambda>conf.
     to_code priority_names unknown_priority ''syslog_priority'' conf)))"

text \<open>The configuration a file describes; without the file the parser has no sections.\<close>

definition new_config :: "string option \<Rightarrow> string dict dict res \<Rightarrow> json dict res" where
  "new_config esmond_root parsed =
     rbind parsed (\<lambda>sections. rbind (read_config esmond_root sections config_defaults) convert_types)"

subsection \<open>\<open>get_config\<close>\<close>

definition get_config_path :: "string option \<Rightarrow> string" where
  "get_config_path esmond_conf = (case esmond_conf of None \<Rightarrow> ''./esmond.conf'' | Some p \<Rightarrow> p)"

record config_opts =
  co_pid_dir :: "string option"
  co_debug :: bool

definition override_opts :: "config_opts option \<Rightarrow> json dict \<Rightarrow> json dict" where
  "override_opts opts conf = (case opts of
     None \<Rightarrow> conf
   | Some o1 \<Rightarrow>
      (let conf = (case co_pid_dir o1 of Some (c # s) \<Rightarrow> set_attr ''pid_dir'' (JStr (c # s)) conf | _ \<Rightarrow> conf) in
       if co_debug o1 then set_attr ''debug'' (JBool True) conf else conf))"

definition unable_to_parse :: "'a res \<Rightarrow> 'a res" where
  "unable_to_parse m = (case m of
     Inl (ConfigParserError e) \<Rightarrow> Inl (ConfigError (''unable to parse config: '' @ e)) | _ \<Rightarrow> m)"

definition get_config ::
  "(string \<Rightarrow> string dict dict res option) \<Rightarrow> string option \<Rightarrow> string \<Rightarrow> config_opts option \<Rightarrow> json dict res" where
  "get_config read_file esmond_root config_file opts = (case read_file config_file of
     None \<Rightarrow> Inl (ConfigError (''config file not found: '' @ config_file))
   | Some parsed \<Rightarrow>
       rbind (unable_to_parse (new_config esmond_root parsed)) (\<lambda>conf. Inr (override_opts opts conf)))"

subsection \<open>\<open>validate_config\<close>, which is not called\<close>

definition config_check :: "bool \<Rightarrow> string \<Rightarrow> unit res" where
  "config_check ok msg = (if ok then Inr () else Inl (ConfigError (''invalid config: '' @ msg)))"

text \<open>A path that is no string is a TypeError; the messages say what is wrong with it.\<close>

definition path_check :: "(string \<Rightarrow> bool) \<Rightarrow> (string \<Rightarrow> string) \<Rightarrow> json \<Rightarrow> unit res" where
  "path_check p msg v = (case v of JStr s \<Rightarrow> config_check (p s) (msg s) | _ \<Rightarrow> Inl TypeError)"

text \<open>The arguments of this message are not put into it.\<close>

definition required_attr :: "string \<Rightarrow> json dict \<Rightarrow> unit res" where
  "required_attr k conf = (case map_of conf k of
     None \<Rightarrow> Inl AttributeError | Some v \<Rightarrow> config_check (v \<noteq> JNull) ''%s: %s must be specified'')"

definition root_directory :: "(string \<Rightarrow> bool) \<Rightarrow> (string \<Rightarrow> bool) \<Rightarrow> json dict \<Rightarrow> unit res" where
  "root_directory isdir writable conf = (let d = attr conf ''tsdb_root'' in
     rbind (path_check isdir (\<lambda>s. ''tsdb_root does not exist: '' @ s) d) (\<lambda>_.
     path_check writable (\<lambda>s. ''tsdb_root '' @ s @ '' is not writable'') d))"

definition chunk_prefixes :: "(string \<Rightarrow> bool) \<Rightarrow> (string \<Rightarrow> bool) \<Rightarrow> json dict \<Rightarrow> json dict res" where
  "chunk_prefixes isdir writable conf =
     rbind (to_list ''tsdb_chunk_prefixes'' conf) (\<lambda>conf.
     if \<not> py_truthy (attr conf ''tsdb_chunk_prefixes'') then Inr conf
     else rbind (py_iter (attr conf ''tsdb_chunk_prefixes'')) (\<lambda>cdirs.
       rbind (rmap (\<lambda>c. rbind (path_check isdir (\<lambda>s. ''tsdb_chunk_prefixes doesn't exist: '' @ s) c) (\<lambda>_.
         path_check writable (\<lambda>s. ''tsdb_chunk_prefixes '' @ s @ '' not writable'') c)) cdirs) (\<lambda>_. Inr conf)))"

definition trace_directory :: "(string \<Rightarrow> bool) \<Rightarrow> (string \<Rightarrow> bool) \<Rightarrow> json dict \<Rightarrow> unit res" where
  "trace_directory isdir writable conf = (let d = attr conf ''traceback_dir'' in
     if d = JNull then Inr ()
     else rbind (path_check isdir (\<lambda>s. ''traceback_dir '' @ s @ '' does not exist'') d) (\<lambda>_.
       path_check writable (\<lambda>s. ''traceback_dir '' @ s @ '' is not writable'') d))"

definition unknown_queues :: "json dict \<Rightarrow> string list" where
  "unknown_queues conf = (case (attr conf ''persist_map'', attr conf ''persist_queues'') of
     (JObj m, JObj q) \<Rightarrow> concat (map (\<lambda>(oidset, queues). case queues of
        JList xs \<Rightarrow> map (\<lambda>x. shown x @ '' for '' @ oidset) (filter (\<lambda>x. \<not> has_key (shown x) q) xs) | _ \<Rightarrow> []) m)
   | _ \<Rightarrow> [])"

definition validate_config :: "(string \<Rightarrow> bool) \<Rightarrow> (string \<Rightarrow> bool) \<Rightarrow> json dict \<Rightarrow> json dict res" where
  "validate_config isdir writable conf =
     rbind (required_attr ''tsdb_root'' conf) (\<lambda>_. rbind (required_attr ''db_uri'' conf) (\<lambda>_.
     rbind (root_directory isdir writable conf) (\<lambda>_.
     rbind (chunk_prefixes isdir writable conf) (\<lambda>conf.
     rbind (trace_directory isdir writable conf) (\<lambda>_.
     rbind (to_code facility_names unknown_facility ''syslog_facility'' conf) (\<lambda>conf.
     rbind (to_code priority_names unknown_priority ''syslog_priority'' conf) (\<lambda>conf.
     let errors = unknown_queues conf in
     if errors = [] then Inr conf
     else Inl (ConfigError (''unknown persist queue(s): '' @ join '', '' errors)))))))))"

subsection \<open>The settings of Django\<close>

text \<open>
  The part of \<open>esmond/settings.py\<close> that depends on the environment and the configuration. Without
  the root the code raises \<open>Error\<close>, which is no name.
\<close>

record django_settings =
  set_conf :: string
  set_debug :: json
  set_database :: "json dict"

definition settings_path :: "string dict \<Rightarrow> string res" where
  "settings_path env = (case map_of env ''ESMOND_ROOT'' of
     Some (c # cs) \<Rightarrow> (case map_of env ''ESMOND_CONF'' of
        Some (d # ds) \<Rightarrow> Inr (d # ds)
      | _ \<Rightarrow> Inr (path_join (c # cs) ''esmond.conf''))
   | _ \<Rightarrow> Inl NameError)"

definition settings :: "(string \<Rightarrow> string dict dict res option) \<Rightarrow> string dict \<Rightarrow> django_settings res" where
  "settings read_file env = rbind (settings_path env) (\<lambda>conf_path.
     rbind (get_config read_file (map_of env ''ESMOND_ROOT'') conf_path None) (\<lambda>conf.
     Inr \<lparr>set_conf = conf_path, set_debug = attr conf ''debug'',
       set_database = [
         (''ENGINE'', attr conf ''sql_db_engine''),
         (''NAME'', attr conf ''sql_db_name''),
         (''HOST'', attr conf ''sql_db_host''),
         (''USER'', attr conf ''sql_db_user''),
         (''PASSWORD'', attr conf ''sql_db_password'')]\<rparr>))"

text \<open>What \<open>esmond/wsgi.py\<close> passes on of the environment of a request before Django answers it.\<close>

definition wsgi_environment :: "string dict \<Rightarrow> string dict \<Rightarrow> string dict res" where
  "wsgi_environment environ env = (case map_of environ ''ESMOND_ROOT'' of
     None \<Rightarrow> Inl (SystemExit 0)
   | Some dir \<Rightarrow>
      (let env = AList.update ''ESMOND_ROOT'' dir env in
       Inr (case map_of environ ''ESMOND_CONF'' of None \<Rightarrow> env | Some p \<Rightarrow> AList.update ''ESMOND_CONF'' p env)))"

end
