(* ===== verification/Client_Summaries.thy ===== *)
theory Client_Summaries
  imports Configuration At_Encoding
begin

section \<open>Helpers of the summary scripts\<close>

text \<open>
  \<open>esmond/api/client/util.py\<close>: the names of summaries from the configuration file beside a script,
  the months of the summary scripts, and the at-encoding, of which this file has a copy of its
  own with a table for graphite and an \<open>atdecode\<close> that returns. The parsed file is an argument,
  None when the path does not exist.
\<close>

subsection \<open>The configuration file of a script\<close>

definition summary_config_path :: "string \<Rightarrow> string" where
  "summary_config_path c_path =
     (if suffix ''.py'' c_path then replace_string ''.py'' ''.conf'' c_path else c_path @ ''.conf'')"

definition get_summary_config :: "(string \<Rightarrow> ini_file res option) \<Rightarrow> string \<Rightarrow> ini_file res" where
  "get_summary_config read_file script =
     (let c_path = summary_config_path script in
      case read_file c_path of
        None \<Rightarrow> Inl (ConfigException (''Could not find configuration file '' @ c_path))
      | Some parsed \<Rightarrow> parsed)"

definition get_type_map :: "ini_file res \<Rightarrow> string dict dict res" where
  "get_type_map config = rbind config (\<lambda>cfg. rmap (\<lambda>(name, _).
     rbind (cfg_items cfg name) (\<lambda>items. Inr (name, items))) (ini_sections cfg))"

definition string_keys :: "'a dict \<Rightarrow> json" where
  "string_keys d = JList (map (JStr \<circ> fst) d)"

text \<open>A key of a dictionary whose keys are strings: a list or a dictionary has no hash.\<close>

definition lookup_key :: "json \<Rightarrow> 'a dict \<Rightarrow> 'a option res" where
  "lookup_key k d = (case k of
     JStr s \<Rightarrow> Inr (map_of d s) | JList _ \<Rightarrow> Inl TypeError | JObj _ \<Rightarrow> Inl TypeError | _ \<Rightarrow> Inr None)"

definition get_summary_name :: "ini_file res \<Rightarrow> json \<Rightarrow> string res" where
  "get_summary_name config filterdict = (case filterdict of
     JObj [] \<Rightarrow> Inl IndexError
   | JObj [(django_query_filter, filter_criteria)] \<Rightarrow>
       rbind (get_type_map config) (\<lambda>type_map. case map_of type_map django_query_filter of
         None \<Rightarrow> Inl (ConfigException (''Config file did does not contain a section for '' @ django_query_filter @
           '' - has: '' @ shown (string_keys type_map)))
       | Some entries \<Rightarrow> rbind (lookup_key filter_criteria entries) (\<lambda>found. case found of
           None \<Rightarrow> Inl (ConfigException (''Config section for '' @ django_query_filter @
             '' does not contain an key/entry for '' @ shown filter_criteria @ '' - has: '' @ shown (string_keys entries)))
         | Some name \<Rightarrow> Inr name))
   | JObj d \<Rightarrow> Inl (ConfigException (''Dict must contain a single key/value pair of the form: '' @
       ''{django_query_filter: filter_criteria} - got '' @ shown filterdict @ ''.''))
   | _ \<Rightarrow> Inl (ConfigException (''Arg needs to be a dict of the form: '' @
       ''{django_query_filter: filter_criteria} - got '' @ shown filterdict @ ''.'')))"

subsection \<open>Months\<close>

definition lastmonth :: "int \<Rightarrow> int \<Rightarrow> int \<times> int" where
  "lastmonth yr mo = ((yr * 12 + mo - 2) div 12, (yr * 12 + mo - 2) mod 12 + 1)"

text \<open>The \<open>/\<close> of Python 3 is the division of floats, so the year is a float.\<close>

definition nextmonth :: "int \<Rightarrow> int \<Rightarrow> (json \<times> int) res" where
  "nextmonth yr mo = rbind (float_of_int yr) (\<lambda>y. rbind (true_div mo 12) (\<lambda>q. Inr (JFloat (fadd y q), mo mod 12 + 1)))"

definition toordinal :: "int \<Rightarrow> int \<Rightarrow> int" where
  "toordinal y m = days_before_year y + sum_list (take (nat (m - 1)) (month_days y)) + 1"

text \<open>\<open>calendar.timegm\<close> of the first second of a month: \<open>datetime.date\<close> takes integers only.\<close>

definition timegm_month :: "json \<Rightarrow> int \<Rightarrow> int res" where
  "timegm_month yr mo = (case yr of
     JInt y \<Rightarrow> if 1 \<le> y \<and> y \<le> 9999 \<and> 1 \<le> mo \<and> mo \<le> 12 then Inr ((toordinal y mo - epoch_ordinal) * 86400) else Inl ValueError
   | _ \<Rightarrow> Inl TypeError)"

definition get_month_start_and_end :: "datetime \<Rightarrow> (int \<times> int) res" where
  "get_month_start_and_end start_point =
     (let yr = dt_year start_point; mo = fst (dt_month_day start_point) in
      rbind (timegm_month (JInt yr) mo) (\<lambda>start.
      rbind (nextmonth yr mo) (\<lambda>(n_mo_yr, n_mo).
      rbind (timegm_month n_mo_yr n_mo) (\<lambda>end. Inr (start, end - 1)))))"

subsection \<open>At-encoding\<close>

definition atencode_safe_graphite :: string where
  "atencode_safe_graphite = ''abcdefghijklmnopqrstuvwxyzABCDEFGHIJKLMNOPQRSTUVWXWZ012345689_-''"

definition atencode_map_graphite :: "(char \<times> string) list" where
  "atencode_map_graphite =
     fold (\<lambda>(i, c). AList.update c (if c \<in> set atencode_safe_graphite then [c] else CHR ''@'' # hex2 True i)) numbered []"

definition client_atencode :: "string \<Rightarrow> bool \<Rightarrow> bool \<Rightarrow> string res" where
  "client_atencode s minimal graphite =
     rbind (rmap (encode_char (if minimal then atencode_map_minimal
       else if graphite then atencode_map_graphite else atencode_map)) s) (\<lambda>ps. Inr (concat ps))"

definition client_atdecode :: "string \<Rightarrow> string" where
  "client_atdecode s = (case split_char (CHR ''@'') s of
     [] \<Rightarrow> []
   | p # ps \<Rightarrow> p @ concat (map (\<lambda>part. case map_of atdecode_map (take 2 part) of
       Some c \<Rightarrow> c @ drop 2 part | None \<Rightarrow> ''@'' @ part) ps))"

subsection \<open>Properties\<close>

text \<open>The months before are those of a calendar: \<open>lastmonth\<close> undoes a step of one month.\<close>

lemma lastmonth_range: "1 \<le> snd (lastmonth yr mo) \<and> snd (lastmonth yr mo) \<le> 12"
  by (simp add: lastmonth_def)

lemma lastmonth_count:
  "fst (lastmonth yr mo) * 12 + (snd (lastmonth yr mo) - 1) = yr * 12 + (mo - 1) - 1"
  by (simp add: lastmonth_def)

lemma nextmonth_float: "nextmonth yr mo = Inr (y, m) \<Longrightarrow> \<exists>x. y = JFloat x"
  by (auto simp: nextmonth_def res_simps)

lemma month_number: "1 \<le> fst (month_and_day m ds n) - m + 1 \<and> fst (month_and_day m ds n) - m < int (length ds) + (if ds = [] then 1 else 0)"
  by (induction m ds n rule: month_and_day.induct) (force split: if_splits)+

lemma month_range: "1 \<le> fst (dt_month_day d) \<and> fst (dt_month_day d) \<le> 12"
proof -
  have ds: "length (month_days (dt_year d)) = 12" "month_days (dt_year d) \<noteq> []"
    by (simp_all add: month_days_def)
  show ?thesis
    using month_number [of 1 "month_days (dt_year d)"] ds
    by (simp add: dt_month_day_def Let_def) (smt (verit))
qed

lemma twelfth_is_finite: "1 \<le> mo \<Longrightarrow> mo \<le> 12 \<Longrightarrow> \<exists>q. true_div mo 12 = Inr q"
  using fl_quotient_small [of mo 12] by (simp add: true_div_def)

text \<open>
  The end of a month is never computed: for every date, the year of the next month is a
  float, and the function that gives the bounds of the month raises a TypeError.
\<close>

theorem month_end_fails:
  assumes "1 \<le> dt_year d" "dt_year d \<le> 9999"
  shows "get_month_start_and_end d = Inl TypeError"
proof -
  define mo where "mo = fst (dt_month_day d)"
  have mo: "1 \<le> mo" "mo \<le> 12" using month_range [of d] by (simp_all add: mo_def)
  obtain q where "true_div mo 12 = Inr q" using twelfth_is_finite [OF mo] by blast
  then obtain y where "nextmonth (dt_year d) mo = Inr (JFloat y, mo mod 12 + 1)"
    using assms by (auto simp: nextmonth_def float_of_int_exact)
  moreover have "\<exists>start. timegm_month (JInt (dt_year d)) mo = Inr start"
    using assms mo by (auto simp: timegm_month_def)
  moreover have "timegm_month (JFloat y) (mo mod 12 + 1) = Inl TypeError"
    by (simp add: timegm_month_def)
  ultimately show ?thesis
    by (auto simp: get_month_start_and_end_def mo_def Let_def)
qed

lemma month_end_fails_witness: "get_month_start_and_end (DT 0) = Inl TypeError"
proof -
  have "dt_year (DT 0) = 1970" by code_simp
  then show ?thesis using month_end_fails [of "DT 0"] by simp
qed

text \<open>
  What follows an unknown code is left as it is, where the \<open>atdecode\<close> of the server fails: a text
  that ends in the escape character.
\<close>

lemma no_code: "length k \<noteq> 2 \<Longrightarrow> map_of atdecode_map k = None"
proof -
  assume k: "length k \<noteq> 2"
  have "map_of (fold (\<lambda>i m. AList.update (hex2 False i) [char_of i] (AList.update (hex2 True i) [char_of i] m)) is m) k = map_of m k"
    for m and "is" :: "nat list"
    using k by (induction "is" arbitrary: m) (auto simp: update_conv' hex2_def)
  then show ?thesis by (simp add: atdecode_map_def)
qed

lemma atdecode_copies_differ:
  "CHR ''@'' \<notin> set s \<Longrightarrow> client_atdecode (s @ ''@'') = s @ ''@'' \<and> atdecode (s @ ''@'') = Inl NameError"
proof -
  assume "CHR ''@'' \<notin> set s"
  then have "split_char (CHR ''@'') (s @ ''@'') = [s, []]"
    by (simp add: split_char_append)
  then show ?thesis
    by (simp add: client_atdecode_def atdecode_def no_code)
qed

end
