(* ===== verification/Jmx_Client.thy ===== *)
theory Jmx_Client
  imports Client_Query At_Encoding
begin

section \<open>Statistics of Cassandra over JMX\<close>

text \<open>
  \<open>esmond/api/client/jmx.py\<close>: the variables read through the HTTP adaptor of MX4J. The transport
  and the XML parser are one argument, which gives the \<open>Attribute\<close> elements of the answer to a URL
  as names and values. The warning about the status of an answer is left out.
\<close>

subsection \<open>URLs\<close>

text \<open>\<open>urllib.parse.quote_plus\<close> of ASCII text.\<close>

definition unreserved :: string where
  "unreserved = ''ABCDEFGHIJKLMNOPQRSTUVWXYZabcdefghijklmnopqrstuvwxyz0123456789_.-~''"

definition quote_plus :: "string \<Rightarrow> string" where
  "quote_plus s = concat (map (\<lambda>c. if c \<in> set unreserved then [c] else if c = CHR '' '' then ''+''
     else CHR ''%'' # hex2 True (of_char c)) s)"

definition urlencode :: "string dict \<Rightarrow> string" where
  "urlencode qs = join ''&'' (map (\<lambda>(k, v). quote_plus k @ ''='' @ quote_plus v) qs)"

definition mbean_url :: "string \<Rightarrow> string \<Rightarrow> string" where
  "mbean_url url var = rstrip_slash url @ ''/mbean?'' @ urlencode [(''objectname'', var), (''template'', ''identity'')]"

subsection \<open>Values\<close>

text \<open>The value of the first attribute of a name; an integer where it reads as one; None is no argument of \<open>int\<close>.\<close>

definition get_attribute_value :: "string dict \<Rightarrow> string \<Rightarrow> string option" where
  "get_attribute_value root_attrs name = map_of root_attrs name"

definition fetch_value :: "(string \<Rightarrow> string dict res) \<Rightarrow> string \<Rightarrow> string \<Rightarrow> string \<Rightarrow> json res" where
  "fetch_value request url jmx_var name =
     rbind (request (mbean_url url jmx_var)) (\<lambda>root_attrs.
       case get_attribute_value root_attrs name of
         None \<Rightarrow> Inl TypeError
       | Some v \<Rightarrow> (case parse_int v of Some n \<Rightarrow> Inr (JInt n) | None \<Rightarrow> Inr (JStr v)))"

text \<open>\<open>str.find\<close>, and the slice from a non-negative index to two before the end.\<close>

fun str_find :: "string \<Rightarrow> string \<Rightarrow> int" where
  "str_find [] t = (if t = [] then 0 else -1)"
| "str_find (c # s) t = (if prefix t (c # s) then 0 else (let i = str_find s t in if i < 0 then -1 else i + 1))"

definition inner_slice :: "string \<Rightarrow> int \<Rightarrow> string" where
  "inner_slice s i = drop (nat i) (take (length s - 2) s)"

definition contents_entry :: "string \<Rightarrow> int dict \<Rightarrow> int dict res" where
  "contents_entry i d = (case split_char (CHR ''='') (strip i) of
     [k, v] \<Rightarrow> (case parse_int v of Some n \<Rightarrow> Inr (AList.update k n d) | None \<Rightarrow> Inl ValueError)
   | _ \<Rightarrow> Inl ValueError)"

definition get_contents_dict :: "json \<Rightarrow> int dict res" where
  "get_contents_dict v = (case v of
     JStr s \<Rightarrow> rfold contents_entry (split_char (CHR '','') (inner_slice s (str_find s ''contents='' + 10))) []
   | _ \<Rightarrow> Inl AttributeError)"

subsection \<open>The queries\<close>

definition jmx_vars :: "string dict" where
  "jmx_vars = [
     (''readstage'', ''org.apache.cassandra.request:type=ReadStage''),
     (''mutationstage'', ''org.apache.cassandra.request:type=MutationStage''),
     (''gossipstage'', ''org.apache.cassandra.internal:type=GossipStage''),
     (''storageproxy'', ''org.apache.cassandra.db:type=StorageProxy''),
     (''memory'', ''java.lang:type=Memory''),
     (''garbage'', ''java.lang:type=GarbageCollector,name=ConcurrentMarkSweep''),
     (''os'', ''java.lang:type=OperatingSystem''),
     (''compaction'', ''org.apache.cassandra.db:type=CompactionManager'')]"

definition memory_queries :: "(string \<times> string \<times> string) list" where
  "memory_queries = [
     (''get_heap_memory'', ''memory'', ''HeapMemoryUsage''),
     (''get_non_heap_memory'', ''memory'', ''NonHeapMemoryUsage'')]"

definition value_queries :: "(string \<times> string \<times> string) list" where
  "value_queries = [
     (''get_read_latency'', ''storageproxy'', ''RecentReadLatencyMicros''),
     (''get_write_latency'', ''storageproxy'', ''RecentWriteLatencyMicros''),
     (''get_range_latency'', ''storageproxy'', ''RecentRangeLatencyMicros''),
     (''get_gc_count'', ''garbage'', ''CollectionCount''),
     (''get_gc_time'', ''garbage'', ''CollectionTime''),
     (''get_read_active'', ''readstage'', ''ActiveCount''),
     (''get_read_pending'', ''readstage'', ''PendingTasks''),
     (''get_read_completed'', ''readstage'', ''CompletedTasks''),
     (''get_write_active'', ''mutationstage'', ''ActiveCount''),
     (''get_write_pending'', ''mutationstage'', ''PendingTasks''),
     (''get_write_completed'', ''mutationstage'', ''CompletedTasks''),
     (''get_gossip_active'', ''gossipstage'', ''ActiveCount''),
     (''get_gossip_pending'', ''gossipstage'', ''PendingTasks''),
     (''get_gossip_completed'', ''gossipstage'', ''CompletedTasks''),
     (''get_os_load'', ''os'', ''SystemLoadAverage''),
     (''get_os_free_memory'', ''os'', ''FreePhysicalMemorySize''),
     (''get_os_free_swap'', ''os'', ''FreeSwapSpaceSize''),
     (''get_os_committed_virtual_memory'', ''os'', ''CommittedVirtualMemorySize''),
     (''get_compaction_pending'', ''compaction'', ''PendingTasks''),
     (''get_compaction_complete'', ''compaction'', ''CompletedTasks'')]"

definition jmx_fetch :: "(string \<Rightarrow> string dict res) \<Rightarrow> string \<Rightarrow> string \<times> string \<Rightarrow> json res" where
  "jmx_fetch request url q = (case q of (var, name) \<Rightarrow>
     (case map_of jmx_vars var of None \<Rightarrow> Inl AttributeError | Some v \<Rightarrow> fetch_value request url v name))"

text \<open>A call of an accessor by its name: a dictionary for the memory, a value otherwise.\<close>

definition jmx_call :: "(string \<Rightarrow> string dict res) \<Rightarrow> string \<Rightarrow> string \<Rightarrow> (int dict + json) res" where
  "jmx_call request url accessor = (case map_of memory_queries accessor of
     Some q \<Rightarrow> rbind (jmx_fetch request url q) (\<lambda>v. rbind (get_contents_dict v) (\<lambda>d. Inr (Inl d)))
   | None \<Rightarrow> (case map_of value_queries accessor of
       Some q \<Rightarrow> rbind (jmx_fetch request url q) (\<lambda>v. Inr (Inr v))
     | None \<Rightarrow> Inl AttributeError))"

definition AVAILABLE_TESTS :: "string list" where
  "AVAILABLE_TESTS = map fst (memory_queries @ value_queries)"

subsection \<open>Properties\<close>

text \<open>The text of a composite value: a description of its type, then the entries in braces.\<close>

definition composite_text :: "string \<Rightarrow> int dict \<Rightarrow> string" where
  "composite_text descr d = descr @ ''contents={'' @ join '', '' (map (\<lambda>(k, n). k @ ''='' @ show_int n) d) @ ''})''"

definition plain_name :: "string \<Rightarrow> bool" where
  "plain_name k \<longleftrightarrow> (\<forall>c \<in> set k. c \<noteq> CHR '','' \<and> c \<noteq> CHR ''='' \<and> \<not> is_space c)"

lemma inner_slice_composite:
  "inner_slice (composite_text descr d) (int (length descr) + 10) = join '', '' (map (\<lambda>(k, n). k @ ''='' @ show_int n) d)"
proof -
  have "inner_slice (a @ b @ c) (int (length a)) = b" if "length c = 2" for a b c
    using that by (simp add: inner_slice_def)
  from this [of "''})''" "descr @ ''contents={''"] show ?thesis
    by (simp add: composite_text_def add.commute)
qed

lemma show_int_chars: "c \<in> set (show_int i) \<Longrightarrow> c = CHR ''-'' \<or> (\<exists>n<10. c = digit_char n)"
  by (auto simp: show_int_def dest: show_nat_digits split: if_splits)

lemma show_int_entry: "CHR '','' \<notin> set (show_int i)" "CHR ''='' \<notin> set (show_int i)" "\<forall>c \<in> set (show_int i). \<not> is_space c"
proof -
  have "c \<noteq> CHR '','' \<and> c \<noteq> CHR ''='' \<and> \<not> is_space c" if "c \<in> set (show_int i)" for c
    using show_int_chars [OF that] digit_char_props(3)
    by (auto simp: is_space_def digit_char_def dest: arg_cong [where f = "of_char :: char \<Rightarrow> nat"])
  then show "CHR '','' \<notin> set (show_int i)" "CHR ''='' \<notin> set (show_int i)" "\<forall>c \<in> set (show_int i). \<not> is_space c"
    by blast+
qed

lemma strip_entry: "\<forall>c \<in> set s. \<not> is_space c \<Longrightarrow> strip s = s \<and> strip (CHR '' '' # s) = s"
proof -
  assume s: "\<forall>c \<in> set s. \<not> is_space c"
  have "strip (CHR '' '' # s) = strip s"
    by (simp add: strip_def is_space_def)
  then show ?thesis using strip_digits [OF s] by simp
qed

lemma contents_entry_read:
  assumes "plain_name k" "e = k @ ''='' @ show_int n"
  shows "contents_entry e d = Inr (AList.update k n d)" "contents_entry (CHR '' '' # e) d = Inr (AList.update k n d)"
proof -
  have "\<forall>c \<in> set e. \<not> is_space c" "CHR ''='' \<notin> set k"
    using assms show_int_entry(3) [of n] by (auto simp: plain_name_def is_space_def)
  moreover have "split_char (CHR ''='') e = [k, show_int n]"
    using calculation(2) assms(2) by (simp add: split_char_append show_int_entry)
  ultimately show "contents_entry e d = Inr (AList.update k n d)" "contents_entry (CHR '' '' # e) d = Inr (AList.update k n d)"
    using strip_entry [of e] by (simp_all add: contents_entry_def parse_show_int)
qed

lemma split_entries:
  assumes "\<forall>e \<in> set es. CHR '','' \<notin> set e" "es \<noteq> []"
  shows "split_char (CHR '','') (join '', '' es) = hd es # map (\<lambda>e. CHR '' '' # e) (tl es)"
  using assms
proof (induction es rule: induct_list012)
  case (3 e f es)
  then have "split_char (CHR '','') (e @ CHR '','' # CHR '' '' # join '', '' (f # es)) =
      e # split_char (CHR '','') (CHR '' '' # join '', '' (f # es))"
    by (intro split_char_append) simp
  moreover have "split_char (CHR '','') (CHR '' '' # join '', '' (f # es)) =
      (CHR '' '' # f) # map (\<lambda>e. CHR '' '' # e) es"
    using 3 by simp
  ultimately show ?case by simp
qed simp_all

lemma entries_read:
  assumes "\<forall>(k, n) \<in> set d. plain_name k"
  shows "rfold contents_entry (map (\<lambda>(k, n). CHR '' '' # k @ ''='' @ show_int n) d) acc = Inr (fold (\<lambda>(k, n). AList.update k n) d acc)"
  using assms by (induction d arbitrary: acc) (auto simp: contents_entry_read(2))

lemma entries_in_order:
  "distinct (map fst (acc @ d)) \<Longrightarrow> fold (\<lambda>(k, n). AList.update k n) d acc = acc @ d"
proof (induction d arbitrary: acc)
  case (Cons x d)
  obtain k n where x: "x = (k, n)" by (cases x)
  have "k \<notin> fst ` set acc" using Cons.prems x by auto
  then have "AList.update k n acc = acc @ [(k, n)]" by (induction acc) auto
  then show ?case using Cons x by simp
qed simp

text \<open>
  The composite values of the memory statistics are read back: from the text of a description
  and the entries of a dictionary, the client makes this dictionary.
\<close>

theorem contents_round_trip:
  assumes "d \<noteq> []" "distinct (map fst d)" "\<forall>(k, n) \<in> set d. plain_name k"
    and "str_find (composite_text descr d) ''contents='' = int (length descr)"
  shows "get_contents_dict (JStr (composite_text descr d)) = Inr d"
proof -
  obtain k n rest where d: "d = (k, n) # rest" using assms(1) by (cases d) auto
  have entries: "\<forall>e \<in> set (map (\<lambda>(k, n). k @ ''='' @ show_int n) d). CHR '','' \<notin> set e"
    using assms(3) by (auto simp: plain_name_def show_int_entry)
  have "get_contents_dict (JStr (composite_text descr d)) =
      rfold contents_entry (split_char (CHR '','') (join '', '' (map (\<lambda>(k, n). k @ ''='' @ show_int n) d))) []"
    using assms(4) inner_slice_composite [of descr d] by (simp add: get_contents_dict_def)
  also have "\<dots> = rfold contents_entry ((k @ ''='' @ show_int n) # map (\<lambda>(k, n). CHR '' '' # k @ ''='' @ show_int n) rest) []"
    using split_entries [OF entries] d by (simp add: case_prod_unfold comp_def)
  also have "\<dots> = Inr (fold (\<lambda>(k, n). AList.update k n) rest [(k, n)])"
    using assms(3) d contents_entry_read(1) [of k _ n "[]"] entries_read [of rest "[(k, n)]"] by simp
  also have "\<dots> = Inr d"
    using entries_in_order [of "[(k, n)]" rest] assms(2) d by simp
  finally show ?thesis .
qed

lemma contents_round_trip_witness:
  "get_contents_dict (JStr (composite_text ''javax.management.openmbean.CompositeDataSupport(compositeType=x,''
     [(''committed'', 512), (''init'', -1)])) = Inr [(''committed'', 512), (''init'', -1)]"
proof (rule contents_round_trip)
  show "\<forall>(k, n) \<in> set [(''committed'', 512::int), (''init'', -1)]. plain_name k"
    by code_simp
  show "str_find (composite_text ''javax.management.openmbean.CompositeDataSupport(compositeType=x,''
      [(''committed'', 512), (''init'', -1)]) ''contents='' =
      int (length ''javax.management.openmbean.CompositeDataSupport(compositeType=x,'')"
    by code_simp
qed simp_all

text \<open>An attribute that is missing, as after a failed request, is a TypeError.\<close>

lemma missing_attribute:
  "request (mbean_url url v) = Inr root_attrs \<Longrightarrow> map_of root_attrs name = None \<Longrightarrow>
     fetch_value request url v name = Inl TypeError"
  by (simp add: fetch_value_def get_attribute_value_def)

end
