(* ===== verification/Configuration_Facts.thy ===== *)
theory Configuration_Facts
  imports Configuration
begin

section \<open>What a configuration holds\<close>

text \<open>
  The types of the attributes of a configuration that \<open>get_config\<close> returns, and the exceptions it
  raises; two places where the code does not do what it means to.
\<close>

named_theorems attr_simps \<open>attributes after a change\<close>

lemma attr_set [simp, attr_simps]: "attr (set_attr k v conf) j = (if j = k then v else attr conf j)"
  by (simp add: attr_def set_attr_def)

subsection \<open>Options converted one by one\<close>

definition changes_only :: "string \<Rightarrow> json dict \<Rightarrow> json dict \<Rightarrow> bool" where
  "changes_only k conf conf' = (\<forall>j. j \<noteq> k \<longrightarrow> attr conf' j = attr conf j)"

lemma rfold_each:
  assumes "\<And>k c c'. k \<in> set ks \<Longrightarrow> f k c = Inr c' \<Longrightarrow> changes_only k c c' \<and> (P k (attr c k) \<longrightarrow> Q (attr c' k))"
    and "distinct ks" and "rfold f ks conf = Inr conf'" and "\<forall>k \<in> set ks. P k (attr conf k)"
  shows "(\<forall>k \<in> set ks. Q (attr conf' k)) \<and> (\<forall>j. j \<notin> set ks \<longrightarrow> attr conf' j = attr conf j)"
  using assms
proof (induction ks arbitrary: conf)
  case (Cons k ks)
  obtain c where c: "f k conf = Inr c" "rfold f ks c = Inr conf'" using Cons.prems(3) by (auto simp: res_simps)
  then have k: "changes_only k conf c" "Q (attr c k)" using Cons.prems(1) [of k conf c] Cons.prems(4) by auto
  have "\<forall>j \<in> set ks. P j (attr c j)" using Cons.prems(2,4) k(1) by (auto simp: changes_only_def)
  then have "(\<forall>j \<in> set ks. Q (attr conf' j)) \<and> (\<forall>j. j \<notin> set ks \<longrightarrow> attr conf' j = attr c j)"
    using Cons.prems(1,2) c(2) by (intro Cons.IH) auto
  then show ?case using k Cons.prems(2) by (auto simp: changes_only_def)
qed simp

definition list_value :: "json \<Rightarrow> bool" where
  "list_value v = (v = JStr [] \<or> (\<exists>ss. v = JList (map (JStr \<circ> strip) ss)))"

definition int_value_or_unset :: "json \<Rightarrow> bool" where
  "int_value_or_unset v = (v = JNull \<or> v = JStr [] \<or> (\<exists>n. v = JInt n))"

definition code_of :: "(string \<times> int) list \<Rightarrow> json \<Rightarrow> bool" where
  "code_of names v = (v = JNull \<or> (\<exists>n \<in> set (map snd names). v = JInt n))"

lemma to_list_value:
  "to_list k c = Inr c' \<Longrightarrow> changes_only k c c' \<and> (attr c k = JList [] \<or> (\<exists>s. attr c k = JStr s) \<longrightarrow> list_value (attr c' k))"
  by (auto simp: to_list_def Let_def changes_only_def list_value_def o_def split: if_splits json.splits)

lemma to_int_value:
  "to_int k c = Inr c' \<Longrightarrow> changes_only k c c' \<and> (attr c k = JNull \<or> (\<exists>n. attr c k = JInt n) \<or> (\<exists>s. attr c k = JStr s) \<longrightarrow>
     int_value_or_unset (attr c' k))"
  by (auto simp: to_int_def Let_def changes_only_def int_value_or_unset_def res_simps split: if_splits)

lemma to_code_value: "to_code names msg k c = Inr c' \<Longrightarrow> changes_only k c c' \<and> code_of names (attr c' k)"
  by (force simp: to_code_def changes_only_def code_of_def split: json.splits option.splits dest: map_of_SomeD)

subsection \<open>What is read\<close>

text \<open>An option is a string or as it was.\<close>

lemma read_options_values:
  assumes "read_options cfg conf = Inr conf'"
  obtains items where "cfg_items cfg ''main'' = Inr items"
    and "\<And>k. (\<exists>s. attr conf' k = JStr s) \<and> has_key k items \<or> attr conf' k = attr conf k"
proof -
  obtain items where items: "cfg_items cfg ''main'' = Inr items"
    and run: "rfold (\<lambda>opt conf. if has_key opt items then rbind (cfg_get cfg ''main'' opt) (\<lambda>v. Inr (set_attr opt (JStr v) conf))
      else Inr conf) CONFIG_OPTIONS conf = Inr conf'"
    using assms by (auto simp: read_options_def res_simps)
  have "\<forall>k. (\<exists>s. attr conf' k = JStr s) \<and> has_key k items \<or> attr conf' k = attr conf k"
    using run by (rule rfold_invariant) (auto simp: res_simps split: if_splits, blast)
  then show thesis using that items by blast
qed

lemma read_booleans_values:
  assumes "read_booleans cfg conf = Inr conf'" and "cfg_items cfg ''main'' = Inr items"
  shows "attr conf' k = attr conf k \<and> (k \<notin> set BOOLEAN_OPTIONS \<or> \<not> has_key k items) \<or>
    (\<exists>b. attr conf' k = JBool b) \<and> k \<in> set BOOLEAN_OPTIONS"
proof -
  let ?step = "\<lambda>(key, val) conf. if key \<in> set BOOLEAN_OPTIONS
    then rbind (cfg_getboolean cfg ''main'' key) (\<lambda>b. Inr (set_attr key (JBool b) conf)) else Inr conf"
  have "attr conf' k = attr conf k \<and> (k \<notin> set BOOLEAN_OPTIONS \<or> \<not> has_key k xs) \<or> (\<exists>b. attr conf' k = JBool b) \<and> k \<in> set BOOLEAN_OPTIONS"
    if "rfold ?step xs conf = Inr conf'" for xs
    using that
  proof (induction xs arbitrary: conf)
    case (Cons x xs)
    obtain key val where x: "x = (key, val)" by (cases x)
    obtain c where c: "?step x conf = Inr c" "rfold ?step xs c = Inr conf'" using Cons.prems by (auto simp: res_simps)
    then have "attr c k = attr conf k \<and> (key \<noteq> k \<or> k \<notin> set BOOLEAN_OPTIONS) \<or> (\<exists>b. attr c k = JBool b) \<and> k \<in> set BOOLEAN_OPTIONS"
      by (auto simp: x res_simps split: if_splits)
    then show ?case using Cons.IH [OF c(2)] by (auto simp: x has_key_def)
  qed (simp add: has_key_def)
  then show ?thesis using assms by (simp add: read_booleans_def)
qed


lemma defaults_by_kind:
  "list_all (\<lambda>k. attr config_defaults k = JList []) LIST_OPTIONS"
  "list_all (\<lambda>k. attr config_defaults k \<in> {JNull, JInt 2, JInt 5, JInt 10}) INT_OPTIONS"
  "list_all (\<lambda>k. attr config_defaults k \<in> {JNull, JBool False}) BOOLEAN_OPTIONS"
  by code_simp+

lemma attr_defaults:
  "k \<in> set LIST_OPTIONS \<Longrightarrow> attr config_defaults k = JList []"
  "k \<in> set INT_OPTIONS \<Longrightarrow> attr config_defaults k = JNull \<or> (\<exists>n. attr config_defaults k = JInt n)"
  "k \<in> set BOOLEAN_OPTIONS \<Longrightarrow> attr config_defaults k = JNull \<or> (\<exists>b. attr config_defaults k = JBool b)"
  using defaults_by_kind by (auto simp: list_all_iff)

lemma kinds_apart:
  "list_all (\<lambda>k. k \<notin> set BOOLEAN_OPTIONS) LIST_OPTIONS" "list_all (\<lambda>k. k \<notin> set BOOLEAN_OPTIONS) INT_OPTIONS"
  "list_all (\<lambda>k. k \<notin> set LIST_OPTIONS) INT_OPTIONS"
  by (simp_all add: LIST_OPTIONS_def INT_OPTIONS_def BOOLEAN_OPTIONS_def)

lemma option_kinds:
  "k \<in> set LIST_OPTIONS \<Longrightarrow> k \<notin> set BOOLEAN_OPTIONS" "k \<in> set INT_OPTIONS \<Longrightarrow> k \<notin> set BOOLEAN_OPTIONS"
  "k \<in> set INT_OPTIONS \<Longrightarrow> k \<notin> set LIST_OPTIONS"
  "distinct LIST_OPTIONS" "distinct INT_OPTIONS"
  using kinds_apart by (simp_all add: list_all_iff) (simp_all add: LIST_OPTIONS_def INT_OPTIONS_def)

definition OTHER_ATTRIBUTES :: "string list" where
  "OTHER_ATTRIBUTES = [''syslog_facility'', ''syslog_priority'', ''send_error_email'', ''persist_map'', ''persist_queues'',
     ''espoll_persist_uri'', ''pid_dir'']"

lemma others_apart:
  "list_all (\<lambda>k. k \<notin> set OTHER_ATTRIBUTES \<and> k \<noteq> ''debug'') LIST_OPTIONS"
  "list_all (\<lambda>k. k \<notin> set OTHER_ATTRIBUTES \<and> k \<noteq> ''debug'') INT_OPTIONS"
  "list_all (\<lambda>k. k \<notin> set OTHER_ATTRIBUTES) BOOLEAN_OPTIONS"
  by (simp_all add: LIST_OPTIONS_def INT_OPTIONS_def BOOLEAN_OPTIONS_def OTHER_ATTRIBUTES_def)

lemma other_attributes:
  "k \<in> set LIST_OPTIONS \<Longrightarrow> k \<notin> set OTHER_ATTRIBUTES \<and> k \<noteq> ''debug''"
  "k \<in> set INT_OPTIONS \<Longrightarrow> k \<notin> set OTHER_ATTRIBUTES \<and> k \<noteq> ''debug''"
  "k \<in> set BOOLEAN_OPTIONS \<Longrightarrow> k \<notin> set OTHER_ATTRIBUTES"
  using others_apart by (simp_all add: list_all_iff)

definition queue_value :: "json \<Rightarrow> bool" where
  "queue_value v = (\<exists>name n. v = JList [JStr name, JInt n])"

definition queues_ok :: "json \<Rightarrow> bool" where
  "queues_ok v = (\<exists>q. v = JObj q \<and> (\<forall>(k, x) \<in> set q. queue_value x))"

lemma persist_queue_value: "persist_queue s = Inr v \<Longrightarrow> queue_value v"
  by (auto simp: persist_queue_def Let_def queue_value_def split: if_splits option.splits)

text \<open>After reading: the attributes of each kind, before they are converted.\<close>

lemma read_config_values:
  assumes "read_config esmond_root sections config_defaults = Inr conf"
  shows "\<And>k. k \<in> set LIST_OPTIONS \<Longrightarrow> attr conf k = JList [] \<or> (\<exists>s. attr conf k = JStr s)"
    and "\<And>k. k \<in> set INT_OPTIONS \<Longrightarrow> attr conf k = JNull \<or> (\<exists>n. attr conf k = JInt n) \<or> (\<exists>s. attr conf k = JStr s)"
    and "\<And>k. k \<in> set BOOLEAN_OPTIONS \<Longrightarrow> attr conf k = JNull \<or> (\<exists>b. attr conf k = JBool b)"
    and "queues_ok (attr conf ''persist_queues'')"
proof -
  obtain cfg c1 c2 m q queues where steps: "read_options cfg config_defaults = Inr c1" "read_booleans cfg c1 = Inr c2"
      "rmap (\<lambda>(k, v). rbind (persist_queue v) (\<lambda>x. Inr (k, x))) q = Inr queues"
    and conf: "conf = (let c = set_attr ''persist_queues'' (JObj queues)
        (set_attr ''persist_map'' (JObj (map (\<lambda>(k, v). (k, split_unspaced v)) m)) c2) in
       case attr c ''espoll_persist_uri'' of JStr (x # s) \<Rightarrow> set_attr ''espoll_persist_uri'' (split_unspaced (x # s)) c | _ \<Rightarrow> c)"
    using assms by (auto simp: read_config_def res_simps Let_def split: option.splits)
  obtain items where items: "cfg_items cfg ''main'' = Inr items"
    and read: "\<And>k. (\<exists>s. attr c1 k = JStr s) \<and> has_key k items \<or> attr c1 k = attr config_defaults k"
    using read_options_values [OF steps(1)] by blast
  note bools = read_booleans_values [OF steps(2) items]
  have same: "attr conf k = attr c2 k" if "k \<in> set LIST_OPTIONS \<union> set INT_OPTIONS \<union> set BOOLEAN_OPTIONS" for k
  proof -
    have "k \<notin> {''persist_queues'', ''persist_map'', ''espoll_persist_uri''}"
      using that other_attributes [of k] unfolding OTHER_ATTRIBUTES_def by (elim UnE) simp_all
    then show ?thesis by (simp add: conf Let_def split: json.split list.split)
  qed
  show "attr conf k = JList [] \<or> (\<exists>s. attr conf k = JStr s)" if "k \<in> set LIST_OPTIONS" for k
    using same [of k] bools [of k] read [of k] attr_defaults(1) [OF that] option_kinds(1) [OF that] that by auto
  show "attr conf k = JNull \<or> (\<exists>n. attr conf k = JInt n) \<or> (\<exists>s. attr conf k = JStr s)" if "k \<in> set INT_OPTIONS" for k
    using same [of k] bools [of k] read [of k] attr_defaults(2) [OF that] option_kinds(2) [OF that] that by auto
  show "attr conf k = JNull \<or> (\<exists>b. attr conf k = JBool b)" if "k \<in> set BOOLEAN_OPTIONS" for k
    using same [of k] bools [of k] read [of k] attr_defaults(3) [OF that] that by auto
  have "queues_ok (JObj queues)"
    using rmap_set [OF steps(3)] persist_queue_value by (fastforce simp: queues_ok_def res_simps)
  then show "queues_ok (attr conf ''persist_queues'')" by (auto simp: conf Let_def split: json.split list.split)
qed

definition typed_config :: "json dict \<Rightarrow> bool" where
  "typed_config conf =
     (list_all (\<lambda>k. list_value (attr conf k)) LIST_OPTIONS \<and> list_all (\<lambda>k. int_value_or_unset (attr conf k)) INT_OPTIONS \<and>
      list_all (\<lambda>k. attr conf k = JNull \<or> (\<exists>b. attr conf k = JBool b)) BOOLEAN_OPTIONS \<and>
      code_of facility_names (attr conf ''syslog_facility'') \<and> code_of priority_names (attr conf ''syslog_priority'') \<and>
      queues_ok (attr conf ''persist_queues''))"

lemma convert_types_typed:
  assumes "read_config esmond_root sections config_defaults = Inr conf" and "convert_types conf = Inr conf'"
  shows "typed_config conf'"
proof -
  note read = read_config_values [OF assms(1)]
  obtain c1 c2 c3 where c1: "rfold to_list LIST_OPTIONS conf = Inr c1" and c2: "rfold to_int INT_OPTIONS c1 = Inr c2"
    and c3: "to_code facility_names unknown_facility ''syslog_facility'' (email_flag c2) = Inr c3"
    and c4: "to_code priority_names unknown_priority ''syslog_priority'' c3 = Inr conf'"
    using assms(2) by (auto simp: convert_types_def res_simps)
  have l: "(\<forall>k \<in> set LIST_OPTIONS. list_value (attr c1 k)) \<and> (\<forall>j. j \<notin> set LIST_OPTIONS \<longrightarrow> attr c1 j = attr conf j)"
    by (rule rfold_each [where P = "\<lambda>k v. v = JList [] \<or> (\<exists>s. v = JStr s)", OF to_list_value option_kinds(4) c1]) (use read(1) in auto)
  then have keep: "attr c1 k = attr conf k" if "k \<in> set INT_OPTIONS" for k using that option_kinds(3) [OF that] by simp
  have i: "(\<forall>k \<in> set INT_OPTIONS. int_value_or_unset (attr c2 k)) \<and> (\<forall>j. j \<notin> set INT_OPTIONS \<longrightarrow> attr c2 j = attr c1 j)"
    by (rule rfold_each [where P = "\<lambda>k v. v = JNull \<or> (\<exists>n. v = JInt n) \<or> (\<exists>s. v = JStr s)", OF to_int_value option_kinds(5) c2])
      (use read(2) keep in auto)
  have e: "attr (email_flag c2) j = attr c2 j" if "j \<noteq> ''send_error_email''" for j using that by (simp add: email_flag_def)
  note f = to_code_value [OF c3] and p = to_code_value [OF c4]
  have rest: "attr conf' j = attr c2 j" if "j \<notin> {''syslog_facility'', ''syslog_priority'', ''send_error_email''}" for j
    using that e f p by (simp add: changes_only_def)
  have "attr conf' ''syslog_facility'' = attr c3 ''syslog_facility''" using p by (simp add: changes_only_def)
  then have "code_of facility_names (attr conf' ''syslog_facility'')" using f by simp
  moreover have "attr conf' k = attr c1 k" if "k \<in> set LIST_OPTIONS" for k
    using rest [of k] i option_kinds(3) [of k] other_attributes(1) [OF that] that by (auto simp: OTHER_ATTRIBUTES_def)
  moreover have "attr conf' k = attr c2 k" if "k \<in> set INT_OPTIONS" for k
    using rest [of k] other_attributes(2) [OF that] by (simp add: OTHER_ATTRIBUTES_def)
  moreover have "attr conf' k = attr conf k" if "k \<in> set BOOLEAN_OPTIONS" for k
  proof -
    have "k \<notin> set LIST_OPTIONS" "k \<notin> set INT_OPTIONS" using option_kinds(1,2) [of k] that by blast+
    then have "attr c2 k = attr conf k" using l i by simp
    then show ?thesis using rest [of k] other_attributes(3) [OF that] by (simp add: OTHER_ATTRIBUTES_def)
  qed
  moreover have "attr conf' ''persist_queues'' = attr conf ''persist_queues''"
  proof -
    have "''persist_queues'' \<in> set OTHER_ATTRIBUTES" by (simp add: OTHER_ATTRIBUTES_def)
    then have "attr c2 ''persist_queues'' = attr conf ''persist_queues''" using l i other_attributes(1,2) by metis
    then show ?thesis using rest [of "''persist_queues''"] by simp
  qed
  ultimately show ?thesis
    unfolding typed_config_def list_all_iff using l i conjunct2 [OF p] read(3,4) by (intro conjI ballI) simp_all
qed

lemma get_config_is_typed:
  assumes "get_config read_file esmond_root config_file opts = Inr conf"
  shows "typed_config conf"
proof -
  obtain parsed c where c: "unable_to_parse (new_config esmond_root parsed) = Inr c" "conf = override_opts opts c"
    using assms by (auto simp: get_config_def res_simps split: option.splits)
  then have "new_config esmond_root parsed = Inr c" by (auto simp: unable_to_parse_def split: sum.splits exn.splits)
  then obtain sections c0 where "read_config esmond_root sections config_defaults = Inr c0" "convert_types c0 = Inr c"
    by (auto simp: new_config_def res_simps)
  then have typed: "typed_config c" by (rule convert_types_typed)
  have same: "attr conf k = attr c k" if "k \<noteq> ''pid_dir''" "k \<noteq> ''debug''" for k
    using that by (simp add: c(2) override_opts_def Let_def split: option.split list.split)
  have flag: "attr conf ''debug'' \<in> {attr c ''debug'', JBool True}"
    by (simp add: c(2) override_opts_def Let_def split: option.split list.split)
  have "attr conf k = attr c k" if "k \<in> set LIST_OPTIONS \<union> set INT_OPTIONS" for k
  proof -
    have "k \<noteq> ''pid_dir'' \<and> k \<noteq> ''debug''"
      using that other_attributes(1,2) [of k] unfolding OTHER_ATTRIBUTES_def by (elim UnE) simp_all
    then show ?thesis using same by simp
  qed
  moreover have "attr conf k = JNull \<or> (\<exists>b. attr conf k = JBool b)" if "k \<in> set BOOLEAN_OPTIONS" for k
  proof -
    have "attr c k = JNull \<or> (\<exists>b. attr c k = JBool b)" using typed that by (simp add: typed_config_def list_all_iff)
    moreover have "k \<noteq> ''pid_dir''" using other_attributes(3) [OF that] by (auto simp: OTHER_ATTRIBUTES_def)
    ultimately show ?thesis using same [of k] flag by (cases "k = ''debug''") auto
  qed
  ultimately show ?thesis
    using typed same [of "''syslog_facility''"] same [of "''syslog_priority''"] same [of "''persist_queues''"]
    unfolding typed_config_def list_all_iff by (intro conjI ballI) simp_all
qed






subsection \<open>Exceptions\<close>

text \<open>A result is a value or an exception of the given kind.\<close>

definition fails_with :: "(exn \<Rightarrow> bool) \<Rightarrow> 'a res \<Rightarrow> bool" where
  "fails_with E m = (\<forall>e. m = Inl e \<longrightarrow> E e)"

named_theorems fails \<open>which exceptions a computation raises\<close>

lemma fails_simps [simp]: "fails_with E (Inr x)" "fails_with E (Inl e) = E e"
  by (simp_all add: fails_with_def)

lemma fails_rbind [fails]: "fails_with E m \<Longrightarrow> (\<And>x. m = Inr x \<Longrightarrow> fails_with E (f x)) \<Longrightarrow> fails_with E (rbind m f)"
  by (cases m) auto

lemma fails_rmap [fails]: "(\<And>x. x \<in> set xs \<Longrightarrow> fails_with E (f x)) \<Longrightarrow> fails_with E (rmap f xs)"
proof (induction xs)
  case (Cons x xs)
  then have "fails_with E (f x)" "fails_with E (rmap f xs)" by simp_all
  then show ?case by (auto intro!: fails_rbind)
qed simp

lemma fails_rfold:
  "P s \<Longrightarrow> (\<And>x s. x \<in> set xs \<Longrightarrow> P s \<Longrightarrow> fails_with E (f x s)) \<Longrightarrow> (\<And>x s s'. x \<in> set xs \<Longrightarrow> P s \<Longrightarrow> f x s = Inr s' \<Longrightarrow> P s') \<Longrightarrow>
   fails_with E (rfold f xs s)"
proof (induction xs arbitrary: s)
  case (Cons x xs)
  have "fails_with E (rfold f xs t)" if "f x s = Inr t" for t
  proof (rule Cons.IH)
    show "P t" using Cons.prems(3) [of x s t] Cons.prems(1) that by simp
    show "fails_with E (f y u)" if "y \<in> set xs" "P u" for y u using Cons.prems(2) [of y u] that by simp
    show "P u'" if "y \<in> set xs" "P u" "f y u = Inr u'" for y u u' using Cons.prems(3) [of y u u'] that by simp
  qed
  then show ?case using Cons.prems(1) Cons.prems(2) [of x s] by (auto intro!: fails_rbind)
qed simp

lemma fails_mono: "fails_with E m \<Longrightarrow> (\<And>e. E e \<Longrightarrow> F e) \<Longrightarrow> fails_with F m"
  by (simp add: fails_with_def)

definition parser_error :: "exn \<Rightarrow> bool" where
  "parser_error e = (\<exists>m. e = ConfigParserError m)"

lemma parser_error_simps [simp]: "parser_error (ConfigParserError m)" "\<not> parser_error ValueError" "\<not> parser_error IndexError"
  by (simp_all add: parser_error_def)

lemma interpolate_error: "fails_with parser_error (interpolate depth options s)"
proof (induction depth options s rule: interpolate.induct)
  case (1 depth options s)
  show ?case
  proof (cases s)
    case s: (Cons c rest)
    show ?thesis
    proof (cases "c = CHR ''%''")
      case False
      then show ?thesis using "1.IH"(1) [OF s] s by (subst interpolate.simps) (simp add: fails_rbind)
    next
      case percent: True
      then have "\<not> c \<noteq> CHR ''%''" by simp
      note IH = "1.IH"(2-) [OF s this]
      show ?thesis
      proof (cases rest)
        case Nil
        then show ?thesis using percent s by (subst interpolate.simps) simp
      next
        case rest: (Cons d after_d)
        consider "d = CHR ''%''" | "d \<noteq> CHR ''%''" "d \<noteq> CHR ''(''" | "d = CHR ''(''" by blast
        then show ?thesis
        proof cases
          case 1
          then show ?thesis using IH(1) [OF rest] percent s rest by (subst interpolate.simps) (simp add: fails_rbind)
        next
          case 2
          then show ?thesis using percent s rest by (subst interpolate.simps) simp
        next
          case 3
          then have d: "d \<noteq> CHR ''%''" "\<not> d \<noteq> CHR ''(''" by simp_all
          show ?thesis
            using IH(2,3) [OF rest d] percent s rest 3
            by (subst interpolate.simps) (auto intro!: fails_rbind split: option.split nat.split)
        qed
      qed
    qed
  qed (subst interpolate.simps, simp)
qed

definition read_error :: "exn \<Rightarrow> bool" where
  "read_error e = (parser_error e \<or> e \<in> {ValueError, IndexError})"

lemma read_error_simps [simp]: "read_error (ConfigParserError m)" "read_error ValueError" "read_error IndexError"
  by (simp_all add: read_error_def)

lemma parser_read_error: "parser_error e \<Longrightarrow> read_error e"
  by (simp add: read_error_def)

lemma section_options_error: "fails_with parser_error (section_options cfg name)"
  by (simp add: section_options_def split: option.split)

lemma cfg_error [fails]:
  "fails_with parser_error (cfg_items cfg name)" "fails_with parser_error (cfg_get cfg name opt)"
  unfolding cfg_items_def cfg_get_def interpolated_def
  by (auto intro!: fails_rbind fails_rmap section_options_error interpolate_error split: option.split)

lemmas cfg_read_error = cfg_error [THEN fails_mono, OF parser_read_error]

lemma read_config_error: "fails_with read_error (read_config (Some dir) sections conf)"
proof -
  have bool: "fails_with read_error (cfg_getboolean cfg name opt)" for cfg name opt
    unfolding cfg_getboolean_def by (auto intro!: fails_rbind cfg_read_error)
  have options: "fails_with read_error (read_options cfg c)" for cfg c
    unfolding read_options_def
    by (auto intro!: fails_rbind cfg_read_error fails_rfold [where P = "\<lambda>_. True"])
  have booleans: "fails_with read_error (read_booleans cfg c)" for cfg c
    unfolding read_booleans_def
    by (auto intro!: fails_rbind cfg_read_error bool fails_rfold [where P = "\<lambda>_. True"])
  have own: "fails_with read_error (own_items cfg name)" for cfg name
    unfolding own_items_def by (auto intro!: fails_rbind cfg_read_error)
  have queue: "fails_with read_error (persist_queue v)" for v
    by (simp add: persist_queue_def Let_def split: option.split)
  show ?thesis
    unfolding read_config_def Let_def
    by (auto intro!: fails_rbind options booleans own queue fails_rmap split: option.split)
qed

definition convert_error :: "exn \<Rightarrow> bool" where
  "convert_error e = (e = ValueError \<or> (\<exists>m. e = ConfigError m))"

lemma convert_error_simps [simp]: "convert_error ValueError" "convert_error (ConfigError m)"
  by (simp_all add: convert_error_def)

lemma fails_each:
  assumes "\<And>k c c'. k \<in> set ks \<Longrightarrow> f k c = Inr c' \<Longrightarrow> changes_only k c c'"
    and "\<And>k c. k \<in> set ks \<Longrightarrow> P (attr c k) \<Longrightarrow> fails_with E (f k c)"
    and "distinct ks" and "\<forall>k \<in> set ks. P (attr conf k)"
  shows "fails_with E (rfold f ks conf)"
  using assms
proof (induction ks arbitrary: conf)
  case (Cons k ks)
  have "fails_with E (rfold f ks c)" if "f k conf = Inr c" for c
  proof (rule Cons.IH)
    show "\<forall>j \<in> set ks. P (attr c j)" using Cons.prems(1) [of k conf c] that Cons.prems(3,4) by (auto simp: changes_only_def)
  qed (use Cons.prems in auto)
  then show ?case using Cons.prems(2) [of k conf] Cons.prems(4) by (auto intro!: fails_rbind)
qed simp

lemma convert_types_error:
  assumes "read_config esmond_root sections config_defaults = Inr conf"
  shows "fails_with convert_error (convert_types conf)"
proof -
  note read = read_config_values [OF assms]
  have lists: "fails_with convert_error (rfold to_list LIST_OPTIONS conf)"
    by (rule fails_each [where P = "\<lambda>v. v = JList [] \<or> (\<exists>s. v = JStr s)"])
      (use to_list_value option_kinds(4) read(1) in \<open>auto simp: to_list_def Let_def\<close>)
  have ints: "fails_with convert_error (rfold to_int INT_OPTIONS c)" if "rfold to_list LIST_OPTIONS conf = Inr c" for c
  proof (rule fails_each [where P = "\<lambda>v. v = JNull \<or> (\<exists>n. v = JInt n) \<or> (\<exists>s. v = JStr s)"])
    have "(\<forall>k \<in> set LIST_OPTIONS. True) \<and> (\<forall>j. j \<notin> set LIST_OPTIONS \<longrightarrow> attr c j = attr conf j)"
      by (rule rfold_each [where P = "\<lambda>k v. True", OF _ option_kinds(4) that]) (use to_list_value in auto)
    then show "\<forall>k \<in> set INT_OPTIONS. attr c k = JNull \<or> (\<exists>n. attr c k = JInt n) \<or> (\<exists>s. attr c k = JStr s)"
      using read(2) option_kinds(3) by auto
    show "fails_with convert_error (to_int k c')" if "attr c' k = JNull \<or> (\<exists>n. attr c' k = JInt n) \<or> (\<exists>s. attr c' k = JStr s)" for k c'
      using that by (auto simp: to_int_def Let_def intro!: fails_rbind split: option.split)
  qed (use to_int_value option_kinds(5) in auto)
  have code: "fails_with convert_error (to_code names msg k c)" for names msg k c
    by (simp add: to_code_def split: json.split option.split)
  show ?thesis unfolding convert_types_def by (auto intro!: fails_rbind lists ints code)
qed

text \<open>
  What \<open>get_config\<close> raises: a file that is missing or that the parser refuses is a ConfigError,
  as are unknown syslog names. Besides that only ValueError (a number, a Boolean or the number of
  a queue that cannot be read), IndexError (a queue without a colon) and TypeError (\<open>ESMOND_ROOT\<close>
  is not in the environment) pass through.
\<close>

theorem get_config_errors:
  assumes "get_config read_file esmond_root config_file opts = Inl e"
    and "\<And>p e'. read_file p = Some (Inl e') \<Longrightarrow> parser_error e'"
  shows "(\<exists>m. e = ConfigError m) \<or> e \<in> {ValueError, IndexError} \<or> (e = TypeError \<and> esmond_root = None)"
proof (cases "read_file config_file")
  case None
  then show ?thesis using assms(1) by (auto simp: get_config_def)
next
  case (Some parsed)
  let ?n = "new_config esmond_root parsed"
  have e: "unable_to_parse ?n = Inl e" using assms(1) Some by (auto simp: get_config_def rbind_eq_Inl)
  then obtain e' where e': "?n = Inl e'" "e = e' \<or> (\<exists>m. e = ConfigError m)"
    by (auto simp: unable_to_parse_def split: sum.splits exn.splits)
  have not_parser: "\<not> parser_error e" using e by (auto simp: unable_to_parse_def parser_error_def split: sum.splits exn.splits)
  consider "parsed = Inl e'" | sections where "read_config esmond_root sections config_defaults = Inl e'"
    | sections c where "read_config esmond_root sections config_defaults = Inr c" "convert_types c = Inl e'"
    using e'(1) by (auto simp: new_config_def rbind_eq_Inl)
  then show ?thesis
  proof cases
    case 1
    then show ?thesis using assms(2) Some e'(2) not_parser by auto
  next
    case 2
    show ?thesis
    proof (cases esmond_root)
      case None
      then show ?thesis using 2 e'(2) by (auto simp: read_config_def)
    next
      case (Some dir)
      then show ?thesis using 2 e'(2) read_config_error [of dir] not_parser by (auto simp: fails_with_def read_error_def)
    qed
  next
    case 3
    then show ?thesis using e'(2) convert_types_error [OF 3(1)] by (auto simp: fails_with_def convert_error_def)
  qed
qed

text \<open>A queue without a colon.\<close>

definition broken_file :: "string \<Rightarrow> string dict dict res option" where
  "broken_file path = Some (Inr [(''main'', []), (''persist_map'', []), (''persist_queues'', [(''q'', ''P'')])])"

lemma broken_config: "get_config broken_file (Some ''/srv'') ''esmond.conf'' None = Inl IndexError"
  by code_simp

theorem get_config_errors_witness:
  "\<exists>e. get_config broken_file (Some ''/srv'') ''esmond.conf'' None = Inl e \<and>
    ((\<exists>m. e = ConfigError m) \<or> e \<in> {ValueError, IndexError} \<or> (e = TypeError \<and> Some ''/srv'' = None))"
  using get_config_errors [OF broken_config] broken_config by (auto simp: broken_file_def)

subsection \<open>Where the code differs from its intent\<close>

text \<open>The priority that is meant as the default is not stored.\<close>

lemma priority_not_defaulted: "attr conf ''syslog_priority'' = JNull \<Longrightarrow> to_code priority_names msg ''syslog_priority'' conf = Inr conf"
  by (simp add: to_code_def)

text \<open>
  The validation looks the facility up by its name, which the conversion has replaced by its
  number: a configuration with a facility is refused.
\<close>

lemma validation_refuses_facility:
  assumes "get_config read_file esmond_root config_file opts = Inr conf" and "attr conf ''syslog_facility'' \<noteq> JNull"
  shows "\<exists>e. validate_config isdir writable conf = Inl e"
proof -
  have "code_of facility_names (attr conf ''syslog_facility'')"
    using get_config_is_typed [OF assms(1)] by (simp add: typed_config_def)
  then obtain n where n: "attr conf ''syslog_facility'' = JInt n" using assms(2) by (auto simp: code_of_def)
  have refused: "\<exists>e. to_code facility_names unknown_facility ''syslog_facility'' c = Inl e" if "attr c ''syslog_facility'' = JInt n" for c
    using that by (simp add: to_code_def)
  have keeps: "attr c ''syslog_facility'' = JInt n" if "chunk_prefixes isdir writable conf = Inr c" for c
    using that n by (auto simp: chunk_prefixes_def to_list_def Let_def res_simps split: if_splits json.splits)
  show ?thesis
  proof (cases "validate_config isdir writable conf")
    case (Inr c)
    then obtain c1 c2 where "chunk_prefixes isdir writable conf = Inr c1"
        "to_code facility_names unknown_facility ''syslog_facility'' c1 = Inr c2"
      by (auto simp: validate_config_def res_simps)
    then show ?thesis using refused [OF keeps] by fastforce
  qed simp
qed

text \<open>A request whose environment names the root reaches settings that read the file it names, or the one of the root.\<close>

lemma wsgi_then_settings:
  assumes "wsgi_environment environ env = Inr env'" "map_of environ ''ESMOND_ROOT'' = Some (c # cs)"
  shows "settings_path env' = Inr (case (if has_key ''ESMOND_CONF'' environ then map_of environ ''ESMOND_CONF'' else map_of env ''ESMOND_CONF'') of
     Some (d # ds) \<Rightarrow> d # ds | _ \<Rightarrow> path_join (c # cs) ''esmond.conf'')"
  using assms by (auto simp: wsgi_environment_def settings_path_def update_conv' has_key_map_of split: option.splits list.splits)

lemma settings_need_root: "map_of env ''ESMOND_ROOT'' = None \<Longrightarrow> settings read_file env = Inl NameError"
  by (simp add: settings_def settings_path_def)

end
