(* ===== verification/Cassandra_Schema.thy ===== *)
theory Cassandra_Schema
  imports Configuration_Facts Cassandra_DB
begin

section \<open>Opening the database\<close>

text \<open>
  \<open>CASSANDRA_DB.__init__\<close> of \<open>esmond/cassandra.py\<close>: the keyspace and its four column families are
  created if they are missing, and the connection is opened; \<open>check_connection\<close> of
  \<open>esmond/api/perfsonar/api_v2.py\<close> and the two commands that initialise the database. The system
  manager and the connection pool of pycassa are arguments over a state of their own; the locale
  \<open>schema_server\<close> states what the code relies on, and is interpreted on a schema in memory.
  Logging is left out.
\<close>

subsection \<open>The system manager\<close>

record cf_spec =
  cf_name :: string
  cf_super :: bool
  cf_comparator :: string
  cf_validation :: string
  cf_key_validation :: string
  cf_compaction :: string

definition column_family_spec :: "string \<Rightarrow> bool \<Rightarrow> string \<Rightarrow> cf_spec" where
  "column_family_spec name super_cf validation =
     \<lparr>cf_name = name, cf_super = super_cf, cf_comparator = ''LongType'', cf_validation = validation,
      cf_key_validation = ''UTF8Type'', cf_compaction = ''LeveledCompactionStrategy''\<rparr>"

definition COLUMN_FAMILIES :: "cf_spec list" where
  "COLUMN_FAMILIES = [
     column_family_spec ''raw_data'' False ''UTF8Type'',
     column_family_spec ''base_rates'' True ''CounterColumnType'',
     column_family_spec ''rate_aggregations'' True ''CounterColumnType'',
     column_family_spec ''stat_aggregations'' True ''LongType'']"

text \<open>An answer of None is a connection; otherwise it is the message of the failure.\<close>

record 's sysman =
  sm_reach :: "string \<Rightarrow> 's \<Rightarrow> string option"
  sm_list_keyspaces :: "'s \<Rightarrow> string list"
  sm_drop_keyspace :: "string \<Rightarrow> 's \<Rightarrow> 's res"
  sm_create_keyspace :: "string \<Rightarrow> string \<Rightarrow> 's \<Rightarrow> 's res"
  sm_column_families :: "string \<Rightarrow> 's \<Rightarrow> string list res"
  sm_create_column_family :: "string \<Rightarrow> cf_spec \<Rightarrow> 's \<Rightarrow> 's res"
  sm_pool :: "string \<Rightarrow> json \<Rightarrow> json dict \<Rightarrow> 's \<Rightarrow> string option"

subsection \<open>\<open>__init__\<close>\<close>

text \<open>What a connection knows, and how many seconds the constructor slept.\<close>

record db_handle =
  db_keyspace :: string
  db_profiling :: bool
  db_slept :: int

definition first_server :: "json dict \<Rightarrow> string res" where
  "first_server config = (case attr config ''cassandra_servers'' of
     JList (v # _) \<Rightarrow> Inr (shown v)
   | JStr (c # _) \<Rightarrow> Inr [c]
   | JList [] \<Rightarrow> Inl IndexError
   | JStr [] \<Rightarrow> Inl IndexError
   | _ \<Rightarrow> Inl TypeError)"

definition keyspace_name :: "bool \<Rightarrow> json dict \<Rightarrow> string" where
  "keyspace_name unit_tests config =
     (if unit_tests then ''test_'' @ shown (attr config ''cassandra_keyspace'') else shown (attr config ''cassandra_keyspace''))"

definition clear_keyspace :: "'s sysman \<Rightarrow> json dict \<Rightarrow> string \<Rightarrow> 's \<Rightarrow> ('s \<times> int) res" where
  "clear_keyspace sm config ks s =
     (if py_truthy (attr config ''db_clear_on_testing'') \<and> ks \<in> set (sm_list_keyspaces sm s)
      then rbind (sm_drop_keyspace sm ks s) (\<lambda>s'. Inr (s', 3)) else Inr (s, 0))"

definition ensure_keyspace :: "'s sysman \<Rightarrow> json dict \<Rightarrow> string \<Rightarrow> 's \<Rightarrow> ('s \<times> bool \<times> int) res" where
  "ensure_keyspace sm config ks s =
     (if ks \<notin> set (sm_list_keyspaces sm s)
      then rbind (sm_create_keyspace sm ks (shown (attr config ''cassandra_replicas'')) s) (\<lambda>s'. Inr (s', True, 3))
      else Inr (s, False, 0))"

definition ensure_column_family :: "'s sysman \<Rightarrow> string \<Rightarrow> cf_spec \<Rightarrow> 's \<times> bool \<Rightarrow> ('s \<times> bool) res" where
  "ensure_column_family sm ks spec st = (case st of (s, modified) \<Rightarrow>
     rbind (sm_column_families sm ks s) (\<lambda>names.
       if cf_name spec \<notin> set names then rbind (sm_create_column_family sm ks spec s) (\<lambda>s'. Inr (s', True))
       else Inr (s, modified)))"

definition credentials :: "json dict \<Rightarrow> json dict" where
  "credentials config =
     (if py_truthy (attr config ''cassandra_user'') \<and> py_truthy (attr config ''cassandra_pass'')
      then [(''username'', attr config ''cassandra_user''), (''password'', attr config ''cassandra_pass'')] else [])"

definition schema_check :: "'s sysman \<Rightarrow> json dict \<Rightarrow> string \<Rightarrow> 's \<Rightarrow> ('s \<times> int) res" where
  "schema_check sm config ks s =
     rbind (clear_keyspace sm config ks s) (\<lambda>(s1, t1).
     rbind (ensure_keyspace sm config ks s1) (\<lambda>(s2, created, t2).
     rbind (rfold (ensure_column_family sm ks) COLUMN_FAMILIES (s2, created)) (\<lambda>(s3, modified).
     Inr (s3, t1 + t2 + (if modified then 10 else 0)))))"

text \<open>The environment: whether unit tests run, and whether the installation is being tested.\<close>

definition db_init :: "'s sysman \<Rightarrow> bool \<Rightarrow> bool \<Rightarrow> json dict \<Rightarrow> 's \<Rightarrow> (db_handle \<times> 's) res" where
  "db_init sm unit_tests testing config s =
     (let ks = keyspace_name unit_tests config in
      rbind (first_server config) (\<lambda>server.
      case sm_reach sm server s of
        Some msg \<Rightarrow> Inl (ConnectionException (''System Manager can't connect to Cassandra at '' @ server @ '' - '' @ msg))
      | None \<Rightarrow>
          rbind (schema_check sm config ks s) (\<lambda>(s', slept).
          (case sm_pool sm ks (attr config ''cassandra_servers'') (credentials config) s' of
             Some msg \<Rightarrow> Inl (ConnectionException (''Couldn't connect to any Cassandra at '' @
               shown (attr config ''cassandra_servers'') @ '' - '' @ msg))
           | None \<Rightarrow> Inr (\<lparr>db_keyspace = ks,
               db_profiling = (py_truthy (attr config ''db_profile_on_testing'') \<and> testing), db_slept = slept\<rparr>, s')))))"

text \<open>The caches of a new connection are empty.\<close>

definition new_cass :: "'d \<Rightarrow> 'd cass" where
  "new_cass d = \<lparr>cdb = d, metadata_cache = (\<lambda>_. None), aggregation_cache = (\<lambda>_. [])\<rparr>"

subsection \<open>The connection of the REST interface\<close>

text \<open>
  When the module is loaded a failed connection leaves None; before each use it is tried again,
  and then the exception passes.
\<close>

definition initial_connection :: "'a res \<Rightarrow> 'a option res" where
  "initial_connection m = (case m of
     Inr db \<Rightarrow> Inr (Some db) | Inl (ConnectionException _) \<Rightarrow> Inr None | Inl e \<Rightarrow> Inl e)"

definition check_connection :: "'a option \<Rightarrow> 'a res \<Rightarrow> 'a option res" where
  "check_connection db connect = (case db of None \<Rightarrow> rbind connect (\<lambda>d. Inr (Some d)) | Some d \<Rightarrow> Inr (Some d))"

text \<open>A configuration without servers is not a failed connection: loading the module raises.\<close>

lemma no_servers:
  "attr config ''cassandra_servers'' = JList [] \<Longrightarrow>
     initial_connection (db_init sm unit_tests testing config s) = Inl IndexError"
  by (simp add: db_init_def first_server_def initial_connection_def Let_def)

subsection \<open>Commands\<close>

definition cassandra_init :: "'s sysman \<Rightarrow> bool \<Rightarrow> bool \<Rightarrow> json dict res \<Rightarrow> 's \<Rightarrow> (db_handle \<times> 's) res" where
  "cassandra_init sm unit_tests testing config s = rbind config (\<lambda>c. db_init sm unit_tests testing c s)"

definition cassandra_clear_and_init :: "'s sysman \<Rightarrow> bool \<Rightarrow> bool \<Rightarrow> json dict res \<Rightarrow> 's \<Rightarrow> (db_handle \<times> 's) res" where
  "cassandra_clear_and_init sm unit_tests testing config s =
     rbind config (\<lambda>c. db_init sm unit_tests testing (set_attr ''db_clear_on_testing'' (JBool True) c) s)"

subsection \<open>The contract of the system manager\<close>

text \<open>What a start makes of the families of the keyspace: those that are there stay as they are.\<close>

definition completed :: "(string \<rightharpoonup> cf_spec) \<Rightarrow> cf_spec list \<Rightarrow> string \<rightharpoonup> cf_spec" where
  "completed m specs = map_of (map (\<lambda>c. (cf_name c, c)) specs) ++ m"

lemma completed_simps: "completed m [] = m" "completed m (c # cs) = completed (if m (cf_name c) = None then m(cf_name c \<mapsto> c) else m) cs"
  by (auto simp: completed_def fun_eq_iff map_add_def split: option.split)

lemma complete_ids: "completed m specs = m" if "\<not> list_ex (\<lambda>c. cf_name c \<notin> dom m) specs"
  using that by (induction specs) (auto simp: completed_simps)

lemma completed_dom: "dom (completed m specs) = cf_name ` set specs \<union> dom m"
  by (induction specs arbitrary: m) (auto simp: completed_simps)


text \<open>The families of the keyspace when the check of its families begins, none after a clearing.\<close>

definition before_check :: "json dict \<Rightarrow> (string \<rightharpoonup> cf_spec) option \<Rightarrow> (string \<rightharpoonup> cf_spec) option" where
  "before_check config m = (if py_truthy (attr config ''db_clear_on_testing'') then None else m)"

definition families_after :: "json dict \<Rightarrow> (string \<rightharpoonup> cf_spec) option \<Rightarrow> string \<rightharpoonup> cf_spec" where
  "families_after config m =
     completed (case before_check config m of None \<Rightarrow> Map.empty | Some m \<Rightarrow> m) COLUMN_FAMILIES"

lemma find_is_map_of: "List.find (\<lambda>c. cf_name c = name) specs = map_of (map (\<lambda>c. (cf_name c, c)) specs) name"
  by (induction specs) auto

lemma families_after_lookup:
  "families_after config m name = (case (if py_truthy (attr config ''db_clear_on_testing'') then None
        else Option.bind m (\<lambda>m. m name)) of
      Some spec \<Rightarrow> Some spec | None \<Rightarrow> List.find (\<lambda>spec. cf_name spec = name) COLUMN_FAMILIES)"
  by (cases m) (auto simp: families_after_def before_check_def completed_def find_is_map_of map_add_def split: option.splits)

lemma families_after_names: "cf_name ` set COLUMN_FAMILIES \<subseteq> dom (families_after config m)"
  by (auto simp: families_after_def completed_dom)

locale schema_server =
  fixes sm :: "'s sysman"
    and schema :: "'s \<Rightarrow> string \<Rightarrow> (string \<rightharpoonup> cf_spec) option"
  assumes list_law: "set (sm_list_keyspaces sm s) = dom (schema s)"
    and drop_law: "schema s ks \<noteq> None \<Longrightarrow>
      \<exists>s'. sm_drop_keyspace sm ks s = Inr s' \<and> schema s' = (schema s)(ks := None)"
    and create_law: "schema s ks = None \<Longrightarrow>
      \<exists>s'. sm_create_keyspace sm ks r s = Inr s' \<and> schema s' = (schema s)(ks \<mapsto> Map.empty)"
    and families_law: "schema s ks = Some m \<Longrightarrow> \<exists>names. sm_column_families sm ks s = Inr names \<and> set names = dom m"
    and create_family_law: "schema s ks = Some m \<Longrightarrow> m (cf_name spec) = None \<Longrightarrow>
      \<exists>s'. sm_create_column_family sm ks spec s = Inr s' \<and> schema s' = (schema s)(ks \<mapsto> m(cf_name spec \<mapsto> spec))"
begin

lemma ensure_families:
  assumes "schema s ks = Some m"
  shows "\<exists>s'. rfold (ensure_column_family sm ks) specs (s, b) =
      Inr (s', b \<or> list_ex (\<lambda>c. cf_name c \<notin> dom m) specs) \<and> schema s' = (schema s)(ks \<mapsto> completed m specs)"
  using assms
proof (induction specs arbitrary: s m b)
  case Nil
  then show ?case by (auto simp: completed_simps)
next
  case (Cons c cs)
  obtain names where names: "sm_column_families sm ks s = Inr names" "set names = dom m"
    using families_law [OF Cons.prems] by blast
  show ?case
  proof (cases "cf_name c \<in> dom m")
    case True
    then show ?thesis
      using Cons.IH [OF Cons.prems, of b] names by (auto simp: ensure_column_family_def completed_simps dom_def)
  next
    case False
    then obtain s1 where s1: "sm_create_column_family sm ks c s = Inr s1" "schema s1 = (schema s)(ks \<mapsto> m(cf_name c \<mapsto> c))"
      using create_family_law [OF Cons.prems] by blast
    then have "schema s1 ks = Some (m(cf_name c \<mapsto> c))" by simp
    from Cons.IH [OF this, of True] obtain s' where
      "rfold (ensure_column_family sm ks) cs (s1, True) = Inr (s', True)"
      "schema s' = (schema s1)(ks \<mapsto> completed (m(cf_name c \<mapsto> c)) cs)"
      by (simp only: simp_thms) blast
    moreover have "ensure_column_family sm ks c (s, b) = Inr (s1, True)"
      using False names s1 by (simp add: ensure_column_family_def)
    moreover have "schema s' = (schema s)(ks \<mapsto> completed m (c # cs))"
      using False s1 calculation(2) by (simp add: completed_simps domIff)
    ultimately show ?thesis
      using False by (simp add: fun_upd_def)
  qed
qed

lemma cleared:
  "\<exists>s' t. clear_keyspace sm config ks s = Inr (s', t) \<and> schema s' = (schema s)(ks := before_check config (schema s ks))"
proof (cases "py_truthy (attr config ''db_clear_on_testing'') \<and> schema s ks \<noteq> None")
  case True
  then obtain s' where "sm_drop_keyspace sm ks s = Inr s'" "schema s' = (schema s)(ks := None)"
    using drop_law by blast
  then show ?thesis
    using True by (auto simp: clear_keyspace_def before_check_def list_law dom_def)
next
  case False
  then have "schema s = (schema s)(ks := before_check config (schema s ks))"
    by (auto simp: before_check_def fun_upd_idem)
  then show ?thesis
    using False by (auto simp: clear_keyspace_def list_law dom_def)
qed

lemma ensured_keyspace:
  "\<exists>s' t. ensure_keyspace sm config ks s = Inr (s', schema s ks = None, t) \<and>
      schema s' = (schema s)(ks \<mapsto> case schema s ks of None \<Rightarrow> Map.empty | Some m \<Rightarrow> m)"
proof (cases "schema s ks")
  case None
  from create_law [OF this] obtain s' where
    "sm_create_keyspace sm ks (shown (attr config ''cassandra_replicas'')) s = Inr s'"
    "schema s' = (schema s)(ks \<mapsto> Map.empty)" by blast
  then show ?thesis
    using None by (auto simp: ensure_keyspace_def list_law dom_def)
next
  case (Some m)
  then have "schema s = (schema s)(ks \<mapsto> m)"
    by (simp add: fun_upd_idem)
  then show ?thesis
    using Some by (auto simp: ensure_keyspace_def list_law dom_def)
qed

lemma schema_checked:
  "\<exists>s' t. schema_check sm config ks s = Inr (s', t) \<and>
      schema s' = (schema s)(ks \<mapsto> families_after config (schema s ks))"
proof -
  obtain s1 t1 where s1: "clear_keyspace sm config ks s = Inr (s1, t1)" "schema s1 = (schema s)(ks := before_check config (schema s ks))"
    using cleared by blast
  obtain s2 t2 where s2: "ensure_keyspace sm config ks s1 = Inr (s2, schema s1 ks = None, t2)"
    "schema s2 = (schema s1)(ks \<mapsto> case schema s1 ks of None \<Rightarrow> Map.empty | Some m \<Rightarrow> m)"
    using ensured_keyspace by blast
  define m where "m = (case before_check config (schema s ks) of None \<Rightarrow> Map.empty | Some m \<Rightarrow> m)"
  have "schema s2 ks = Some m"
    using s1 s2 by (simp add: m_def)
  from ensure_families [OF this, of COLUMN_FAMILIES "schema s1 ks = None"] obtain s3 b where
    s3: "rfold (ensure_column_family sm ks) COLUMN_FAMILIES (s2, schema s1 ks = None) = Inr (s3, b)"
    "schema s3 = (schema s2)(ks \<mapsto> completed m COLUMN_FAMILIES)" by blast
  have "schema s3 = (schema s)(ks \<mapsto> completed m COLUMN_FAMILIES)"
    using s1 s2 s3 by (simp add: fun_upd_def cong: if_cong)
  moreover have "schema_check sm config ks s = Inr (s3, t1 + t2 + (if b then 10 else 0))"
    using s1 s2 s3 by (simp add: schema_check_def)
  ultimately show ?thesis
    unfolding m_def families_after_def by blast
qed

text \<open>A complete schema is left alone, and nothing is waited for.\<close>

lemma complete_schema_left:
  assumes "schema s ks = Some m" "cf_name ` set COLUMN_FAMILIES \<subseteq> dom m" "\<not> py_truthy (attr config ''db_clear_on_testing'')"
  shows "schema_check sm config ks s = Inr (s, 0)"
proof -
  have in_m: "cf_name c \<in> dom m" if "c \<in> set COLUMN_FAMILIES" for c
    using that assms(2) by blast
  obtain names where names: "sm_column_families sm ks s = Inr names" "set names = dom m"
    using families_law [OF assms(1)] by blast
  have left: "rfold (ensure_column_family sm ks) specs (s, False) = Inr (s, False)"
    if "set specs \<subseteq> set COLUMN_FAMILIES" for specs
    using that by (induction specs) (simp_all add: ensure_column_family_def names in_m)
  show ?thesis
    using assms by (simp add: schema_check_def clear_keyspace_def ensure_keyspace_def list_law dom_def left)
qed

text \<open>The constructor, with servers that answer.\<close>

lemma init_schema:
  assumes "first_server config = Inr server" "\<And>s. sm_reach sm server s = None"
    and "\<And>s. sm_pool sm (keyspace_name unit_tests config) (attr config ''cassandra_servers'') (credentials config) s = None"
    and "ks = keyspace_name unit_tests config"
  shows "\<exists>db s'. db_init sm unit_tests testing config s = Inr (db, s') \<and> db_keyspace db = ks \<and>
     schema s' = (schema s)(ks \<mapsto> families_after config (schema s ks))"
  using schema_checked [of config ks s] assms by (auto simp: db_init_def Let_def)

lemma init_again:
  assumes "first_server config = Inr server" "\<And>s. sm_reach sm server s = None"
    and "\<And>s. sm_pool sm (keyspace_name unit_tests config) (attr config ''cassandra_servers'') (credentials config) s = None"
    and "\<not> py_truthy (attr config ''db_clear_on_testing'')"
    and "schema s (keyspace_name unit_tests config) = Some (families_after config m)"
  shows "\<exists>db. db_init sm unit_tests testing config s = Inr (db, s) \<and> db_slept db = 0"
proof -
  have "schema_check sm config (keyspace_name unit_tests config) s = Inr (s, 0)"
    by (rule complete_schema_left [OF assms(5) families_after_names assms(4)])
  then show ?thesis
    using assms(1,2,3) by (simp add: db_init_def Let_def)
qed

end

subsection \<open>A schema in memory\<close>

type_synonym memory_schema = "cf_spec dict dict"

definition memory_families :: "memory_schema \<Rightarrow> string \<Rightarrow> (string \<rightharpoonup> cf_spec) option" where
  "memory_families s ks = map_option map_of (map_of s ks)"

definition memory_sysman :: "memory_schema sysman" where
  "memory_sysman = \<lparr>
     sm_reach = (\<lambda>_ _. None),
     sm_list_keyspaces = map fst,
     sm_drop_keyspace = (\<lambda>ks s. Inr (AList.delete ks s)),
     sm_create_keyspace = (\<lambda>ks _ s. if has_key ks s then Inl (ConflictException ''keyspace'') else Inr (AList.update ks [] s)),
     sm_column_families = (\<lambda>ks s. case map_of s ks of None \<Rightarrow> Inl (NotFoundException) | Some m \<Rightarrow> Inr (map fst m)),
     sm_create_column_family = (\<lambda>ks spec s. case map_of s ks of
        None \<Rightarrow> Inl (ConflictException ''keyspace'')
      | Some m \<Rightarrow> Inr (AList.update ks (AList.update (cf_name spec) spec m) s)),
     sm_pool = (\<lambda>_ _ _ _. None)\<rparr>"

lemma names_are_dom: "set (map fst d) = dom (map_of d)"
  by (simp add: dom_map_of_conv_image_fst)

lemma memory_dom: "dom (memory_families s) = dom (map_of s)"
  by (auto simp: memory_families_def)

interpretation memory: schema_server memory_sysman memory_families
proof unfold_locales
  fix s ks r m and spec :: cf_spec
  show "set (sm_list_keyspaces memory_sysman s) = dom (memory_families s)"
    by (simp add: memory_sysman_def memory_dom names_are_dom del: set_map)
  show "\<exists>s'. sm_drop_keyspace memory_sysman ks s = Inr s' \<and> memory_families s' = (memory_families s)(ks := None)"
    by (auto simp: memory_sysman_def memory_families_def delete_conv' fun_eq_iff)
  show "memory_families s ks = None \<Longrightarrow> \<exists>s'. sm_create_keyspace memory_sysman ks r s = Inr s' \<and>
      memory_families s' = (memory_families s)(ks \<mapsto> Map.empty)"
    by (auto simp: memory_sysman_def memory_families_def has_key_map_of update_conv' fun_eq_iff)
  show "memory_families s ks = Some m \<Longrightarrow>
      \<exists>names. sm_column_families memory_sysman ks s = Inr names \<and> set names = dom m"
    by (auto simp: memory_sysman_def memory_families_def names_are_dom simp del: set_map)
  show "memory_families s ks = Some m \<Longrightarrow> \<exists>s'. sm_create_column_family memory_sysman ks spec s = Inr s' \<and>
      memory_families s' = (memory_families s)(ks \<mapsto> m(cf_name spec \<mapsto> spec))"
    by (auto simp: memory_sysman_def memory_families_def update_conv' fun_eq_iff)
qed

subsection \<open>Properties\<close>

lemma memory_answers: "sm_reach memory_sysman server s = None" "sm_pool memory_sysman ks servers creds s = None"
  by (simp_all add: memory_sysman_def)

definition sample_config :: "json dict" where
  "sample_config = set_attr ''cassandra_servers'' (JList [JStr ''localhost:9160'']) config_defaults"

lemma sample_config_facts:
  "first_server sample_config = Inr ''localhost:9160''" "keyspace_name True sample_config = ''test_esmond''"
  "\<not> py_truthy (attr sample_config ''db_clear_on_testing'')"
  by code_simp+

text \<open>
  C38. Whatever families the keyspace has, when the constructor of the database ends the keyspace
  has all four column families of the code; the families it had are as they were, unless the
  configuration asks for the keyspace to be cleared, and no other keyspace changes.
\<close>

theorem schema_completed:
  assumes "schema_server sm schema" "first_server config = Inr server" "\<And>s. sm_reach sm server s = None"
    and "\<And>s. sm_pool sm (keyspace_name unit_tests config) (attr config ''cassandra_servers'') (credentials config) s = None"
    and "ks = keyspace_name unit_tests config"
  shows "\<exists>db s'. db_init sm unit_tests testing config s = Inr (db, s') \<and> db_keyspace db = ks \<and>
     (\<exists>m. schema s' ks = Some m \<and> (\<forall>spec \<in> set COLUMN_FAMILIES. m (cf_name spec) \<noteq> None) \<and>
       (\<forall>name. m name = (case (if py_truthy (attr config ''db_clear_on_testing'') then None
            else Option.bind (schema s ks) (\<lambda>m. m name)) of
          Some spec \<Rightarrow> Some spec | None \<Rightarrow> List.find (\<lambda>spec. cf_name spec = name) COLUMN_FAMILIES))) \<and>
     (\<forall>other. other \<noteq> ks \<longrightarrow> schema s' other = schema s other)"
proof -
  from schema_server.init_schema [OF assms(1-5)] obtain db s' where
    init: "db_init sm unit_tests testing config s = Inr (db, s')" "db_keyspace db = ks"
      "schema s' = (schema s)(ks \<mapsto> families_after config (schema s ks))" by blast
  have "\<forall>spec \<in> set COLUMN_FAMILIES. families_after config (schema s ks) (cf_name spec) \<noteq> None"
    using families_after_names [of config "schema s ks"] by (auto simp: dom_def)
  with init show ?thesis
    by (intro exI [of _ db] exI [of _ s'] conjI exI [of _ "families_after config (schema s ks)"])
      (simp_all add: families_after_lookup)
qed

lemma schema_completed_witness:
  "\<exists>db s'. db_init memory_sysman True False sample_config
      [(''test_esmond'', [(''raw_data'', column_family_spec ''raw_data'' False ''BytesType'')])] = Inr (db, s') \<and>
    memory_families s' ''test_esmond'' \<noteq> None"
  using schema_completed [where testing = False and s = "[(''test_esmond'',
        [(''raw_data'', column_family_spec ''raw_data'' False ''BytesType'')])]",
      OF memory.schema_server_axioms sample_config_facts(1) memory_answers(1) memory_answers(2)
        sample_config_facts(2) [symmetric]]
  by (elim exE conjE) (intro exI conjI, assumption, simp)

text \<open>
  Opening the database a second time with the same configuration, when it does not ask for a
  clearing, changes nothing on the server and does not sleep.
\<close>

theorem second_start_changes_nothing:
  assumes "schema_server sm schema" "first_server config = Inr server" "\<And>s. sm_reach sm server s = None"
    and "\<And>s. sm_pool sm (keyspace_name unit_tests config) (attr config ''cassandra_servers'') (credentials config) s = None"
    and "\<not> py_truthy (attr config ''db_clear_on_testing'')"
  shows "\<exists>db1 s1 db2. db_init sm unit_tests testing config s = Inr (db1, s1) \<and>
     db_init sm unit_tests testing config s1 = Inr (db2, s1) \<and> db_slept db2 = 0"
proof -
  from schema_server.init_schema [OF assms(1-4) refl] obtain db1 s1 where
    init: "db_init sm unit_tests testing config s = Inr (db1, s1)"
      "schema s1 = (schema s)(keyspace_name unit_tests config \<mapsto>
         families_after config (schema s (keyspace_name unit_tests config)))" by blast
  then have "schema s1 (keyspace_name unit_tests config) =
      Some (families_after config (schema s (keyspace_name unit_tests config)))" by simp
  from schema_server.init_again [OF assms(1-5) this] init(1) show ?thesis by blast
qed

lemma second_start_changes_nothing_witness:
  "\<exists>db1 s1 db2. db_init memory_sysman True False sample_config [] = Inr (db1, s1) \<and>
     db_init memory_sysman True False sample_config s1 = Inr (db2, s1) \<and> db_slept db2 = 0"
  by (rule second_start_changes_nothing [OF memory.schema_server_axioms sample_config_facts(1)
        memory_answers(1) memory_answers(2) sample_config_facts(3)])

end
