(* ===== verification/Db_Metrics.thy ===== *)
theory Db_Metrics
  imports Py_Text
begin

section \<open>Statistics of the database calls\<close>

text \<open>
  \<open>DatabaseMetrics\<close> of \<open>esmond/cassandra.py\<close>: the time and the number of the calls of each kind and
  the lines of the report. The attributes are two dictionaries, empty unless profiling is on.
\<close>

record metrics =
  mt_profiling :: bool
  mt_time :: "pyfloat dict"
  mt_count :: "int dict"

definition individual_metrics :: "string list" where
  "individual_metrics = [''raw_insert'', ''baserate_update'', ''aggregation_update'', ''meta_fetch'', ''stat_fetch'', ''stat_update'']"

definition all_metrics :: "string list" where
  "all_metrics = individual_metrics @ [''total'', ''all'']"

definition new_metrics :: "bool \<Rightarrow> metrics" where
  "new_metrics profiling = \<lparr>mt_profiling = profiling,
     mt_time = (if profiling then map (\<lambda>m. (m, Fin 0)) individual_metrics else []),
     mt_count = (if profiling then map (\<lambda>m. (m, 0)) individual_metrics else [])\<rparr>"

definition increment :: "string \<Rightarrow> pyfloat \<Rightarrow> metrics \<Rightarrow> metrics res" where
  "increment m t st = (case (map_of (mt_time st) m, map_of (mt_count st) m) of
     (Some spent, Some count) \<Rightarrow>
       Inr (st\<lparr>mt_time := AList.update m (fadd spent t) (mt_time st), mt_count := AList.update m (count + 1) (mt_count st)\<rparr>)
   | _ \<Rightarrow> Inl AttributeError)"

text \<open>\<open>'%.3f'\<close>, the exact value of the float rounded to three places.\<close>

definition fixed3 :: "pyfloat \<Rightarrow> string" where
  "fixed3 x = (case x of NaN \<Rightarrow> ''nan'' | PInf \<Rightarrow> ''inf'' | NInf \<Rightarrow> ''-inf''
   | Fin r \<Rightarrow> (let n = round_even (\<bar>r\<bar> * 1000) in
       (if r < 0 then ''-'' else []) @ show_int (n div 1000) @ ''.'' @ padded 3 (n mod 1000)))"

definition title_case :: "string \<Rightarrow> string" where
  "title_case s = (case s of [] \<Rightarrow> []
   | c # cs \<Rightarrow> (if c \<in> set ''abcdefghijklmnopqrstuvwxyz'' then char_of ((of_char c :: nat) - 32) else c) # lower cs)"

definition per_second :: "int \<Rightarrow> pyfloat \<Rightarrow> pyfloat res" where
  "per_second count time = rbind (float_of_int count) (\<lambda>c. fdiv c time)"

definition individual_line :: "metrics \<Rightarrow> string \<Rightarrow> string res" where
  "individual_line st metric = (case (split_char (CHR ''_'') metric, map_of (mt_time st) metric, map_of (mt_count st) metric) of
     ([datatype, action], Some time, Some count) \<Rightarrow>
       if time = Fin 0 then Inr []
       else rbind (per_second count time) (\<lambda>rate. Inr (title_case action @ '' '' @ show_int count @ '' '' @ datatype @
         '' data in '' @ fixed3 time @ '' ('' @ fixed3 rate @ '' per sec)''))
   | (_, None, _) \<Rightarrow> Inl AttributeError
   | (_, _, None) \<Rightarrow> Inl AttributeError
   | _ \<Rightarrow> Inl ValueError)"

definition total_line :: "metrics \<Rightarrow> string res" where
  "total_line st =
     (let count = sum_list (map snd (mt_count st)); time = fold (\<lambda>(k, v) t. fadd t v) (mt_time st) (Fin 0) in
      if time = Fin 0 then Inr []
      else rbind (per_second count time) (\<lambda>rate. Inr (''Total: '' @ show_int count @ '' db transactions in '' @
        fixed3 time @ '' ('' @ fixed3 rate @ '' per sec)'')))"

text \<open>The printed lines; an empty line is not printed.\<close>

definition line_printed :: "string res \<Rightarrow> string list res" where
  "line_printed m = rbind m (\<lambda>l. Inr (if l = [] then [] else [l]))"

definition report_one :: "metrics \<Rightarrow> string \<Rightarrow> string list res" where
  "report_one st metric =
     line_printed (if metric \<in> set individual_metrics then individual_line st metric else total_line st)"

definition report :: "metrics \<Rightarrow> string \<Rightarrow> string list res" where
  "report st metric =
     (if \<not> mt_profiling st then Inr [''Not profiling'']
      else if metric \<notin> set all_metrics then Inr [''bad metric'']
      else if metric = ''all''
      then rbind (rmap (report_one st) (filter (\<lambda>m. m \<noteq> ''all'') all_metrics)) (\<lambda>ls. Inr (concat ls))
      else report_one st metric)"

text \<open>A number of calls in turn, and the count each kind has then.\<close>

definition record_calls :: "(string \<times> pyfloat) list \<Rightarrow> metrics \<Rightarrow> metrics res" where
  "record_calls calls st = rfold (\<lambda>(m, t). increment m t) calls st"

lemma counts_after:
  assumes "record_calls calls st = Inr st'"
  shows "map_of (mt_count st') m = map_option (\<lambda>n. n + int (length (filter (\<lambda>c. fst c = m) calls))) (map_of (mt_count st) m)"
  using assms
proof (induction calls arbitrary: st)
  case Nil
  then show ?case by (simp add: record_calls_def option.map_ident)
next
  case (Cons c calls)
  obtain k t where c: "c = (k, t)" by (cases c)
  from Cons.prems c obtain st1 where st1: "increment k t st = Inr st1" "record_calls calls st1 = Inr st'"
    by (auto simp: record_calls_def res_simps)
  have "map_of (mt_count st1) m = map_option (\<lambda>n. if k = m then n + 1 else n) (map_of (mt_count st) m)"
    using st1(1) by (auto simp: increment_def update_conv' option.map_ident split: option.splits)
  then show ?case
    using Cons.IH [OF st1(2)] c by (cases "map_of (mt_count st) m") auto
qed

lemma not_profiled: "increment m t (new_metrics False) = Inl AttributeError" "report (new_metrics False) metric = Inr [''Not profiling'']"
  by (simp_all add: increment_def new_metrics_def report_def)

text \<open>When profiling is on, every kind of call is known, so that calls are counted and no exception is raised.\<close>

lemma known_calls:
  assumes "\<forall>c \<in> set calls. fst c \<in> set individual_metrics"
  shows "\<exists>st. record_calls calls (new_metrics True) = Inr st \<and>
    (\<forall>m \<in> set individual_metrics. map_of (mt_count st) m = Some (int (length (filter (\<lambda>c. fst c = m) calls))))"
proof -
  define ok where "ok = (\<lambda>st::metrics. fst ` set (mt_time st) = set individual_metrics \<and> fst ` set (mt_count st) = set individual_metrics)"
  have step: "\<exists>st'. increment m t st = Inr st' \<and> ok st'" if "m \<in> set individual_metrics" "ok st" for m t st
  proof -
    have "map_of (mt_time st) m \<noteq> None" "map_of (mt_count st) m \<noteq> None"
      using that unfolding ok_def map_of_eq_None_iff by simp_all
    then obtain a b where "map_of (mt_time st) m = Some a" "map_of (mt_count st) m = Some b"
      by blast
    then show ?thesis
      using that by (auto simp: increment_def ok_def AList.dom_update)
  qed
  have "\<exists>st'. record_calls calls st = Inr st'" if "ok st" "\<forall>c \<in> set calls. fst c \<in> set individual_metrics" for st
    using that
  proof (induction calls arbitrary: st)
    case (Cons c calls)
    obtain k t where c: "c = (k, t)" by (cases c)
    obtain st1 where "increment k t st = Inr st1" "ok st1"
      using step [of k st t] Cons.prems c by auto
    with Cons.IH [of st1] Cons.prems(2) c show ?case by (auto simp: record_calls_def)
  qed (simp add: record_calls_def)
  moreover have "ok (new_metrics True)"
    by (simp add: ok_def new_metrics_def individual_metrics_def)
  ultimately obtain st where st: "record_calls calls (new_metrics True) = Inr st"
    using assms by blast
  have "map_of (mt_count (new_metrics True)) m = Some 0" if "m \<in> set individual_metrics" for m
    using that by (auto simp: new_metrics_def individual_metrics_def)
  then show ?thesis
    using st counts_after [OF st] by auto
qed

lemma formats: "fixed3 (Fin (3 / 4)) = ''0.750''" "fixed3 (Fin (8 / 3)) = ''2.667''" "title_case ''insert'' = ''Insert''"
  by code_simp+

end
