(* ===== verification/Accounts.thy ===== *)
theory Accounts
  imports Py_Text Api_Filters
begin

section \<open>User accounts\<close>

text \<open>
  The management commands under \<open>esmond/api/management/commands\<close> that add users, give them
  permissions and tokens and assign subnets to them, \<open>util/migrate_tastypie_keys.py\<close>, and the
  choice of the user of a request by its address (\<open>IpAuth\<close> of \<open>esmond/api/perfsonar/api_v2.py\<close>).
  The tables of Django they write are lists of rows; every row that is saved stays when the
  command fails later. The new token keys, the text of a permission and the networks of
  PostgreSQL (their text, equality, containment and order) are arguments.
\<close>

subsection \<open>The tables\<close>

text \<open>Users with their \<open>is_staff\<close>, tokens by key, as it is their primary key, and the printed lines.\<close>

record 'n accounts =
  user_rows :: "bool dict"
  token_rows :: "string dict"
  api_keys :: "string dict"
  permission_rows :: "string list"
  granted :: "(string \<times> string) list"
  address_rows :: "('n \<times> string) list"
  printed :: "string list"

type_synonym ('n, 'a) command = "'n accounts \<Rightarrow> 'a res \<times> 'n accounts"

definition cbind :: "('n, 'a) command \<Rightarrow> ('a \<Rightarrow> ('n, 'b) command) \<Rightarrow> ('n, 'b) command" where
  "cbind m f s = (case m s of (Inl e, s') \<Rightarrow> (Inl e, s') | (Inr x, s') \<Rightarrow> f x s')"

definition done_with :: "'a \<Rightarrow> ('n, 'a) command" where
  "done_with x s = (Inr x, s)"

definition raised :: "exn \<Rightarrow> ('n, 'a) command" where
  "raised e s = (Inl e, s)"

definition lifted :: "'a res \<Rightarrow> ('n, 'a) command" where
  "lifted r s = (r, s)"

definition print_line :: "string \<Rightarrow> ('n, unit) command" where
  "print_line l s = (Inr (), s\<lparr>printed := printed s @ [l]\<rparr>)"

fun for_each :: "('a \<Rightarrow> ('n, unit) command) \<Rightarrow> 'a list \<Rightarrow> ('n, unit) command" where
  "for_each f [] = done_with ()"
| "for_each f (x # xs) = cbind (f x) (\<lambda>_. for_each f xs)"

subsection \<open>Users, tokens and permissions\<close>

definition ensure_user :: "string \<Rightarrow> ('n, unit) command" where
  "ensure_user user s =
     (if has_key user (user_rows s) then print_line (''User '' @ user @ '' exists'') s
      else cbind (print_line (''User '' @ user @ '' does not exist - creating''))
        (\<lambda>_ s. (Inr (), s\<lparr>user_rows := AList.update user True (user_rows s)\<rparr>)) s)"

definition token_of :: "string \<Rightarrow> 'n accounts \<Rightarrow> string option" where
  "token_of user s = map_option fst (List.find (\<lambda>(k, u). u = user) (token_rows s))"

text \<open>\<open>Token.objects.create\<close> inserts a row, and \<open>token.save()\<close> writes over the row of its key.\<close>

definition create_token :: "string \<Rightarrow> string \<Rightarrow> ('n, string) command" where
  "create_token user key s =
     (if has_key key (token_rows s) then (Inl (ConflictException ''IntegrityError''), s)
      else (Inr key, s\<lparr>token_rows := token_rows s @ [(key, user)]\<rparr>))"

definition generate_api_key_for_user :: "string \<Rightarrow> string \<Rightarrow> ('n, unit) command" where
  "generate_api_key_for_user new_key user s =
     cbind (case token_of user s of
         Some key \<Rightarrow> cbind (print_line (''User '' @ user @ '' already has api key, skipping creation'')) (\<lambda>_. done_with key)
       | None \<Rightarrow> cbind (print_line (''User '' @ user @ '' does not have an api key - creating''))
           (\<lambda>_. create_token user new_key))
       (\<lambda>key. print_line (''Key: '' @ key)) s"

definition add_api_key_user :: "string \<Rightarrow> string \<Rightarrow> ('n, unit) command" where
  "add_api_key_user new_key user = cbind (ensure_user user) (\<lambda>_. generate_api_key_for_user new_key user)"

definition grant :: "string \<Rightarrow> string \<Rightarrow> ('n, unit) command" where
  "grant user codename s = (case filter (\<lambda>c. c = codename) (permission_rows s) of
     [] \<Rightarrow> (Inl DoesNotExist, s)
   | [_] \<Rightarrow> (Inr (), s\<lparr>granted := List.insert (user, codename) (granted s)\<rparr>)
   | _ \<Rightarrow> (Inl MultipleObjectsReturned, s))"

definition metadata_permissions :: "string list" where
  "metadata_permissions = concat (map (\<lambda>model. map (\<lambda>perm. perm @ ''_'' @ model) [''add'', ''change'', ''delete''])
     [''psmetadata'', ''pspointtopointsubject'', ''pseventtypes'', ''psmetadataparameters'', ''psnetworkelementsubject''])"

definition timeseries_permissions :: "string list" where
  "timeseries_permissions = map (\<lambda>perm. ''esmond_api.'' @ perm @ ''_timeseries'') [''view'', ''add'', ''change'', ''delete'']"

text \<open>The permission is printed once it is found, before it is added.\<close>

definition grant_metadata :: "(string \<Rightarrow> string) \<Rightarrow> string \<Rightarrow> ('n, unit) command" where
  "grant_metadata perm_text user = cbind (print_line ''Setting metadata POST permissions.'')
     (\<lambda>_. for_each (\<lambda>c. cbind (\<lambda>s. if length (filter (\<lambda>c'. c' = c) (permission_rows s)) = 1 then print_line (perm_text c) s else (Inr (), s))
        (\<lambda>_. grant user c)) metadata_permissions)"

definition grant_timeseries :: "string \<Rightarrow> ('n, unit) command" where
  "grant_timeseries user = cbind (print_line ''Setting timeseries permissions.'')
     (\<lambda>_. for_each (grant user) timeseries_permissions)"

definition add_ps_metadata_post_user :: "(string \<Rightarrow> string) \<Rightarrow> string \<Rightarrow> string \<Rightarrow> ('n, unit) command" where
  "add_ps_metadata_post_user perm_text new_key user =
     cbind (ensure_user user) (\<lambda>_. cbind (grant_metadata perm_text user) (\<lambda>_. generate_api_key_for_user new_key user))"

definition add_timeseries_post_user :: "string \<Rightarrow> string \<Rightarrow> ('n, unit) command" where
  "add_timeseries_post_user new_key user =
     cbind (ensure_user user) (\<lambda>_. cbind (grant_timeseries user) (\<lambda>_. generate_api_key_for_user new_key user))"

subsection \<open>Subnets\<close>

text \<open>The networks of the database: their text, whether one holds an address, and their order.\<close>

record 'n networks =
  net_of_text :: "string \<Rightarrow> 'n res"
  net_text :: "'n \<Rightarrow> string"
  net_holds :: "'n \<Rightarrow> string \<Rightarrow> bool"
  net_le :: "'n \<Rightarrow> 'n \<Rightarrow> bool"

definition add_address :: "'n networks \<Rightarrow> string \<Rightarrow> string \<Rightarrow> ('n, unit) command" where
  "add_address nets user ip_addr = cbind (lifted (net_of_text nets ip_addr)) (\<lambda>n s.
     case map_of (address_rows s) n of
       Some owner \<Rightarrow> print_line (''IP '' @ net_text nets n @ '' already assigned to '' @ owner @ '', skipping creation'') s
     | None \<Rightarrow> cbind (print_line (''Creating entry for IP '' @ ip_addr @ '' belonging to '' @ user))
         (\<lambda>_ s. (Inr (), s\<lparr>address_rows := address_rows s @ [(n, user)]\<rparr>)) s)"

definition add_user_ip_address ::
  "'n networks \<Rightarrow> (string \<Rightarrow> string) \<Rightarrow> string \<Rightarrow> string list \<Rightarrow> ('n, unit) command" where
  "add_user_ip_address nets perm_text user ips =
     cbind (ensure_user user) (\<lambda>_. cbind (grant_metadata perm_text user) (\<lambda>_. cbind (grant_timeseries user)
       (\<lambda>_. for_each (add_address nets user) ips)))"

definition delete_address :: "'n networks \<Rightarrow> string \<Rightarrow> string \<Rightarrow> bool \<Rightarrow> ('n, bool) command" where
  "delete_address nets user ip_addr failed = cbind (lifted (net_of_text nets ip_addr)) (\<lambda>n s.
     if (n, user) \<in> set (address_rows s)
     then cbind (\<lambda>s. (Inr (), s\<lparr>address_rows := filter (\<lambda>r. r \<noteq> (n, user)) (address_rows s)\<rparr>))
       (\<lambda>_. cbind (print_line (''Deleted IP '' @ ip_addr @ '' for user '' @ user)) (\<lambda>_. done_with failed)) s
     else cbind (print_line (''Unable to find '' @ ip_addr @ '' belonging to '' @ user)) (\<lambda>_. done_with True) s)"

fun delete_addresses :: "'n networks \<Rightarrow> string \<Rightarrow> string list \<Rightarrow> bool \<Rightarrow> ('n, bool) command" where
  "delete_addresses nets user [] failed = done_with failed"
| "delete_addresses nets user (ip # ips) failed =
     cbind (delete_address nets user ip failed) (delete_addresses nets user ips)"

definition no_such_user :: "string \<Rightarrow> exn" where
  "no_such_user user = CommandError (''User '' @ user @ '' does not exist'')"

definition delete_user_ip_address :: "'n networks \<Rightarrow> string \<Rightarrow> string list \<Rightarrow> ('n, unit) command" where
  "delete_user_ip_address nets user ips s =
     (if \<not> has_key user (user_rows s) then (Inl (no_such_user user), s)
      else cbind (delete_addresses nets user ips False) (\<lambda>failed.
        if failed then raised (CommandError ''Some or all deletions failed. See output above for details.'')
        else print_line ''Successfully deleted user IP(s)'') s)"

definition list_user_ip_address :: "'n networks \<Rightarrow> string option \<Rightarrow> ('n, unit) command" where
  "list_user_ip_address nets user s = (case user of
     Some u \<Rightarrow>
       if \<not> has_key u (user_rows s) then (Inl (no_such_user u), s)
       else (case filter (\<lambda>r. snd r = u) (address_rows s) of
         [] \<Rightarrow> print_line (''No IP addresses found belonging to user '' @ u) s
       | rows \<Rightarrow> for_each (\<lambda>(n, owner). print_line (owner @ '' '' @ net_text nets n)) rows s)
   | None \<Rightarrow> (case address_rows s of
         [] \<Rightarrow> print_line ''No IP addresses found'' s
       | rows \<Rightarrow> for_each (\<lambda>(n, owner). print_line (owner @ '' '' @ net_text nets n)) rows s))"

subsection \<open>The user of an address\<close>

text \<open>\<open>filter(ip__net_contains_or_equals=remoteip).order_by('-ip')\<close>.\<close>

fun insert_net :: "('n \<Rightarrow> 'n \<Rightarrow> bool) \<Rightarrow> 'n \<times> 'u \<Rightarrow> ('n \<times> 'u) list \<Rightarrow> ('n \<times> 'u) list" where
  "insert_net le r [] = [r]"
| "insert_net le r (x # xs) = (if le (fst x) (fst r) then r # x # xs else x # insert_net le r xs)"

definition subnets_of :: "'n networks \<Rightarrow> ('n \<times> string) list \<Rightarrow> string \<Rightarrow> ('n \<times> string) list" where
  "subnets_of nets rows remoteip = foldr (insert_net (net_le nets)) (filter (\<lambda>(n, u). net_holds nets n remoteip) rows) []"

definition authenticate :: "'n networks \<Rightarrow> 'n accounts \<Rightarrow> string dict \<Rightarrow> string option res" where
  "authenticate nets s meta = ip_authenticate (\<lambda>ip. Some (map snd (subnets_of nets (address_rows s) ip))) meta"

subsection \<open>The old keys\<close>

definition migrate_user :: "(string \<Rightarrow> string \<Rightarrow> string) \<Rightarrow> string \<Rightarrow> ('n, unit) command" where
  "migrate_user key_text user s = (case map_of (api_keys s) user of
     None \<Rightarrow> print_line (''User '' @ user @ '' does not have an old api key - skipping'') s
   | Some tp_key \<Rightarrow> (case token_of user s of
       Some key \<Rightarrow> cbind (print_line (''Key   '' @ key_text tp_key user @ '' exists for user '' @ user)) (\<lambda>_.
         cbind (print_line (''Token '' @ key @ '' exists for user '' @ user)) (\<lambda>_ s. (Inr (),
           s\<lparr>token_rows := (if key \<noteq> tp_key then AList.update tp_key user (AList.delete key (token_rows s)) else token_rows s),
             api_keys := AList.delete user (api_keys s)\<rparr>))) s
     | None \<Rightarrow> cbind (create_token user tp_key) (\<lambda>key.
         cbind (\<lambda>s. (Inr (), s\<lparr>api_keys := AList.delete user (api_keys s)\<rparr>)) (\<lambda>_.
         print_line (''Token '' @ key @ '' created for user '' @ user))) s))"

definition migrate_tastypie_keys :: "(string \<Rightarrow> string \<Rightarrow> string) \<Rightarrow> ('n, unit) command" where
  "migrate_tastypie_keys key_text s = for_each (migrate_user key_text) (map fst (user_rows s)) s"

end
