(* ===== verification/Accounts_Facts.thy ===== *)
theory Accounts_Facts
  imports Accounts "HOL-Library.Code_Target_Nat"
begin

section \<open>What the account commands promise\<close>

text \<open>
  The order of networks picks the owner of the most specific subnet of an address; adding
  subnets makes their addresses authenticate; deleting takes rows of the named user only; and
  the migration gives every user with an old key a token of that key.
\<close>

subsection \<open>Commands\<close>

lemma cbind_Inr: "cbind m f s = (Inr y, s') \<longleftrightarrow> (\<exists>x t. m s = (Inr x, t) \<and> f x t = (Inr y, s'))"
  by (auto simp: cbind_def split: prod.splits sum.splits)

lemma cbind_step: "m s = (Inr x, t) \<Longrightarrow> cbind m f s = f x t"
  by (simp add: cbind_def)

lemma print_line_Inr: "print_line l s = (Inr x, s') \<longleftrightarrow> s' = s\<lparr>printed := printed s @ [l]\<rparr>"
  by (auto simp: print_line_def)

lemmas command_simps = cbind_Inr print_line_Inr done_with_def raised_def lifted_def

text \<open>What every step of a loop keeps holds at its end; what one step sets up and the others keep, too.\<close>

lemma for_each_invariant:
  assumes "for_each f xs s = (Inr (), s')" "P s"
    and "\<And>x s s'. x \<in> set xs \<Longrightarrow> P s \<Longrightarrow> f x s = (Inr (), s') \<Longrightarrow> P s'"
  shows "P s'"
  using assms
proof (induction xs arbitrary: s)
  case Nil
  then show ?case by (simp add: done_with_def)
next
  case (Cons x xs)
  from Cons.prems(1) obtain t where t: "f x s = (Inr (), t)" "for_each f xs t = (Inr (), s')"
    by (auto simp: cbind_Inr)
  have "P t" using Cons.prems(3) [of x s t] Cons.prems(2) t(1) by simp
  then show ?case
    using Cons.IH [OF t(2)] Cons.prems(3) by auto
qed

lemma for_each_reaches:
  assumes "for_each f xs s = (Inr (), s')" "x \<in> set xs"
    and "\<And>s s'. f x s = (Inr (), s') \<Longrightarrow> P s'"
    and "\<And>y s s'. P s \<Longrightarrow> f y s = (Inr (), s') \<Longrightarrow> P s'"
  shows "P s'"
  using assms(1,2)
proof (induction xs arbitrary: s)
  case (Cons y ys)
  from Cons.prems(1) obtain t where t: "f y s = (Inr (), t)" "for_each f ys t = (Inr (), s')"
    by (auto simp: cbind_Inr)
  show ?case
  proof (cases "x = y")
    case True
    then have "P t" using assms(3) t(1) by simp
    then show ?thesis
      using for_each_invariant [OF t(2)] assms(4) by blast
  next
    case False
    then show ?thesis using Cons t(2) by simp
  qed
qed simp

subsection \<open>Permissions\<close>

lemma grant_Inr: "grant user c s = (Inr (), s') \<Longrightarrow> s' = s\<lparr>granted := List.insert (user, c) (granted s)\<rparr>"
  by (auto simp: grant_def split: list.splits)

lemma ensure_user_Inr:
  "ensure_user user s = (Inr (), s') \<Longrightarrow>
     has_key user (user_rows s') \<and> address_rows s' = address_rows s \<and> granted s' = granted s"
  by (auto simp: ensure_user_def command_simps has_key_map_of update_conv' split: if_splits)

lemma grant_metadata_Inr:
  assumes "grant_metadata perm_text user s = (Inr (), s')"
  shows "(\<forall>c \<in> set metadata_permissions. (user, c) \<in> set (granted s')) \<and> set (granted s) \<subseteq> set (granted s') \<and>
     address_rows s' = address_rows s \<and> user_rows s' = user_rows s"
proof -
  define f :: "string \<Rightarrow> ('a, unit) command" where
    "f = (\<lambda>c. cbind (\<lambda>s. if length (filter (\<lambda>c'. c' = c) (permission_rows s)) = 1 then print_line (perm_text c) s else (Inr (), s))
        (\<lambda>_. grant user c))"
  obtain t where t: "granted t = granted s" "address_rows t = address_rows s" "user_rows t = user_rows s"
    "for_each f metadata_permissions t = (Inr (), s')"
    using assms by (intro that [of "s\<lparr>printed := printed s @ [''Setting metadata POST permissions.'']\<rparr>"])
      (auto simp: grant_metadata_def command_simps f_def)
  have step: "set (granted s') = insert (user, c) (set (granted s)) \<and> address_rows s' = address_rows s \<and> user_rows s' = user_rows s"
    if "f c s = (Inr (), s')" for c s s'
    using that by (auto simp: f_def command_simps dest!: grant_Inr split: if_splits)
  have "(user, c) \<in> set (granted s')" if "c \<in> set metadata_permissions" for c
    by (rule for_each_reaches [OF t(4) that]) (auto dest: step)
  moreover have "set (granted s) \<subseteq> set (granted s') \<and> address_rows s' = address_rows s \<and> user_rows s' = user_rows s"
    by (rule for_each_invariant [OF t(4)]) (use t in \<open>auto dest: step\<close>)
  ultimately show ?thesis by blast
qed

lemma grant_timeseries_Inr:
  assumes "grant_timeseries user s = (Inr (), s')"
  shows "(\<forall>c \<in> set timeseries_permissions. (user, c) \<in> set (granted s')) \<and> set (granted s) \<subseteq> set (granted s') \<and>
     address_rows s' = address_rows s \<and> user_rows s' = user_rows s"
proof -
  obtain t where t: "granted t = granted s" "address_rows t = address_rows s" "user_rows t = user_rows s"
    "for_each (grant user) timeseries_permissions t = (Inr (), s')"
    using assms by (intro that [of "s\<lparr>printed := printed s @ [''Setting timeseries permissions.'']\<rparr>"])
      (auto simp: grant_timeseries_def command_simps)
  have "(user, c) \<in> set (granted s')" if "c \<in> set timeseries_permissions" for c
    by (rule for_each_reaches [OF t(4) that]) (auto dest: grant_Inr)
  moreover have "set (granted s) \<subseteq> set (granted s') \<and> address_rows s' = address_rows s \<and> user_rows s' = user_rows s"
    by (rule for_each_invariant [OF t(4)]) (use t in \<open>auto dest!: grant_Inr\<close>)
  ultimately show ?thesis by blast
qed

subsection \<open>Adding subnets\<close>

lemma add_address_Inr:
  assumes "add_address nets user ip s = (Inr (), s')"
  shows "\<exists>n. net_of_text nets ip = Inr n \<and> granted s' = granted s \<and> user_rows s' = user_rows s \<and>
     address_rows s' = (if map_of (address_rows s) n = None then address_rows s @ [(n, user)] else address_rows s)"
  using assms by (auto simp: add_address_def command_simps split: option.splits)

lemma add_address_step:
  assumes "add_address nets user ip s = (Inr (), s')"
  shows "set (address_rows s) \<subseteq> set (address_rows s')" "granted s' = granted s" "user_rows s' = user_rows s"
    and "map_of (address_rows s') m = map_of (address_rows s) m \<or>
      map_of (address_rows s) m = None \<and> map_of (address_rows s') m = Some user"
  using add_address_Inr [OF assms] by (auto simp: map_add_def split: if_splits option.splits)

lemma add_addresses_Inr:
  assumes "for_each (add_address nets user) ips s = (Inr (), s')"
  shows "set (address_rows s) \<subseteq> set (address_rows s') \<and> granted s' = granted s \<and> user_rows s' = user_rows s"
    and "\<forall>m. map_of (address_rows s') m = map_of (address_rows s) m \<or>
      map_of (address_rows s) m = None \<and> map_of (address_rows s') m = Some user"
proof -
  show "set (address_rows s) \<subseteq> set (address_rows s') \<and> granted s' = granted s \<and> user_rows s' = user_rows s"
    by (rule for_each_invariant [OF assms]) (auto dest: add_address_step)
  show "\<forall>m. map_of (address_rows s') m = map_of (address_rows s) m \<or>
      map_of (address_rows s) m = None \<and> map_of (address_rows s') m = Some user"
  proof (rule for_each_invariant [OF assms])
    fix ip t t'
    assume before: "\<forall>m. map_of (address_rows t) m = map_of (address_rows s) m \<or>
      map_of (address_rows s) m = None \<and> map_of (address_rows t) m = Some user"
      and step: "add_address nets user ip t = (Inr (), t')"
    show "\<forall>m. map_of (address_rows t') m = map_of (address_rows s) m \<or>
      map_of (address_rows s) m = None \<and> map_of (address_rows t') m = Some user"
      using add_address_step(4) [OF step] before by metis
  qed simp
qed

lemma added_address:
  assumes "for_each (add_address nets user) ips s = (Inr (), s')" "ip \<in> set ips" "net_of_text nets ip = Inr n"
  shows "map_of (address_rows s') n \<noteq> None"
proof (rule for_each_reaches [OF assms(1,2)])
  show "map_of (address_rows t') n \<noteq> None" if "add_address nets user ip t = (Inr (), t')" for t t' :: "'a accounts"
    using add_address_Inr [OF that] assms(3) by (auto simp: map_add_def split: if_splits)
  show "map_of (address_rows t') n \<noteq> None"
    if "map_of (address_rows t) n \<noteq> None" "add_address nets user ip' t = (Inr (), t')" for ip' t t'
    using add_address_step(4) [OF that(2), of n] that(1) by auto
qed

subsection \<open>The most specific subnet\<close>

text \<open>What PostgreSQL documents of networks: their order is total, and the later of two networks with a common address is inside the earlier.\<close>

locale network_order =
  fixes nets :: "'n networks"
  assumes total: "net_le nets a b \<or> net_le nets b a"
    and trans: "net_le nets a b \<Longrightarrow> net_le nets b c \<Longrightarrow> net_le nets a c"
    and nested: "net_le nets a b \<Longrightarrow> net_holds nets a x \<Longrightarrow> net_holds nets b x \<Longrightarrow> net_holds nets b y \<Longrightarrow> net_holds nets a y"
begin

lemma insert_net_set: "set (insert_net le r xs) = insert r (set xs)"
  by (induction xs) auto

lemma subnets_set: "set (subnets_of nets rows x) = {(n, u) \<in> set rows. net_holds nets n x}"
proof -
  have "set (foldr (insert_net (net_le nets)) xs []) = set xs" for xs :: "('n \<times> string) list"
    by (induction xs) (auto simp: insert_net_set)
  then show ?thesis by (auto simp: subnets_of_def)
qed

lemma insert_net_hd:
  assumes le: "\<And>r. r \<in> set xs \<Longrightarrow> net_le nets (fst r) (fst (hd xs))" and r': "r' \<in> set (insert_net (net_le nets) r xs)"
  shows "net_le nets (fst r') (fst (hd (insert_net (net_le nets) r xs)))"
proof (cases xs)
  case Nil
  then show ?thesis using r' total [of "fst r" "fst r"] by simp
next
  case (Cons y ys)
  have le_y: "net_le nets (fst z) (fst y)" if "z \<in> set xs" for z
    using le [OF that] Cons by simp
  show ?thesis
  proof (cases "net_le nets (fst y) (fst r)")
    case True
    have le_r: "net_le nets (fst z) (fst r)" if "z \<in> insert r (set xs)" for z
      using that trans [OF le_y True, of z] total [of "fst r" "fst r"] by blast
    have "insert_net (net_le nets) r xs = r # xs"
      using True Cons by simp
    then show ?thesis
      using r' le_r by simp
  next
    case False
    have le_y': "net_le nets (fst z) (fst y)" if "z \<in> insert r (set xs)" for z
      using that le_y [of z] total [of "fst r" "fst y"] False by blast
    have "hd (insert_net (net_le nets) r xs) = y"
      using False Cons by simp
    then show ?thesis
      using r' le_y' by (simp add: insert_net_set)
  qed
qed

lemma subnets_hd:
  "r \<in> set (subnets_of nets rows x) \<Longrightarrow> net_le nets (fst r) (fst (hd (subnets_of nets rows x)))"
proof -
  have "r \<in> set (foldr (insert_net (net_le nets)) xs []) \<Longrightarrow>
      net_le nets (fst r) (fst (hd (foldr (insert_net (net_le nets)) xs [])))" for xs r
  proof (induction xs arbitrary: r)
    case (Cons y ys)
    show ?case
      using insert_net_hd [of "foldr (insert_net (net_le nets)) ys []" r y] Cons by simp
  qed simp
  then show "r \<in> set (subnets_of nets rows x) \<Longrightarrow> net_le nets (fst r) (fst (hd (subnets_of nets rows x)))"
    by (simp add: subnets_of_def)
qed

lemma most_specific:
  assumes "(n, u) \<in> set rows" "net_holds nets n x"
  shows "\<exists>m owner rest. subnets_of nets rows x = (m, owner) # rest \<and> (m, owner) \<in> set rows \<and> net_holds nets m x \<and>
     (\<forall>(m', u') \<in> set rows. net_holds nets m' x \<longrightarrow> (\<forall>y. net_holds nets m y \<longrightarrow> net_holds nets m' y))"
proof -
  have "(n, u) \<in> set (subnets_of nets rows x)"
    using assms by (simp add: subnets_set)
  then obtain m owner rest where hd: "subnets_of nets rows x = (m, owner) # rest"
    by (cases "subnets_of nets rows x") auto
  then have m: "(m, owner) \<in> set rows" "net_holds nets m x"
    using subnets_set [of rows x] by auto
  moreover have "net_holds nets m' y" if "(m', u') \<in> set rows" "net_holds nets m' x" "net_holds nets m y" for m' u' y
  proof -
    have "(m', u') \<in> set (subnets_of nets rows x)"
      using that by (simp add: subnets_set)
    from subnets_hd [OF this] have "net_le nets m' m"
      by (simp add: hd)
    then show ?thesis
      using nested that m(2) by blast
  qed
  ultimately show ?thesis
    using hd by blast
qed

end

subsection \<open>Networks of IPv4\<close>

text \<open>A network is the number of its prefix and its length, and its text \<open>a.b.c.d/length\<close>.\<close>

definition ipv4_address :: "string \<Rightarrow> nat option" where
  "ipv4_address s = (case map parse_int (split_char (CHR ''.'') s) of
     [Some a, Some b, Some c, Some d] \<Rightarrow>
       if {a, b, c, d} \<subseteq> {0..255} then Some (nat (((a * 256 + b) * 256 + c) * 256 + d)) else None
   | _ \<Rightarrow> None)"

definition ipv4_network :: "string \<Rightarrow> (nat \<times> nat) res" where
  "ipv4_network s = (case split_char (CHR ''/'') s of
     [a] \<Rightarrow> (case ipv4_address a of Some w \<Rightarrow> Inr (w, 32) | None \<Rightarrow> Inl ValueError)
   | [a, l] \<Rightarrow> (case (ipv4_address a, parse_int l) of
       (Some w, Some n) \<Rightarrow> if 0 \<le> n \<and> n \<le> 32 \<and> w mod 2 ^ (32 - nat n) = 0 then Inr (w div 2 ^ (32 - nat n), nat n)
         else Inl ValueError
     | _ \<Rightarrow> Inl ValueError)
   | _ \<Rightarrow> Inl ValueError)"

definition ipv4_base :: "nat \<times> nat \<Rightarrow> nat" where
  "ipv4_base n = fst n * 2 ^ (32 - snd n)"

definition ipv4_networks :: "(nat \<times> nat) networks" where
  "ipv4_networks = \<lparr>
     net_of_text = ipv4_network,
     net_text = (\<lambda>n. join ''.'' (map (\<lambda>k. show_nat (ipv4_base n div 256 ^ k mod 256)) [3, 2, 1, 0]) @ ''/'' @ show_nat (snd n)),
     net_holds = (\<lambda>(p, l) s. case ipv4_address s of None \<Rightarrow> False | Some w \<Rightarrow> w div 2 ^ (32 - l) = p),
     net_le = (\<lambda>a b. ipv4_base a < ipv4_base b \<or> ipv4_base a = ipv4_base b \<and> snd a \<le> snd b)\<rparr>"

lemma longer_prefix:
  assumes "(l::nat) \<le> k"
  shows "(x::nat) div 2 ^ (32 - l) = x div 2 ^ (32 - k) div 2 ^ ((32 - l) - (32 - k))"
proof -
  have "32 - l = (32 - k) + ((32 - l) - (32 - k))"
    using assms by simp
  then show ?thesis
    by (metis div_mult2_eq power_add)
qed

interpretation ipv4: network_order ipv4_networks
proof unfold_locales
  fix a b c :: "nat \<times> nat"
  show "net_le ipv4_networks a b \<or> net_le ipv4_networks b a"
    by (auto simp: ipv4_networks_def)
  show "net_le ipv4_networks a b \<Longrightarrow> net_le ipv4_networks b c \<Longrightarrow> net_le ipv4_networks a c"
    by (auto simp: ipv4_networks_def)
next
  fix a b :: "nat \<times> nat" and x y
  assume le: "net_le ipv4_networks a b" and ax: "net_holds ipv4_networks a x" and bx: "net_holds ipv4_networks b x"
    and "by": "net_holds ipv4_networks b y"
  obtain p l where a: "a = (p, l)" by (cases a)
  obtain q k where b: "b = (q, k)" by (cases b)
  obtain w where w: "ipv4_address x = Some w" "w div 2 ^ (32 - l) = p" "w div 2 ^ (32 - k) = q"
    using ax bx a b by (auto simp: ipv4_networks_def split: option.splits)
  obtain v where v: "ipv4_address y = Some v" "v div 2 ^ (32 - k) = q"
    using "by" b by (auto simp: ipv4_networks_def split: option.splits)
  show "net_holds ipv4_networks a y"
  proof (cases "l \<le> k")
    case True
    then have "v div 2 ^ (32 - l) = p"
      using longer_prefix [OF True, of w] longer_prefix [OF True, of v] w v by simp
    then show ?thesis
      using v a by (simp add: ipv4_networks_def)
  next
    case False
    then have kl: "k \<le> l" by simp
    have "q = p div 2 ^ ((32 - k) - (32 - l))"
      using longer_prefix [OF kl, of w] w by simp
    then have "q * 2 ^ ((32 - k) - (32 - l)) \<le> p"
      by simp
    then have "q * 2 ^ ((32 - k) - (32 - l)) * 2 ^ (32 - l) \<le> p * 2 ^ (32 - l)"
      by (rule mult_right_mono) simp
    moreover have "(2::nat) ^ (32 - k) = 2 ^ ((32 - k) - (32 - l)) * 2 ^ (32 - l)"
      using kl by (simp add: power_add [symmetric])
    ultimately have "ipv4_base b \<le> ipv4_base a"
      by (simp add: ipv4_base_def a b)
    then have False
      using le False a b by (auto simp: ipv4_networks_def)
    then show ?thesis ..
  qed
qed

subsection \<open>Deleting subnets\<close>

lemma delete_address_Inr:
  assumes "net_of_text nets ip = Inr n"
  shows "\<exists>s'. delete_address nets user ip failed s = (Inr (failed \<or> (n, user) \<notin> set (address_rows s)), s') \<and>
     address_rows s' = filter (\<lambda>r. r \<noteq> (n, user)) (address_rows s) \<and> user_rows s' = user_rows s"
  using assms by (auto simp: delete_address_def command_simps cbind_def print_line_def intro!: filter_True [symmetric])

fun all_found :: "('n \<times> string) set \<Rightarrow> string \<Rightarrow> 'n list \<Rightarrow> bool" where
  "all_found rows user [] = True"
| "all_found rows user (n # ns) \<longleftrightarrow> (n, user) \<in> rows \<and> all_found (rows - {(n, user)}) user ns"

lemma all_found_iff: "all_found rows user ns \<longleftrightarrow> distinct ns \<and> (\<forall>n \<in> set ns. (n, user) \<in> rows)"
  by (induction ns arbitrary: rows) auto

lemma delete_addresses_Inr:
  assumes "list_all2 (\<lambda>ip n. net_of_text nets ip = Inr n) ips ns"
  shows "\<exists>s'. delete_addresses nets user ips failed s = (Inr (failed \<or> \<not> all_found (set (address_rows s)) user ns), s') \<and>
     address_rows s' = filter (\<lambda>(n, u). \<not> (u = user \<and> n \<in> set ns)) (address_rows s) \<and> user_rows s' = user_rows s"
  using assms
proof (induction ips ns arbitrary: failed s rule: list_all2_induct)
  case Nil
  then show ?case by (auto simp: done_with_def intro!: filter_True [symmetric])
next
  case (Cons ip ips n ns)
  obtain t where t: "delete_address nets user ip failed s = (Inr (failed \<or> (n, user) \<notin> set (address_rows s)), t)"
    "address_rows t = filter (\<lambda>r. r \<noteq> (n, user)) (address_rows s)" "user_rows t = user_rows s"
    using delete_address_Inr [OF Cons.hyps(1)] by blast
  obtain s' where s': "delete_addresses nets user ips (failed \<or> (n, user) \<notin> set (address_rows s)) t =
      (Inr ((failed \<or> (n, user) \<notin> set (address_rows s)) \<or> \<not> all_found (set (address_rows t)) user ns), s')"
    "address_rows s' = filter (\<lambda>(n, u). \<not> (u = user \<and> n \<in> set ns)) (address_rows t)" "user_rows s' = user_rows t"
    using Cons.IH by blast
  have "set (address_rows t) = set (address_rows s) - {(n, user)}"
    using t(2) by auto
  moreover have "filter (\<lambda>(m, u). \<not> (u = user \<and> m \<in> set (n # ns))) (address_rows s) =
      filter (\<lambda>(m, u). \<not> (u = user \<and> m \<in> set ns)) (filter (\<lambda>r. r \<noteq> (n, user)) (address_rows s))"
    by (auto intro!: filter_cong)
  ultimately show ?case
    using t s' by (auto simp: cbind_step)
qed

subsection \<open>Migrating the old keys\<close>

text \<open>
  The tables before the migration: keys and users are unique in the tokens and in the old keys, and
  no old key is the token of another user.
\<close>

definition keys_consistent :: "'n accounts \<Rightarrow> bool" where
  "keys_consistent s \<longleftrightarrow> distinct (map fst (token_rows s)) \<and> distinct (map snd (token_rows s)) \<and>
     distinct (map fst (api_keys s)) \<and> distinct (map snd (api_keys s)) \<and>
     (\<forall>(u, k) \<in> set (api_keys s). \<forall>(k', u') \<in> set (token_rows s). k' = k \<longrightarrow> u' = u)"

lemma find_pair: "distinct (map snd d) \<Longrightarrow> map_option fst (List.find (\<lambda>(k, v). v = u) d) = Some k \<longleftrightarrow> (k, u) \<in> set d"
proof (induction d)
  case (Cons x d)
  then show ?case by (cases x) force
qed simp

lemma token_of_Some: "distinct (map snd (token_rows s)) \<Longrightarrow> token_of u s = Some k \<longleftrightarrow> (k, u) \<in> set (token_rows s)"
  unfolding token_of_def by (rule find_pair)

lemma token_of_None: "distinct (map snd (token_rows s)) \<Longrightarrow> token_of u s = None \<longleftrightarrow> u \<notin> snd ` set (token_rows s)"
proof -
  assume "distinct (map snd (token_rows s))"
  then have "token_of u s \<noteq> None \<longleftrightarrow> (\<exists>k. (k, u) \<in> set (token_rows s))"
    using token_of_Some [of s u] by blast
  also have "\<dots> \<longleftrightarrow> u \<in> snd ` set (token_rows s)" by force
  finally show ?thesis by blast
qed

lemma same_value: "distinct (map snd d) \<Longrightarrow> (a, u) \<in> set d \<Longrightarrow> (b, u) \<in> set d \<Longrightarrow> a = b"
  by (induction d) force+

lemma distinct_map_filter: "distinct (map f d) \<Longrightarrow> distinct (map f (filter P d))"
  by (induction d) auto

text \<open>The tokens when a user with an old key was migrated.\<close>

lemma migrate_user_step:
  assumes "keys_consistent s" "map_of (api_keys s) u = Some key"
  shows "\<exists>s'. migrate_user key_text u s = (Inr (), s') \<and> user_rows s' = user_rows s \<and> api_keys s' = AList.delete u (api_keys s) \<and>
     set (token_rows s') = {(k, v) \<in> set (token_rows s). v \<noteq> u} \<union> {(key, u)} \<and>
     distinct (map fst (token_rows s')) \<and> distinct (map snd (token_rows s'))"
proof -
  have d: "distinct (map fst (token_rows s))" "distinct (map snd (token_rows s))"
    and owner: "\<And>k' v. (k', v) \<in> set (token_rows s) \<Longrightarrow> k' = key \<Longrightarrow> v = u"
    using assms by (auto simp: keys_consistent_def dest!: map_of_SomeD)
  show ?thesis
  proof (cases "token_of u s")
    case None
    then have no_u: "u \<notin> snd ` set (token_rows s)" and no_key: "key \<notin> fst ` set (token_rows s)"
      using owner by (force simp: token_of_None [OF d(2)])+
    obtain s' where s': "migrate_user key_text u s = (Inr (), s')" "user_rows s' = user_rows s"
      "api_keys s' = AList.delete u (api_keys s)" "token_rows s' = token_rows s @ [(key, u)]"
      using assms(2) None no_key by (simp add: migrate_user_def create_token_def has_key_def cbind_def print_line_def)
    have "v \<noteq> u" if "(k, v) \<in> set (token_rows s)" for k v
      using no_u that by force
    then have "set (token_rows s') = {(k, v) \<in> set (token_rows s). v \<noteq> u} \<union> {(key, u)}"
      using s'(4) by auto
    moreover have "distinct (map fst (token_rows s'))" "distinct (map snd (token_rows s'))"
      using d no_u no_key s'(4) by simp_all
    ultimately show ?thesis
      using s' by blast
  next
    case (Some k)
    then have k: "(k, u) \<in> set (token_rows s)" by (simp add: token_of_Some [OF d(2)])
    have only: "v = k" if "(v, u) \<in> set (token_rows s)" for v
      by (rule same_value [OF d(2) that k])
    have only_user: "v = u" if "(k, v) \<in> set (token_rows s)" for v
      by (rule eq_key_imp_eq_value [OF d(1) that k])
    show ?thesis
    proof (cases "k = key")
      case True
      obtain s' where s': "migrate_user key_text u s = (Inr (), s')" "user_rows s' = user_rows s"
        "api_keys s' = AList.delete u (api_keys s)" "token_rows s' = token_rows s"
        using assms(2) Some True by (simp add: migrate_user_def cbind_def print_line_def)
      have "set (token_rows s') = {(k, v) \<in> set (token_rows s). v \<noteq> u} \<union> {(key, u)}"
        using only k True unfolding s'(4) by blast
      then show ?thesis
        using s'(1,2,3) d unfolding s'(4) by (intro exI [of _ s'] conjI) (simp_all add: s'(4))
    next
      case False
      define rest where "rest = AList.delete k (token_rows s)"
      have rest: "set rest = {(k, v) \<in> set (token_rows s). v \<noteq> u}"
        using only only_user by (auto simp: rest_def AList.delete_eq)
      have "key \<notin> fst ` set rest"
        using owner by (force simp: rest)
      then have new: "AList.update key u rest = rest @ [(key, u)]"
        by (simp add: update_new)
      have "distinct (map fst rest)" "distinct (map snd rest)"
        using d by (simp_all add: rest_def AList.delete_eq distinct_map_filter)
      then have "distinct (map fst (rest @ [(key, u)]))" "distinct (map snd (rest @ [(key, u)]))"
        using \<open>key \<notin> fst ` set rest\<close> rest by (auto simp del: map_append simp: map_append)
      moreover obtain s' where s': "migrate_user key_text u s = (Inr (), s')" "user_rows s' = user_rows s"
        "api_keys s' = AList.delete u (api_keys s)" "token_rows s' = rest @ [(key, u)]"
        using assms(2) Some False new by (simp add: migrate_user_def cbind_def print_line_def rest_def)
      ultimately show ?thesis
        using rest by (intro exI [of _ s']) simp
    qed
  qed
qed

lemma keys_consistent_step:
  assumes "keys_consistent s" "map_of (api_keys s) u = Some key" "migrate_user key_text u s = (Inr (), s')"
  shows "keys_consistent s'"
proof -
  have s': "api_keys s' = AList.delete u (api_keys s)"
    "set (token_rows s') = {(k, v) \<in> set (token_rows s). v \<noteq> u} \<union> {(key, u)}"
    "distinct (map fst (token_rows s'))" "distinct (map snd (token_rows s'))"
    using migrate_user_step [OF assms(1,2), of key_text] assms(3) by auto
  have sub: "set (AList.delete u (api_keys s)) = {r \<in> set (api_keys s). fst r \<noteq> u}"
    by (auto simp: AList.delete_eq)
  have other: "k \<noteq> key" if "(v, k) \<in> set (api_keys s)" "v \<noteq> u" for v k
    using that assms(1) map_of_SomeD [OF assms(2)] same_value [of "api_keys s" v k u] by (auto simp: keys_consistent_def)
  have "distinct (map fst (AList.delete u (api_keys s)))" "distinct (map snd (AList.delete u (api_keys s)))"
    using assms(1) by (simp_all add: keys_consistent_def AList.delete_eq distinct_map_filter)
  then show ?thesis
    using s' assms(1) other by (fastforce simp: keys_consistent_def sub)
qed

lemma migrated_token:
  assumes "keys_consistent s" "map_of (api_keys s) u = Some key" "migrate_user key_text u s = (Inr (), s')"
  shows "token_of v s' = (if v = u then Some key else token_of v s)"
proof -
  have s': "set (token_rows s') = {(k, v) \<in> set (token_rows s). v \<noteq> u} \<union> {(key, u)}" "distinct (map snd (token_rows s'))"
    using migrate_user_step [OF assms(1,2), of key_text] assms(3) by auto
  have "distinct (map snd (token_rows s))"
    using assms(1) by (simp add: keys_consistent_def)
  then have "token_of v s' = Some k \<longleftrightarrow> (if v = u then Some key else token_of v s) = Some k" for k
    by (auto simp: token_of_Some s')
  then show ?thesis
    by (metis option.exhaust)
qed

lemma not_migrated:
  "map_of (api_keys s) u = None \<Longrightarrow> \<exists>s'. migrate_user key_text u s = (Inr (), s') \<and> token_rows s' = token_rows s \<and> api_keys s' = api_keys s"
  by (simp add: migrate_user_def print_line_def)

lemma migrate_all:
  assumes "keys_consistent s" "distinct us"
  shows "\<exists>s'. for_each (migrate_user key_text) us s = (Inr (), s') \<and>
     (\<forall>u. token_of u s' = (case (if u \<in> set us then map_of (api_keys s) u else None) of Some k \<Rightarrow> Some k | None \<Rightarrow> token_of u s)) \<and>
     (\<forall>u. map_of (api_keys s') u = (if u \<in> set us then None else map_of (api_keys s) u))"
  using assms
proof (induction us arbitrary: s)
  case Nil
  then show ?case by (simp add: done_with_def)
next
  case (Cons u us)
  show ?case
  proof (cases "map_of (api_keys s) u")
    case None
    from not_migrated [OF None, of key_text] obtain t where
      t: "migrate_user key_text u s = (Inr (), t)" "token_rows t = token_rows s" "api_keys t = api_keys s" by blast
    then have "keys_consistent t" "\<And>v. token_of v t = token_of v s"
      using Cons.prems by (simp_all add: keys_consistent_def token_of_def)
    with Cons.IH [of t] Cons.prems None t show ?thesis
      by (auto simp: cbind_step split: option.split)
  next
    case (Some key)
    from migrate_user_step [OF Cons.prems(1) Some, of key_text] obtain t where
      t: "migrate_user key_text u s = (Inr (), t)" "api_keys t = AList.delete u (api_keys s)" by blast
    from Cons.IH [OF keys_consistent_step [OF Cons.prems(1) Some t(1)]] Cons.prems(2) obtain s' where
      s': "for_each (migrate_user key_text) us t = (Inr (), s')"
      "\<And>v. token_of v s' = (case (if v \<in> set us then map_of (api_keys t) v else None) of Some k \<Rightarrow> Some k | None \<Rightarrow> token_of v t)"
      "\<And>v. map_of (api_keys s') v = (if v \<in> set us then None else map_of (api_keys t) v)" by auto
    have keys: "map_of (api_keys t) v = (if v = u then None else map_of (api_keys s) v)" for v
      by (simp add: t(2) delete_conv')
    show ?thesis
      using s' t(1) Cons.prems(2) Some
      by (intro exI [of _ s']) (auto simp: cbind_step keys migrated_token [OF Cons.prems(1) Some t(1)] split: option.split)
  qed
qed

subsection \<open>Properties\<close>

text \<open>
  C37. When the command that assigns subnets to a user succeeds, the user exists and has the
  permissions for metadata and time series, and an address inside one of the subnets
  authenticates as the owner of the most specific subnet that holds it.
\<close>

theorem added_subnets_authenticate:
  assumes "network_order nets" "add_user_ip_address nets perm_text user ips s = (Inr (), s')"
    and "ip \<in> set ips" "net_of_text nets ip = Inr n" "net_holds nets n addr"
    and "map_of meta ''HTTP_X_FORWARDED_FOR'' = None" "map_of meta ''REMOTE_ADDR'' = Some addr"
  shows "has_key user (user_rows s') \<and>
     (\<forall>c \<in> set (metadata_permissions @ timeseries_permissions). (user, c) \<in> set (granted s')) \<and>
     (map_of (address_rows s) n = None \<longrightarrow> map_of (address_rows s') n = Some user) \<and>
     (\<exists>m owner. authenticate nets s' meta = Inr (Some owner) \<and> (m, owner) \<in> set (address_rows s') \<and> net_holds nets m addr \<and>
        (\<forall>(m', u') \<in> set (address_rows s'). net_holds nets m' addr \<longrightarrow> (\<forall>y. net_holds nets m y \<longrightarrow> net_holds nets m' y)))"
proof -
  obtain s1 s2 s3 where steps: "ensure_user user s = (Inr (), s1)" "grant_metadata perm_text user s1 = (Inr (), s2)"
    "grant_timeseries user s2 = (Inr (), s3)" "for_each (add_address nets user) ips s3 = (Inr (), s')"
    using assms(2) by (auto simp: add_user_ip_address_def cbind_Inr)
  note s1 = ensure_user_Inr [OF steps(1)] and s2 = grant_metadata_Inr [OF steps(2)]
    and s3 = grant_timeseries_Inr [OF steps(3)] and s' = add_addresses_Inr [OF steps(4)]
    and n = added_address [OF steps(4) assms(3,4)]
  have rows: "address_rows s3 = address_rows s"
    using s1 s2 s3 by simp
  obtain u where "(n, u) \<in> set (address_rows s')"
    using n map_of_SomeD by fastforce
  from network_order.most_specific [OF assms(1) this assms(5)] obtain m owner rest where
    "subnets_of nets (address_rows s') addr = (m, owner) # rest" "(m, owner) \<in> set (address_rows s')" "net_holds nets m addr"
    "\<forall>(m', u') \<in> set (address_rows s'). net_holds nets m' addr \<longrightarrow> (\<forall>y. net_holds nets m y \<longrightarrow> net_holds nets m' y)"
    by blast
  moreover from this(1) have "authenticate nets s' meta = Inr (Some owner)"
    using assms(6,7) by (simp add: authenticate_def ip_authenticate_def)
  moreover have "has_key user (user_rows s')"
    using s1 s2 s3 s'(1) by simp
  moreover have "\<forall>c \<in> set (metadata_permissions @ timeseries_permissions). (user, c) \<in> set (granted s')"
    using s2 s3 s'(1) by auto
  moreover have "map_of (address_rows s) n = None \<longrightarrow> map_of (address_rows s') n = Some user"
    using s'(2) n rows by metis
  ultimately show ?thesis by blast
qed

definition sample_accounts :: "(nat \<times> nat) accounts" where
  "sample_accounts = \<lparr>user_rows = [(''wide'', True)], token_rows = [], api_keys = [],
     permission_rows = metadata_permissions @ timeseries_permissions, granted = [],
     address_rows = [((10, 8), ''wide'')], printed = []\<rparr>"

lemma sample_added:
  "fst (add_user_ip_address ipv4_networks (\<lambda>c. c) ''near'' [''10.1.0.0/16''] sample_accounts) = Inr ()"
  by code_simp

lemma added_subnets_authenticate_witness:
  "\<exists>owner. authenticate ipv4_networks
     (snd (add_user_ip_address ipv4_networks (\<lambda>c. c) ''near'' [''10.1.0.0/16''] sample_accounts))
     [(''REMOTE_ADDR'', ''10.1.2.3'')] = Inr (Some owner)"
proof -
  define out where "out = add_user_ip_address ipv4_networks (\<lambda>c. c) ''near'' [''10.1.0.0/16''] sample_accounts"
  have "out = (Inr (), snd out)"
    using sample_added by (simp add: out_def prod_eq_iff)
  moreover have "net_of_text ipv4_networks ''10.1.0.0/16'' = Inr (2561, 16)" "net_holds ipv4_networks (2561, 16) ''10.1.2.3''"
    by code_simp+
  ultimately show ?thesis
    using added_subnets_authenticate [of ipv4_networks "\<lambda>c. c" "''near''" "[''10.1.0.0/16'']" sample_accounts "snd out"
        "''10.1.0.0/16''" "(2561, 16)" "''10.1.2.3''" "[(''REMOTE_ADDR'', ''10.1.2.3'')]"]
      ipv4.network_order_axioms
    by (auto simp: out_def)
qed

text \<open>
  The command that deletes subnets of a user takes exactly the rows of this user with one of
  the named networks, and fails when one of them is named twice or is not a row of the user;
  the other rows are deleted all the same.
\<close>

theorem deletes_own_subnets:
  assumes "has_key user (user_rows s)" "list_all2 (\<lambda>ip n. net_of_text nets ip = Inr n) ips ns"
  shows "\<exists>s'. delete_user_ip_address nets user ips s =
       (if distinct ns \<and> (\<forall>n \<in> set ns. (n, user) \<in> set (address_rows s)) then Inr ()
        else Inl (CommandError ''Some or all deletions failed. See output above for details.''), s') \<and>
     address_rows s' = filter (\<lambda>(n, u). \<not> (u = user \<and> n \<in> set ns)) (address_rows s)"
  using delete_addresses_Inr [OF assms(2), of user False s] assms(1)
  by (auto simp: delete_user_ip_address_def cbind_def raised_def print_line_def all_found_iff)

lemma deletes_own_subnets_witness:
  "\<exists>s'. delete_user_ip_address ipv4_networks ''wide'' [''10.0.0.0/8'', ''10.1.0.0/16''] sample_accounts =
       (Inl (CommandError ''Some or all deletions failed. See output above for details.''), s') \<and> address_rows s' = []"
proof -
  have nets: "list_all2 (\<lambda>ip n. net_of_text ipv4_networks ip = Inr n) [''10.0.0.0/8'', ''10.1.0.0/16''] [(10, 8), (2561, 16)]"
    by code_simp
  have "has_key ''wide'' (user_rows sample_accounts)" "address_rows sample_accounts = [((10, 8), ''wide'')]"
    by code_simp+
  with deletes_own_subnets [OF this(1) nets] show ?thesis
    by simp
qed

text \<open>
  C32. The migration of the old keys: it succeeds, a user with an old key has a token of that key
  afterwards, every other user has the token it had, and no user has an old key any more.
\<close>

theorem migration_moves_keys:
  assumes "keys_consistent s" "distinct (map fst (user_rows s))"
  shows "\<exists>s'. migrate_tastypie_keys key_text s = (Inr (), s') \<and>
     (\<forall>u \<in> fst ` set (user_rows s). map_of (api_keys s') u = None \<and>
        token_of u s' = (case map_of (api_keys s) u of Some k \<Rightarrow> Some k | None \<Rightarrow> token_of u s))"
  using migrate_all [OF assms, of key_text] by (fastforce simp: migrate_tastypie_keys_def)

lemma migration_moves_keys_witness:
  "\<exists>s'. migrate_tastypie_keys (\<lambda>k u. k) (sample_accounts\<lparr>api_keys := [(''wide'', ''k1'')], token_rows := [(''k0'', ''wide'')]\<rparr>) =
     (Inr (), s') \<and> token_of ''wide'' s' = Some ''k1''"
  using migration_moves_keys [of "sample_accounts\<lparr>api_keys := [(''wide'', ''k1'')], token_rows := [(''k0'', ''wide'')]\<rparr>" "\<lambda>k u. k"]
  by (auto simp: keys_consistent_def sample_accounts_def)

end
