(* ===== verification/Url_Routing.thy ===== *)
theory Url_Routing
  imports Series_Views
begin

section \<open>URLs of the REST interface\<close>

text \<open>
  \<open>esmond/urls.py\<close>: the patterns a path is matched with, in order, and the view and the keyword
  arguments they give. The URLs of the admin site and those the router of the REST framework
  makes for the archive are arguments, as functions on the rest of the path. Paths do not begin
  with a slash, as Django hands them to the patterns.
\<close>

subsection \<open>Character classes\<close>

text \<open>\<open>\w\<close> of code points below 256.\<close>

definition word_char :: "char \<Rightarrow> bool" where
  "word_char c = (let n = of_char c :: nat in
     (48 \<le> n \<and> n \<le> 57) \<or> (65 \<le> n \<and> n \<le> 90) \<or> (97 \<le> n \<and> n \<le> 122) \<or> n = 95 \<or>
     n \<in> {170, 178, 179, 181, 185, 186, 188, 189, 190} \<or> (192 \<le> n \<and> n \<noteq> 215 \<and> n \<noteq> 247))"

definition name_char :: "char \<Rightarrow> bool" where
  "name_char c = (word_char c \<or> c \<in> {CHR ''_'', CHR ''.'', CHR ''-''})"

definition type_char :: "char \<Rightarrow> bool" where
  "type_char c = (name_char c \<or> c = CHR ''@'')"

subsection \<open>Patterns\<close>

text \<open>Segments of the classes given up to the end, where a slash and a line feed may follow.\<close>

definition match_rest :: "(char \<Rightarrow> bool) list \<Rightarrow> string \<Rightarrow> string list option" where
  "match_rest ps s =
     (let s = (if s \<noteq> [] \<and> last s = CHR 0x0A then butlast s else s);
          segs = split_char (CHR ''/'') s;
          segs = (if length segs = Suc (length ps) \<and> last segs = [] then butlast segs else segs)
      in if list_all2 (\<lambda>p seg. seg \<noteq> [] \<and> list_all p seg) ps segs then Some segs else None)"

definition PS_PREFIX :: string where
  "PS_PREFIX = ''perfsonar/archive/''"

definition match_here :: "(char \<Rightarrow> bool) list \<Rightarrow> string \<Rightarrow> string list option" where
  "match_here ps s = (if prefix PS_PREFIX s then match_rest ps (drop (length PS_PREFIX) s) else None)"

text \<open>The patterns have no anchor at their beginning: the first position where one matches.\<close>

fun search_first :: "(string \<Rightarrow> 'a option) \<Rightarrow> string \<Rightarrow> 'a option" where
  "search_first p s = (case p s of Some r \<Rightarrow> Some r | None \<Rightarrow> (case s of [] \<Rightarrow> None | c # s' \<Rightarrow> search_first p s'))"

declare search_first.simps [simp del]

definition after_prefix :: "string \<Rightarrow> string \<Rightarrow> string option" where
  "after_prefix p s = (if prefix p s then Some (drop (length p) s) else None)"

datatype 'v route = Included 'v | EventTypeView "string dict" | SeriesView "string dict"

definition kwarg_names :: "string list" where
  "kwarg_names = [''metadata_key'', ''event_type'', ''summary_type'', ''summary_window'']"

definition url_pattern :: "(string dict \<Rightarrow> 'v route) \<Rightarrow> (char \<Rightarrow> bool) list \<Rightarrow> string \<Rightarrow> 'v route option" where
  "url_pattern view ps path = map_option (\<lambda>segs. view (zip kwarg_names segs)) (search_first (match_here ps) path)"

definition or_else :: "'a option \<Rightarrow> 'a option \<Rightarrow> 'a option" where
  "or_else a b = (case a of None \<Rightarrow> b | Some _ \<Rightarrow> a)"

definition urlpatterns :: "(string \<Rightarrow> 'v option) \<Rightarrow> (string \<Rightarrow> 'v option) \<Rightarrow> string \<Rightarrow> 'v route option" where
  "urlpatterns admin router path =
     or_else (map_option Included (Option.bind (after_prefix ''admin/'' path) admin))
     (or_else (map_option Included (Option.bind (search_first (after_prefix ''perfsonar/'') path) router))
     (or_else (url_pattern EventTypeView [name_char, name_char] path)
     (or_else (url_pattern SeriesView [name_char, name_char, type_char] path)
     (url_pattern SeriesView [name_char, name_char, type_char, type_char] path))))"

subsection \<open>Where a pattern can match\<close>

lemma split_char_slashes:
  "split_char c (s @ t) = butlast (split_char c s) @ (last (split_char c s) @ hd (split_char c t)) # tl (split_char c t)"
proof (induction s)
  case Nil
  then show ?case using split_char_nonempty [of c t] by simp
next
  case (Cons x s)
  show ?case
    using Cons split_char_nonempty [of c s] by (cases "split_char c s") auto
qed

lemma split_prefix: "split_char (CHR ''/'') (PS_PREFIX @ t) = ''perfsonar'' # ''archive'' # split_char (CHR ''/'') t"
proof -
  have "PS_PREFIX @ t = ''perfsonar'' @ CHR ''/'' # (''archive'' @ CHR ''/'' # t)"
    by (simp add: PS_PREFIX_def)
  moreover have "CHR ''/'' \<notin> set ''perfsonar''" "CHR ''/'' \<notin> set ''archive''"
    by simp_all
  ultimately show ?thesis
    by (simp only: split_char_append simp_thms)
qed

text \<open>An occurrence of the prefix shows as a segment that ends in its first word and one that is its second.\<close>

lemma prefix_segments:
  "split_char (CHR ''/'') (s @ PS_PREFIX @ t) =
     butlast (split_char (CHR ''/'') s) @ (last (split_char (CHR ''/'') s) @ ''perfsonar'') # ''archive'' # split_char (CHR ''/'') t"
  using split_char_slashes [of "CHR ''/''" s "PS_PREFIX @ t"] by (simp only: split_prefix list.sel)

lemma only_at_start:
  assumes "split_char (CHR ''/'') (s @ PS_PREFIX @ t) = ''perfsonar'' # ''archive'' # segs" "''archive'' \<notin> set (tl segs)"
  shows "s = []"
proof -
  define b where "b = butlast (split_char (CHR ''/'') s)"
  define l where "l = last (split_char (CHR ''/'') s)"
  have s: "split_char (CHR ''/'') s = b @ [l]"
    by (simp add: b_def l_def)
  have eq: "b @ (l @ ''perfsonar'') # ''archive'' # split_char (CHR ''/'') t = ''perfsonar'' # ''archive'' # segs"
    using assms(1) by (simp add: prefix_segments b_def l_def)
  consider "b = []" | x where "b = [x]" | x y z where "b = x # y # z"
    by (cases b; cases "tl b") auto
  then show ?thesis
  proof cases
    case 1
    then have "split_char (CHR ''/'') s = [[]]"
      using eq s by simp
    then show ?thesis
      by (cases s) (auto split: if_splits)
  next
    case 2
    then have "l @ ''perfsonar'' = ''archive''"
      using eq by simp
    then have "last (l @ ''perfsonar'') = last ''archive''" by (rule arg_cong)
    then show ?thesis by simp
  next
    case 3
    then have "segs = z @ (l @ ''perfsonar'') # ''archive'' # split_char (CHR ''/'') t"
      using eq by simp
    then have "''archive'' \<in> set (tl segs)"
      by (cases z) auto
    then show ?thesis
      using assms(2) by simp
  qed
qed

lemma search_none: "(\<And>a b. s = a @ b \<Longrightarrow> p b = None) \<Longrightarrow> search_first p s = None"
proof (induction s)
  case Nil
  then show ?case by (subst search_first.simps) simp
next
  case (Cons c s)
  have "p (c # s) = None" using Cons.prems [of "[]"] by simp
  moreover have "search_first p s = None"
    using Cons.prems [of "c # _"] by (intro Cons.IH) auto
  ultimately show ?case by (subst search_first.simps) simp
qed

lemma search_start: "p s = Some r \<Longrightarrow> search_first p s = Some r"
  by (subst search_first.simps) simp

subsection \<open>The paths of an archive\<close>

definition segment :: "(char \<Rightarrow> bool) \<Rightarrow> string \<Rightarrow> bool" where
  "segment p s \<longleftrightarrow> s \<noteq> [] \<and> list_all p s"

definition archive_path :: "string list \<Rightarrow> string" where
  "archive_path segs = PS_PREFIX @ join ''/'' segs"

lemma char_classes: "\<not> type_char (CHR ''/'')" "\<not> type_char (CHR 0x0A)" "name_char c \<Longrightarrow> type_char c"
  by (simp_all add: type_char_def name_char_def word_char_def)

lemma split_join: "segs \<noteq> [] \<Longrightarrow> \<forall>s \<in> set segs. CHR ''/'' \<notin> set s \<Longrightarrow> split_char (CHR ''/'') (join ''/'' segs) = segs"
  by (induction segs rule: induct_list012) (auto simp: split_char_append)

lemma archive_path_segments:
  assumes "segs \<noteq> []" "\<forall>s \<in> set segs. segment type_char s"
  shows "split_char (CHR ''/'') (archive_path segs) = ''perfsonar'' # ''archive'' # segs"
    and "split_char (CHR ''/'') (join ''/'' segs) = segs" "CHR 0x0A \<notin> set (join ''/'' segs)" "join ''/'' segs \<noteq> []"
proof -
  have no: "CHR ''/'' \<notin> set s" "CHR 0x0A \<notin> set s" if "s \<in> set segs" for s
    using assms(2) that char_classes(1,2) unfolding segment_def list_all_iff by blast+
  show j: "split_char (CHR ''/'') (join ''/'' segs) = segs"
    by (rule split_join) (use assms no in auto)
  then show "split_char (CHR ''/'') (archive_path segs) = ''perfsonar'' # ''archive'' # segs"
    by (simp only: archive_path_def split_prefix)
  have "CHR 0x0A \<notin> set (join ''/'' ss)" if "\<forall>s \<in> set ss. CHR 0x0A \<notin> set s" for ss
    using that by (induction ss rule: induct_list012) auto
  then show "CHR 0x0A \<notin> set (join ''/'' segs)"
    using no by blast
  show "join ''/'' segs \<noteq> []"
    using assms by (cases segs; cases "tl segs") (auto simp: segment_def)
qed

lemma match_rest_path:
  assumes "segs \<noteq> []" "\<forall>s \<in> set segs. segment type_char s"
  shows "match_rest ps (join ''/'' segs) = (if list_all2 segment ps segs then Some segs else None)"
proof -
  note path = archive_path_segments [OF assms]
  have "last (join ''/'' segs) \<noteq> CHR 0x0A"
    using path(3,4) last_in_set by metis
  moreover have "last segs \<noteq> []"
    using assms by (auto simp: segment_def)
  moreover have "(\<lambda>p seg. seg \<noteq> [] \<and> list_all p seg) = segment"
    by (intro ext) (simp add: segment_def)
  ultimately show ?thesis
    using path(2) by (simp add: match_rest_def)
qed

lemma search_path:
  assumes "segs \<noteq> []" "\<forall>s \<in> set segs. segment type_char s" "''archive'' \<notin> set (tl segs)"
  shows "search_first (match_here ps) (archive_path segs) = (if list_all2 segment ps segs then Some segs else None)"
proof (cases "list_all2 segment ps segs")
  case True
  then have "match_here ps (archive_path segs) = Some segs"
    using match_rest_path [OF assms(1,2)] by (simp add: match_here_def archive_path_def)
  then show ?thesis
    using True by (simp add: search_start)
next
  case False
  have "match_here ps b = None" if ab: "archive_path segs = a @ b" for a b
  proof (cases "prefix PS_PREFIX b")
    case True
    then obtain t where b: "b = PS_PREFIX @ t" by (auto elim: prefixE)
    have "a = []"
      by (rule only_at_start [where t = t and segs = segs])
        (use assms ab b archive_path_segments(1) [OF assms(1,2)] in simp_all)
    then have "b = archive_path segs" using ab by simp
    then show ?thesis
      using False match_rest_path [OF assms(1,2)] by (simp add: match_here_def archive_path_def)
  qed (simp add: match_here_def)
  then show ?thesis
    using False by (simp add: search_none)
qed

subsection \<open>Resolving the paths of an archive\<close>

text \<open>What the router of the REST framework documents: its routes for a record have one segment after the name.\<close>

definition no_deep_routes :: "(string \<Rightarrow> 'v option) \<Rightarrow> bool" where
  "no_deep_routes router \<longleftrightarrow> (\<forall>k t. CHR ''/'' \<notin> set k \<longrightarrow> t \<noteq> [] \<longrightarrow> router (''archive/'' @ k @ ''/'' @ t) = None)"

lemma not_included:
  assumes "no_deep_routes router" "segs = key # below" "below \<noteq> []" "\<forall>s \<in> set segs. segment type_char s"
  shows "Option.bind (after_prefix ''admin/'' (archive_path segs)) admin = None"
    and "Option.bind (search_first (after_prefix ''perfsonar/'') (archive_path segs)) router = None"
proof -
  show "Option.bind (after_prefix ''admin/'' (archive_path segs)) admin = None"
    by (simp add: after_prefix_def archive_path_def PS_PREFIX_def)
  have "archive_path segs = ''perfsonar/'' @ ''archive/'' @ join ''/'' segs"
    by (simp add: archive_path_def PS_PREFIX_def)
  then have "after_prefix ''perfsonar/'' (archive_path segs) = Some (''archive/'' @ join ''/'' segs)"
    by (simp add: after_prefix_def)
  then have "search_first (after_prefix ''perfsonar/'') (archive_path segs) = Some (''archive/'' @ join ''/'' segs)"
    by (rule search_start)
  moreover have "join ''/'' segs = key @ ''/'' @ join ''/'' below"
    using assms(2,3) by (simp add: join_Cons)
  moreover have "join ''/'' below \<noteq> []"
    by (rule archive_path_segments(4)) (use assms in auto)
  moreover have "CHR ''/'' \<notin> set key"
    using assms(2,4) char_classes(1) unfolding segment_def list_all_iff by auto
  ultimately show "Option.bind (search_first (after_prefix ''perfsonar/'') (archive_path segs)) router = None"
    using assms(1) by (simp add: no_deep_routes_def)
qed

lemma resolve_path:
  assumes "no_deep_routes router" "segs = key # below" "below \<noteq> []" "\<forall>s \<in> set segs. segment type_char s"
    and "''archive'' \<notin> set below"
  shows "urlpatterns admin router (archive_path segs) =
     (if list_all2 segment [name_char, name_char] segs then Some (EventTypeView (zip kwarg_names segs))
      else if list_all2 segment [name_char, name_char, type_char] segs \<or>
        list_all2 segment [name_char, name_char, type_char, type_char] segs then Some (SeriesView (zip kwarg_names segs))
      else None)"
  using search_path [of segs] not_included(1) [where admin = admin, OF assms(1-4)] not_included(2) [OF assms(1-4)] assms(2,3,4,5)
  by (simp add: urlpatterns_def url_pattern_def or_else_def)

subsection \<open>The URIs of a listing\<close>

lemma segment_names:
  "list_all (\<lambda>(et, _). segment name_char et \<and> et \<noteq> ''archive'') EVENT_TYPE_CONFIG"
  "list_all (\<lambda>(s, plural). segment name_char plural \<and> plural \<noteq> ''archive'' \<and> map_of SUMMARY_TYPES plural = Some s) INVERSE_SUMMARY_TYPES"
  by code_simp+

lemma show_int_segment: "segment name_char (show_int i)" "show_int i \<noteq> ''archive''"
proof -
  have c: "c = CHR ''-'' \<or> (\<exists>d < 10. c = digit_char d)" if "c \<in> set (show_int i)" for c
    using that by (auto simp: show_int_def dest: show_nat_digits split: if_splits)
  have "name_char c" if "c \<in> set (show_int i)" for c
    using c [OF that] by (auto simp: name_char_def word_char_def)
  then show "segment name_char (show_int i)"
    by (auto simp: segment_def list_all_iff show_int_def)
  have "CHR ''r'' \<notin> set (show_int i)"
  proof
    assume "CHR ''r'' \<in> set (show_int i)"
    then obtain d where "d < 10" "CHR ''r'' = digit_char d" using c by auto
    then have "is_digit (CHR ''r'')" using digit_char_props(1) by metis
    then show False by (simp add: is_digit_def)
  qed
  then show "show_int i \<noteq> ''archive''" by auto
qed

text \<open>A path of a record, as the listing gives it: below the place where the application is mounted.\<close>

definition record_path :: "string \<Rightarrow> string \<Rightarrow> string" where
  "record_path mount key = mount @ ''/'' @ archive_path [key] @ ''/''"

lemma record_path_append: "record_path mount key @ join ''/'' (s # ss) = mount @ ''/'' @ archive_path (key # s # ss)"
  by (simp add: record_path_def archive_path_def)

text \<open>Keyword arguments of a series, and what the view reads out of them.\<close>

lemma check_series:
  assumes "has_key et EVENT_TYPE_CONFIG" "has_key plural SUMMARY_TYPES" "segs = [key, et, plural] \<or> segs = [key, et, plural, w]"
  shows "check_retrieve (zip kwarg_names segs) = Inr (et, key, plural)"
  using assms by (auto simp: kwarg_names_def check_retrieve_def)

lemma known_type: "has_key et EVENT_TYPE_CONFIG \<Longrightarrow> segment name_char et \<and> et \<noteq> ''archive''"
  using segment_names(1) unfolding list_all_iff has_key_def by auto

lemma known_summary: "map_of INVERSE_SUMMARY_TYPES stype = Some plural \<Longrightarrow>
    segment name_char plural \<and> plural \<noteq> ''archive'' \<and> map_of SUMMARY_TYPES plural = Some stype"
  using segment_names(2) map_of_SomeD unfolding list_all_iff by fastforce

lemma name_type_segment: "segment name_char s \<Longrightarrow> segment type_char s"
  using char_classes(3) unfolding segment_def list_all_iff by blast

lemma resolve_series:
  assumes "no_deep_routes router" "segment name_char key" "has_key et EVENT_TYPE_CONFIG"
    and "segment name_char plural" "plural \<noteq> ''archive''" "has_key plural SUMMARY_TYPES"
  shows "\<exists>kw. urlpatterns admin router (archive_path [key, et, plural]) = Some (SeriesView kw) \<and>
      check_retrieve kw = Inr (et, key, plural) \<and> map_of kw ''summary_window'' = None"
    and "\<exists>kw. urlpatterns admin router (archive_path [key, et, plural, show_int w]) = Some (SeriesView kw) \<and>
      check_retrieve kw = Inr (et, key, plural) \<and> map_of kw ''summary_window'' = Some (show_int w)"
proof -
  note et = known_type [OF assms(3)] and w = show_int_segment [of w]
  have t: "segment type_char key" "segment type_char et" "segment type_char plural" "segment type_char (show_int w)"
    using assms(2,4) et w(1) by (simp_all add: name_type_segment)
  show "\<exists>kw. urlpatterns admin router (archive_path [key, et, plural]) = Some (SeriesView kw) \<and>
      check_retrieve kw = Inr (et, key, plural) \<and> map_of kw ''summary_window'' = None"
    using resolve_path [OF assms(1), of "[key, et, plural]" key "[et, plural]" admin] assms(2) et t not_sym [OF conjunct2 [OF et]] not_sym [OF assms(5)]
      check_series [OF assms(3,6), of "[key, et, plural]" key]
    by (simp add: kwarg_names_def)
  show "\<exists>kw. urlpatterns admin router (archive_path [key, et, plural, show_int w]) = Some (SeriesView kw) \<and>
      check_retrieve kw = Inr (et, key, plural) \<and> map_of kw ''summary_window'' = Some (show_int w)"
    using resolve_path [OF assms(1), of "[key, et, plural, show_int w]" key "[et, plural, show_int w]" admin] assms(2) et t
      not_sym [OF conjunct2 [OF et]] not_sym [OF assms(5)] not_sym [OF w(2)]
      check_series [OF assms(3,6), of "[key, et, plural, show_int w]" key]
    by (simp add: kwarg_names_def)
qed

definition placed_summary :: "string \<Rightarrow> string \<Rightarrow> string \<times> int \<times> datetime option \<Rightarrow> json" where
  "placed_summary path k a = (case a of (stype, window, updated) \<Rightarrow>
     JObj [(''uri'', JStr (path @ k @ ''/'' @ the (map_of INVERSE_SUMMARY_TYPES stype) @ ''/'' @ show_int window)),
       (''summary-type'', JStr stype), (''summary-window'', JStr (show_int window)), (''time-updated'', datetime_to_ts updated)])"

lemma add_uris_entry:
  "add_uris path [(''base-uri'', JStr b), (''event-type'', JStr k), (''time-updated'', u), (''summaries'', JList (map (shown_summary k) as))] =
     Inr [(''base-uri'', JStr (path @ b)), (''event-type'', JStr k), (''time-updated'', u),
       (''summaries'', JList (map (placed_summary path k) as))]"
proof -
  have "prefix_summary path (shown_summary k a) = Inr (placed_summary path k a)" for a
    by (cases a) (simp add: prefix_summary_def shown_summary_def placed_summary_def prefix_str_def)
  then have "rmap (prefix_summary path) (map (shown_summary k) as) = Inr (map (placed_summary path k) as)"
    by (induction as) simp_all
  then show ?thesis
    by (simp add: add_uris_def prefix_str_def)
qed

lemma listed_entries:
  assumes "\<And>r. r \<in> set rows \<Longrightarrow> has_key (et_summary_type r) INVERSE_SUMMARY_TYPES"
  shows "rbind (build_event_type_list rows) (rmap (add_uris path)) = Inr (map (\<lambda>k.
     [(''base-uri'', JStr (path @ k @ ''/base'')), (''event-type'', JStr k),
      (''time-updated'', datetime_to_ts (ee_time_updated (entry_of rows k))),
      (''summaries'', JList (map (placed_summary path k) (ee_summaries (entry_of rows k))))])
     (first_occurrences (map et_event_type rows)))"
proof -
  have "rmap (add_uris path) (map (\<lambda>k. [(''base-uri'', JStr (k @ ''/base'')), (''event-type'', JStr k), (''time-updated'', f k),
      (''summaries'', JList (map (shown_summary k) (g k)))]) ks) =
    Inr (map (\<lambda>k. [(''base-uri'', JStr (path @ k @ ''/base'')), (''event-type'', JStr k), (''time-updated'', f k),
      (''summaries'', JList (map (placed_summary path k) (g k)))]) ks)" for f g ks
    by (induction ks) (simp_all add: add_uris_entry)
  then show ?thesis
    using event_type_list_entries [OF assms] by simp
qed

subsection \<open>Properties\<close>

text \<open>
  C35. The URIs a record lists lead to its series: for every event type the path of the base URI is
  resolved to the view of time series, with arguments this view reads as the base series of the
  event type; and the path of every summary is resolved to this view with the event type, the
  summary type and the window it stands for.
\<close>

theorem uris_lead_to_series:
  assumes "no_deep_routes router" "segment name_char key"
    and rows: "\<And>r. r \<in> set rows \<Longrightarrow> has_key (et_event_type r) EVENT_TYPE_CONFIG \<and> has_key (et_summary_type r) INVERSE_SUMMARY_TYPES"
    and "rbind (build_event_type_list rows) (rmap (add_uris (record_path mount key))) = Inr entries" "entry \<in> set entries"
  shows "\<exists>et base kw ss. map_of entry ''event-type'' = Some (JStr et) \<and>
     map_of entry ''base-uri'' = Some (JStr (mount @ ''/'' @ base)) \<and> urlpatterns admin router base = Some (SeriesView kw) \<and>
     check_retrieve kw = Inr (et, key, ''base'') \<and> map_of kw ''summary_window'' = None \<and>
     map_of entry ''summaries'' = Some (JList ss) \<and>
     (\<forall>s \<in> set ss. \<exists>d uri kw plural stype window. s = JObj d \<and> map_of d ''uri'' = Some (JStr (mount @ ''/'' @ uri)) \<and>
        map_of d ''summary-type'' = Some (JStr stype) \<and> map_of d ''summary-window'' = Some (JStr window) \<and>
        urlpatterns admin router uri = Some (SeriesView kw) \<and> check_retrieve kw = Inr (et, key, plural) \<and>
        map_of SUMMARY_TYPES plural = Some stype \<and> map_of kw ''summary_window'' = Some window)"
proof -
  have "entries = map (\<lambda>k.
     [(''base-uri'', JStr (record_path mount key @ k @ ''/base'')), (''event-type'', JStr k),
      (''time-updated'', datetime_to_ts (ee_time_updated (entry_of rows k))),
      (''summaries'', JList (map (placed_summary (record_path mount key) k) (ee_summaries (entry_of rows k))))])
     (first_occurrences (map et_event_type rows))"
    using assms(4) listed_entries [of rows "record_path mount key"] rows by simp
  then obtain k where k: "k \<in> et_event_type ` set rows" and entry: "entry =
     [(''base-uri'', JStr (record_path mount key @ k @ ''/base'')), (''event-type'', JStr k),
      (''time-updated'', datetime_to_ts (ee_time_updated (entry_of rows k))),
      (''summaries'', JList (map (placed_summary (record_path mount key) k) (ee_summaries (entry_of rows k))))]"
    using assms(5) by auto
  have et: "has_key k EVENT_TYPE_CONFIG" using k rows by auto
  have plain: "segment name_char ''base''" "has_key ''base'' SUMMARY_TYPES" by code_simp+
  obtain kw where kw: "urlpatterns admin router (archive_path [key, k, ''base'']) = Some (SeriesView kw)"
    "check_retrieve kw = Inr (k, key, ''base'')" "map_of kw ''summary_window'' = None"
    using resolve_series(1) [OF assms(1,2) et plain(1) _ plain(2)] by auto
  have summary: "\<exists>d uri kw plural stype window. s = JObj d \<and> map_of d ''uri'' = Some (JStr (mount @ ''/'' @ uri)) \<and>
        map_of d ''summary-type'' = Some (JStr stype) \<and> map_of d ''summary-window'' = Some (JStr window) \<and>
        urlpatterns admin router uri = Some (SeriesView kw) \<and> check_retrieve kw = Inr (k, key, plural) \<and>
        map_of SUMMARY_TYPES plural = Some stype \<and> map_of kw ''summary_window'' = Some window"
    if s: "s \<in> set (map (placed_summary (record_path mount key) k) (ee_summaries (entry_of rows k)))" for s
  proof -
    obtain r where r: "r \<in> set rows"
      "s = placed_summary (record_path mount key) k (et_summary_type r, et_summary_window r, et_time_updated r)"
      using s by (auto simp: entry_of_def Let_def)
    obtain plural where p: "map_of INVERSE_SUMMARY_TYPES (et_summary_type r) = Some plural"
      using rows [OF r(1)] by (auto simp: has_key_map_of)
    note known = known_summary [OF p]
    then have "has_key plural SUMMARY_TYPES" by (simp add: has_key_map_of)
    with known obtain kw where "urlpatterns admin router (archive_path [key, k, plural, show_int (et_summary_window r)]) = Some (SeriesView kw)"
      "check_retrieve kw = Inr (k, key, plural)" "map_of kw ''summary_window'' = Some (show_int (et_summary_window r))"
      using resolve_series(2) [OF assms(1,2) et] by blast
    moreover have "record_path mount key @ k @ ''/'' @ plural @ ''/'' @ show_int (et_summary_window r) =
        mount @ ''/'' @ archive_path [key, k, plural, show_int (et_summary_window r)]"
      using record_path_append [of mount key k "[plural, show_int (et_summary_window r)]"] by simp
    ultimately show ?thesis
      using r(2) p known by (simp add: placed_summary_def)
  qed
  have "record_path mount key @ k @ ''/base'' = mount @ ''/'' @ archive_path [key, k, ''base'']"
    using record_path_append [of mount key k "[''base'']"] by simp
  then have "map_of entry ''event-type'' = Some (JStr k)"
    "map_of entry ''base-uri'' = Some (JStr (mount @ ''/'' @ archive_path [key, k, ''base'']))"
    "map_of entry ''summaries'' = Some (JList (map (placed_summary (record_path mount key) k) (ee_summaries (entry_of rows k))))"
    by (simp_all add: entry)
  with kw summary show ?thesis by blast
qed

text \<open>The routes of the router for the archive: the list, and a record by a key without slash and dot.\<close>

definition archive_router :: "string \<Rightarrow> string option" where
  "archive_router r = (case split_char (CHR ''/'') r of
     [a, []] \<Rightarrow> if a = ''archive'' then Some ''archive-list'' else None
   | [a, k, []] \<Rightarrow> if a = ''archive'' \<and> k \<noteq> [] \<and> CHR ''.'' \<notin> set k then Some ''archive-detail'' else None
   | _ \<Rightarrow> None)"

lemma archive_router_routes: "no_deep_routes archive_router"
proof -
  have "archive_router (''archive/'' @ k @ ''/'' @ t) = None" if "CHR ''/'' \<notin> set k" "t \<noteq> []" for k t
  proof -
    have "CHR ''/'' \<notin> set ''archive''" by simp
    then have "split_char (CHR ''/'') (''archive'' @ CHR ''/'' # (k @ CHR ''/'' # t)) = ''archive'' # k # split_char (CHR ''/'') t"
      using that(1) by (simp only: split_char_append simp_thms)
    then have split: "split_char (CHR ''/'') (''archive/'' @ k @ ''/'' @ t) = ''archive'' # k # split_char (CHR ''/'') t"
      by simp
    moreover have "split_char (CHR ''/'') t \<noteq> [[]]"
      using that(2) by (cases t) (auto split: if_splits)
    ultimately show ?thesis
      by (simp add: archive_router_def del: append.simps split: list.split)
  qed
  then show ?thesis by (simp add: no_deep_routes_def)
qed

lemma uris_lead_to_series_witness:
  "\<exists>base kw. urlpatterns (\<lambda>_. None) archive_router base = Some (SeriesView kw) \<and>
     check_retrieve kw = Inr (''throughput'', ''0cb1'', ''base'') \<and>
     rbind (build_event_type_list listed_rows) (rmap (add_uris (record_path ''/esmond'' ''0cb1''))) \<noteq> Inr []"
proof -
  have known: "has_key (et_event_type r) EVENT_TYPE_CONFIG \<and> has_key (et_summary_type r) INVERSE_SUMMARY_TYPES"
    if "r \<in> set listed_rows" for r
  proof -
    have "list_all (\<lambda>r. has_key (et_event_type r) EVENT_TYPE_CONFIG \<and> has_key (et_summary_type r) INVERSE_SUMMARY_TYPES) listed_rows"
      by code_simp
    then show ?thesis using that unfolding list_all_iff by blast
  qed
  have name: "segment name_char ''0cb1''" by code_simp
  define f where "f = (\<lambda>k. [(''base-uri'', JStr (record_path ''/esmond'' ''0cb1'' @ k @ ''/base'')), (''event-type'', JStr k),
      (''time-updated'', datetime_to_ts (ee_time_updated (entry_of listed_rows k))),
      (''summaries'', JList (map (placed_summary (record_path ''/esmond'' ''0cb1'') k) (ee_summaries (entry_of listed_rows k))))])"
  have "first_occurrences (map et_event_type listed_rows) = [''throughput'', ''failures'']"
    by (simp add: listed_rows_def first_occurrences_def)
  then have listed: "rbind (build_event_type_list listed_rows) (rmap (add_uris (record_path ''/esmond'' ''0cb1''))) =
      Inr [f ''throughput'', f ''failures'']"
    using listed_entries [of listed_rows "record_path ''/esmond'' ''0cb1''"] known by (simp add: f_def)
  have entry: "f ''throughput'' \<in> set [f ''throughput'', f ''failures'']" "map_of (f ''throughput'') ''event-type'' = Some (JStr ''throughput'')"
    by (simp_all add: f_def)
  from uris_lead_to_series [OF archive_router_routes name known listed entry(1), of "\<lambda>_. None"] obtain et base kw where
    "map_of (f ''throughput'') ''event-type'' = Some (JStr et)" "urlpatterns (\<lambda>_. None) archive_router base = Some (SeriesView kw)"
    "check_retrieve kw = Inr (et, ''0cb1'', ''base'')" by blast
  then show ?thesis
    using listed entry(2) by auto
qed

end
