(* ===== verification/Archive_Service.thy ===== *)
theory Archive_Service
  imports Archive_Metadata Remove_Data
begin

section \<open>The whole archive\<close>

text \<open>
  The calls that change the archive, on its whole state: the POST of a metadata record, the
  bulk PUT to a record and the POST to a series of the REST interface
  (\<open>esmond/api/perfsonar/api_v2.py\<close>), and a run of \<open>util/ps_remove_data.py\<close>. The record
  \<open>service\<close> joins the tables of \<open>Archive_Metadata\<close> with the state of \<open>Time_Series\<close>, which
  share the table of event types. A call is a step of the relation \<open>serve\<close>, labelled with the
  call and the exception it ends with; the calls come in any order and any number, and are
  served one at a time, as one process of the server does. The key of a new record is
  \<open>uuid.uuid4().hex\<close>: the only thing assumed of it is that it is not the key of a stored
  record, which the database refuses (the column is declared unique).
\<close>

record 'd service =
  sv_metadata :: "md_row list"
  sv_archive :: "'d archive"

abbreviation sv_event_types :: "'d service \<Rightarrow> event_type_row list" where
  "sv_event_types s \<equiv> ar_event_types (sv_archive s)"

abbreviation sv_store :: "'d service \<Rightarrow> 'd" where
  "sv_store s \<equiv> cdb (ar_cass (sv_archive s))"

definition sv_tables :: "'d service \<Rightarrow> tables" where
  "sv_tables s = \<lparr>tb_metadata = sv_metadata s, tb_event_types = sv_event_types s\<rparr>"

definition set_tables :: "tables \<Rightarrow> 'd service \<Rightarrow> 'd service" where
  "set_tables tb s = s\<lparr>sv_metadata := tb_metadata tb,
     sv_archive := (sv_archive s)\<lparr>ar_event_types := tb_event_types tb\<rparr>\<rparr>"

definition new_service :: "'d cass \<Rightarrow> 'd service" where
  "new_service st = \<lparr>sv_metadata = [], sv_archive = \<lparr>ar_cass = st, ar_event_types = []\<rparr>\<rparr>"

subsection \<open>The calls\<close>

text \<open>The view of POST \<open>/archive/\<close>: the serializer checks and stores.\<close>

definition service_post ::
  "django \<Rightarrow> (string \<Rightarrow> string) \<Rightarrow> string \<Rightarrow> json \<Rightarrow> 'd service \<Rightarrow> (exn + md_row) \<times> 'd service" where
  "service_post D sha256 new_key data s =
     (case archive_create D sha256 new_key data (sv_tables s) of (r, tb) \<Rightarrow> (r, set_tables tb s))"

text \<open>The run of the expiry, with the records its last loop deletes.\<close>

definition service_expire ::
  "'d pycassa \<Rightarrow> rm_args \<Rightarrow> json \<Rightarrow> (nat \<Rightarrow> datetime) \<Rightarrow> 'd service \<Rightarrow> (exn option \<times> 'd service) option" where
  "service_expire P args config clock s =
     (case build_policies config of
        Inl e \<Rightarrow> Some (Some e, s)
      | Inr policies \<Rightarrow>
         (case expire_rows P args policies clock 0 (sv_event_types s) ([], ar_cass (sv_archive s)) of
            None \<Rightarrow> None
          | Some (Some e, counts, st) \<Rightarrow> Some (Some e, s\<lparr>sv_archive := (sv_archive s)\<lparr>ar_cass := st\<rparr>\<rparr>)
          | Some (None, counts, st) \<Rightarrow> Some (None, s\<lparr>
              sv_metadata := filter (\<lambda>m. mr_key m \<notin> set (expired_metadata counts)) (sv_metadata s),
              sv_archive := (sv_archive s)\<lparr>ar_cass := st,
                ar_event_types := delete_metadata (expired_metadata counts) (sv_event_types s)\<rparr>\<rparr>)))"

datatype call =
    PostRecord string json
  | PutRecord datetime string request
  | PostSeries datetime "string dict" request
  | RunExpiry rm_args json "nat \<Rightarrow> datetime"

fun is_expiry :: "call \<Rightarrow> bool" where
  "is_expiry (RunExpiry _ _ _) = True"
| "is_expiry _ = False"

text \<open>Each call is one rule; the key of a new record is fresh.\<close>

inductive serve ::
  "'d pycassa \<Rightarrow> django \<Rightarrow> (string \<Rightarrow> string) \<Rightarrow> call \<Rightarrow> 'd service \<Rightarrow> exn option \<Rightarrow> 'd service \<Rightarrow> bool"
  for P :: "'d pycassa" and D :: django and sha256 :: "string \<Rightarrow> string"
where
  serve_post: "new_key \<notin> set (map mr_key (sv_metadata s)) \<Longrightarrow>
     service_post D sha256 new_key data s = (r, s') \<Longrightarrow>
     serve P D sha256 (PostRecord new_key data) s (case r of Inl e \<Rightarrow> Some e | Inr _ \<Rightarrow> None) s'"
| serve_put: "archive_update P now metadata_key rq (sv_archive s) = (e, ar) \<Longrightarrow>
     serve P D sha256 (PutRecord now metadata_key rq) s e (s\<lparr>sv_archive := ar\<rparr>)"
| serve_series: "timeseries_create P now kwargs rq (sv_archive s) = (e, ar) \<Longrightarrow>
     serve P D sha256 (PostSeries now kwargs rq) s e (s\<lparr>sv_archive := ar\<rparr>)"
| serve_expiry: "service_expire P args config clock s = Some (e, s') \<Longrightarrow>
     serve P D sha256 (RunExpiry args config clock) s e s'"

inductive_cases serve_postE [elim]: "serve P D sha256 (PostRecord k data) s e s'"
inductive_cases serve_putE [elim]: "serve P D sha256 (PutRecord now mk rq) s e s'"
inductive_cases serve_seriesE [elim]: "serve P D sha256 (PostSeries now kwargs rq) s e s'"
inductive_cases serve_expiryE [elim]: "serve P D sha256 (RunExpiry args config clock) s e s'"

text \<open>A run serves calls one after the other, whatever each ended with.\<close>

inductive serve_all ::
  "'d pycassa \<Rightarrow> django \<Rightarrow> (string \<Rightarrow> string) \<Rightarrow> call list \<Rightarrow> 'd service \<Rightarrow> 'd service \<Rightarrow> bool"
  for P :: "'d pycassa" and D :: django and sha256 :: "string \<Rightarrow> string"
where
  serve_none: "serve_all P D sha256 [] s s"
| serve_next: "serve P D sha256 c s e s' \<Longrightarrow> serve_all P D sha256 cs s' s'' \<Longrightarrow> serve_all P D sha256 (c # cs) s s''"

inductive_simps serve_all_Nil [simp]: "serve_all P D sha256 [] s s'"
inductive_simps serve_all_Cons: "serve_all P D sha256 (c # cs) s s''"

text \<open>What every call of a run keeps, the run keeps; \<open>ok\<close> are the calls looked at.\<close>

lemma serve_all_invariant:
  assumes "serve_all P D sha256 cs s s'" and "list_all ok cs" and "I s"
    and "\<And>c s e s'. serve P D sha256 c s e s' \<Longrightarrow> ok c \<Longrightarrow> I s \<Longrightarrow> I s'"
  shows "I s'"
  using assms(1-3)
proof (induction rule: serve_all.induct)
  case (serve_next c s e s' cs s'')
  then show ?case using assms(4) by simp
qed simp

text \<open>What every call relates in a reflexive and transitive relation, the run relates.\<close>

lemma serve_all_relates:
  assumes "serve_all P D sha256 cs s s'" and "list_all ok cs"
    and "\<And>s. R s s" and "\<And>a b c. R a b \<Longrightarrow> R b c \<Longrightarrow> R a c"
    and "\<And>c s e s'. serve P D sha256 c s e s' \<Longrightarrow> ok c \<Longrightarrow> R s s'"
  shows "R s s'"
  using serve_all_invariant [of P D sha256 cs s s' ok "R s"] assms by blast

lemma serve_all_append:
  "serve_all P D sha256 cs s s' \<Longrightarrow> serve_all P D sha256 cs' s' s'' \<Longrightarrow> serve_all P D sha256 (cs @ cs') s s''"
  by (induction rule: serve_all.induct) (auto intro: serve_all.serve_next)

end
