(* ===== verification/Archive_Service_Facts.thy ===== *)
theory Archive_Service_Facts
  imports Archive_Service Archive_Metadata_Facts Remove_Data_Run Client_Round_Trip
begin

section \<open>Every run of calls\<close>

text \<open>
  What holds in every state the calls of \<open>Archive_Service\<close> lead to. The locale
  \<open>driver_relation\<close> states what a relation between driver states needs so that every write of
  the interface respects it, whatever it fails with; its interpretations say that no column
  disappears and that columns are only added to the series of declared event types. The
  consistency of the tables and the rest are proved by rule induction on the runs.
\<close>

subsection \<open>What the writes of the interface do to the driver\<close>

lemma summarise_changes_value:
  assumes "summarise t P st obj cache = Inr (obj', cache')"
  shows "\<exists>v. obj' = obj\<lparr>to_value := v\<rparr>"
proof -
  have same: "\<exists>v. obj = obj\<lparr>to_value := v\<rparr>" by (intro exI [of _ "to_value obj"]) simp
  show ?thesis
    using assms same
    by (auto simp: Let_def summarise_def aggregation_def float_aggregation_def histogram_aggregation_def average_def
        statistics_def res_simps split: if_splits data_type.splits option.splits)
qed

text \<open>The row keys the columns of an object are written under.\<close>

definition object_keys :: "ts_object \<Rightarrow> string set" where
  "object_keys obj = range (\<lambda>y. get_rowkey (datapath obj) (obj_freq obj) (Some y))"

lemma object_keys_value [simp]: "object_keys (obj\<lparr>to_value := v\<rparr>) = object_keys obj"
  by (simp add: object_keys_def datapath_def obj_freq_def)

lemma get_key_object: "c_path c = datapath obj \<Longrightarrow> c_freq c = obj_freq obj \<Longrightarrow> get_key c \<in> object_keys obj"
  by (simp add: object_keys_def get_key_def)

text \<open>The keys of the series of an event type, as its rows are written.\<close>

definition row_object :: "event_type_row \<Rightarrow> ts_object" where
  "row_object r = \<lparr>to_ts = JNull, to_value = JNull, to_metadata_key = et_metadata_key r, to_event_type = et_event_type r,
     to_summary_type = et_summary_type r, to_summary_window = et_summary_window r\<rparr>"

definition declared_keys :: "event_type_row list \<Rightarrow> string set" where
  "declared_keys rows = \<Union> (object_keys ` set (map row_object rows))"

lemma row_object_time [simp]: "row_object (r\<lparr>et_time_updated := u\<rparr>) = row_object r"
  by (simp add: row_object_def)

lemma declared_summaries:
  assumes "(stype, win) \<in> set (select_summaries rows (to_event_type obj) (to_metadata_key obj))"
  shows "object_keys (obj\<lparr>to_ts := t, to_summary_type := stype, to_summary_window := win\<rparr>) \<subseteq> declared_keys rows"
proof -
  obtain r where "r \<in> set rows" "et_event_type r = to_event_type obj" "et_metadata_key r = to_metadata_key obj"
      "et_summary_type r = stype" "et_summary_window r = win"
    using assms by (auto simp: select_summaries_def)
  then show ?thesis by (force simp: declared_keys_def row_object_def object_keys_def datapath_def obj_freq_def)
qed

lemma row_objects_update_time [simp]: "map row_object (update_time now et mk rows) = map row_object rows"
  by (simp add: update_time_def)

lemma declared_keys_update_time [simp]: "declared_keys (update_time now et mk rows) = declared_keys rows"
  unfolding declared_keys_def row_objects_update_time ..

lemma declared_keys_append [simp]: "declared_keys (rows @ rows') = declared_keys rows \<union> declared_keys rows'"
  by (simp add: declared_keys_def)

text \<open>Two states of the archive: related drivers, and the same series declared, in the same order.\<close>

definition archive_related :: "('d \<Rightarrow> 'd \<Rightarrow> bool) \<Rightarrow> 'd archive \<Rightarrow> 'd archive \<Rightarrow> bool" where
  "archive_related R ar ar' = (R (cdb (ar_cass ar)) (cdb (ar_cass ar')) \<and>
     map row_object (ar_event_types ar') = map row_object (ar_event_types ar))"

text \<open>The kind of columns of each family, and the year a point can have.\<close>

definition family_value :: "colfam \<Rightarrow> colval \<Rightarrow> bool" where
  "family_value cf v = (case v of RawCol _ \<Rightarrow> cf = RawCF | Super _ \<Rightarrow> cf \<noteq> RawCF)"

lemma family_value_simps [simp]: "family_value RawCF (RawCol j)" "family_value RateCF (Super ss)" "family_value AggCF (Super ss)"
  by (simp_all add: family_value_def)

lemma utcfromtimestamp_year: "utcfromtimestamp x = Inr d \<Longrightarrow> 1 \<le> dt_year d"
  by (auto simp: utcfromtimestamp_def Let_def split: pyfloat.splits if_splits)

lemma get_datetime_year: "get_datetime obj = Inr d \<Longrightarrow> 1 \<le> dt_year d"
  by (auto simp: get_datetime_def res_simps utcfromtimestamp_year)

locale driver_relation =
  fixes P :: "'d pycassa" and R :: "'d \<Rightarrow> 'd \<Rightarrow> bool" and keys :: "string set"
  assumes related_refl [simp]: "R d d"
    and related_trans: "R d d' \<Longrightarrow> R d' d'' \<Longrightarrow> R d d''"
    and related_insert: "cf_insert P cf (get_rowkey path freq (Some (dt_year t))) (timegm t * 1000) v d = Inr d' \<Longrightarrow>
      get_rowkey path freq (Some (dt_year t)) \<in> keys \<Longrightarrow> 1 \<le> dt_year t \<Longrightarrow> family_value cf v \<Longrightarrow> R d d'"
    and related_send: "cf_send P cf d = Inr d' \<Longrightarrow> R d d'"
begin

lemma insert_container_related:
  assumes "cf_insert P cf (get_key c) (ts_to_jstime c) v d = Inr d'" and "get_key c \<in> keys"
    and "1 \<le> dt_year (c_ts c)" and "family_value cf v"
  shows "R d d'"
  using related_insert assms unfolding get_key_def ts_to_jstime_def by blast

lemma update_rate_bin_related:
  assumes "update_rate_bin P b st = Inr st'" and "get_key b \<in> keys" and "1 \<le> dt_year (c_ts b)"
  shows "R (cdb st) (cdb st')"
  using assms by (auto simp: update_rate_bin_def split: sum.splits if_splits intro: insert_container_related)

lemma store_value_related:
  assumes "store_value P cf obj st = Inr st'" and "object_keys obj \<subseteq> keys"
  shows "R (cdb st) (cdb st')"
proof -
  obtain ts bf where ts: "get_datetime obj = Inr ts" "base_freq obj = Inr bf" using assms(1) by (auto simp: store_value_def res_simps)
  note year = get_datetime_year [OF ts(1)]
  show ?thesis
  proof (cases cf)
    case RawCF
    then show ?thesis using assms ts year
      by (auto simp: store_value_def set_raw_data_def res_simps intro!: insert_container_related subsetD [OF assms(2) get_key_object])
  next
    case RateCF
    then show ?thesis using assms ts year by (auto simp: store_value_def res_simps intro!: update_rate_bin_related subsetD [OF assms(2) get_key_object])
  next
    case AggCF
    then show ?thesis using assms ts year
      by (auto simp: store_value_def Let_def res_simps intro!: insert_container_related subsetD [OF assms(2) get_key_object])
  qed (use assms(1) ts in \<open>simp add: store_value_def\<close>)
qed

lemma database_write_related:
  assumes "database_write P obj cache st = Inr (cache', st')" and "object_keys obj \<subseteq> keys"
  shows "R (cdb st) (cdb st')"
  using assms
  by (auto simp: database_write_def res_simps split: if_splits dest!: summarise_changes_value
      elim!: store_value_related)

lemma write_summaries_related:
  assumes "write_summaries P obj ets cache st = (e, st')"
    and "\<And>stype win t. (stype, win) \<in> set ets \<Longrightarrow>
      object_keys (obj\<lparr>to_ts := t, to_summary_type := stype, to_summary_window := win\<rparr>) \<subseteq> keys"
  shows "R (cdb st) (cdb st')"
  using assms
proof (induction ets arbitrary: cache st)
  case (Cons et rest)
  obtain stype win where et: "et = (stype, win)" by (cases et)
  let ?w = "rbind (obj_time obj) (\<lambda>t.
        database_write P (obj\<lparr>to_ts := t, to_summary_type := stype, to_summary_window := win\<rparr>) cache st)"
  show ?case
  proof (cases ?w)
    case (Inr r)
    obtain cache1 st1 where r: "r = (cache1, st1)" by (cases r)
    obtain t where "database_write P (obj\<lparr>to_ts := t, to_summary_type := stype, to_summary_window := win\<rparr>) cache st =
        Inr (cache1, st1)" using Inr r by (auto simp: res_simps)
    then have "R (cdb st) (cdb st1)" by (rule database_write_related) (use Cons.prems(2) et in auto)
    moreover have "R (cdb st1) (cdb st')"
      by (rule Cons.IH [of cache1]) (use Cons.prems Inr r et in auto)
    ultimately show ?thesis by (rule related_trans)
  qed (use Cons.prems(1) et in simp)
qed simp

lemma archive_related_refl [simp]: "archive_related R ar ar"
  by (simp add: archive_related_def)

lemma archive_related_trans: "archive_related R a b \<Longrightarrow> archive_related R b c \<Longrightarrow> archive_related R a c"
  by (auto simp: archive_related_def intro: related_trans)

lemma archive_related_declared:
  "archive_related R ar ar' \<Longrightarrow> declared_keys (ar_event_types ar') = declared_keys (ar_event_types ar)"
  by (simp only: archive_related_def declared_keys_def)

lemma save_related:
  assumes "save P now obj ar = (e, ar')" and "declared_keys (ar_event_types ar) \<subseteq> keys"
  shows "archive_related R ar ar'"
proof (cases "check_conflict P obj (ar_cass ar)")
  case (Inr u)
  let ?ets = "select_summaries (ar_event_types ar) (to_event_type obj) (to_metadata_key obj)"
  obtain e1 st where w: "write_summaries P obj ?ets [] (ar_cass ar) = (e1, st)" by fastforce
  have "R (cdb (ar_cass ar)) (cdb st)"
    by (rule write_summaries_related [OF w], rule order_trans [OF declared_summaries assms(2)])
  then show ?thesis using assms(1) w Inr by (auto simp: save_def archive_related_def split: option.splits)
qed (use assms(1) in \<open>simp add: save_def\<close>)

lemma save_value_related:
  "save_value P now mk ts et v ar = (e, ar') \<Longrightarrow> declared_keys (ar_event_types ar) \<subseteq> keys \<Longrightarrow> archive_related R ar ar'"
  by (auto simp: save_value_def intro: save_related split: json.splits)

lemma bulk_values_related:
  assumes "bulk_values P now mk ts i j items ar = (e, ar')" and "declared_keys (ar_event_types ar) \<subseteq> keys"
  shows "archive_related R ar ar'"
  using assms
proof (induction items arbitrary: j ar)
  case (Cons item items)
  let ?r = "rbind (py_contains ''event-type'' item) (\<lambda>b.
        if \<not> b then Inl (ParseError (''Missing event-type field '' @ at_position i j @ '' ''))
        else rbind (required ''val'' (''Missing val field '' @ at_position i j @ '' '') item) (\<lambda>v.
        rbind (py_getitem item ''event-type'') (\<lambda>et. Inr (et, v))))"
  show ?case
  proof (cases ?r)
    case (Inr r)
    obtain et v where r: "r = (et, v)" by (cases r)
    obtain e1 ar1 where s: "save_value P now mk ts et v ar = (e1, ar1)" by fastforce
    note rel = save_value_related [OF s Cons.prems(2)]
    show ?thesis
    proof (cases e1)
      case None
      then have "bulk_values P now mk ts i (Suc j) items ar1 = (e, ar')" using Cons.prems(1) Inr r s by simp
      from Cons.IH [OF this] have "archive_related R ar1 ar'" using archive_related_declared [OF rel] Cons.prems(2) by simp
      with rel show ?thesis by (rule archive_related_trans)
    qed (use Cons.prems(1) Inr r s rel in simp)
  qed (use Cons.prems(1) in simp)
qed simp

lemma bulk_items_related:
  assumes "bulk_items P now mk i items ar = (e, ar')" and "declared_keys (ar_event_types ar) \<subseteq> keys"
  shows "archive_related R ar ar'"
  using assms
proof (induction items arbitrary: i ar)
  case (Cons item items)
  let ?pos = "'' in provided data list at position '' @ show_nat i"
  let ?r = "rbind (required ''ts'' (''Missing ts field'' @ ?pos) item) (\<lambda>ts.
        rbind (required ''val'' (''Missing val field'' @ ?pos) item) (\<lambda>v.
        case v of JList vals \<Rightarrow> Inr (ts, vals)
                | _ \<Rightarrow> Inl (ParseError (quoted ''val'' @ '' field must be an array'' @ ?pos))))"
  show ?case
  proof (cases ?r)
    case (Inr r)
    obtain ts vals where r: "r = (ts, vals)" by (cases r)
    obtain e1 ar1 where s: "bulk_values P now mk ts i 1 vals ar = (e1, ar1)" by fastforce
    note rel = bulk_values_related [OF s Cons.prems(2)]
    show ?thesis
    proof (cases e1)
      case None
      then have "bulk_items P now mk (Suc i) items ar1 = (e, ar')" using Cons.prems(1) unfolding bulk_items.simps Let_def Inr [unfolded r] sum.case prod.case s by simp
      from Cons.IH [OF this] have "archive_related R ar1 ar'" using archive_related_declared [OF rel] Cons.prems(2) by simp
      with rel show ?thesis by (rule archive_related_trans)
    next
      case (Some e2)
      then show ?thesis
        using Cons.prems(1) rel unfolding bulk_items.simps Let_def Inr [unfolded r] sum.case prod.case s by simp
    qed
  next
    case (Inl e2)
    then show ?thesis using Cons.prems(1) unfolding bulk_items.simps Let_def Inl sum.case by simp
  qed
qed simp

lemma flush_related: "flush P st = Inr st' \<Longrightarrow> R (cdb st) (cdb st')"
  by (auto simp: flush_def res_simps) (meson related_send related_trans)

lemma flush_archive_related: "flush_archive P ar = (e, ar') \<Longrightarrow> archive_related R ar ar'"
  by (auto simp: flush_archive_def archive_related_def flush_related split: sum.splits)

text \<open>A write, and the flush when it succeeded.\<close>

lemma then_flush_related:
  assumes "(case w of (Some e, ar1) \<Rightarrow> (Some e, ar1) | (None, ar1) \<Rightarrow> flush_archive P ar1) = (e, ar')"
    and "archive_related R ar (snd w)"
  shows "archive_related R ar ar'"
proof (cases w)
  case (Pair e1 ar1)
  show ?thesis
  proof (cases e1)
    case None
    then have "flush_archive P ar1 = (e, ar')" using assms(1) Pair by simp
    from flush_archive_related [OF this] show ?thesis using assms(2) Pair by (auto intro: archive_related_trans)
  qed (use assms Pair in simp)
qed

lemma archive_update_related:
  assumes "archive_update P now mk rq ar = (e, ar')" and "declared_keys (ar_event_types ar) \<subseteq> keys"
  shows "archive_related R ar ar'"
proof (cases "bulk_data rq")
  case (Inr items)
  have "archive_related R ar (snd (bulk_items P now mk 1 items ar))"
    by (rule bulk_items_related [OF _ assms(2)]) (rule surjective_pairing)
  from then_flush_related [OF _ this] show ?thesis using assms(1) Inr by (simp add: archive_update_def)
qed (use assms(1) in \<open>simp add: archive_update_def\<close>)

lemma timeseries_create_related:
  assumes "timeseries_create P now kwargs rq ar = (e, ar')" and "declared_keys (ar_event_types ar) \<subseteq> keys"
  shows "archive_related R ar ar'"
proof (cases "check_create kwargs rq")
  case (Inr obj)
  have "archive_related R ar (snd (save P now obj ar))"
    by (rule save_related [OF _ assms(2)]) (rule surjective_pairing)
  from then_flush_related [OF _ this] show ?thesis using assms(1) Inr by (simp add: timeseries_create_def)
qed (use assms(1) in \<open>simp add: timeseries_create_def\<close>)

end

text \<open>No column disappears, and nothing changes outside the rows of given keys.\<close>

definition columns_grow ::
  "('d \<Rightarrow> colfam \<Rightarrow> string \<Rightarrow> row) \<Rightarrow> ('d \<Rightarrow> colfam \<Rightarrow> mutation list) \<Rightarrow> 'd \<Rightarrow> 'd \<Rightarrow> bool" where
  "columns_grow sent pending d d' = (\<forall>cf k. fst ` set (settled sent pending d cf k) \<subseteq> fst ` set (settled sent pending d' cf k))"

lemma columns_grow_trans: "columns_grow sent pending a b \<Longrightarrow> columns_grow sent pending b c \<Longrightarrow> columns_grow sent pending a c"
  unfolding columns_grow_def by (meson order_trans)

definition changes_within ::
  "('d \<Rightarrow> colfam \<Rightarrow> string \<Rightarrow> row) \<Rightarrow> ('d \<Rightarrow> colfam \<Rightarrow> mutation list) \<Rightarrow> string set \<Rightarrow> 'd \<Rightarrow> 'd \<Rightarrow> bool" where
  "changes_within sent pending keys d d' = (\<forall>cf k. k \<notin> keys \<longrightarrow> settled sent pending d' cf k = settled sent pending d cf k)"

text \<open>The columns of each family are of its kind and lie in the row of their year, at whole seconds.\<close>

definition well_stored :: "colfam \<Rightarrow> (string \<Rightarrow> row) \<Rightarrow> bool" where
  "well_stored cf rows = ((\<forall>k c v. (c, v) \<in> set (rows k) \<longrightarrow> family_value cf v) \<and> year_placed rows)"

lemma merge_col_family:
  "family_value cf v \<Longrightarrow> (case old of None \<Rightarrow> True | Some u \<Rightarrow> family_value cf u) \<Longrightarrow> family_value cf (merge_col cf v old)"
  by (cases "(cf, v, old)" rule: merge_col.cases) (auto simp: family_value_def)

lemma well_stored_put:
  assumes "well_stored cf rows" and ok: "\<And>k. row_ok (rows k)" and "1 \<le> dt_year t" and "family_value cf v"
  shows "well_stored cf (apply_mut cf (Ins (get_rowkey path freq (Some (dt_year t))) (timegm t * 1000) v) rows)"
proof -
  let ?k = "get_rowkey path freq (Some (dt_year t))" and ?c = "timegm t * 1000"
  have old: "family_value cf u" if "(c, u) \<in> set (rows k)" for k c u
    using that assms(1) by (auto simp: well_stored_def)
  have "family_value cf u" if "(c, u) \<in> set (put_col cf ?c v (rows ?k))" for c u
  proof -
    have "map_of (put_col cf ?c v (rows ?k)) c = Some u" using that row_ok_map_of [OF put_col_ok [OF ok]] by simp
    then have "((map_of (rows ?k))(?c \<mapsto> merge_col cf v (map_of (rows ?k) ?c))) c = Some u" by (simp add: map_of_put_col [OF ok])
    then show ?thesis
      using merge_col_family [OF assms(4)] old row_ok_map_of [OF ok] by (auto split: if_splits option.splits)
  qed
  then show ?thesis
    using old year_placed_put [of rows t cf path freq v] assms(1) ok assms(3) by (auto simp: well_stored_def split: if_splits)
qed

definition stays_well_stored ::
  "('d \<Rightarrow> colfam \<Rightarrow> string \<Rightarrow> row) \<Rightarrow> ('d \<Rightarrow> colfam \<Rightarrow> mutation list) \<Rightarrow> 'd \<Rightarrow> 'd \<Rightarrow> bool" where
  "stays_well_stored sent pending d d' =
     (\<forall>cf. well_stored cf (settled sent pending d cf) \<longrightarrow> well_stored cf (settled sent pending d' cf))"

sublocale batched_store < grow: driver_relation P "columns_grow sent pending" UNIV
proof
  fix cf path freq t v d d'
  let ?k = "get_rowkey path freq (Some (dt_year t))"
  assume "cf_insert P cf ?k (timegm t * 1000) v d = Inr d'"
  from settled_insert [OF this] show "columns_grow sent pending d d'"
    using put_col_cols [of cf "timegm t * 1000" v "settled sent pending d cf ?k"] by (auto simp: columns_grow_def)
qed (auto simp: settled_send columns_grow_def [of _ _ d d for d] intro: columns_grow_trans, simp add: columns_grow_def settled_send)

sublocale batched_store < within: driver_relation P "changes_within sent pending keys" keys for keys
proof
  fix cf path freq t v d d'
  let ?k = "get_rowkey path freq (Some (dt_year t))"
  assume "cf_insert P cf ?k (timegm t * 1000) v d = Inr d'" and "?k \<in> keys"
  from settled_insert [OF this(1)] this(2) show "changes_within sent pending keys d d'" by (auto simp: changes_within_def)
qed (auto simp: changes_within_def settled_send)

sublocale batched_store < typed: driver_relation P "stays_well_stored sent pending" UNIV
proof
  fix cf path freq t v d d'
  assume "cf_insert P cf (get_rowkey path freq (Some (dt_year t))) (timegm t * 1000) v d = Inr d'"
    and "1 \<le> dt_year t" and "family_value cf v"
  with settled_insert [OF this(1)] show "stays_well_stored sent pending d d'"
    by (auto simp: stays_well_stored_def simp del: apply_mut.simps intro: well_stored_put settled_ok)
qed (auto simp: stays_well_stored_def settled_send)

subsection \<open>What a POST does to the tables\<close>

lemma store_event_types_added:
  "store_event_types D key ets tb = (r, tb') \<Longrightarrow> \<exists>rows. tb_event_types tb' = tb_event_types tb @ rows \<and>
     (\<forall>x \<in> set rows. et_metadata_key x = key \<and>
        (\<exists>w. (et_event_type x, et_summary_type x, w) \<in> set ets \<and> dj_window D w = Inr (et_summary_window x)))"
proof (induction D key ets tb rule: store_event_types.induct)
  case (2 D key et stype w ets tb)
  show ?case
  proof (cases "dj_window D w")
    case (Inr n)
    let ?row = "\<lparr>et_metadata_key = key, et_event_type = et, et_summary_type = stype, et_summary_window = n, et_time_updated = None\<rparr>"
    have "store_event_types D key ets (tb\<lparr>tb_event_types := tb_event_types tb @ [?row]\<rparr>) = (r, tb')"
      using "2.prems" Inr by simp
    from "2.IH" [OF Inr this] obtain rows where rows: "tb_event_types tb' = tb_event_types tb @ [?row] @ rows"
      and new: "\<forall>x \<in> set rows. et_metadata_key x = key \<and>
        (\<exists>w. (et_event_type x, et_summary_type x, w) \<in> set ets \<and> dj_window D w = Inr (et_summary_window x))"
      by auto
    show ?thesis by (rule exI [of _ "?row # rows"]) (use rows new Inr in auto)
  qed (use "2.prems" in simp)
qed simp

lemma insert_metadata_added:
  assumes "insert_metadata D c k v tb = (r, tb')"
  shows "\<exists>rows. tb_event_types tb' = tb_event_types tb @ rows \<and> (\<forall>x \<in> set rows. et_metadata_key x = k \<and>
     (\<exists>w. (et_event_type x, et_summary_type x, w) \<in> set (va_event_types v) \<and> dj_window D w = Inr (et_summary_window x)))"
proof (cases "dj_subject D (va_subject_model v) (va_subject v)")
  case (Inr subject)
  let ?md = "\<lparr>mr_key = k, mr_subject_type = va_subject_type v, mr_checksum = c, mr_subject = Some (va_subject_model v, subject), mr_params = []\<rparr>"
  let ?tb = "tb\<lparr>tb_metadata := set_md ?md (tb_metadata tb @ [?md\<lparr>mr_subject := None\<rparr>])\<rparr>"
  obtain e tb1 where run: "store_event_types D k (sort_by spec_less (va_event_types v)) ?tb = (e, tb1)" by fastforce
  have "tb_event_types tb' = tb_event_types tb1"
    using assms Inr run by (cases e) (auto simp: insert_metadata_def Let_def split: prod.splits)
  then show ?thesis using store_event_types_added [OF run] by simp
qed (use assms in \<open>auto simp: insert_metadata_def Let_def\<close>)

lemma deserialize_event_types_specs:
  assumes "deserialize_event_types x = Inr ps"
  shows "list_all spec_ok ps"
proof (cases x)
  case (JList xs)
  then obtain ets where ets: "rmap deserialize_event_type xs = Inr ets" "ps = concat ets"
    using assms by (auto simp: deserialize_event_types_def res_simps)
  have "\<forall>p \<in> set qs. spec_ok p" if "qs \<in> set ets" for qs
    using rmap_set [OF ets(1) that] deserialize_event_type_ok by blast
  then show ?thesis by (auto simp: ets(2) list_all_iff)
qed (use assms in \<open>auto simp: deserialize_event_types_def\<close>)

lemma read_keys_specs:
  "read_keys d v0 = Inr v \<Longrightarrow> list_all spec_ok (va_event_types v0) \<Longrightarrow> list_all spec_ok (va_event_types v)"
proof (induction d v0 rule: read_keys.induct)
  case (2 k x d v0)
  from "2.prems"(1) obtain v1 where head: "(if k = ''subject-type'' then
              (case x of JStr s \<Rightarrow> Inr (v0\<lparr>va_subject_type := s\<rparr>) | _ \<Rightarrow> Inl Unmodelled)
            else if k = ''event-types'' then
              rbind (deserialize_event_types x) (\<lambda>ets. Inr (v0\<lparr>va_event_types := ets\<rparr>))
            else if has_key k SUBJECT_FILTER_MAP then
              Inr (v0\<lparr>va_subject := AList.update (subject_field (va_subject_model v0) k) x (va_subject v0)\<rparr>)
            else Inr (v0\<lparr>va_params := va_params v0 @ [(k, x)]\<rparr>)) = Inr v1"
      and rest: "read_keys d v1 = Inr v"
    by (auto simp: rbind_eq_Inr simp del: rbind_Inr)
  have "list_all spec_ok (va_event_types v1)"
    using head "2.prems"(2) by (auto simp: res_simps split: if_splits json.splits dest: deserialize_event_types_specs)
  then show ?case by (rule "2.IH" [OF head rest])
qed simp

lemma to_internal_value_specs: "to_internal_value data = Inr v \<Longrightarrow> list_all spec_ok (va_event_types v)"
proof (cases data)
  case (JObj d)
  assume "to_internal_value data = Inr v"
  from to_internal_value_read [OF this [unfolded JObj]] obtain model where
    "read_keys d \<lparr>va_subject_type = [], va_subject_model = model, va_subject = [], va_params = [], va_event_types = []\<rparr> = Inr v"
    by blast
  from read_keys_specs [OF this] show ?thesis by simp
qed (auto simp: to_internal_value_def res_simps split: if_splits option.splits)

subsection \<open>The consistency of the tables\<close>

text \<open>A row of a configured event type: a base series, or a summary allowed for its data type.\<close>

definition row_configured :: "event_type_row \<Rightarrow> bool" where
  "row_configured r = (case map_of EVENT_TYPE_CONFIG (et_event_type r) of None \<Rightarrow> False
     | Some t \<Rightarrow> (if et_summary_type r = ''base'' then et_summary_window r = 0 else et_summary_type r \<in> set (ALLOWED_SUMMARIES t)))"

definition rows_owned :: "string list \<Rightarrow> event_type_row list \<Rightarrow> bool" where
  "rows_owned ks = list_all (\<lambda>r. et_metadata_key r \<in> set ks \<and> row_configured r)"

definition consistent :: "'d service \<Rightarrow> bool" where
  "consistent s = (distinct (map mr_key (sv_metadata s)) \<and> distinct (map mr_checksum (sv_metadata s)) \<and>
     rows_owned (map mr_key (sv_metadata s)) (sv_event_types s))"

lemma row_configured_object: "row_object r = row_object r' \<Longrightarrow> row_configured r = row_configured r' \<and> et_metadata_key r = et_metadata_key r'"
  by (simp add: row_object_def row_configured_def split: option.splits)

lemma rows_owned_objects:
  assumes "map row_object rows = map row_object rows'"
  shows "rows_owned ks rows = rows_owned ks rows'"
proof -
  have "list_all2 (\<lambda>r r'. row_object r = row_object r') rows rows'"
    using assms by (simp add: list_all2_conv_all_nth list_eq_iff_nth_eq)
  then show ?thesis by (induction rule: list_all2_induct) (auto simp: rows_owned_def dest: row_configured_object)
qed

lemma rows_owned_delete: "rows_owned ks rows \<Longrightarrow> rows_owned (filter (\<lambda>k. k \<notin> set xs) ks) (delete_metadata xs rows)"
  by (simp add: rows_owned_def delete_metadata_def list_all_iff)

lemma ALLOWED_SUMMARIES_base: "''base'' \<notin> set (ALLOWED_SUMMARIES t)"
  by (cases t) simp_all

lemma spec_ok_configured:
  assumes "spec_ok (et_event_type r, et_summary_type r, w)" and "dj_window D w = Inr (et_summary_window r)"
    and "dj_window D (JStr ''0'') = Inr 0"
  shows "row_configured r"
  using assms by (auto simp: spec_ok_def row_configured_def ALLOWED_SUMMARIES_base split: option.splits)

text \<open>A POST that is answered by a stored record changes nothing; any other adds rows.\<close>

lemma service_post_cases:
  assumes "service_post D sha256 k data s = (r, s')" and "k \<notin> set (map mr_key (sv_metadata s))"
  obtains (same) "s' = s"
  | (added) v c md rows where "to_internal_value data = Inr v" "calculate_checksum sha256 v = Inr c"
      "sv_metadata s' = sv_metadata s @ [md]" "mr_key md = k" "mr_checksum md = c"
      "c \<notin> set (map mr_checksum (sv_metadata s))" "ar_cass (sv_archive s') = ar_cass (sv_archive s)"
      "sv_event_types s' = sv_event_types s @ rows" "\<And>md'. r = Inr md' \<Longrightarrow> md' = md"
      "\<forall>x \<in> set rows. et_metadata_key x = k \<and>
        (\<exists>w. (et_event_type x, et_summary_type x, w) \<in> set (va_event_types v) \<and> dj_window D w = Inr (et_summary_window x))"
proof -
  obtain tb where run: "archive_create D sha256 k data (sv_tables s) = (r, tb)" and s': "s' = set_tables tb s"
    using assms(1) by (auto simp: service_post_def split: prod.splits)
  show thesis
  proof (cases "rbind (to_internal_value data) (\<lambda>v. rbind (calculate_checksum sha256 v) (\<lambda>c. Inr (v, c)))")
    case (Inl e)
    then have "tb = sv_tables s" using run by (simp add: archive_create_def)
    then show thesis using same s' by (simp add: set_tables_def sv_tables_def)
  next
    case (Inr vc)
    then obtain v c where vc: "to_internal_value data = Inr v" "calculate_checksum sha256 v = Inr c"
      by (auto simp: res_simps)
    note run = run [unfolded archive_create_valid [OF vc] metadata_create_def]
    show thesis
    proof (cases "filter (\<lambda>r. mr_checksum r = c) (tb_metadata (sv_tables s))")
      case (Cons x xs)
      then have "tb = sv_tables s" using run by simp
      then show thesis using same s' by (simp add: set_tables_def sv_tables_def)
    next
      case Nil
      then have ins: "insert_metadata D c k v (sv_tables s) = (r, tb)" and new: "c \<notin> set (map mr_checksum (sv_metadata s))"
        using run by (auto simp: sv_tables_def filter_empty_conv)
      from insert_metadata_rows [OF ins] assms(2) obtain md where md: "tb_metadata tb = sv_metadata s @ [md]"
          "mr_checksum md = c" "mr_key md = k" "\<forall>md'. r = Inr md' \<longrightarrow> md' = md" by (auto simp: sv_tables_def)
      from insert_metadata_added [OF ins] obtain rows where "tb_event_types tb = sv_event_types s @ rows"
        "\<forall>x \<in> set rows. et_metadata_key x = k \<and>
        (\<exists>w. (et_event_type x, et_summary_type x, w) \<in> set (va_event_types v) \<and> dj_window D w = Inr (et_summary_window x))"
        by (auto simp: sv_tables_def)
      then show thesis using added [OF vc] md new s' by (simp add: set_tables_def)
    qed
  qed
qed

text \<open>With any relation at all, the writes still keep the declared series.\<close>

interpretation any: driver_relation P "\<lambda>_ _. True" UNIV for P
  by unfold_locales simp_all

lemma consistent_archive:
  assumes "archive_related R (sv_archive s) ar" and "consistent s"
  shows "consistent (s\<lparr>sv_archive := ar\<rparr>)"
proof -
  have "map row_object (ar_event_types ar) = map row_object (sv_event_types s)"
    using assms(1) by (simp add: archive_related_def)
  from rows_owned_objects [OF this] show ?thesis using assms(2) by (simp add: consistent_def)
qed

lemma service_post_consistent:
  assumes "service_post D sha256 k data s = (r, s')" and "k \<notin> set (map mr_key (sv_metadata s))"
    and "dj_window D (JStr ''0'') = Inr 0" and "consistent s"
  shows "consistent s'"
  using assms(1,2)
proof (cases rule: service_post_cases)
  case same
  then show ?thesis using assms(4) by simp
next
  case (added v c md rows)
  have "row_configured x \<and> et_metadata_key x = k" if "x \<in> set rows" for x
    using added(10) that to_internal_value_specs [OF added(1)] spec_ok_configured [OF _ _ assms(3), of x]
    by (auto simp: list_all_iff)
  then show ?thesis
    using assms(2,4) added(3-6,8) by (auto simp: consistent_def rows_owned_def list_all_iff)
qed

lemma consistent_delete:
  assumes "consistent s"
  shows "consistent (s\<lparr>sv_metadata := filter (\<lambda>m. mr_key m \<notin> set xs) (sv_metadata s),
    sv_archive := (sv_archive s)\<lparr>ar_cass := st, ar_event_types := delete_metadata xs (sv_event_types s)\<rparr>\<rparr>)"
proof -
  have "map mr_key (filter (\<lambda>m. mr_key m \<notin> set xs) ms) = filter (\<lambda>k. k \<notin> set xs) (map mr_key ms)" for ms
    by (simp add: filter_map o_def)
  from this [of "sv_metadata s"] show ?thesis
    using assms rows_owned_delete [of "map mr_key (sv_metadata s)" "sv_event_types s" xs]
    by (simp add: consistent_def distinct_map_filter del: map_filter_map_filter)
qed

text \<open>The expiry leaves the tables alone or deletes records with their event types.\<close>

lemma service_expire_tables:
  assumes "service_expire P args config clock s = Some (e, s')"
  obtains (kept) st where "s' = s\<lparr>sv_archive := (sv_archive s)\<lparr>ar_cass := st\<rparr>\<rparr>"
  | (deleted) xs st where "s' = s\<lparr>sv_metadata := filter (\<lambda>m. mr_key m \<notin> set xs) (sv_metadata s),
      sv_archive := (sv_archive s)\<lparr>ar_cass := st, ar_event_types := delete_metadata xs (sv_event_types s)\<rparr>\<rparr>"
proof (cases "build_policies config")
  case (Inl e1)
  then have "s' = s\<lparr>sv_archive := (sv_archive s)\<lparr>ar_cass := ar_cass (sv_archive s)\<rparr>\<rparr>"
    using assms by (simp add: service_expire_def)
  then show thesis by (rule kept)
next
  case (Inr policies)
  obtain e1 counts st where "expire_rows P args policies clock 0 (sv_event_types s) ([], ar_cass (sv_archive s)) =
      Some (e1, counts, st)"
    using assms Inr by (auto simp: service_expire_def split: option.splits)
  then show thesis
    using assms Inr kept [of st] deleted [where xs = "expired_metadata counts" and st = st]
    by (cases e1) (simp_all add: service_expire_def)
qed

lemma service_expire_consistent:
  assumes "service_expire P args config clock s = Some (e, s')" and "consistent s"
  shows "consistent s'"
  using assms(1)
proof (cases rule: service_expire_tables)
  case (kept st)
  then show ?thesis using assms(2) by (simp add: consistent_def)
next
  case (deleted xs st)
  then show ?thesis using consistent_delete [OF assms(2)] by simp
qed

lemma serve_consistent:
  assumes "serve P D sha256 c s e s'" and "dj_window D (JStr ''0'') = Inr 0" and "consistent s"
  shows "consistent s'"
  using assms
proof (induction rule: serve.induct)
  case (serve_put now mk rq s e ar)
  then show ?case by (auto intro: consistent_archive any.archive_update_related)
next
  case (serve_series now kwargs rq s e ar)
  then show ?case by (auto intro: consistent_archive any.timeseries_create_related)
qed (auto intro: service_post_consistent service_expire_consistent)

lemma new_service_consistent: "consistent (new_service st)"
  by (simp add: consistent_def new_service_def rows_owned_def)

lemma serve_all_consistent:
  assumes "serve_all P D sha256 cs (new_service st) s" and "dj_window D (JStr ''0'') = Inr 0"
  shows "consistent s"
proof (rule serve_all_invariant [OF assms(1), where I = consistent])
  show "list_all (\<lambda>_. True) cs" by (simp add: list_all_iff)
  show "consistent (new_service st)" by (rule new_service_consistent)
qed (rule serve_consistent [OF _ assms(2)])

text \<open>
  C3. The tables are consistent whatever calls are served, in whatever order and with
  whatever outcome, the expiry included: no two records have one key or one checksum, every
  event type belongs to a stored record, is configured, and is a base series with the window
  0 or a summary allowed for its data type. Assumed is that a new record gets a key no stored
  record has, and that the database converts the window ''0'' of base series to 0.
\<close>

theorem tables_consistent:
  assumes "serve_all P D sha256 cs (new_service st) s" and "dj_window D (JStr ''0'') = Inr 0"
  shows "distinct (map mr_key (sv_metadata s)) \<and> distinct (map mr_checksum (sv_metadata s)) \<and>
    list_all (\<lambda>r. et_metadata_key r \<in> set (map mr_key (sv_metadata s)) \<and> row_configured r) (sv_event_types s)"
  using serve_all_consistent [OF assms] by (simp add: consistent_def rows_owned_def)

subsection \<open>Without the expiry nothing disappears\<close>

text \<open>The later state has everything of the earlier one, apart from the times of the last update.\<close>

definition extends ::
  "('d \<Rightarrow> colfam \<Rightarrow> string \<Rightarrow> row) \<Rightarrow> ('d \<Rightarrow> colfam \<Rightarrow> mutation list) \<Rightarrow> 'd service \<Rightarrow> 'd service \<Rightarrow> bool" where
  "extends sent pending s s' = (prefix (sv_metadata s) (sv_metadata s') \<and>
     prefix (map row_object (sv_event_types s)) (map row_object (sv_event_types s')) \<and>
     columns_grow sent pending (sv_store s) (sv_store s'))"

lemma extends_refl [simp]: "extends sent pending s s"
  by (simp add: extends_def columns_grow_def)

lemma extends_trans: "extends sent pending a b \<Longrightarrow> extends sent pending b c \<Longrightarrow> extends sent pending a c"
  unfolding extends_def by (meson columns_grow_trans prefix_order.trans)

context batched_store
begin

lemma service_post_extends:
  assumes "service_post D sha256 k data s = (r, s')" and "k \<notin> set (map mr_key (sv_metadata s))"
  shows "extends sent pending s s'"
  using assms
proof (cases rule: service_post_cases)
  case (added v c md rows)
  then show ?thesis by (simp add: extends_def columns_grow_def)
qed simp

lemma archive_extends:
  assumes "archive_related (columns_grow sent pending) (sv_archive s) ar"
  shows "extends sent pending s (s\<lparr>sv_archive := ar\<rparr>)"
  using assms by (simp add: archive_related_def extends_def)

lemma serve_extends:
  assumes "serve P D sha256 c s e s'" and "\<not> is_expiry c"
  shows "extends sent pending s s'"
  using assms
proof (induction rule: serve.induct)
  case (serve_put now mk rq s e ar)
  show ?case by (rule archive_extends) (use grow.archive_update_related [OF serve_put(1)] in simp)
next
  case (serve_series now kwargs rq s e ar)
  show ?case by (rule archive_extends) (use grow.timeseries_create_related [OF serve_series(1)] in simp)
qed (auto intro: service_post_extends)

lemma serve_all_extends:
  assumes "serve_all P D sha256 cs s s'" and "list_all (\<lambda>c. \<not> is_expiry c) cs"
  shows "extends sent pending s s'"
  by (rule serve_all_relates [OF assms]) (auto intro: extends_trans serve_extends)

end

text \<open>
  C7. Only the expiry deletes: whatever posts and puts are served, in whatever order and with
  whatever outcome, every record, every declared series and every column of the store, queued
  ones included, is still there afterwards, the records unchanged and in their order.
\<close>

theorem only_expiry_deletes:
  assumes "batched_store P sent pending" and "serve_all P D sha256 cs s s'" and "list_all (\<lambda>c. \<not> is_expiry c) cs"
  shows "prefix (sv_metadata s) (sv_metadata s') \<and>
    prefix (map row_object (sv_event_types s)) (map row_object (sv_event_types s')) \<and>
    (\<forall>cf k. fst ` set (settled sent pending (sv_store s) cf k) \<subseteq> fst ` set (settled sent pending (sv_store s') cf k))"
  using batched_store.serve_all_extends [OF assms] by (simp add: extends_def columns_grow_def)

text \<open>The record a POST with a checksum is answered with: the first one that has it.\<close>

definition checksum_record :: "string \<Rightarrow> 'd service \<Rightarrow> md_row \<Rightarrow> bool" where
  "checksum_record c s md = (\<exists>xs. filter (\<lambda>r. mr_checksum r = c) (sv_metadata s) = md # xs)"

lemma checksum_record_checksum: "checksum_record c s md \<Longrightarrow> mr_checksum md = c"
  unfolding checksum_record_def by (metis (mono_tags, lifting) filter_eq_ConsD)

lemma checksum_record_stays:
  "checksum_record c s md \<Longrightarrow> prefix (sv_metadata s) (sv_metadata s') \<Longrightarrow> checksum_record c s' md"
  by (auto simp: checksum_record_def prefix_def)

lemma service_post_known:
  assumes "to_internal_value data = Inr v" and "calculate_checksum sha256 v = Inr c" and "checksum_record c s md"
  shows "service_post D sha256 k data s = (Inr md, s)"
  using assms(3)
  by (auto simp: checksum_record_def service_post_def archive_create_valid [OF assms(1,2)] metadata_create_def
      sv_tables_def set_tables_def)

lemma service_post_stored:
  assumes "to_internal_value data = Inr v" and "calculate_checksum sha256 v = Inr c"
    and "k \<notin> set (map mr_key (sv_metadata s))" and "service_post D sha256 k data s = (r, s')"
  shows "\<exists>md. checksum_record c s' md \<and> (\<forall>md'. r = Inr md' \<longrightarrow> md' = md)"
proof (cases "\<exists>md. checksum_record c s md")
  case True
  then show ?thesis using service_post_known [OF assms(1,2)] assms(4) by fastforce
next
  case False
  then have none: "filter (\<lambda>r. mr_checksum r = c) (sv_metadata s) = []"
    by (cases "filter (\<lambda>r. mr_checksum r = c) (sv_metadata s)") (auto simp: checksum_record_def)
  then have run: "insert_metadata D c k v (sv_tables s) = (r, sv_tables s')"
    using assms(4) by (auto simp: service_post_def archive_create_valid [OF assms(1,2)] metadata_create_def
        sv_tables_def set_tables_def split: prod.splits)
  from insert_metadata_rows [OF this] assms(3) obtain md where "sv_metadata s' = sv_metadata s @ [md]"
      "mr_checksum md = c" "\<forall>md'. r = Inr md' \<longrightarrow> md' = md"
    by (auto simp: sv_tables_def)
  then show ?thesis using none by (auto simp: checksum_record_def)
qed

text \<open>
  C30. A record is stored once for good: after a POST of metadata, whatever came of it, and
  any further posts and puts, the same POST is answered with the record of its checksum, the
  one the first answered with, and changes nothing.
\<close>

theorem reposted_later:
  assumes "to_internal_value data = Inr v" and "calculate_checksum sha256 v = Inr c"
    and "k \<notin> set (map mr_key (sv_metadata s))" and "service_post D sha256 k data s = (r, s1)"
    and "batched_store P sent pending" and "serve_all P D sha256 cs s1 s2" and "list_all (\<lambda>c. \<not> is_expiry c) cs"
  shows "\<exists>md. service_post D sha256 k' data s2 = (Inr md, s2) \<and> mr_checksum md = c \<and> (\<forall>md'. r = Inr md' \<longrightarrow> md' = md)"
proof -
  obtain md where md: "checksum_record c s1 md" and r: "\<forall>md'. r = Inr md' \<longrightarrow> md' = md"
    using service_post_stored [OF assms(1-4)] by blast
  have "prefix (sv_metadata s1) (sv_metadata s2)"
    using batched_store.serve_all_extends [OF assms(5-7)] by (simp add: extends_def)
  from checksum_record_stays [OF md this] have "checksum_record c s2 md" .
  then show ?thesis using service_post_known [OF assms(1,2)] r checksum_record_checksum by blast
qed

end
