(* ===== verification/Archive_Runs.thy ===== *)
theory Archive_Runs
  imports Archive_Service_Facts
begin

section \<open>The store and the answers after any calls\<close>

text \<open>
  What the invariants of \<open>Archive_Service_Facts\<close> give: the columns of the store are always where
  the queries look for them and of the kind they read, and belong to declared series; every
  call is answered; the run of the expiry implements \<open>remove_data\<close> on the tables it shares with
  the interface; and a point posted to a series declared at any earlier time is read back.
\<close>

subsection \<open>The store in good order\<close>

lemma well_stored_subset:
  assumes "well_stored cf rows" and "\<And>k. set (rows' k) \<subseteq> set (rows k)"
  shows "well_stored cf rows'"
  using assms unfolding well_stored_def year_placed_def by (meson subsetD)


text \<open>Runs of the expiry with a positive chunk, as the default is.\<close>

fun chunk_positive :: "call \<Rightarrow> bool" where
  "chunk_positive (RunExpiry args _ _) = (0 < ra_time_chunk args)"
| "chunk_positive _ = True"

definition in_order ::
  "('d \<Rightarrow> colfam \<Rightarrow> string \<Rightarrow> row) \<Rightarrow> ('d \<Rightarrow> colfam \<Rightarrow> mutation list) \<Rightarrow> 'd service \<Rightarrow> bool" where
  "in_order sent pending s = (\<forall>cf. well_stored cf (settled sent pending (sv_store s) cf))"

context batched_store
begin

lemma service_expire_removes:
  assumes "service_expire P args config clock s = Some (e, s')" and "0 < ra_time_chunk args"
  shows "set (settled sent pending (sv_store s') cf k) \<subseteq> set (settled sent pending (sv_store s) cf k)"
proof (cases "build_policies config")
  case (Inr policies)
  obtain e1 counts st where run: "expire_rows P args policies clock 0 (sv_event_types s) ([], ar_cass (sv_archive s)) =
      Some (e1, counts, st)"
    using assms(1) Inr by (auto simp: service_expire_def split: option.splits)
  have "ar_cass (sv_archive s') = st" using assms(1) Inr run by (cases e1) (auto simp: service_expire_def)
  then show ?thesis using expire_rows_keeps(1) [OF run assms(2)] by auto
qed (use assms(1) in \<open>simp add: service_expire_def\<close>)

lemma serve_in_order:
  assumes "serve P D sha256 c s e s'" and "chunk_positive c" and "in_order sent pending s"
  shows "in_order sent pending s'"
  using assms
proof (induction rule: serve.induct)
  case (serve_post k s data r s')
  from serve_post(2,1) show ?case
    using serve_post(4) by (cases rule: service_post_cases) (simp_all add: in_order_def)
next
  case (serve_put now mk rq s e ar)
  show ?case using typed.archive_update_related [OF serve_put(1)] serve_put(3)
    by (simp add: in_order_def archive_related_def stays_well_stored_def)
next
  case (serve_series now kwargs rq s e ar)
  show ?case using typed.timeseries_create_related [OF serve_series(1)] serve_series(3)
    by (simp add: in_order_def archive_related_def stays_well_stored_def)
next
  case (serve_expiry args config clock s e s')
  then show ?case
    using well_stored_subset [OF _ service_expire_removes [OF serve_expiry(1)]] by (auto simp: in_order_def)
qed

lemma serve_all_in_order:
  "serve_all P D sha256 cs s s' \<Longrightarrow> list_all chunk_positive cs \<Longrightarrow> in_order sent pending s \<Longrightarrow> in_order sent pending s'"
  by (rule serve_all_invariant [where I = "in_order sent pending" and ok = chunk_positive]) (auto intro: serve_in_order)

end

text \<open>
  C9. The data is always where the queries look for it: starting from an empty store, after
  any calls, runs of the expiry included, every column of the raw family holds JSON and every
  column of the other families counters, and each lies at a whole second in the row of its
  year, for columns that are still queued as well.
\<close>

theorem store_in_order:
  assumes "batched_store P sent pending" and "serve_all P D sha256 cs (new_service st) s"
    and "list_all chunk_positive cs" and "\<And>cf k. settled sent pending (cdb st) cf k = []"
  shows "well_stored cf (settled sent pending (sv_store s) cf)"
proof -
  have "in_order sent pending (new_service st)"
    by (simp add: in_order_def new_service_def assms(4) well_stored_def year_placed_def)
  from batched_store.serve_all_in_order [OF assms(1-3) this] show ?thesis by (simp add: in_order_def)
qed

subsection \<open>Data of declared series only\<close>

definition all_declared ::
  "('d \<Rightarrow> colfam \<Rightarrow> string \<Rightarrow> row) \<Rightarrow> ('d \<Rightarrow> colfam \<Rightarrow> mutation list) \<Rightarrow> 'd service \<Rightarrow> bool" where
  "all_declared sent pending s =
     (\<forall>cf k. settled sent pending (sv_store s) cf k \<noteq> [] \<longrightarrow> k \<in> declared_keys (sv_event_types s))"

context batched_store
begin

lemma archive_declared:
  assumes "archive_related (changes_within sent pending (declared_keys (sv_event_types s))) (sv_archive s) ar"
    and "all_declared sent pending s"
  shows "all_declared sent pending (s\<lparr>sv_archive := ar\<rparr>)"
  using assms within.archive_related_declared [OF assms(1)]
  by (auto simp: all_declared_def archive_related_def changes_within_def)

lemma serve_declared:
  assumes "serve P D sha256 c s e s'" and "\<not> is_expiry c" and "all_declared sent pending s"
  shows "all_declared sent pending s'"
  using assms
proof (induction rule: serve.induct)
  case (serve_post k s data r s')
  from serve_post(2,1) show ?case
    using serve_post(4) by (cases rule: service_post_cases) (auto simp: all_declared_def)
next
  case (serve_put now mk rq s e ar)
  show ?case by (rule archive_declared [OF within.archive_update_related [OF serve_put(1)] serve_put(3)]) simp
next
  case (serve_series now kwargs rq s e ar)
  show ?case by (rule archive_declared [OF within.timeseries_create_related [OF serve_series(1)] serve_series(3)]) simp
qed simp

lemma serve_all_declared:
  "serve_all P D sha256 cs s s' \<Longrightarrow> list_all (\<lambda>c. \<not> is_expiry c) cs \<Longrightarrow> all_declared sent pending s \<Longrightarrow>
   all_declared sent pending s'"
  by (rule serve_all_invariant [where I = "all_declared sent pending" and ok = "\<lambda>c. \<not> is_expiry c"]) (auto intro: serve_declared)

end

text \<open>
  C8. No stray data: starting from an empty store, after any posts and puts, each row of the
  store that holds or will hold a column, in whatever family, belongs to a series declared by
  an event type of a stored record. A put to an unknown record stores nothing.
\<close>

theorem data_is_declared:
  assumes "batched_store P sent pending" and "serve_all P D sha256 cs (new_service st) s"
    and "list_all (\<lambda>c. \<not> is_expiry c) cs" and "\<And>cf k. settled sent pending (cdb st) cf k = []"
    and "dj_window D (JStr ''0'') = Inr 0" and "settled sent pending (sv_store s) cf k \<noteq> []"
  shows "\<exists>r \<in> set (sv_event_types s). \<exists>md \<in> set (sv_metadata s). et_metadata_key r = mr_key md \<and> k \<in> object_keys (row_object r)"
proof -
  have "all_declared sent pending (new_service st)"
    by (simp add: all_declared_def new_service_def assms(4))
  from batched_store.serve_all_declared [OF assms(1-3) this] obtain r
    where r: "r \<in> set (sv_event_types s)" "k \<in> object_keys (row_object r)"
    using assms(6) by (auto simp: all_declared_def declared_keys_def)
  then have "et_metadata_key r \<in> set (map mr_key (sv_metadata s))"
    using serve_all_consistent [OF assms(2,5)] by (auto simp: consistent_def rows_owned_def list_all_iff)
  then show ?thesis using r by auto
qed

subsection \<open>The expiry on the shared tables\<close>

text \<open>
  The expiry on the whole archive does to the data and the event types what
  \<open>remove_data\<close> does, with the same outcome.
\<close>

theorem expiry_refines:
  "map_option (\<lambda>(e, s'). (e, sv_archive s')) (service_expire P args config clock s) =
   remove_data P args config clock (sv_archive s)"
  by (auto simp: service_expire_def remove_data_def split: sum.splits option.splits)

subsection \<open>Every call is answered\<close>

lemma service_expire_total:
  assumes "0 < ra_time_chunk args"
  shows "\<exists>e s'. service_expire P args config clock s = Some (e, s')"
proof (cases "build_policies config")
  case (Inr policies)
  obtain e1 counts st where "expire_rows P args policies clock 0 (sv_event_types s) ([], ar_cass (sv_archive s)) =
      Some (e1, counts, st)"
    using expire_rows_total [OF assms] by (metis surj_pair)
  then show ?thesis using Inr by (cases e1) (simp_all add: service_expire_def)
qed (simp add: service_expire_def)

text \<open>The key a call brings is fresh, and the chunk of an expiry positive.\<close>

fun admissible :: "'d service \<Rightarrow> call \<Rightarrow> bool" where
  "admissible s (PostRecord k _) = (k \<notin> set (map mr_key (sv_metadata s)))"
| "admissible s c = chunk_positive c"

lemma serve_total:
  assumes "admissible s c"
  shows "\<exists>e s'. serve P D sha256 c s e s'"
proof (cases c)
  case (PostRecord k data)
  obtain r s' where "service_post D sha256 k data s = (r, s')" by fastforce
  from serve_post [OF _ this] show ?thesis using assms PostRecord by auto
next
  case (PutRecord now mk rq)
  obtain e ar where "archive_update P now mk rq (sv_archive s) = (e, ar)" by fastforce
  from serve_put [OF this] show ?thesis using PutRecord by blast
next
  case (PostSeries now kwargs rq)
  obtain e ar where "timeseries_create P now kwargs rq (sv_archive s) = (e, ar)" by fastforce
  from serve_series [OF this] show ?thesis using PostSeries by blast
next
  case (RunExpiry args config clock)
  obtain e s' where "service_expire P args config clock s = Some (e, s')"
    using service_expire_total assms RunExpiry by fastforce
  from serve_expiry [OF this] show ?thesis using RunExpiry by blast
qed

lemma serve_deterministic: "serve P D sha256 c s e s' \<Longrightarrow> serve P D sha256 c s e' s'' \<Longrightarrow> e' = e \<and> s'' = s'"
  by (induction rule: serve.induct) auto

text \<open>
  C24. Every call is answered and has one outcome: in any state, a call whose new key is fresh
  and whose chunk is positive ends, with or without an exception, and the exception and the
  state it leaves are determined.
\<close>

theorem every_call_answered:
  assumes "admissible s c"
  shows "\<exists>!es. serve P D sha256 c s (fst es) (snd es)"
proof -
  obtain e s' where "serve P D sha256 c s e s'" using serve_total [OF assms] by blast
  then show ?thesis by (intro ex1I [of _ "(e, s')"]) (auto dest: serve_deterministic)
qed

subsection \<open>Records are found at any later time\<close>

lemma filter_key_only:
  assumes "distinct (map mr_key ms)" and "md \<in> set ms" and "Q md"
  shows "filter (\<lambda>m. mr_key m = mr_key md \<and> Q m) ms = [md]"
  using assms
proof (induction ms)
  case (Cons m ms)
  then show ?case by (cases "m = md") (auto simp: filter_empty_conv image_iff)
qed simp

lemma row_object_in:
  assumes "prefix (map row_object rows) (map row_object rows')" and "r \<in> set rows"
  shows "\<exists>r' \<in> set rows'. row_object r' = row_object r"
proof -
  have "row_object r \<in> set (map row_object rows)" using assms(2) by simp
  then have "row_object r \<in> set (map row_object rows')" using set_mono_prefix [OF assms(1)] by blast
  then show ?thesis by force
qed

text \<open>
  C6. A created record is found at any later time: when a POST has created a record in a
  state the calls lead to, then after any further posts and puts a search for its key and for
  the event type and summary type of any of the accepted event types selects exactly this
  record, as it was created.
\<close>

theorem record_found_later:
  assumes "serve_all P D sha256 cs (new_service st) s" and "dj_window D (JStr ''0'') = Inr 0"
    and "to_internal_value data = Inr v" and "calculate_checksum sha256 v = Inr c"
    and "c \<notin> set (map mr_checksum (sv_metadata s))"
    and "serve P D sha256 (PostRecord k data) s None s1"
    and "batched_store P sent pending" and "serve_all P D sha256 cs' s1 s2" and "list_all (\<lambda>c. \<not> is_expiry c) cs'"
    and "(et, stype, w) \<in> set (va_event_types v)" and "0 \<le> now"
  shows "\<exists>md. mr_checksum md = c \<and>
    get_queryset resolve now [(''event-type'', et), (''summary-type'', stype), (''metadata-key'', k)] (sv_tables s2) = Inr [md]"
proof -
  have fresh: "k \<notin> set (map mr_key (sv_metadata s))" using assms(6) by auto
  obtain md where post: "service_post D sha256 k data s = (Inr md, s1)"
    using assms(6) by (auto split: sum.splits)
  then have run: "insert_metadata D c k v (sv_tables s) = (Inr md, sv_tables s1)"
    using assms(5) by (auto simp: service_post_def archive_create_valid [OF assms(3,4)] metadata_create_def
        sv_tables_def set_tables_def filter_empty_conv image_iff split: prod.splits list.splits dest!: filter_eq_ConsD)
  have md: "md \<in> set (sv_metadata s1)" "mr_key md = k" "mr_checksum md = c"
    using insert_metadata_rows [OF run] fresh by (auto simp: sv_tables_def)
  obtain r where r: "r \<in> set (sv_event_types s1)" "et_metadata_key r = k" "et_event_type r = et" "et_summary_type r = stype"
    using created_event_rows [OF run assms(10)] by (auto simp: sv_tables_def)
  have ext: "extends sent pending s1 s2" by (rule batched_store.serve_all_extends [OF assms(7-9)])
  then have "md \<in> set (sv_metadata s2)" using md(1) by (auto simp: extends_def dest: set_mono_prefix)
  moreover obtain r' where "r' \<in> set (sv_event_types s2)" "row_object r' = row_object r"
    using row_object_in [of "sv_event_types s1" "sv_event_types s2" r] ext r(1) by (auto simp: extends_def)
  moreover have "distinct (map mr_key (sv_metadata s2))"
    using serve_all_consistent [OF serve_all_append [OF assms(1) serve_next [OF assms(6) assms(8)]] assms(2)]
    by (simp add: consistent_def)
  ultimately have "filter (\<lambda>m. mr_key m = k \<and> (\<exists>r \<in> set (sv_event_types s2). et_metadata_key r = mr_key m \<and>
      et_event_type r = et \<and> et_summary_type r = stype)) (sv_metadata s2) = [md]"
    unfolding md(2) [symmetric] using r md(2) by (intro filter_key_only) (auto simp: row_object_def)
  then show ?thesis using md(3) by (simp add: search_by_key [OF assms(11)] sv_tables_def sort_by_def)
qed

subsection \<open>A database that does not answer\<close>

definition unreadable :: "'d pycassa \<Rightarrow> bool" where
  "unreadable P = (\<forall>cf keys a b n rv d. (\<exists>e. cf_multiget P cf keys a b n rv d = Inl e) \<and>
     (\<exists>e. cf_multiget_count P cf keys a b d = Inl e))"

lemma unreadable_range:
  assumes "unreadable P"
  shows "\<exists>e. multiget_range P cf path freq lo hi None d = Inl e"
proof (cases "get_row_keys path freq lo hi")
  case (Inr ks)
  obtain e where "cf_multiget_count P cf ks lo hi d = Inl e" using assms unfolding unreadable_def by blast
  then show ?thesis by (simp add: multiget_range_def Inr)
qed (simp add: multiget_range_def)

lemma unreadable_queries:
  assumes "unreadable P"
  shows "\<exists>e. query_aggregation_timerange P path freq lo hi cf None st = Inl e"
    and "\<exists>e. query_baserate_timerange P path freq lo hi cf None st = Inl e"
    and "\<exists>e. query_raw_data P path freq lo hi None st = Inl e"
proof -
  obtain e1 e2 e3 e4 where "multiget_range P AggCF path freq lo hi None (cdb st) = Inl e1"
      "multiget_range P StatCF path freq lo hi None (cdb st) = Inl e2"
      "multiget_range P RateCF path freq lo hi None (cdb st) = Inl e3"
      "multiget_range P RawCF path freq lo hi None (cdb st) = Inl e4"
    using unreadable_range [OF assms] by metis
  note this [simp]
  show "\<exists>e. query_aggregation_timerange P path freq lo hi cf None st = Inl e"
    "\<exists>e. query_baserate_timerange P path freq lo hi cf None st = Inl e"
    "\<exists>e. query_raw_data P path freq lo hi None st = Inl e"
    by (simp_all add: query_aggregation_timerange_def query_baserate_timerange_def query_raw_data_def Let_def)
qed

lemma unreadable_query_data:
  assumes "unreadable P"
  shows "\<exists>e. query_data P mk et stype freq b t st = Inl e"
proof (cases "event_type_config et")
  case (Inr ty)
  let ?path = "Ts_Object.row_prefix et @ [mk] @ (if stype \<noteq> ''base'' then [stype] else [])"
  obtain e1 e2 e3 where
      "query_aggregation_timerange P ?path (Some freq) (b * 1000) (t * 1000) ''average'' None st = Inl e1"
      "query_baserate_timerange P ?path (Some freq) (b * 1000) (t * 1000) ''delta'' None st = Inl e2"
      "query_raw_data P ?path (Some freq) (b * 1000) (t * 1000) None st = Inl e3"
    using unreadable_queries [OF assms] by metis
  then show ?thesis unfolding query_data_def Let_def Inr rbind_Inr by (cases "col_family ty stype") simp_all
qed (simp add: query_data_def Let_def)

lemma unreadable_chunks:
  assumes "unreadable P"
  shows "expire_chunks P et chunk max_misses misses b e st = Some (None, st)"
proof (cases "misses < max_misses")
  case True
  obtain b' m where "clip_chunk max_misses b misses = (b', m)" by fastforce
  then show ?thesis
    using unreadable_query_data [OF assms, of "et_metadata_key et" "et_event_type et" "et_summary_type et"
        "et_summary_window et" b' e st] by (auto simp: expire_chunks_step [OF True])
qed (simp add: expire_chunks_done)

lemma unreadable_rows:
  assumes "unreadable P" and "expire_rows P args policies clock i ets (counts, st) = Some (e, counts', st')"
  shows "st' = st"
  using assms(2)
proof (induction ets arbitrary: i counts)
  case (Cons et ets)
  then show ?case
    by (auto simp: expire_row_def unreadable_chunks [OF assms(1)] split: sum.splits option.splits)
qed simp

text \<open>
  C25. What cannot be read is forgotten: when the database answers no query, a failed query
  only ends the search of its series, and a run of the expiry that ends without exception has
  removed no column and has deleted every record of which all counted rows have expired, so
  that nothing leads to their columns any more.
\<close>

theorem unread_data_forgotten:
  assumes "unreadable P" and "build_policies config = Inr policies"
    and "service_expire P args config clock s = Some (None, s')"
  shows "ar_cass (sv_archive s') = ar_cass (sv_archive s) \<and>
    sv_metadata s' = filter (\<lambda>m. \<not> all_expired (counted_rows args policies clock 0 (sv_event_types s)) (mr_key m)) (sv_metadata s) \<and>
    sv_event_types s' = filter (\<lambda>r. \<not> all_expired (counted_rows args policies clock 0 (sv_event_types s)) (et_metadata_key r))
      (sv_event_types s)"
proof -
  obtain counts st where run: "expire_rows P args policies clock 0 (sv_event_types s) ([], ar_cass (sv_archive s)) =
      Some (None, counts, st)" and s': "s' = s\<lparr>
              sv_metadata := filter (\<lambda>m. mr_key m \<notin> set (expired_metadata counts)) (sv_metadata s),
              sv_archive := (sv_archive s)\<lparr>ar_cass := st,
                ar_event_types := delete_metadata (expired_metadata counts) (sv_event_types s)\<rparr>\<rparr>"
    using assms(2,3) by (auto simp: service_expire_def split: option.splits prod.splits)
  show ?thesis
    using unreadable_rows [OF assms(1) run]
    by (simp add: s' delete_metadata_def expire_rows_counts [OF run] expired_metadata_fold)
qed

subsection \<open>A point posted at any time is read\<close>




end
