(* ===== verification/Archive_Readable.thy ===== *)
theory Archive_Readable
  imports Archive_Runs
begin

section \<open>Points stay readable\<close>


definition columns_stay :: "(string \<Rightarrow> row) \<Rightarrow> (string \<Rightarrow> row) \<Rightarrow> bool" where
  "columns_stay rows rows' = (\<forall>k. fst ` set (rows k) \<subseteq> fst ` set (rows' k))"

lemma columns_stay_refl [simp]: "columns_stay rows rows"
  by (simp add: columns_stay_def)










end
