(* ===== verification/Archive_Scenario.thy ===== *)
theory Archive_Scenario
  imports Archive_Readable
begin

section \<open>A scenario\<close>

text \<open>
  A concrete run on the store in memory, where the hypotheses of the properties of whole runs
  hold: a record with one JSON event type is posted, then a point of its series, then the
  record is posted again.
\<close>

definition failures_metadata :: "json dict" where
  "failures_metadata = [(''subject-type'', JStr ''point-to-point''), (''source'', JStr ''10.0.0.1''),
     (''event-types'', JList [JObj [(''event-type'', JStr ''failures'')]])]"

definition failures_valid :: validated where
  "failures_valid = \<lparr>va_subject_type = ''point-to-point'', va_subject_model = ''pspointtopointsubject'',
     va_subject = [(''source'', JStr ''10.0.0.1'')], va_params = [], va_event_types = [(''failures'', ''base'', JStr ''0'')]\<rparr>"

lemma failures_accepted: "to_internal_value (JObj failures_metadata) = Inr failures_valid"
proof -
  have "deserialize_event_types (JList [JObj [(''event-type'', JStr ''failures'')]]) = Inr [(''failures'', ''base'', JStr ''0'')]"
    by (simp add: deserialize_event_types_def deserialize_event_type_def required_def has_key_def hashed_str_def EVENT_TYPE_CONFIG_def)
  then show ?thesis by (simp add: request_eval failures_metadata_def failures_valid_def)
qed

lemma failures_checksum: "\<exists>c. calculate_checksum (\<lambda>s. s) failures_valid = Inr c"
  by (simp add: failures_valid_def calculate_checksum_def checksum_text_def sort_event_types_def is_str_def
      checksum_pair_def checksum_event_type_def sort_by_def)

lemma plain_base_window: "dj_window plain_django (JStr ''0'') = Inr 0"
  by (simp add: plain_django_def str_eval)

abbreviation scenario_start :: "mem service" where
  "scenario_start \<equiv> new_service empty_cass"

lemma scenario_empty: "settled mem_rows mem_queue (cdb empty_cass) cf k = []"
  by (simp add: empty_cass_def mem_empty_settled)

text \<open>The first call: the state it leaves is the archive of \<open>json_archive\<close> with the new record.\<close>

lemma scenario_post:
  "\<exists>md. serve mem_store plain_django (\<lambda>s. s) (PostRecord ''0CB1'' (JObj failures_metadata)) scenario_start None
    \<lparr>sv_metadata = [md], sv_archive = json_archive\<rparr> \<and> mr_key md = ''0CB1''"
proof -
  obtain c where c: "calculate_checksum (\<lambda>s. s) failures_valid = Inr c" using failures_checksum by blast
  have "\<exists>md. service_post plain_django (\<lambda>s. s) ''0CB1'' (JObj failures_metadata) scenario_start =
      (Inr md, \<lparr>sv_metadata = [md], sv_archive = json_archive\<rparr>) \<and> mr_key md = ''0CB1''"
    using plain_base_window
    by (auto simp: service_post_def archive_create_valid [OF failures_accepted c] metadata_create_def insert_metadata_def
        sv_tables_def set_tables_def new_service_def failures_valid_def plain_django_def has_key_def sort_by_def set_md_def
        json_archive_def Let_def)
  then obtain md where post: "service_post plain_django (\<lambda>s. s) ''0CB1'' (JObj failures_metadata) scenario_start =
      (Inr md, \<lparr>sv_metadata = [md], sv_archive = json_archive\<rparr>)" "mr_key md = ''0CB1''" by blast
  have "''0CB1'' \<notin> set (map mr_key (sv_metadata scenario_start))" by (simp add: new_service_def)
  from serve_post [OF this post(1), of mem_store] post(2) show ?thesis by (intro exI [of _ md]) simp
qed

definition scenario_md :: md_row where
  "scenario_md = hd (sv_metadata (snd (service_post plain_django (\<lambda>s. s) ''0CB1'' (JObj failures_metadata) scenario_start)))"

definition with_record :: "mem service" where
  "with_record = \<lparr>sv_metadata = [scenario_md], sv_archive = json_archive\<rparr>"

lemma scenario_first:
  "serve mem_store plain_django (\<lambda>s. s) (PostRecord ''0CB1'' (JObj failures_metadata)) scenario_start None with_record"
  "mr_key scenario_md = ''0CB1''"
proof -
  obtain md where md: "serve mem_store plain_django (\<lambda>s. s) (PostRecord ''0CB1'' (JObj failures_metadata)) scenario_start None
    \<lparr>sv_metadata = [md], sv_archive = json_archive\<rparr>" "mr_key md = ''0CB1''"
    using scenario_post by blast
  then have "scenario_md = md" by (auto simp: scenario_md_def)
  then show "serve mem_store plain_django (\<lambda>s. s) (PostRecord ''0CB1'' (JObj failures_metadata)) scenario_start None with_record"
    "mr_key scenario_md = ''0CB1''" using md by (simp_all add: with_record_def)
qed

lemma scenario_run: "serve_all mem_store plain_django (\<lambda>s. s) [PostRecord ''0CB1'' (JObj failures_metadata)] scenario_start with_record"
  by (rule serve_next [OF scenario_first(1) serve_none])

text \<open>The second call: a point of the series.\<close>

definition failure_point :: ts_object where
  "failure_point = new_ts_object (JInt 1398965989) (JStr ''down'') ''0CB1'' ''failures''"

lemma scenario_check: "check_create json_kwargs json_request = Inr failure_point"
  by (simp add: check_create_def json_kwargs_def json_request_def decode_request_def has_key_def EVENT_TYPE_CONFIG_def failure_point_def)

lemma scenario_type: "event_type_config (to_event_type failure_point) = Inr TJson"
  by (simp add: event_type_config_def EVENT_TYPE_CONFIG_def failure_point_def new_ts_object_def)


definition scenario_key :: string where
  "scenario_key = get_key (json_datum failure_point 1398965989)"

lemma scenario_second:
  "\<exists>s. serve mem_store plain_django (\<lambda>s. s) (PostSeries (DT 0) json_kwargs json_request) with_record None s \<and>
     sv_metadata s = [scenario_md] \<and>
     mem_rows (sv_store s) RawCF = (\<lambda>_. [])(scenario_key := [(1398965989 * 1000, RawCol (JStr ''down''))]) \<and>
     settled mem_rows mem_queue (sv_store s) RawCF = mem_rows (sv_store s) RawCF"
proof -
  have t: "to_ts failure_point = JInt 1398965989" by (simp add: failure_point_def new_ts_object_def)
  have sel: "select_summaries (ar_event_types json_archive) (to_event_type failure_point) (to_metadata_key failure_point) = [(''base'', 0)]"
    by (simp add: json_archive_def failure_point_def new_ts_object_def select_summaries_def sort_by_def)
  obtain st1 ar' where w: "set_raw_data mem_store (json_datum failure_point 1398965989) (ar_cass json_archive) = Inr st1"
    and f: "flush mem_store st1 = Inr (ar_cass ar')" and post: "timeseries_create mem_store (DT 0) json_kwargs json_request json_archive = (None, ar')"
    using json_post_writes [OF mem.batched_store_axioms scenario_check scenario_type t ms_ok_1398(2) sel] by blast
  have empty: "settled mem_rows mem_queue (cdb (ar_cass json_archive)) RawCF = (\<lambda>_. [])"
    by (simp add: json_archive_def empty_cass_def mem_empty_settled)
  have "mem_rows (cdb (ar_cass ar')) RawCF = (\<lambda>_. [])(scenario_key := [(1398965989 * 1000, RawCol (JStr ''down''))])"
    using raw_write_sent [OF mem.batched_store_axioms w f]
    by (simp add: empty scenario_key_def ts_to_jstime_def json_datum_def timegm_def failure_point_def new_ts_object_def)
  moreover have "mem_queue (cdb (ar_cass ar')) RawCF = []" by (rule mem.flush_settled(2) [OF f])
  moreover have "serve mem_store plain_django (\<lambda>s. s) (PostSeries (DT 0) json_kwargs json_request) with_record None
      (with_record\<lparr>sv_archive := ar'\<rparr>)"
    by (rule serve_series) (simp add: with_record_def post)
  ultimately show ?thesis
    by (intro exI [of _ "with_record\<lparr>sv_archive := ar'\<rparr>"]) (simp add: settled_def with_record_def)
qed


subsection \<open>The properties at the scenario\<close>



theorem tables_consistent_witness:
  "distinct (map mr_key (sv_metadata with_record)) \<and> distinct (map mr_checksum (sv_metadata with_record)) \<and>
   list_all (\<lambda>r. et_metadata_key r \<in> set (map mr_key (sv_metadata with_record)) \<and> row_configured r) (sv_event_types with_record)"
  by (rule tables_consistent [OF scenario_run plain_base_window])

theorem only_expiry_deletes_witness:
  "\<exists>s. serve_all mem_store plain_django (\<lambda>s. s) [PostSeries (DT 0) json_kwargs json_request] with_record s \<and>
    prefix (sv_metadata with_record) (sv_metadata s) \<and>
    prefix (map row_object (sv_event_types with_record)) (map row_object (sv_event_types s)) \<and>
    (\<forall>cf k. fst ` set (settled mem_rows mem_queue (sv_store with_record) cf k) \<subseteq> fst ` set (settled mem_rows mem_queue (sv_store s) cf k))"
proof -
  obtain s where "serve mem_store plain_django (\<lambda>s. s) (PostSeries (DT 0) json_kwargs json_request) with_record None s"
    using scenario_second by blast
  from serve_next [OF this serve_none] show ?thesis
    using only_expiry_deletes [OF mem.batched_store_axioms] by (intro exI [of _ s]) simp
qed

theorem reposted_later_witness:
  "\<exists>s md. serve_all mem_store plain_django (\<lambda>s. s) [PostSeries (DT 0) json_kwargs json_request] with_record s \<and>
    service_post plain_django (\<lambda>s. s) ''77AA'' (JObj failures_metadata) s = (Inr md, s)"
proof -
  obtain s where "serve mem_store plain_django (\<lambda>s. s) (PostSeries (DT 0) json_kwargs json_request) with_record None s"
    using scenario_second by blast
  note run = serve_next [OF this serve_none]
  obtain c where c: "calculate_checksum (\<lambda>s. s) failures_valid = Inr c" using failures_checksum by blast
  obtain r where post: "service_post plain_django (\<lambda>s. s) ''0CB1'' (JObj failures_metadata) scenario_start = (r, with_record)"
    using scenario_first(1) by (auto elim: serve_postE)
  have "''0CB1'' \<notin> set (map mr_key (sv_metadata scenario_start))" by (simp add: new_service_def)
  from reposted_later [OF failures_accepted c this post mem.batched_store_axioms run, of "''77AA''"] show ?thesis
    using run by auto
qed

theorem store_in_order_witness:
  "\<exists>s. serve_all mem_store plain_django (\<lambda>s. s) [PostRecord ''0CB1'' (JObj failures_metadata), PostSeries (DT 0) json_kwargs json_request]
      scenario_start s \<and> (\<exists>k. mem_rows (sv_store s) RawCF k \<noteq> []) \<and> well_stored RawCF (settled mem_rows mem_queue (sv_store s) RawCF)"
proof -
  obtain s where s: "serve mem_store plain_django (\<lambda>s. s) (PostSeries (DT 0) json_kwargs json_request) with_record None s"
      "mem_rows (sv_store s) RawCF scenario_key \<noteq> []"
    using scenario_second by force
  note run = serve_next [OF scenario_first(1) serve_next [OF s(1) serve_none]]
  from store_in_order [OF mem.batched_store_axioms run _ scenario_empty, of RawCF] show ?thesis
    using run s(2) by (intro exI [of _ s]) auto
qed

theorem data_is_declared_witness:
  "\<exists>s k. serve_all mem_store plain_django (\<lambda>s. s) [PostRecord ''0CB1'' (JObj failures_metadata), PostSeries (DT 0) json_kwargs json_request]
      scenario_start s \<and>
    (\<exists>r \<in> set (sv_event_types s). \<exists>md \<in> set (sv_metadata s). et_metadata_key r = mr_key md \<and> k \<in> object_keys (row_object r))"
proof -
  obtain s where s: "serve mem_store plain_django (\<lambda>s. s) (PostSeries (DT 0) json_kwargs json_request) with_record None s"
      "settled mem_rows mem_queue (sv_store s) RawCF scenario_key \<noteq> []"
    using scenario_second by force
  note run = serve_next [OF scenario_first(1) serve_next [OF s(1) serve_none]]
  from data_is_declared [OF mem.batched_store_axioms run _ scenario_empty plain_base_window s(2)] show ?thesis
    using run by (intro exI [of _ s] exI [of _ scenario_key]) simp
qed

theorem every_call_answered_witness:
  "\<exists>!es. serve mem_store plain_django (\<lambda>s. s) (RunExpiry default_args witness_config (\<lambda>_. witness_now)) with_record (fst es) (snd es)"
  by (rule every_call_answered) (simp add: default_args_def DEFAULT_MAX_TIME_CHUNK_def)

theorem record_found_later_witness:
  "\<exists>s md. serve_all mem_store plain_django (\<lambda>s. s) [PostSeries (DT 0) json_kwargs json_request] with_record s \<and>
    get_queryset (\<lambda>_ _. []) 0 [(''event-type'', ''failures''), (''summary-type'', ''base''), (''metadata-key'', ''0CB1'')] (sv_tables s) = Inr [md]"
proof -
  obtain s where "serve mem_store plain_django (\<lambda>s. s) (PostSeries (DT 0) json_kwargs json_request) with_record None s"
    using scenario_second by blast
  note run = serve_next [OF this serve_none]
  obtain c where c: "calculate_checksum (\<lambda>s. s) failures_valid = Inr c" using failures_checksum by blast
  have "c \<notin> set (map mr_checksum (sv_metadata scenario_start))" by (simp add: new_service_def)
  from record_found_later [OF serve_none plain_base_window failures_accepted c this scenario_first(1) mem.batched_store_axioms run,
      of "''failures''" "''base''" "JStr ''0''" 0 "\<lambda>_ _. []"]
  show ?thesis using run by (intro exI [of _ s]) (auto simp: failures_valid_def)
qed



text \<open>A driver whose reads fail, on the archive of one expired record that still has a column.\<close>

definition down_store :: "mem pycassa" where
  "down_store = mem_store\<lparr>cf_multiget := \<lambda>_ _ _ _ _ _ _. Inl MaximumRetryException,
     cf_multiget_count := \<lambda>_ _ _ _ _. Inl MaximumRetryException\<rparr>"

definition down_service :: "mem service" where
  "down_service = \<lparr>sv_metadata = [\<lparr>mr_key = et_metadata_key witness_row, mr_subject_type = ''point-to-point'', mr_checksum = ''c'',
     mr_subject = None, mr_params = []\<rparr>], sv_archive = stocked_archive [(1499999999000, RawCol (JStr ''down''))]\<rparr>"

lemma down_unreadable: "unreadable down_store"
  by (simp add: unreadable_def down_store_def)

lemma down_run: "\<exists>s'. service_expire down_store default_args witness_config (\<lambda>_. witness_now) down_service = Some (None, s')"
  by (simp add: service_expire_def build_witness_config down_service_def stocked_archive_def witness_archive_def
      expire_row_def witness_bounds unreadable_chunks [OF down_unreadable] Let_def)

theorem unread_data_forgotten_witness:
  "\<exists>s'. service_expire down_store default_args witness_config (\<lambda>_. witness_now) down_service = Some (None, s') \<and>
    sv_metadata s' = [] \<and> sv_event_types s' = [] \<and> mem_rows (sv_store s') RawCF (series_key witness_row 2017) \<noteq> []"
proof -
  obtain s' where run: "service_expire down_store default_args witness_config (\<lambda>_. witness_now) down_service = Some (None, s')"
    using down_run by blast
  have rows: "sv_event_types down_service = [witness_row, throughput_row]"
    by (simp add: down_service_def stocked_archive_def witness_archive_def)
  have "all_expired (counted_rows default_args witness_tree (\<lambda>_. witness_now) 0 (sv_event_types down_service)) (et_metadata_key witness_row)"
    by (simp add: rows witness_bounds all_expired_def witness_idle)
  moreover obtain m where m: "sv_metadata down_service = [m]" "mr_key m = et_metadata_key witness_row"
    by (simp add: down_service_def)
  ultimately have "sv_metadata s' = []" "sv_event_types s' = []" "ar_cass (sv_archive s') = ar_cass (sv_archive down_service)"
    using unread_data_forgotten [OF down_unreadable build_witness_config run] by (simp_all add: rows m witness_idle)
  moreover have "mem_rows (sv_store down_service) RawCF (series_key witness_row 2017) \<noteq> []"
    by (simp add: down_service_def stocked_archive_def mem_rows_def row_ok_def)
  ultimately show ?thesis using run by simp
qed

end
