(* ===== verification/Repeated_Event_Types.thy ===== *)
theory Repeated_Event_Types
  imports Archive_Scenario
begin

section \<open>An event type that a request lists more than once\<close>

text \<open>
  Nothing between the client and the tables removes an event type that is listed twice: the
  builder of the client appends it with a warning (\<open>known_event_type_added\<close>),
  \<open>deserialize_event_types\<close> makes a base row of every entry, and \<open>PSEventTypes\<close> has no
  constraint that forbids equal rows. \<open>save\<close> writes a value once for every row it selects;
  where the family holds counters, the writes add up. The theory joins the two operations: the
  rows after the POST, and the counter after a bulk PUT of one integer.
\<close>

lemma sort_by_replicate: "\<not> lt x x \<Longrightarrow> sort_by lt (replicate j x) = replicate j x"
  by (induction j) (auto simp: sort_by_def elim: insert_by.elims split: if_splits, case_tac j, auto)

lemma sort_base_specs: "sort_by spec_less (replicate j (et, ''base'', JStr w)) = replicate j (et, ''base'', JStr w)"
  by (rule sort_by_replicate) (simp add: spec_less_def window_less_def)

definition base_row :: "string \<Rightarrow> string \<Rightarrow> event_type_row" where
  "base_row k et = \<lparr>et_metadata_key = k, et_event_type = et, et_summary_type = ''base'', et_summary_window = 0,
     et_time_updated = None\<rparr>"

lemma listed_repeatedly:
  assumes "has_key et EVENT_TYPE_CONFIG"
  shows "deserialize_event_types (JList (replicate j (JObj [(''event-type'', JStr et)]))) =
     Inr (replicate j (et, ''base'', JStr ''0''))"
proof -
  obtain t where t: "map_of EVENT_TYPE_CONFIG et = Some t" using assms by (cases "map_of EVENT_TYPE_CONFIG et") (force simp: has_key_def map_of_eq_None_iff)+
  have one: "deserialize_event_type (JObj [(''event-type'', JStr et)]) = Inr [(et, ''base'', JStr ''0'')]"
    by (simp add: deserialize_event_type_def required_def has_key_def hashed_str_def t)
  have "rmap deserialize_event_type (replicate j (JObj [(''event-type'', JStr et)])) = Inr (replicate j [(et, ''base'', JStr ''0'')])"
    by (induction j) (simp_all add: one)
  moreover have "concat (replicate j [x]) = replicate j x" for x :: event_type_spec by (induction j) simp_all
  ultimately show ?thesis by (simp add: deserialize_event_types_def)
qed

lemma store_repeated:
  assumes "dj_window D (JStr ''0'') = Inr 0"
  shows "store_event_types D k (replicate j (et, ''base'', JStr ''0'')) tb =
    (None, tb\<lparr>tb_event_types := tb_event_types tb @ replicate j (base_row k et)\<rparr>)"
  by (induction j arbitrary: tb) (simp_all add: assms base_row_def)

text \<open>The rows the record has after the POST that creates it.\<close>

lemma posted_repeatedly:
  assumes "dj_window D (JStr ''0'') = Inr 0" and "insert_metadata D c k v tb = (Inr md, tb')"
    and "va_event_types v = replicate j (et, ''base'', JStr ''0'')"
    and "\<forall>r \<in> set (tb_event_types tb). et_metadata_key r \<noteq> k"
  shows "tb_event_types tb' = tb_event_types tb @ replicate j (base_row k et)"
    and "select_summaries (tb_event_types tb') et k = replicate j (''base'', 0)"
proof -
  show rows: "tb_event_types tb' = tb_event_types tb @ replicate j (base_row k et)"
    using assms(2) unfolding insert_metadata_def Let_def assms(3) sort_base_specs
    by (auto simp: store_repeated [OF assms(1)] split: sum.splits prod.splits option.splits)
  have "filter (\<lambda>r. et_event_type r = et \<and> et_metadata_key r = k) (tb_event_types tb') = replicate j (base_row k et)"
    using assms(4) by (auto simp: rows base_row_def filter_empty_conv)
  then show "select_summaries (tb_event_types tb') et k = replicate j (''base'', 0)"
    by (simp add: select_summaries_def sort_by_replicate base_row_def)
qed

text \<open>
  A bulk PUT of one integer to a series whose event type was listed \<open>j\<close> times: the request
  is accepted and the base counter, where nothing was stored before, is \<open>j\<close> times the
  integer.
\<close>

theorem repeated_type_multiplies:
  assumes "batched_store P sent pending" and "bulk_data rq = Inr [bulk_point (s, et, n)]" and "point_ok (s, et, n)"
    and "map_of (settled sent pending (cdb (ar_cass ar)) RateCF (base_key (point_object k (s, et, n)) s)) (s * 1000) = None"
    and "map_of (sent (cdb (ar_cass ar)) RateCF (base_key (point_object k (s, et, n)) s)) (s * 1000) = None"
    and "\<forall>r \<in> set (ar_event_types ar). et_summary_window r < 2 ^ 63"
    and "roomy pending (length (ar_event_types ar)) (cdb (ar_cass ar))"
    and "dj_window D (JStr ''0'') = Inr 0"
    and "insert_metadata D c k v tb = (Inr md, \<lparr>tb_metadata = mds, tb_event_types = ar_event_types ar\<rparr>)"
    and "va_event_types v = replicate j (et, ''base'', JStr ''0'')"
    and "\<forall>r \<in> set (tb_event_types tb). et_metadata_key r \<noteq> k"
  shows "\<exists>ar'. archive_update P now k rq ar = (None, ar') \<and>
    counter (sent (cdb (ar_cass ar')) RateCF) (base_key (point_object k (s, et, n)) s) (s * 1000) (Bs ''val'') = int j * n"
proof -
  let ?k = "base_key (point_object k (s, et, n)) s"
  have sel: "select_summaries (ar_event_types ar) et k = replicate j (''base'', 0)"
    using posted_repeatedly(2) [OF assms(8-11)] by simp
  have c: "point_contribution (ar_event_types ar) k (s, et, n) RateCF ?k (s * 1000) (Bs ''val'') = int j * n"
    by (simp add: point_contribution_def sel sum_list_replicate contribution_def summary_key_def summary_time_def summary_obj_def
        point_object_def new_ts_object_def base_key_def datapath_def obj_freq_def two_counters_def)
  from bulk_put_counters [OF assms(1), of rq "[(s, et, n)]" ar k now] obtain ar' where
    "archive_update P now k rq ar = (None, ar')"
    "counter (sent (cdb (ar_cass ar')) RateCF) ?k (s * 1000) (Bs ''val'') =
       counter (settled sent pending (cdb (ar_cass ar)) RateCF) ?k (s * 1000) (Bs ''val'') + int j * n"
    using assms(2,3,5-7) c by auto
  then show ?thesis using assms(4) by (auto simp: counter_def)
qed

text \<open>A record whose request lists the event type twice, and a PUT of 5: the counter is 10.\<close>

definition twice_valid :: validated where
  "twice_valid = failures_valid\<lparr>va_event_types := replicate 2 (''packet-count-sent'', ''base'', JStr ''0'')\<rparr>"

definition twice_archive :: "mem archive" where
  "twice_archive = \<lparr>ar_cass = empty_cass, ar_event_types = replicate 2 (base_row ''0CB1'' ''packet-count-sent'')\<rparr>"

theorem repeated_type_multiplies_witness:
  "\<exists>ar'. archive_update mem_store (DT 0) ''0CB1'' (bulk_request [(1398965989, ''packet-count-sent'', 5)]) twice_archive = (None, ar') \<and>
    counter (mem_rows (cdb (ar_cass ar')) RateCF)
      (base_key (point_object ''0CB1'' (1398965989, ''packet-count-sent'', 5)) 1398965989) (1398965989 * 1000) (Bs ''val'') = 10"
proof -
  have ok: "point_ok (1398965989, ''packet-count-sent'', 5)"
    using ms_ok_1398 by (simp add: point_ok_def event_type_config_def EVENT_TYPE_CONFIG_def ok_time_def)
  have rq: "bulk_data (bulk_request [(1398965989, ''packet-count-sent'', 5)]) = Inr [bulk_point (1398965989, ''packet-count-sent'', 5)]"
    by (simp add: bulk_data_request)
  obtain md mds where "insert_metadata plain_django ''c'' ''0CB1'' twice_valid no_tables =
      (Inr md, \<lparr>tb_metadata = mds, tb_event_types = ar_event_types twice_archive\<rparr>)"
    by (simp add: insert_metadata_def twice_valid_def failures_valid_def no_tables_def plain_django_def has_key_def Let_def
        sort_base_specs store_repeated twice_archive_def sort_by_def str_eval base_row_def numeral_2_eq_2 spec_less_def window_less_def)
  from repeated_type_multiplies [OF mem.batched_store_axioms rq ok _ _ _ _ plain_base_window this, of 2 "DT 0"]
  show ?thesis
    by (simp add: twice_valid_def no_tables_def twice_archive_def empty_cass_def mem_empty_settled roomy_def queue_size_def base_row_def)
qed

end
