(* ===== verification/Concurrent_Posts.thy ===== *)
theory Concurrent_Posts
  imports Archive_Metadata_Facts
begin

section \<open>Posts of metadata at the same time\<close>

text \<open>
  Several processes of the server can create records at once: \<open>ArchiveSerializer.create\<close>
  looks for a record of the checksum and creates one when it finds none, in no transaction, so
  that other posts come between. Here each post is two steps, the look and the creation, and the
  steps of any number of posts are interleaved in any way; the subject, the event types and the
  parameters are stored in the step that stores the record. The keys and checksums of
  \<open>PSMetadata\<close> are declared unique, which the database enforces: a creation that would repeat
  one raises \<open>IntegrityError\<close> and stores nothing. Posts are numbered, and the state keeps how far
  each of them is.
\<close>

datatype stage = Looked string string validated | Answered "exn + md_row"

record posts =
  po_tables :: tables
  po_stage :: "nat \<Rightarrow> stage option"

definition checked_post :: "(string \<Rightarrow> string) \<Rightarrow> json \<Rightarrow> (validated \<times> string) res" where
  "checked_post sha256 data = rbind (to_internal_value data) (\<lambda>v. rbind (calculate_checksum sha256 v) (\<lambda>c. Inr (v, c)))"

definition same_checksum :: "string \<Rightarrow> tables \<Rightarrow> md_row list" where
  "same_checksum c tb = filter (\<lambda>r. mr_checksum r = c) (tb_metadata tb)"

text \<open>The unique columns refuse the new row.\<close>

definition unique_clash :: "string \<Rightarrow> string \<Rightarrow> tables \<Rightarrow> bool" where
  "unique_clash k c tb = (k \<in> set (map mr_key (tb_metadata tb)) \<or> c \<in> set (map mr_checksum (tb_metadata tb)))"

definition set_stage :: "nat \<Rightarrow> stage \<Rightarrow> posts \<Rightarrow> posts" where
  "set_stage i g s = s\<lparr>po_stage := (po_stage s)(i \<mapsto> g)\<rparr>"

inductive post_step :: "django \<Rightarrow> (string \<Rightarrow> string) \<Rightarrow> posts \<Rightarrow> posts \<Rightarrow> bool"
  for D :: django and sha256 :: "string \<Rightarrow> string"
where
  post_refused: "po_stage s i = None \<Longrightarrow> checked_post sha256 data = Inl e \<Longrightarrow>
     post_step D sha256 s (set_stage i (Answered (Inl e)) s)"
| post_known: "po_stage s i = None \<Longrightarrow> checked_post sha256 data = Inr (v, c) \<Longrightarrow> same_checksum c (po_tables s) = r # rs \<Longrightarrow>
     post_step D sha256 s (set_stage i (Answered (Inr r)) s)"
| post_unknown: "po_stage s i = None \<Longrightarrow> checked_post sha256 data = Inr (v, c) \<Longrightarrow> same_checksum c (po_tables s) = [] \<Longrightarrow>
     post_step D sha256 s (set_stage i (Looked k c v) s)"
| post_created: "po_stage s i = Some (Looked k c v) \<Longrightarrow> \<not> unique_clash k c (po_tables s) \<Longrightarrow>
     insert_metadata D c k v (po_tables s) = (r, tb) \<Longrightarrow>
     post_step D sha256 s (set_stage i (Answered r) (s\<lparr>po_tables := tb\<rparr>))"
| post_clash: "po_stage s i = Some (Looked k c v) \<Longrightarrow> unique_clash k c (po_tables s) \<Longrightarrow>
     post_step D sha256 s (set_stage i (Answered (Inl IntegrityError)) s)"

inductive post_steps :: "django \<Rightarrow> (string \<Rightarrow> string) \<Rightarrow> posts \<Rightarrow> posts \<Rightarrow> bool"
  for D :: django and sha256 :: "string \<Rightarrow> string" and s0 :: posts
where
  steps_none: "post_steps D sha256 s0 s0"
| steps_next: "post_steps D sha256 s0 s \<Longrightarrow> post_step D sha256 s s' \<Longrightarrow> post_steps D sha256 s0 s'"




subsection \<open>Every interleaving is serial\<close>












end
