(* ===== verification/Access_Control.thy ===== *)
theory Access_Control
  imports Accounts_Facts Archive_Scenario
begin

section \<open>Who may change the archive\<close>

text \<open>
  The views of \<open>esmond/api/perfsonar/api_v2.py\<close> extend \<open>ViewsetBase\<close>, which names the classes that
  authenticate a request and the classes that permit it. The first authentication class that
  knows the user decides; the permission class lets everybody read and users write. What the
  REST framework does with these classes, its authentication by token and its permission
  class are the record \<open>rest_framework\<close> with the locale \<open>framework\<close> as their contract, which is
  interpreted on the functions its documentation describes. Behind the permission stand the
  calls of \<open>Archive_Service\<close>, and the accounts are those the commands of \<open>Accounts\<close> write.
\<close>

datatype auth_class = TokenAuthentication | IpAuth

datatype permission_class = IsAuthenticatedOrReadOnly

record viewset =
  authentication_classes :: "auth_class list"
  permission_classes :: "permission_class list"

definition ViewsetBase :: viewset where
  "ViewsetBase = \<lparr>authentication_classes = [TokenAuthentication, IpAuth],
     permission_classes = [IsAuthenticatedOrReadOnly]\<rparr>"

text \<open>
  The framework: the user of a token from the tokens and the headers, the user of the first of
  some classes that has one, and whether a class permits a method to a user.
\<close>

record rest_framework =
  token_user :: "string dict \<Rightarrow> string dict \<Rightarrow> string option res"
  first_user :: "(auth_class \<Rightarrow> string option res) \<Rightarrow> auth_class list \<Rightarrow> string option res"
  has_permission :: "permission_class \<Rightarrow> string \<Rightarrow> string option \<Rightarrow> bool"

datatype admission = Failed exn | Denied | Admitted "string option"

fun authenticated_by ::
  "rest_framework \<Rightarrow> 'n networks \<Rightarrow> 'n accounts \<Rightarrow> string dict \<Rightarrow> auth_class \<Rightarrow> string option res" where
  "authenticated_by F nets acc meta TokenAuthentication = token_user F (token_rows acc) meta"
| "authenticated_by F nets acc meta IpAuth = authenticate nets acc meta"

definition admit ::
  "rest_framework \<Rightarrow> 'n networks \<Rightarrow> 'n accounts \<Rightarrow> viewset \<Rightarrow> string \<Rightarrow> string dict \<Rightarrow> admission" where
  "admit F nets acc view verb meta =
     (case first_user F (authenticated_by F nets acc meta) (authentication_classes view) of
        Inl e \<Rightarrow> Failed e
      | Inr u \<Rightarrow> if list_all (\<lambda>c. has_permission F c verb u) (permission_classes view) then Admitted u else Denied)"

text \<open>The method of a call; the expiry is no request.\<close>

fun http_method :: "call \<Rightarrow> string option" where
  "http_method (PostRecord _ _) = Some ''POST''"
| "http_method (PutRecord _ _ _) = Some ''PUT''"
| "http_method (PostSeries _ _ _) = Some ''POST''"
| "http_method (RunExpiry _ _ _) = None"

datatype answer = Served "string option" "exn option" | Refused admission

inductive request ::
  "rest_framework \<Rightarrow> 'n networks \<Rightarrow> 'n accounts \<Rightarrow> 'd pycassa \<Rightarrow> django \<Rightarrow> (string \<Rightarrow> string) \<Rightarrow>
    string dict \<Rightarrow> call \<Rightarrow> 'd service \<Rightarrow> answer \<Rightarrow> 'd service \<Rightarrow> bool"
  for F :: rest_framework and nets :: "'n networks" and acc :: "'n accounts"
    and P :: "'d pycassa" and D :: django and sha256 :: "string \<Rightarrow> string"
where
  request_served: "http_method c = Some verb \<Longrightarrow> admit F nets acc ViewsetBase verb meta = Admitted u \<Longrightarrow>
     serve P D sha256 c s e s' \<Longrightarrow> request F nets acc P D sha256 meta c s (Served u e) s'"
| request_refused: "http_method c = Some verb \<Longrightarrow> admit F nets acc ViewsetBase verb meta = a \<Longrightarrow> (\<And>u. a \<noteq> Admitted u) \<Longrightarrow>
     request F nets acc P D sha256 meta c s (Refused a) s"

inductive requests ::
  "rest_framework \<Rightarrow> 'n networks \<Rightarrow> 'n accounts \<Rightarrow> 'd pycassa \<Rightarrow> django \<Rightarrow> (string \<Rightarrow> string) \<Rightarrow>
    (string dict \<times> call) list \<Rightarrow> 'd service \<Rightarrow> 'd service \<Rightarrow> bool"
  for F :: rest_framework and nets :: "'n networks" and acc :: "'n accounts"
    and P :: "'d pycassa" and D :: django and sha256 :: "string \<Rightarrow> string"
where
  requests_none: "requests F nets acc P D sha256 [] s s"
| requests_next: "request F nets acc P D sha256 meta c s a s' \<Longrightarrow> requests F nets acc P D sha256 rs s' s'' \<Longrightarrow>
     requests F nets acc P D sha256 ((meta, c) # rs) s s''"

subsection \<open>The contract of the framework\<close>

definition safe_methods :: "string list" where
  "safe_methods = [''GET'', ''HEAD'', ''OPTIONS'']"

text \<open>The address the view takes a request to come from.\<close>

definition client_address :: "string dict \<Rightarrow> string option" where
  "client_address meta = (case map_of meta ''HTTP_X_FORWARDED_FOR'' of
     Some (c # cs) \<Rightarrow> Some (c # cs) | _ \<Rightarrow> map_of meta ''REMOTE_ADDR'')"

text \<open>A request has credentials when a token or a subnet of a user stands behind it.\<close>

definition has_credentials :: "rest_framework \<Rightarrow> 'n networks \<Rightarrow> 'n accounts \<Rightarrow> string dict \<Rightarrow> bool" where
  "has_credentials F nets acc meta =
     ((\<exists>u. token_user F (token_rows acc) meta = Inr (Some u)) \<or>
      (\<exists>ip. client_address meta = Some ip \<and> list_ex (\<lambda>(n, u). net_holds nets n ip) (address_rows acc)))"

locale framework =
  fixes F :: rest_framework
  assumes nobody: "first_user F f [] = Inr None"
    and in_turn: "first_user F f (c # cs) = rbind (f c) (\<lambda>u. case u of None \<Rightarrow> first_user F f cs | Some _ \<Rightarrow> Inr u)"
    and users_write: "has_permission F IsAuthenticatedOrReadOnly verb u \<longleftrightarrow> verb \<in> set safe_methods \<or> u \<noteq> None"
    and no_token: "map_of meta ''HTTP_AUTHORIZATION'' = None \<Longrightarrow> token_user F tokens meta = Inr None"
    and stored_token: "map_of meta ''HTTP_AUTHORIZATION'' = Some (''Token '' @ key) \<Longrightarrow> CHR '' '' \<notin> set key \<Longrightarrow>
      map_of tokens key = Some owner \<Longrightarrow> token_user F tokens meta = Inr (Some owner)"
    and token_owner: "token_user F tokens meta = Inr (Some owner) \<Longrightarrow> owner \<in> snd ` set tokens"
begin

lemma admit_base:
  "admit F nets acc ViewsetBase verb meta =
     (case token_user F (token_rows acc) meta of
        Inl e \<Rightarrow> Failed e
      | Inr (Some u) \<Rightarrow> Admitted (Some u)
      | Inr None \<Rightarrow> (case authenticate nets acc meta of
          Inl e \<Rightarrow> Failed e
        | Inr (Some u) \<Rightarrow> Admitted (Some u)
        | Inr None \<Rightarrow> if verb \<in> set safe_methods then Admitted None else Denied))"
  by (simp add: admit_def ViewsetBase_def in_turn nobody users_write rbind_def split: sum.split option.split)

lemma token_admits:
  "token_user F (token_rows acc) meta = Inr (Some u) \<Longrightarrow> admit F nets acc ViewsetBase verb meta = Admitted (Some u)"
  by (simp add: admit_base)

lemma address_admits:
  "token_user F (token_rows acc) meta = Inr None \<Longrightarrow> authenticate nets acc meta = Inr (Some u) \<Longrightarrow>
     admit F nets acc ViewsetBase verb meta = Admitted (Some u)"
  by (simp add: admit_base)

text \<open>Who is admitted to write has credentials, and somebody is admitted as.\<close>

lemma authenticate_address:
  assumes "authenticate nets acc meta = Inr (Some u)"
  shows "\<exists>ip n. client_address meta = Some ip \<and> (n, u) \<in> set (address_rows acc) \<and> net_holds nets n ip"
proof -
  have rows: "set (foldr (insert_net le) xs []) = set xs" for le and xs :: "('n \<times> string) list"
  proof (induction xs)
    case (Cons x xs)
    have "set (insert_net le x ys) = insert x (set ys)" for ys :: "('n \<times> string) list" by (induction ys) auto
    then show ?case using Cons by simp
  qed simp
  obtain ip us where ip: "client_address meta = Some ip" and us: "map snd (subnets_of nets (address_rows acc) ip) = u # us"
    using assms by (auto simp: authenticate_def ip_authenticate_def client_address_def rbind_def split: option.splits list.splits sum.splits)
  then obtain n where "(n, u) \<in> set (subnets_of nets (address_rows acc) ip)" by fastforce
  then show ?thesis using ip by (auto simp: subnets_of_def rows)
qed

lemma writer_has_credentials:
  assumes "admit F nets acc ViewsetBase verb meta = Admitted u" and "verb \<notin> set safe_methods"
  shows "has_credentials F nets acc meta"
  using assms authenticate_address [of nets acc meta]
  by (fastforce simp: admit_base has_credentials_def list_ex_iff split: sum.splits option.splits)

end

lemma http_method_unsafe: "http_method c = Some verb \<Longrightarrow> verb \<notin> set safe_methods"
  by (cases c) (auto simp: safe_methods_def)

subsection \<open>The framework as documented\<close>

text \<open>The header is the word Token and a key; every other header is left to other classes, an unknown key refused.\<close>

definition header_token :: "string dict \<Rightarrow> string dict \<Rightarrow> string option res" where
  "header_token tokens meta = (case map_of meta ''HTTP_AUTHORIZATION'' of
     None \<Rightarrow> Inr None
   | Some header \<Rightarrow> (case split_char (CHR '' '') header of
       [scheme, key] \<Rightarrow> if scheme \<noteq> ''Token'' then Inr None
         else (case map_of tokens key of None \<Rightarrow> Inl (ClientException ''Invalid token.'') | Some u \<Rightarrow> Inr (Some u))
     | _ \<Rightarrow> Inr None))"

fun first_known :: "(auth_class \<Rightarrow> string option res) \<Rightarrow> auth_class list \<Rightarrow> string option res" where
  "first_known f [] = Inr None"
| "first_known f (c # cs) = rbind (f c) (\<lambda>u. case u of None \<Rightarrow> first_known f cs | Some _ \<Rightarrow> Inr u)"

definition documented_rest :: rest_framework where
  "documented_rest = \<lparr>token_user = header_token, first_user = first_known,
     has_permission = (\<lambda>c verb u. verb \<in> set safe_methods \<or> u \<noteq> None)\<rparr>"

lemma documented_first [simp]: "first_user documented_rest = first_known"
  by (simp add: documented_rest_def)

lemma split_token: "CHR '' '' \<notin> set key \<Longrightarrow> split_char (CHR '' '') (''Token '' @ key) = [''Token'', key]"
  using split_char_append [of "CHR '' ''" "''Token''" key] by simp

interpretation documented: framework documented_rest
proof unfold_locales
  fix tokens meta :: "string dict" and key owner
  show "map_of meta ''HTTP_AUTHORIZATION'' = Some (''Token '' @ key) \<Longrightarrow> CHR '' '' \<notin> set key \<Longrightarrow>
      map_of tokens key = Some owner \<Longrightarrow> token_user documented_rest tokens meta = Inr (Some owner)"
    using split_token [of key] by (simp add: documented_rest_def header_token_def)
  show "token_user documented_rest tokens meta = Inr (Some owner) \<Longrightarrow> owner \<in> snd ` set tokens"
    by (auto simp: documented_rest_def header_token_def split: option.splits list.splits if_splits dest!: map_of_SomeD intro!: rev_image_eqI)
next
  fix f c cs
  show "first_user documented_rest f (c # cs) =
      rbind (f c) (\<lambda>u. case u of None \<Rightarrow> first_user documented_rest f cs | Some _ \<Rightarrow> Inr u)"
    unfolding documented_first by simp
qed (simp_all add: documented_rest_def header_token_def)

subsection \<open>Properties\<close>

lemma request_unchanged:
  assumes "framework F" and "request F nets acc P D sha256 meta c s a s'" and "s' \<noteq> s"
  shows "has_credentials F nets acc meta"
  using assms(2,3)
proof (induction rule: request.induct)
  case (request_served c verb meta u s e s')
  show ?case
    by (rule framework.writer_has_credentials [OF assms(1) request_served(2) http_method_unsafe [OF request_served(1)]])
qed simp

text \<open>
  C11. Only users change the archive: whatever requests are made, in whatever order and with
  whatever outcome, when the archive is another one afterwards, then one of them carried the
  token of a user, or the address it is taken to come from lies in a subnet of a user.
\<close>

theorem only_users_write:
  assumes "framework F" and "requests F nets acc P D sha256 rs s s'" and "s' \<noteq> s"
  shows "\<exists>(meta, c) \<in> set rs. has_credentials F nets acc meta"
  using assms(2,3)
proof (induction rule: requests.induct)
  case (requests_next meta c s a s' rs s'')
  show ?case
  proof (cases "s' = s")
    case False
    then show ?thesis using request_unchanged [OF assms(1) requests_next(1)] by auto
  qed (use requests_next in auto)
qed simp

text \<open>A post with a token, and what it stores.\<close>

definition token_accounts :: "(nat \<times> nat) accounts" where
  "token_accounts = sample_accounts\<lparr>token_rows := [(''k1'', ''ann'')]\<rparr>"

definition token_headers :: "string dict" where
  "token_headers = [(''HTTP_AUTHORIZATION'', ''Token k1''), (''REMOTE_ADDR'', ''192.0.2.1'')]"

lemma token_request:
  "request documented_rest ipv4_networks token_accounts mem_store plain_django (\<lambda>s. s) token_headers
     (PostRecord ''0CB1'' (JObj failures_metadata)) scenario_start (Served (Some ''ann'') None) with_record"
proof (rule request_served [OF _ _ scenario_first(1)])
  show "admit documented_rest ipv4_networks token_accounts ViewsetBase ''POST'' token_headers = Admitted (Some ''ann'')"
    by (rule documented.token_admits)
      (simp add: documented_rest_def header_token_def token_accounts_def token_headers_def)
qed simp

lemma only_users_write_witness:
  "has_credentials documented_rest ipv4_networks token_accounts token_headers"
proof -
  have "with_record \<noteq> scenario_start" by (simp add: with_record_def new_service_def)
  from only_users_write [OF documented.framework_axioms requests_next [OF token_request requests_none] this]
  show ?thesis by simp
qed

text \<open>The command that adds a user with a token leaves the token printed last in the table.\<close>

lemma add_api_key_user_Inr:
  assumes "add_api_key_user new_key user acc = (Inr (), acc')" and "distinct (map fst (token_rows acc))"
  shows "\<exists>key. printed acc' \<noteq> [] \<and> last (printed acc') = ''Key: '' @ key \<and> map_of (token_rows acc') key = Some user \<and>
    key \<in> insert new_key (fst ` set (token_rows acc)) \<and> address_rows acc' = address_rows acc"
proof -
  obtain t where t: "ensure_user user acc = (Inr (), t)" and gen: "generate_api_key_for_user new_key user t = (Inr (), acc')"
    using assms(1) by (auto simp: add_api_key_user_def cbind_Inr)
  have tokens: "token_rows t = token_rows acc" "address_rows t = address_rows acc"
    using t by (auto simp: ensure_user_def command_simps split: if_splits)
  show ?thesis
  proof (cases "token_of user t")
    case None
    then show ?thesis using gen tokens
      by (auto simp: generate_api_key_for_user_def create_token_def command_simps has_key_map_of map_add_def split: if_splits)
  next
    case (Some key)
    then have "(key, user) \<in> set (token_rows acc)"
      using tokens by (auto simp: token_of_def find_Some_iff in_set_conv_nth)
    then show ?thesis using gen tokens Some assms(2)
      by (auto simp: generate_api_key_for_user_def command_simps intro!: rev_image_eqI)
  qed
qed

text \<open>
  C12. A token opens the archive: when the command that adds a user with an API key succeeds,
  the last line it prints shows a key, and every admissible post or put whose Authorization
  header has this key is served to this user.
\<close>

theorem printed_key_opens:
  assumes "framework F" and "add_api_key_user new_key user acc = (Inr (), acc')" and "distinct (map fst (token_rows acc))"
    and "\<And>k. k \<in> insert new_key (fst ` set (token_rows acc)) \<Longrightarrow> CHR '' '' \<notin> set k"
  shows "\<exists>key. last (printed acc') = ''Key: '' @ key \<and>
    (\<forall>meta c s. map_of meta ''HTTP_AUTHORIZATION'' = Some (''Token '' @ key) \<and> http_method c \<noteq> None \<and> admissible s c \<longrightarrow>
      (\<exists>e s'. request F nets acc' P D sha256 meta c s (Served (Some user) e) s'))"
proof -
  obtain key where key: "last (printed acc') = ''Key: '' @ key" "map_of (token_rows acc') key = Some user" "CHR '' '' \<notin> set key"
    using add_api_key_user_Inr [OF assms(2,3)] assms(4) by blast
  have "\<exists>e s'. request F nets acc' P D sha256 meta c s (Served (Some user) e) s'"
    if meta: "map_of meta ''HTTP_AUTHORIZATION'' = Some (''Token '' @ key)" and c: "http_method c \<noteq> None" "admissible s c" for meta c s
  proof -
    obtain verb where verb: "http_method c = Some verb" using c(1) by blast
    note user = framework.token_admits [OF assms(1) framework.stored_token [OF assms(1) meta key(3,2)]]
    obtain e s' where "serve P D sha256 c s e s'" using serve_total [OF c(2)] by blast
    from request_served [OF verb user this] show ?thesis by blast
  qed
  then show ?thesis using key(1) by blast
qed

lemma printed_key_opens_witness:
  "\<exists>acc key e s'. add_api_key_user ''k1'' ''ann'' sample_accounts = (Inr (), acc) \<and> last (printed acc) = ''Key: '' @ key \<and>
     request documented_rest ipv4_networks acc mem_store plain_django (\<lambda>s. s) [(''HTTP_AUTHORIZATION'', ''Token '' @ key)]
       (PostRecord ''0CB1'' (JObj failures_metadata)) scenario_start (Served (Some ''ann'') e) s'"
proof -
  obtain acc where acc: "add_api_key_user ''k1'' ''ann'' sample_accounts = (Inr (), acc)"
    by (simp add: add_api_key_user_def ensure_user_def generate_api_key_for_user_def create_token_def token_of_def
        print_line_def cbind_def sample_accounts_def has_key_map_of)
  have "admissible scenario_start (PostRecord ''0CB1'' (JObj failures_metadata))" by (simp add: new_service_def)
  then show ?thesis
    using printed_key_opens [OF documented.framework_axioms acc, of ipv4_networks mem_store plain_django "\<lambda>s. s"] acc
    by (fastforce simp: sample_accounts_def)
qed

text \<open>
  C13. The header decides where a request comes from: a post or put without a token whose
  X-Forwarded-For header names any address inside a subnet of a user is served as a request of
  the owner of the most specific such subnet, whatever host it came from.
\<close>

theorem forwarded_header_admits:
  assumes "framework F" and "network_order nets" and "(n, u) \<in> set (address_rows acc)" and "net_holds nets n ip" and "ip \<noteq> []"
    and "map_of meta ''HTTP_X_FORWARDED_FOR'' = Some ip" and "map_of meta ''HTTP_AUTHORIZATION'' = None"
    and "http_method c \<noteq> None" and "admissible s c"
  shows "\<exists>m owner e s'. (m, owner) \<in> set (address_rows acc) \<and> net_holds nets m ip \<and>
    (\<forall>(m', u') \<in> set (address_rows acc). net_holds nets m' ip \<longrightarrow> (\<forall>y. net_holds nets m y \<longrightarrow> net_holds nets m' y)) \<and>
    request F nets acc P D sha256 meta c s (Served (Some owner) e) s'"
proof -
  obtain verb where verb: "http_method c = Some verb" using assms(8) by blast
  obtain m owner rest where hd: "subnets_of nets (address_rows acc) ip = (m, owner) # rest" and m: "(m, owner) \<in> set (address_rows acc)"
      "net_holds nets m ip" "\<forall>(m', u') \<in> set (address_rows acc). net_holds nets m' ip \<longrightarrow> (\<forall>y. net_holds nets m y \<longrightarrow> net_holds nets m' y)"
    using network_order.most_specific [OF assms(2-4)] by blast
  have "authenticate nets acc meta = Inr (Some owner)"
    using assms(5,6) hd by (cases ip) (simp_all add: authenticate_def ip_authenticate_def)
  note user = framework.address_admits [OF assms(1) framework.no_token [OF assms(1,7)] this]
  obtain e s' where "serve P D sha256 c s e s'" using serve_total [OF assms(9)] by blast
  from request_served [OF verb user this] show ?thesis using m by blast
qed

lemma forwarded_header_admits_witness:
  "\<exists>m owner e s'. (m, owner) \<in> set (address_rows sample_accounts) \<and>
     request documented_rest ipv4_networks sample_accounts mem_store plain_django (\<lambda>s. s)
       [(''HTTP_X_FORWARDED_FOR'', ''10.1.2.3''), (''REMOTE_ADDR'', ''192.0.2.1'')]
       (PostRecord ''0CB1'' (JObj failures_metadata)) scenario_start (Served (Some owner) e) s'"
proof -
  have "net_holds ipv4_networks (10, 8) ''10.1.2.3''" by code_simp
  moreover have "((10, 8), ''wide'') \<in> set (address_rows sample_accounts)" by (simp add: sample_accounts_def)
  moreover have "admissible scenario_start (PostRecord ''0CB1'' (JObj failures_metadata))" by (simp add: new_service_def)
  ultimately show ?thesis
    using forwarded_header_admits [OF documented.framework_axioms ipv4.network_order_axioms, of "(10, 8)" "''wide''" sample_accounts
        "''10.1.2.3''" "[(''HTTP_X_FORWARDED_FOR'', ''10.1.2.3''), (''REMOTE_ADDR'', ''192.0.2.1'')]"
        "PostRecord ''0CB1'' (JObj failures_metadata)" scenario_start mem_store plain_django "\<lambda>s. s"]
    by auto
qed

text \<open>The permissions the commands grant are not asked for.\<close>

lemma granted_not_asked: "admit F nets (acc\<lparr>granted := g\<rparr>) view verb meta = admit F nets acc view verb meta"
proof -
  have "authenticated_by F nets (acc\<lparr>granted := g\<rparr>) meta = authenticated_by F nets acc meta"
  proof
    show "authenticated_by F nets (acc\<lparr>granted := g\<rparr>) meta c = authenticated_by F nets acc meta c" for c
      by (cases c) (simp_all add: authenticate_def)
  qed
  then show ?thesis by (simp add: admit_def)
qed

end
