(* ===== verification/Data_Generator.thy ===== *)
theory Data_Generator
  imports Time_Series_Facts Cassandra_Schema Archive_Metadata Float_Facts
begin

section \<open>The generator of test data\<close>

text \<open>
  \<open>util/ps_generate_data.py\<close> opens the database, by default after clearing its keyspace, and
  fills it with random counters or histograms. The random numbers are an argument: \<open>randint\<close>
  takes the next natural number of a stream into the asked range, so that every sequence of
  results Python can draw is that of some stream. Fresh metadata keys are an argument as well.
  A plain \<open>Exception\<close> is \<open>RuntimeError\<close>; when the script raises, what it had stored is not followed.
\<close>

subsection \<open>Random numbers and ranges\<close>

definition randint :: "(nat \<Rightarrow> nat) \<Rightarrow> int \<Rightarrow> int \<Rightarrow> nat \<Rightarrow> (int \<times> nat) res" where
  "randint draws a b i = (if b < a then Inl ValueError else Inr (a + int (draws i) mod (b - a + 1), i + 1))"

lemma randint_Inr: "randint draws a b i = Inr (v, j) \<longleftrightarrow> a \<le> b \<and> v = a + int (draws i) mod (b - a + 1) \<and> j = i + 1"
  by (auto simp: randint_def)

lemma randint_bounds: "randint draws a b i = Inr (v, j) \<Longrightarrow> a \<le> v \<and> v \<le> b"
  using pos_mod_bound [of "b - a + 1" "int (draws i)"] pos_mod_sign [of "b - a + 1" "int (draws i)"]
  by (auto simp: randint_Inr)

lemma randint_ok: "a \<le> b \<Longrightarrow> \<exists>v. randint draws a b i = Inr (v, i + 1)"
  by (simp add: randint_def)

definition py_range :: "int \<Rightarrow> int \<Rightarrow> int \<Rightarrow> int list res" where
  "py_range a b step =
     (if step = 0 then Inl ValueError
      else Inr (map (\<lambda>k. a + int k * step)
        [0..<nat (if 0 < step then (b - a + step - 1) div step else (a - b - step - 1) div (- step))]))"

subsection \<open>The generators\<close>

text \<open>\<open>metatdata_key, = uuid.uuid4().hex\<close> takes the characters of the key apart and wants exactly one.\<close>

definition unpack_one :: "string \<Rightarrow> string res" where
  "unpack_one s = (case s of [c] \<Rightarrow> Inr [c] | _ \<Rightarrow> Inl ValueError)"

definition row_metadata_key :: "string \<Rightarrow> string option \<Rightarrow> string res" where
  "row_metadata_key hex metadata_key = (case metadata_key of None \<Rightarrow> unpack_one hex | Some k \<Rightarrow> Inr k)"

definition generated_path :: "string \<Rightarrow> string \<Rightarrow> string \<Rightarrow> int \<Rightarrow> string list" where
  "generated_path key_prefix metadata_key summary_type w = [''ps'', key_prefix, metadata_key] @
     (if summary_type \<noteq> [] \<and> summary_type \<noteq> ''base'' then [summary_type, show_int w] else [])"

text \<open>The text of a row, from a container of the timestamp 1.\<close>

definition row_text :: "string list \<Rightarrow> string res" where
  "row_text path = rbind (handle_date 1) (\<lambda>t.
     Inr (py_lower (get_meta_key \<lparr>c_path = path, c_ts = t, c_val = JNull, c_freq = None\<rparr>)))"

definition int_point ::
  "'d pycassa \<Rightarrow> (nat \<Rightarrow> nat) \<Rightarrow> string list \<Rightarrow> int \<Rightarrow> int \<Rightarrow> int \<Rightarrow> nat \<times> 'd cass \<Rightarrow> (nat \<times> 'd cass) res" where
  "int_point P draws path min_val max_val ts st = (case st of (i, st) \<Rightarrow>
     rbind (randint draws min_val max_val i) (\<lambda>(v, j).
     rbind (handle_date (ts * 1000)) (\<lambda>t.
     rbind (update_rate_bin P \<lparr>c_path = path, c_ts = t, c_val = v, c_freq = None\<rparr> st) (\<lambda>st'. Inr (j, st')))))"

function fill_histogram :: "(nat \<Rightarrow> nat) \<Rightarrow> int \<Rightarrow> int \<Rightarrow> int \<Rightarrow> int dict \<Rightarrow> nat \<Rightarrow> (int dict \<times> nat) res" where
  "fill_histogram draws bucket_min bucket_max sample histogram i =
     (if sample \<le> 0 then Inr (histogram, i)
      else (case randint draws bucket_min bucket_max i of
          Inl e \<Rightarrow> Inl e
        | Inr (bucket, j) \<Rightarrow> (case randint draws 1 sample j of
            Inl e \<Rightarrow> Inl e
          | Inr (val, k) \<Rightarrow> fill_histogram draws bucket_min bucket_max (sample - val)
              (AList.update (show_int bucket)
                (case map_of histogram (show_int bucket) of None \<Rightarrow> val | Some n \<Rightarrow> n + val) histogram) k)))"
  by pat_completeness auto
termination
  by (relation "measure (\<lambda>(draws, lo, hi, sample, histogram, i). nat sample)") (auto dest!: randint_bounds)

text \<open>The value of the container is already the text of the histogram; \<open>set_raw_data\<close> writes the text of that text.\<close>

definition histogram_point ::
  "'d pycassa \<Rightarrow> (nat \<Rightarrow> nat) \<Rightarrow> string list \<Rightarrow> int \<Rightarrow> int \<Rightarrow> int \<Rightarrow> int \<Rightarrow> nat \<times> 'd cass \<Rightarrow> (nat \<times> 'd cass) res" where
  "histogram_point P draws path sample_size bucket_min bucket_max ts st = (case st of (i, st) \<Rightarrow>
     rbind (fill_histogram draws bucket_min bucket_max sample_size [] i) (\<lambda>(histogram, j).
     rbind (handle_date (ts * 1000)) (\<lambda>t.
     rbind (set_raw_data P \<lparr>c_path = path, c_ts = t, c_val = JStr (json_dumps (JObj (map (\<lambda>(b, n). (b, JInt n)) histogram))),
         c_freq = None\<rparr> st) (\<lambda>st'. Inr (j, st')))))"

text \<open>The rows of either generator: the metadata key, once taken, is that of the rows after it.\<close>

type_synonym 'd generation = "string option \<times> string list \<times> nat \<times> 'd cass"

definition generate_row ::
  "(string list \<Rightarrow> int \<Rightarrow> nat \<times> 'd cass \<Rightarrow> (nat \<times> 'd cass) res) \<Rightarrow> (nat \<Rightarrow> string) \<Rightarrow> string \<Rightarrow> int \<Rightarrow> int \<Rightarrow> string \<Rightarrow> int \<Rightarrow>
    nat \<Rightarrow> 'd generation \<Rightarrow> 'd generation res" where
  "generate_row point hex key_prefix start_ts end_ts summary_type w n g = (case g of (metadata_key, row_keys, i, st) \<Rightarrow>
     rbind (row_metadata_key (hex n) metadata_key) (\<lambda>key.
     let path = generated_path key_prefix key summary_type w in
     rbind (row_text path) (\<lambda>text.
     rbind (py_range start_ts end_ts w) (\<lambda>secs.
     rbind (rfold (point path) secs (i, st)) (\<lambda>(j, st').
     Inr (Some key, row_keys @ [text], j, st'))))))"

definition generate_rows ::
  "'d pycassa \<Rightarrow> (string list \<Rightarrow> int \<Rightarrow> nat \<times> 'd cass \<Rightarrow> (nat \<times> 'd cass) res) \<Rightarrow> (nat \<Rightarrow> string) \<Rightarrow> string \<Rightarrow> string option \<Rightarrow>
    int \<Rightarrow> int \<Rightarrow> int \<Rightarrow> string \<Rightarrow> int \<Rightarrow> 'd cass \<Rightarrow> (string list \<times> 'd cass) res" where
  "generate_rows P point hex key_prefix metadata_key num_rows start_ts end_ts summary_type w st =
     rbind (rfold (generate_row point hex key_prefix start_ts end_ts summary_type w) [0..<nat num_rows] (metadata_key, [], 0, st))
       (\<lambda>(_, row_keys, _, st'). rbind (flush P st') (\<lambda>st''. Inr (row_keys, st'')))"

definition generate_int_data where
  "generate_int_data P draws hex key_prefix metadata_key num_rows start_ts end_ts summary_type time_int min_val max_val st =
     generate_rows P (\<lambda>path. int_point P draws path min_val max_val) hex key_prefix metadata_key num_rows start_ts end_ts
       summary_type time_int st"

definition generate_histogram_data where
  "generate_histogram_data P draws hex key_prefix metadata_key num_rows start_ts end_ts summary_type summ_window
      sample_size bucket_min bucket_max st =
     generate_rows P (\<lambda>path. histogram_point P draws path sample_size bucket_min bucket_max) hex key_prefix metadata_key num_rows
       start_ts end_ts summary_type summ_window st"

subsection \<open>Keys and output\<close>

definition gen_key :: "string \<Rightarrow> int \<Rightarrow> string res" where
  "gen_key key ts = rbind (float_of_int ts) (\<lambda>x. rbind (utcfromtimestamp x) (\<lambda>d.
     Inr (py_lower (key @ '':'' @ show_int (dt_year d)))))"

definition gen_key_range :: "string \<Rightarrow> int \<Rightarrow> int \<Rightarrow> string list res" where
  "gen_key_range key start_time end_time =
     rbind (float_of_int start_time) (\<lambda>x. rbind (utcfromtimestamp x) (\<lambda>d1.
     rbind (float_of_int end_time) (\<lambda>y. rbind (utcfromtimestamp y) (\<lambda>d2.
     Inr (map (\<lambda>year. key @ '':'' @ show_int year) [dt_year d1..dt_year d2])))))"

definition dump_json :: "(string \<times> (int \<times> json) list) list \<Rightarrow> string" where
  "dump_json db_result = json_dumps (JList (concat (map (\<lambda>(row, cols).
     map (\<lambda>(ts, v). JObj [(''time'', JInt ts), (''value'', v)]) cols) db_result)))"

subsection \<open>The script\<close>

record gen_args =
  ga_data_type :: string
  ga_ks_name :: string
  ga_sample_size :: int
  ga_time_range :: int
  ga_summ_type :: string
  ga_summ_window :: int
  ga_metadata_key :: "string option"
  ga_min_val :: int
  ga_max_val :: int
  ga_keep_data :: bool
  ga_key_prefix :: string
  ga_num_rows :: int

definition default_gen_args :: gen_args where
  "default_gen_args = \<lparr>ga_data_type = ''base_rate'', ga_ks_name = ''ma_test'', ga_sample_size = 600,
     ga_time_range = 86400 * 365, ga_summ_type = ''base'', ga_summ_window = 0, ga_metadata_key = None,
     ga_min_val = 1, ga_max_val = 1000, ga_keep_data = False, ga_key_prefix = ''ps:test'', ga_num_rows = 1\<rparr>"

text \<open>The tester: the name of the keyspace it is given is not looked at.\<close>

definition tester_config :: "bool \<Rightarrow> json dict \<Rightarrow> json dict" where
  "tester_config savedb config = (if savedb then config else set_attr ''db_clear_on_testing'' (JBool True) config)"

definition new_tester ::
  "'s sysman \<Rightarrow> bool \<Rightarrow> bool \<Rightarrow> json dict res \<Rightarrow> string \<Rightarrow> bool \<Rightarrow> 's \<Rightarrow> (db_handle \<times> 's) res" where
  "new_tester sm unit_tests testing config ks_name savedb s =
     rbind config (\<lambda>c. db_init sm unit_tests testing (tester_config savedb c) s)"

text \<open>What follows, on the database that was opened, at the time \<open>now\<close>.\<close>

definition generate_data ::
  "'d pycassa \<Rightarrow> (nat \<Rightarrow> nat) \<Rightarrow> (nat \<Rightarrow> string) \<Rightarrow> gen_args \<Rightarrow> int \<Rightarrow> 'd cass \<Rightarrow> (string list \<times> 'd cass) res" where
  "generate_data P draws hex args now st =
     (if ga_metadata_key args \<noteq> None \<and> 1 < ga_num_rows args
      then Inl (RuntimeError ''--num-rows must be 1 when providing metadata key'')
      else if ga_data_type args = ''base_rate'' then
        generate_int_data P draws hex (ga_key_prefix args) (ga_metadata_key args) (ga_num_rows args)
          (now - ga_time_range args) now (ga_summ_type args) (ga_summ_window args) (ga_min_val args) (ga_max_val args) st
      else if ga_data_type args = ''histogram'' then
        generate_histogram_data P draws hex (ga_key_prefix args) (ga_metadata_key args) (ga_num_rows args)
          (now - ga_time_range args) now (ga_summ_type args) (ga_summ_window args) (ga_sample_size args)
          (ga_min_val args) (ga_max_val args) st
      else Inl (RuntimeError (''Invalid data type: '' @ ga_data_type args)))"

subsection \<open>The samples of a histogram\<close>

definition counts_ok :: "int \<Rightarrow> int \<Rightarrow> int dict \<Rightarrow> bool" where
  "counts_ok bucket_min bucket_max h = (distinct (map fst h) \<and>
     (\<forall>(b, n) \<in> set h. 0 < n \<and> (\<exists>bucket. bucket_min \<le> bucket \<and> bucket \<le> bucket_max \<and> b = show_int bucket)))"

lemma update_count:
  assumes "counts_ok lo hi h" and "lo \<le> bucket" and "bucket \<le> hi" and "0 < val"
    and "n = (case map_of h (show_int bucket) of None \<Rightarrow> val | Some m \<Rightarrow> m + val)"
  shows "counts_ok lo hi (AList.update (show_int bucket) n h) \<and>
    sum_list (map snd (AList.update (show_int bucket) n h)) = sum_list (map snd h) + val"
proof -
  have "0 < n" using assms(1,4,5) by (auto simp: counts_ok_def split: option.splits dest!: map_of_SomeD)
  have sums: "sum_list (map snd (AList.update b m xs)) =
      sum_list (map snd xs) + (case map_of xs b of None \<Rightarrow> m | Some m' \<Rightarrow> m - m')" for b m and xs :: "int dict"
    by (induction xs) auto
  have members: "set (AList.update b m xs) \<subseteq> insert (b, m) (set xs)" for b m and xs :: "int dict"
    by (induction xs) auto
  have "counts_ok lo hi (AList.update (show_int bucket) n h)"
    using assms(1-3) \<open>0 < n\<close> members [of "show_int bucket" n h] by (auto simp: counts_ok_def distinct_update)
  then show ?thesis using sums assms(5) by (simp split: option.splits)
qed

lemma fill_histogram_counts:
  assumes "bucket_min \<le> bucket_max" and "counts_ok bucket_min bucket_max h"
  shows "\<exists>h' j. fill_histogram draws bucket_min bucket_max sample h i = Inr (h', j) \<and>
    counts_ok bucket_min bucket_max h' \<and> sum_list (map snd h') = sum_list (map snd h) + max 0 sample"
  using assms
proof (induction draws bucket_min bucket_max sample h i rule: fill_histogram.induct)
  case (1 draws lo hi sample h i)
  show ?case
  proof (cases "sample \<le> 0")
    case True
    then show ?thesis using 1(3) by simp
  next
    case False
    obtain bucket where b: "randint draws lo hi i = Inr (bucket, i + 1)" using randint_ok 1(2) by blast
    obtain val where v: "randint draws 1 sample (i + 1) = Inr (val, i + 1 + 1)" using randint_ok [of 1 sample] False by force
    define h1 where "h1 = AList.update (show_int bucket)
      (case map_of h (show_int bucket) of None \<Rightarrow> val | Some n \<Rightarrow> n + val) h"
    have h1: "counts_ok lo hi h1" "sum_list (map snd h1) = sum_list (map snd h) + val"
      using update_count [OF 1(3), of bucket val] randint_bounds [OF b] randint_bounds [OF v] by (auto simp: h1_def)
    obtain h' j where h': "fill_histogram draws lo hi (sample - val) h1 (i + 1 + 1) = Inr (h', j)" "counts_ok lo hi h'"
        "sum_list (map snd h') = sum_list (map snd h1) + max 0 (sample - val)"
      using 1(1) [OF False b refl v refl 1(2)] h1(1) by (auto simp: h1_def)
    have "fill_histogram draws lo hi sample h i = Inr (h', j)"
      using False b v h'(1) by (simp add: h1_def del: fill_histogram.simps) (subst fill_histogram.simps, simp del: fill_histogram.simps)
    then show ?thesis using h'(2,3) h1(2) randint_bounds [OF v] by (intro exI [of _ h'] exI [of _ j]) simp
  qed
qed

subsection \<open>The counters that are written\<close>

definition generated_counter :: "string list \<Rightarrow> colfam \<Rightarrow> string \<Rightarrow> int \<Rightarrow> subname \<Rightarrow> int \<times> int \<Rightarrow> int" where
  "generated_counter path f k c nm = (\<lambda>(t, v).
     if f = RateCF \<and> k = get_rowkey path None (Some (dt_year (dt_of_secs t))) \<and> c = t * 1000
     then two_counters ''val'' v ''is_valid'' 1 nm else 0)"

context batched_store
begin

lemma int_point_counters:
  assumes "min_val \<le> max_val" and "ms_ok t"
  shows "\<exists>v st'. int_point P draws path min_val max_val t (i, st) = Inr (i + 1, st') \<and> min_val \<le> v \<and> v \<le> max_val \<and>
    (\<forall>f k c nm. counter (settled sent pending (cdb st') f) k c nm =
       counter (settled sent pending (cdb st) f) k c nm + generated_counter path f k c nm (t, v))"
proof -
  obtain v where v: "randint draws min_val max_val i = Inr (v, i + 1)" using randint_ok [OF assms(1)] by blast
  let ?k = "get_rowkey path None (Some (dt_year (dt_of_secs t)))"
  obtain d where d: "cf_insert P RateCF ?k (t * 1000) (Super [(St ''val'', v), (St ''is_valid'', 1)]) (cdb st) = Inr d"
    using insert_ok by blast
  have "int_point P draws path min_val max_val t (i, st) = Inr (i + 1, st\<lparr>cdb := d\<rparr>)"
    using v d by (simp add: int_point_def handle_date_secs [OF assms(2)] update_rate_bin_def get_key_def ts_to_jstime_def timegm_def)
  then show ?thesis using insert_counter [OF _ d] randint_bounds [OF v]
    by (intro exI [of _ v] exI [of _ "st\<lparr>cdb := d\<rparr>"]) (auto simp: is_counter_def generated_counter_def)
qed

lemma int_points_counters:
  assumes "min_val \<le> max_val" and "\<forall>t \<in> set secs. ms_ok t"
  shows "\<exists>vs j st'. rfold (int_point P draws path min_val max_val) secs (i, st) = Inr (j, st') \<and>
    length vs = length secs \<and> set vs \<subseteq> {min_val..max_val} \<and>
    (\<forall>f k c nm. counter (settled sent pending (cdb st') f) k c nm =
       counter (settled sent pending (cdb st) f) k c nm + sum_list (map (generated_counter path f k c nm) (zip secs vs)))"
  using assms(2)
proof (induction secs arbitrary: i st)
  case (Cons t secs)
  obtain v st1 where v: "int_point P draws path min_val max_val t (i, st) = Inr (i + 1, st1)" "min_val \<le> v" "v \<le> max_val"
      "\<forall>f k c nm. counter (settled sent pending (cdb st1) f) k c nm =
         counter (settled sent pending (cdb st) f) k c nm + generated_counter path f k c nm (t, v)"
    using int_point_counters [OF assms(1), of t draws path i st] Cons.prems by auto
  obtain vs j st' where r: "rfold (int_point P draws path min_val max_val) secs (i + 1, st1) = Inr (j, st')"
      "length vs = length secs" "set vs \<subseteq> {min_val..max_val}"
      "\<forall>f k c nm. counter (settled sent pending (cdb st') f) k c nm = counter (settled sent pending (cdb st1) f) k c nm +
         sum_list (map (generated_counter path f k c nm) (zip secs vs))"
    using Cons.IH [of "i + 1" st1] Cons.prems by auto
  show ?case using v r by (intro exI [of _ "v # vs"] exI [of _ j] exI [of _ st']) (simp add: add.assoc)
qed (intro exI [of _ "[]"], simp)

end

lemma py_range_times:
  assumes "0 < w"
  shows "\<exists>secs. py_range a b w = Inr secs \<and> distinct secs \<and> set secs = {t. a \<le> t \<and> t < b \<and> w dvd (t - a)}"
proof -
  let ?n = "nat ((b - a + w - 1) div w)"
  let ?secs = "map (\<lambda>k. a + int k * w) [0..<?n]"
  have quotient: "y * w \<le> z \<longleftrightarrow> y \<le> z div w" for y z
  proof
    assume "y * w \<le> z"
    then have "y * w div w \<le> z div w" by (rule zdiv_mono1) (rule assms)
    then show "y \<le> z div w" using assms by simp
  next
    assume "y \<le> z div w"
    then have "y * w \<le> z div w * w" using assms by simp
    also have "\<dots> \<le> z" using div_mult_mod_eq [of z w] pos_mod_sign [OF assms, of z] by linarith
    finally show "y * w \<le> z" .
  qed
  have less: "k < ?n \<longleftrightarrow> a + int k * w < b" for k
  proof -
    have "int k * w < b - a \<longleftrightarrow> int k * w + w \<le> b - a + w - 1" by linarith
    also have "\<dots> \<longleftrightarrow> (int k + 1) * w \<le> b - a + w - 1" by (simp add: distrib_right)
    also have "\<dots> \<longleftrightarrow> int k + 1 \<le> (b - a + w - 1) div w"
      by (rule quotient)
    finally show ?thesis by (auto simp: zless_nat_eq_int_zless)
  qed
  have "set ?secs = {t. a \<le> t \<and> t < b \<and> w dvd (t - a)}"
  proof (intro set_eqI iffI)
    fix t assume "t \<in> {t. a \<le> t \<and> t < b \<and> w dvd (t - a)}"
    then have t: "a \<le> t" "t < b" "w dvd (t - a)" by auto
    then obtain q where q: "t - a = w * q" by (auto elim: dvdE)
    have "0 \<le> q" using t(1) q assms by (metis diff_ge_0_iff_ge mult_less_cancel_left_pos not_le mult_zero_right)
    then have here: "t = a + int (nat q) * w" using q by (simp add: mult.commute)
    then have "nat q \<in> set [0..<?n]" using t(2) less [of "nat q"] by simp
    then show "t \<in> set ?secs" unfolding set_map by (rule rev_image_eqI) (rule here)
  next
    fix t assume "t \<in> set ?secs"
    then obtain k where "k < ?n" "t = a + int k * w" by auto
    then show "t \<in> {t. a \<le> t \<and> t < b \<and> w dvd (t - a)}" using less [of k] assms by simp
  qed
  moreover have "distinct ?secs" using assms by (auto simp: distinct_map inj_on_def)
  ultimately show ?thesis using assms by (simp add: py_range_def)
qed

text \<open>The timestamp 1 is a millisecond after the epoch.\<close>

lemma handle_date_1: "handle_date 1 = Inr (DT 1000)"
proof -
  have a: "fl (1 / 1000) = of_int 4611686018427388 * 2 powi (- 62)"
    by (subst fl_eval [of "-10" _ 4611686018427388]) (auto simp: power_int_minus intro: round_even_eval)
  have b: "fl (of_int 4611686018427388 * 2 powi (- 62) * 1000000) = 1000"
    by (subst fl_eval [of 9 _ 8796093022208000]) (auto simp: power_int_minus intro: round_even_eval)
  have year: "dt_year (DT 1000) = 1970" by code_simp
  have "trunc_rat (fl (1 / 1000)) = 0" unfolding a by (simp add: trunc_rat_def power_int_minus floor_eq_iff)
  moreover have "fl (fl (1 / 1000) * 1000000) = 1000" using b by (simp only: a)
  moreover have "\<not> 2 ^ 1024 \<le> fl (1 / 1000)" "\<not> fl (1 / 1000) \<le> - (2 ^ 1024)" unfolding a by (simp_all add: power_int_minus)
  ultimately show ?thesis
    using year float_of_int_exact [of 1] round_even_of_int [of 1000]
    by (simp add: handle_date_def fdiv_def mkfloat_def utcfromtimestamp_def Let_def)
qed

lemma row_text_ok: "\<exists>line. row_text path = Inr line"
  by (simp add: row_text_def handle_date_1)

subsection \<open>Properties\<close>

text \<open>
  A generated histogram is a sample of the asked size: whatever numbers are drawn, the loop
  ends, its counts are positive and add up to the sample size, and its buckets are distinct
  and within the asked bounds.
\<close>

theorem generated_sample:
  assumes "bucket_min \<le> bucket_max" and "0 \<le> sample_size"
  shows "\<exists>h j. fill_histogram draws bucket_min bucket_max sample_size [] i = Inr (h, j) \<and>
    distinct (map fst h) \<and> sum_list (map snd h) = sample_size \<and>
    (\<forall>(b, n) \<in> set h. 0 < n \<and> (\<exists>bucket. bucket_min \<le> bucket \<and> bucket \<le> bucket_max \<and> b = show_int bucket))"
proof -
  have "counts_ok bucket_min bucket_max []" by (simp add: counts_ok_def)
  from fill_histogram_counts [OF assms(1) this, of draws sample_size i] show ?thesis
    using assms(2) by (auto simp: counts_ok_def simp del: fill_histogram.simps)
qed

lemma generated_sample_witness:
  "\<exists>h j. fill_histogram (\<lambda>i. 7 * i) 1 1000 600 [] 0 = Inr (h, j) \<and> sum_list (map snd h) = 600"
  using generated_sample [of 1 1000 600 "\<lambda>i. 7 * i" 0] by auto

lemma seconds_between: "ms_ok a \<Longrightarrow> ms_ok b \<Longrightarrow> a \<le> t \<Longrightarrow> t \<le> b \<Longrightarrow> ms_ok t"
  using valid_secs_between [of a b t] by (auto simp: ms_ok_def)

text \<open>
  The generated counters are in the database: run for base rates with a metadata key, one
  row and a positive window, the script ends without exception, and afterwards every counter
  of the store is what it was, or had queued, plus one value for each second of the time range
  that is a multiple of the window after its start, in the row of its year, each value
  between the asked bounds.
\<close>

theorem generated_counters_stored:
  assumes "batched_store P sent pending"
    and "ga_data_type args = ''base_rate''" and "ga_metadata_key args = Some key" and "ga_num_rows args = 1"
    and "0 < ga_summ_window args" and "ga_min_val args \<le> ga_max_val args"
    and "ms_ok (now - ga_time_range args)" and "ms_ok now"
  shows "\<exists>keys st' secs vs. generate_data P draws hex args now st = Inr (keys, st') \<and> distinct secs \<and>
    set secs = {t. now - ga_time_range args \<le> t \<and> t < now \<and> ga_summ_window args dvd (t - (now - ga_time_range args))} \<and>
    length vs = length secs \<and> set vs \<subseteq> {ga_min_val args..ga_max_val args} \<and>
    (\<forall>f k c nm. counter (sent (cdb st') f) k c nm = counter (settled sent pending (cdb st) f) k c nm +
       sum_list (map (generated_counter (generated_path (ga_key_prefix args) key (ga_summ_type args) (ga_summ_window args)) f k c nm)
         (zip secs vs)))"
proof -
  let ?path = "generated_path (ga_key_prefix args) key (ga_summ_type args) (ga_summ_window args)"
  obtain secs where secs: "py_range (now - ga_time_range args) now (ga_summ_window args) = Inr secs" "distinct secs"
      "set secs = {t. now - ga_time_range args \<le> t \<and> t < now \<and> ga_summ_window args dvd (t - (now - ga_time_range args))}"
    using py_range_times [OF assms(5)] by blast
  have ok: "\<forall>t \<in> set secs. ms_ok t" using secs(3) seconds_between [OF assms(7,8)] by auto
  obtain vs j st1 where row: "rfold (int_point P draws ?path (ga_min_val args) (ga_max_val args)) secs (0, st) = Inr (j, st1)"
      "length vs = length secs" "set vs \<subseteq> {ga_min_val args..ga_max_val args}"
      "\<forall>f k c nm. counter (settled sent pending (cdb st1) f) k c nm =
         counter (settled sent pending (cdb st) f) k c nm + sum_list (map (generated_counter ?path f k c nm) (zip secs vs))"
    using batched_store.int_points_counters [OF assms(1,6) ok] by blast
  obtain line where line: "row_text ?path = Inr line" using row_text_ok by blast
  obtain st' where f: "flush P st1 = Inr st'" using batched_store.flush_ok [OF assms(1)] by blast
  have "generate_data P draws hex args now st = Inr ([line], st')"
    using assms(2-4) secs(1) row(1) line f
    by (simp add: generate_data_def generate_int_data_def generate_rows_def generate_row_def row_metadata_key_def)
  then show ?thesis
    using secs(2,3) row(2-4) batched_store.flush_settled(1) [OF assms(1) f] by auto
qed

definition sample_gen_args :: gen_args where
  "sample_gen_args = default_gen_args\<lparr>ga_metadata_key := Some ''0CB1'', ga_summ_window := 60, ga_time_range := 600\<rparr>"

lemma generated_counters_stored_witness:
  "\<exists>keys st'. generate_data mem_store (\<lambda>i. i) (\<lambda>_. []) sample_gen_args 1398965989 empty_cass = Inr (keys, st')"
proof -
  have "ms_ok (1398965989 - 600)"
    by (rule seconds_between [OF ms_ok_1398(1,3)]) simp_all
  then show ?thesis
    using generated_counters_stored [OF mem.batched_store_axioms, of sample_gen_args "''0CB1''" 1398965989 "\<lambda>i. i" "\<lambda>_. []" empty_cass]
      ms_ok_1398(2)
    by (auto simp: sample_gen_args_def default_gen_args_def)
qed

text \<open>
  The options have no working defaults: without a metadata key, and with the default window
  0 also with one, the generators raise \<open>ValueError\<close>, whatever the database.
\<close>

theorem generator_defaults_fail:
  assumes "ga_data_type args = ''base_rate'' \<or> ga_data_type args = ''histogram''" and "1 \<le> ga_num_rows args"
    and "(ga_metadata_key args = None \<and> length (hex 0) = 32) \<or>
      (ga_metadata_key args \<noteq> None \<and> ga_num_rows args = 1 \<and> ga_summ_window args = 0)"
  shows "generate_data P draws hex args now st = Inl ValueError"
proof -
  have rows: "[0..<nat (ga_num_rows args)] = 0 # [1..<nat (ga_num_rows args)]"
    using assms(2) by (simp add: upt_rec)
  have first: "generate_row point hex (ga_key_prefix args) a b (ga_summ_type args) (ga_summ_window args) 0
      (ga_metadata_key args, [], 0, st) = Inl ValueError" for point a b
  proof (cases "ga_metadata_key args")
    case None
    then have "unpack_one (hex 0) = Inl ValueError" using assms(3) by (auto simp: unpack_one_def split: list.splits)
    then show ?thesis using None by (simp add: generate_row_def row_metadata_key_def)
  next
    case (Some k)
    obtain line where "row_text (generated_path (ga_key_prefix args) k (ga_summ_type args) (ga_summ_window args)) = Inr line"
      using row_text_ok by blast
    then show ?thesis using Some assms(3) by (simp add: generate_row_def row_metadata_key_def py_range_def)
  qed
  have "\<not> (ga_metadata_key args \<noteq> None \<and> 1 < ga_num_rows args)" using assms(3) by auto
  then show ?thesis
    using assms(1) first by (auto simp: generate_data_def generate_int_data_def generate_histogram_data_def generate_rows_def rows)
qed

lemma generator_defaults_fail_witness:
  "generate_data mem_store (\<lambda>i. i) (\<lambda>_. replicate 32 CHR ''0'') default_gen_args 1398965989 empty_cass = Inl ValueError"
  by (rule generator_defaults_fail) (simp_all add: default_gen_args_def)

text \<open>
  Opening the generator clears the archive: unless \<open>--keep-data\<close> is given, the keyspace of
  the configuration is dropped and made anew, whatever \<open>--keyspace\<close> names, and no other
  keyspace changes.
\<close>

theorem tester_clears_archive:
  assumes "schema_server sm schema" and "first_server c = Inr server" and "\<And>s. sm_reach sm server s = None"
    and "\<And>s. sm_pool sm (keyspace_name unit_tests c) (attr c ''cassandra_servers'') (credentials c) s = None"
  shows "\<exists>db s'. new_tester sm unit_tests testing (Inr c) ks_name False s = Inr (db, s') \<and>
    schema s' = (schema s)(keyspace_name unit_tests c \<mapsto> completed Map.empty COLUMN_FAMILIES)"
proof -
  let ?c = "tester_config False c"
  have others: "attr ?c k = attr c k" if "k \<noteq> ''db_clear_on_testing''" for k
    using that by (simp add: tester_config_def set_attr_def attr_def update_conv')
  have same: "first_server ?c = first_server c" "keyspace_name unit_tests ?c = keyspace_name unit_tests c"
      "credentials ?c = credentials c" "attr ?c ''cassandra_servers'' = attr c ''cassandra_servers''"
    by (simp_all add: first_server_def keyspace_name_def credentials_def others)
  have "py_truthy (attr ?c ''db_clear_on_testing'')"
    by (simp add: tester_config_def set_attr_def attr_def update_conv')
  then have "families_after ?c m = completed Map.empty COLUMN_FAMILIES" for m
    by (simp add: families_after_def before_check_def)
  then show ?thesis
    using schema_server.init_schema [OF assms(1), of ?c server unit_tests "keyspace_name unit_tests c" testing s] assms(2-4)
    unfolding new_tester_def same by auto
qed

lemma tester_clears_archive_witness:
  "\<exists>db s'. new_tester memory_sysman False False (Inr sample_config) ''ma_test'' False [(keyspace_name False sample_config, [])] =
     Inr (db, s') \<and> memory_families s' (keyspace_name False sample_config) = Some (completed Map.empty COLUMN_FAMILIES)"
  using tester_clears_archive [OF memory.schema_server_axioms sample_config_facts(1), of False False "''ma_test''"
      "[(keyspace_name False sample_config, [])]"]
  by (auto simp: memory_answers)

end
