(* ===== verification/Client_Samples.thy ===== *)
theory Client_Samples
  imports Client_Query Py_Text
begin

section \<open>Sample programs of the query client\<close>

text \<open>
  \<open>util/ps_graph_examples.py\<close>, which queries an archive and prints what it gets, and the texts of
  the objects of the client (\<open>__repr__\<close> of \<open>client/perfsonar/query.py\<close>). All objects of a program share one \<open>ApiFilters\<close>, which the programs
  change between two queries: a program is a function of these filters and the lines printed so
  far, and every query is made with the filters of its time. A program that waits for ever is None.
\<close>

subsection \<open>Texts\<close>

definition metadata_repr :: "node_info \<Rightarrow> string res" where
  "metadata_repr node = rbind (metadata_property ''metadata_key'' node) (\<lambda>k. rbind (metadata_property ''uri'' node) (\<lambda>u.
     Inr (''<Metadata/'' @ shown k @ '': uri:'' @ shown u @ ''>'')))"

definition event_type_repr :: "node_info \<Rightarrow> string res" where
  "event_type_repr node = rbind (json_get (ni_data node) ''event-type'' JNull) (\<lambda>t. rbind (uri_of ''base-uri'' node) (\<lambda>u.
     Inr (''<EventType/'' @ shown t @ '': uri:'' @ u @ ''>'')))"

definition summary_repr :: "node_info \<Rightarrow> string res" where
  "summary_repr node = rbind (json_get (ni_data node) ''summary-type'' JNull) (\<lambda>t.
     rbind (json_get (ni_data node) ''summary-window'' JNull) (\<lambda>w.
     Inr (''<Summary/'' @ shown t @ '': window:'' @ shown w @ ''>'')))"

definition data_payload_repr :: "data_payload \<Rightarrow> string" where
  "data_payload_repr p = ''<DataPayload: len:'' @ show_int (int (length (dl_data p))) @ '' type:'' @ dl_type p @ ''>''"

definition data_point_repr :: "data_point \<Rightarrow> string" where
  "data_point_repr p = ''<DataPoint: ts:'' @ str_datetime (dp_ts p) @ '' val:'' @ shown (dp_val p) @ ''>''"

definition data_histogram_repr :: "data_point \<Rightarrow> string res" where
  "data_histogram_repr p = (case dp_val p of
     JObj d \<Rightarrow> Inr (''<DataHistogram: ts:'' @ str_datetime (dp_ts p) @ '' len:'' @ show_int (int (length d)) @ ''>'')
   | _ \<Rightarrow> Inl AttributeError)"

subsection \<open>Programs\<close>

type_synonym 'a program = "api_filters \<times> string list \<Rightarrow> ('a res \<times> api_filters \<times> string list) option"

definition pbind :: "'a program \<Rightarrow> ('a \<Rightarrow> 'b program) \<Rightarrow> 'b program" where
  "pbind m f s = Option.bind (m s) (\<lambda>(r, s'). case r of Inl e \<Rightarrow> Some (Inl e, s') | Inr x \<Rightarrow> f x s')"

definition pres :: "'a res \<Rightarrow> 'a program" where
  "pres r s = Some (r, s)"

definition pprint :: "string \<Rightarrow> unit program" where
  "pprint line s = Some (Inr (), fst s, snd s @ [line])"

fun peach :: "('a \<Rightarrow> unit program) \<Rightarrow> 'a list \<Rightarrow> unit program" where
  "peach f [] = pres (Inr ())"
| "peach f (x # xs) = pbind (f x) (\<lambda>_. peach f xs)"

text \<open>The filters are set and deleted, and asked with.\<close>

definition set_shared :: "string \<Rightarrow> json \<Rightarrow> unit program" where
  "set_shared attr v s = Some (case filter_set attr v (fst s) of
     Inl e \<Rightarrow> (Inl e, s) | Inr f \<Rightarrow> (Inr (), f, snd s))"

definition del_shared :: "string \<Rightarrow> unit program" where
  "del_shared attr s = Some (case filter_del attr (fst s) of
     Inl e \<Rightarrow> (Inl e, s) | Inr f \<Rightarrow> (Inr (), f, snd s))"

definition asked :: "(api_filters \<Rightarrow> 'a res option) \<Rightarrow> 'a program" where
  "asked q s = map_option (\<lambda>r. (r, s)) (q (fst s))"

text \<open>None has no methods.\<close>

definition the_node :: "node_info option res \<Rightarrow> node_info program" where
  "the_node r = pres (rbind r (\<lambda>n. case n of None \<Rightarrow> Inl AttributeError | Some n \<Rightarrow> Inr n))"

definition ask_event_type :: "http_get \<Rightarrow> node_info \<Rightarrow> data_payload program" where
  "ask_event_type http et = asked (\<lambda>f. event_type_data http (et\<lparr>ni_filters := f\<rparr>))"

definition ask_summary :: "http_get \<Rightarrow> node_info \<Rightarrow> node_info \<Rightarrow> data_payload program" where
  "ask_summary http et summ = pbind (pres (data_type_of et)) (\<lambda>t. asked (\<lambda>f. summary_data http t (summ\<lparr>ni_filters := f\<rparr>)))"

definition pprint_points :: "data_payload \<Rightarrow> unit program" where
  "pprint_points payload = pbind (pres (payload_points payload))
     (peach (\<lambda>dp. pprint (str_datetime (dp_ts dp) @ '' '' @ shown (dp_val dp))))"

subsection \<open>The samples of \<open>ps_graph_examples\<close>\<close>

definition pprint_property :: "string \<Rightarrow> node_info \<Rightarrow> unit program" where
  "pprint_property name md = pbind (pres (metadata_property name md)) (\<lambda>v. pprint (shown v))"

definition print_base :: "http_get \<Rightarrow> node_info \<Rightarrow> string \<Rightarrow> unit program" where
  "print_base http md event_type = pbind (the_node (get_event_type event_type md)) (\<lambda>et.
     pbind (ask_event_type http et) pprint_points)"

definition throughtput :: "http_get \<Rightarrow> node_info \<Rightarrow> unit program" where
  "throughtput http md = pbind (pprint ''throughput'') (\<lambda>_. pbind (pprint_property ''time_interval'' md) (\<lambda>_.
     pbind (pprint_property ''time_duration'' md) (\<lambda>_. pbind (print_base http md ''throughput'') (\<lambda>_. pprint ''+++''))))"

definition packet_retransmits :: "http_get \<Rightarrow> node_info \<Rightarrow> unit program" where
  "packet_retransmits http md = pbind (pprint ''retransmits'') (\<lambda>_. pbind (pprint_property ''time_interval'' md) (\<lambda>_.
     pbind (pprint_property ''time_duration'' md) (\<lambda>_. pbind (print_base http md ''packet-retransmits'') (\<lambda>_. pprint ''+++''))))"

text \<open>A summary: its payload is printed, and its points are made but not used.\<close>

definition print_summary :: "http_get \<Rightarrow> node_info \<Rightarrow> string \<Rightarrow> string \<Rightarrow> int \<Rightarrow> unit program" where
  "print_summary http et title stype w = pbind (pprint title) (\<lambda>_.
     pbind (the_node (get_summary stype (JInt w) et)) (\<lambda>summ. pbind (ask_summary http et summ) (\<lambda>payload.
     pbind (pprint (data_payload_repr payload)) (\<lambda>_. pbind (pres (payload_points payload)) (\<lambda>_. pres (Inr ()))))))"

definition histograms :: "http_get \<Rightarrow> node_info \<Rightarrow> unit program" where
  "histograms http md = pbind (pprint ''histograms'') (\<lambda>_. pbind (pprint ''base'') (\<lambda>_.
     pbind (set_shared ''time_range'' (JInt 600)) (\<lambda>_.
     pbind (the_node (get_event_type ''histogram-owdelay'' md)) (\<lambda>et.
     pbind (ask_event_type http et) (\<lambda>payload. pbind (pprint_points payload) (\<lambda>_.
     pbind (del_shared ''time_range'') (\<lambda>_.
     pbind (print_summary http et ''hourly'' ''aggregation'' 3600) (\<lambda>_.
     pbind (print_summary http et ''daily'' ''aggregation'' 86400) (\<lambda>_. pprint ''+++'')))))))))"

definition statistics_line :: "data_point \<Rightarrow> string res" where
  "statistics_line dp = rbind (py_getitem (dp_val dp) ''standard-deviation'') (\<lambda>a. rbind (py_getitem (dp_val dp) ''median'') (\<lambda>b.
     rbind (py_getitem (dp_val dp) ''variance'') (\<lambda>c.
     Inr (str_datetime (dp_ts dp) @ '' '' @ shown a @ '' '' @ shown b @ '' '' @ shown c))))"

definition sample_statistics :: "http_get \<Rightarrow> node_info \<Rightarrow> unit program" where
  "sample_statistics http md = pbind (pprint ''statistics'') (\<lambda>_. pbind (pprint ''base'') (\<lambda>_.
     pbind (set_shared ''time_range'' (JInt 600)) (\<lambda>_.
     pbind (the_node (get_event_type ''histogram-owdelay'' md)) (\<lambda>et.
     pbind (the_node (get_summary ''statistics'' (JInt 0) et)) (\<lambda>summ.
     pbind (ask_summary http et summ) (\<lambda>payload. pbind (pres (payload_points payload)) (\<lambda>points.
     pbind (peach (\<lambda>dp. pbind (pres (statistics_line dp)) pprint) points) (\<lambda>_.
     pbind (del_shared ''time_range'') (\<lambda>_.
     pbind (print_summary http et ''hourly'' ''statistics'' 3600) (\<lambda>_.
     pbind (print_summary http et ''daily'' ''statistics'' 86400) (\<lambda>_. pprint ''+++'')))))))))))"

definition packet_loss :: "http_get \<Rightarrow> node_info \<Rightarrow> unit program" where
  "packet_loss http md = pbind (pprint ''packet loss'') (\<lambda>_. pbind (pprint ''base'') (\<lambda>_.
     pbind (set_shared ''time_range'' (JInt 600)) (\<lambda>_.
     pbind (the_node (get_event_type ''packet-loss-rate'' md)) (\<lambda>et.
     pbind (ask_event_type http et) (\<lambda>payload. pbind (pprint_points payload) (\<lambda>_.
     pbind (del_shared ''time_range'') (\<lambda>_.
     pbind (print_summary http et ''hourly'' ''aggregation'' 3600) (\<lambda>_.
     pbind (print_summary http et ''daily'' ''aggregation'' 86400) (\<lambda>_. pprint ''+++'')))))))))"

definition trace_line :: "json \<Rightarrow> string res" where
  "trace_line i = rbind (py_getitem i ''ip'') (\<lambda>a. rbind (py_getitem i ''rtt'') (\<lambda>b. Inr (shown a @ '' '' @ shown b)))"

definition packet_trace :: "http_get \<Rightarrow> node_info \<Rightarrow> unit program" where
  "packet_trace http md = pbind (pprint ''packet trace'') (\<lambda>_. pbind (set_shared ''time_range'' (JInt 600)) (\<lambda>_.
     pbind (the_node (get_event_type ''packet-trace'' md)) (\<lambda>et.
     pbind (ask_event_type http et) (\<lambda>payload. pbind (pres (payload_points payload)) (\<lambda>points.
     pbind (peach (\<lambda>dp. pbind (pres (py_iter (dp_val dp))) (peach (\<lambda>i. pbind (pres (trace_line i)) pprint))) points) (\<lambda>_.
     pbind (del_shared ''time_range'') (\<lambda>_. pprint ''+++'')))))))"

definition path_mtu :: "http_get \<Rightarrow> node_info \<Rightarrow> unit program" where
  "path_mtu http md = pbind (pprint ''path mtu'') (\<lambda>_. pbind (set_shared ''time_range'' (JInt 1800)) (\<lambda>_.
     pbind (print_base http md ''path-mtu'') (\<lambda>_. pprint ''+++'')))"

text \<open>The program: three records, each the first that its filters find.\<close>

definition records :: "http_get \<Rightarrow> bool \<Rightarrow> api_connect \<Rightarrow> node_info list program" where
  "records http pep479 conn = asked (\<lambda>f. api_get_metadata http pep479 (conn\<lparr>ac_filters := f\<rparr>))"

definition first_record :: "http_get \<Rightarrow> bool \<Rightarrow> api_connect \<Rightarrow> node_info program" where
  "first_record http pep479 conn = pbind (records http pep479 conn) (\<lambda>mds.
     pres (case mds of [] \<Rightarrow> Inl IndexError | md # _ \<Rightarrow> Inr md))"

definition set_endpoints :: "string \<Rightarrow> string \<Rightarrow> string \<Rightarrow> string \<Rightarrow> unit program" where
  "set_endpoints src dst agent tool = pbind (set_shared ''source'' (JStr src)) (\<lambda>_. pbind (set_shared ''destination'' (JStr dst)) (\<lambda>_.
     pbind (set_shared ''measurement_agent'' (JStr agent)) (\<lambda>_. set_shared ''tool_name'' (JStr tool))))"

definition graph_examples :: "http_get \<Rightarrow> bool \<Rightarrow> int program" where
  "graph_examples http pep479 =
     pbind (set_endpoints ''198.129.254.30'' ''198.129.254.114'' ''198.129.254.30'' ''bwctl/iperf3'') (\<lambda>_.
     pbind (asked (\<lambda>f. Some (Inr (new_connection ''http://lbl-pt1.es.net:9085'' f [] [] ''esmond'')))) (\<lambda>conn.
     pbind (records http pep479 conn) (\<lambda>mds.
     if 1 < length mds then pbind (pprint ''Got more than one md object - fix query'') (\<lambda>_. pres (Inr (- 1)))
     else
       pbind (first_record http pep479 conn) (\<lambda>md1. pbind (throughtput http md1) (\<lambda>_. pbind (packet_retransmits http md1) (\<lambda>_.
       pbind (set_endpoints ''198.129.254.30'' ''198.124.238.66'' ''198.129.254.30'' ''powstream'') (\<lambda>_.
       pbind (first_record http pep479 conn) (\<lambda>md2. pbind (histograms http md2) (\<lambda>_. pbind (sample_statistics http md2) (\<lambda>_.
       pbind (packet_loss http md2) (\<lambda>_.
       pbind (set_endpoints ''198.129.254.30'' ''198.124.238.66'' ''198.129.254.30'' ''bwctl/tracepath'') (\<lambda>_.
       pbind (first_record http pep479 conn) (\<lambda>md3. pbind (packet_trace http md3) (\<lambda>_. pbind (path_mtu http md3) (\<lambda>_.
       pres (Inr 0))))))))))))))))"

subsection \<open>The shared filters\<close>

text \<open>When a program ends without exception, the filters \<open>f\<close> have become \<open>g\<close> and lines were only added.\<close>

definition turns :: "'a program \<Rightarrow> api_filters \<Rightarrow> api_filters \<Rightarrow> bool" where
  "turns p f g = (\<forall>out x f' out'. p (f, out) = Some (Inr x, f', out') \<longrightarrow> f' = g \<and> prefix out out')"

text \<open>Programs that leave any filters alone.\<close>

named_theorems quiet_intros

definition quiet :: "'a program \<Rightarrow> bool" where
  "quiet p = (\<forall>f. turns p f f)"

lemma quiet_bind [quiet_intros]: "quiet m \<Longrightarrow> (\<And>x. quiet (k x)) \<Longrightarrow> quiet (pbind m k)"
  by (fastforce simp: quiet_def turns_def pbind_def split: bind_splits sum.splits intro: prefix_order.trans)

lemma quiet_pres [quiet_intros]: "quiet (pres r)"
  by (simp add: quiet_def turns_def pres_def)

lemma quiet_the_node [quiet_intros]: "quiet (the_node r)"
  by (simp add: the_node_def quiet_pres)

lemma quiet_pprint [quiet_intros]: "quiet (pprint l)"
  by (simp add: quiet_def turns_def pprint_def)

lemma quiet_asked [quiet_intros]: "quiet (asked q)"
  by (auto simp: quiet_def turns_def asked_def)

lemma quiet_peach [quiet_intros]: "(\<And>x. quiet (p x)) \<Longrightarrow> quiet (peach p xs)"
  by (induction xs) (auto intro: quiet_bind quiet_pres)

lemma quiet_samples [quiet_intros]:
  "quiet (ask_event_type http et)" "quiet (ask_summary http et summ)" "quiet (pprint_points payload)"
  "quiet (pprint_property name md)" "quiet (print_base http md event_type)" "quiet (print_summary http et title stype w)"
proof -
  show ask: "quiet (ask_event_type http et)" for et unfolding ask_event_type_def by (rule quiet_asked)
  show ask': "quiet (ask_summary http et summ)" for summ unfolding ask_summary_def by (intro quiet_intros)
  show points: "quiet (pprint_points payload)" for payload unfolding pprint_points_def by (intro quiet_intros)
  show "quiet (pprint_property name md)" unfolding pprint_property_def by (intro quiet_intros)
  show "quiet (print_base http md event_type)" unfolding print_base_def by (intro quiet_intros ask points)
  show "quiet (print_summary http et title stype w)" unfolding print_summary_def by (intro quiet_intros ask')
qed

lemma turns_quiet: "quiet m \<Longrightarrow> (\<And>x. turns (k x) f h) \<Longrightarrow> turns (pbind m k) f h"
  by (fastforce simp: quiet_def turns_def pbind_def split: bind_splits sum.splits intro: prefix_order.trans)

lemma quiet_turns: "quiet m \<Longrightarrow> turns m f f"
  by (simp add: quiet_def)

definition with_range :: "int \<Rightarrow> api_filters \<Rightarrow> api_filters" where
  "with_range n f = f\<lparr>af_time := AList.update ''time-range'' (JInt n) (af_time f)\<rparr>"

lemma range_filter: "map_of METADATA_FILTERS ''time_range'' = None" "map_of TIME_FILTERS ''time_range'' = Some ''time-range''"
  by code_simp+

lemma turns_set:
  assumes "\<And>x. turns (k x) (with_range n f) h" and "\<bar>n\<bar> \<le> 2 ^ 53"
  shows "turns (pbind (set_shared ''time_range'' (JInt n)) k) f h"
proof -
  have "check_time (JInt n) = Inr (JInt n)"
    using float_of_int_exact [OF assms(2)] by (simp add: check_time_def int_of_float_def)
  then show ?thesis
    using assms(1) by (simp add: turns_def pbind_def set_shared_def filter_set_def range_filter with_range_def)
qed

lemma turns_del:
  assumes "\<not> has_key ''time-range'' (af_time f)" and "\<And>x. turns (k x) f h"
  shows "turns (pbind (del_shared ''time_range'') k) (with_range n f) h"
proof -
  have absent: "AList.delete k (AList.update k v d) = d" if "k \<notin> fst ` set d" for k :: string and v :: json and d
    using that by (induction d) auto
  have "''time-range'' \<notin> fst ` set (af_time f)" using assms(1) by (auto simp: has_key_def)
  from absent [OF this] show ?thesis
    using assms(2) by (simp add: turns_def pbind_def del_shared_def filter_del_def range_filter with_range_def)
qed

lemmas turns_rules = turns_set turns_del

text \<open>
  Samples that end without exception leave the shared filters as they found them, when these have
  no time range, except \<open>path_mtu\<close>, which leaves its time range behind.
\<close>

lemma samples_turn:
  assumes "\<not> has_key ''time-range'' (af_time f)"
  shows "turns (throughtput http md) f f" "turns (packet_retransmits http md) f f" "turns (histograms http md) f f"
    "turns (sample_statistics http md) f f" "turns (packet_loss http md) f f" "turns (packet_trace http md) f f"
    "turns (path_mtu http md) f (with_range 1800 f)"
  unfolding throughtput_def packet_retransmits_def histograms_def sample_statistics_def packet_loss_def packet_trace_def path_mtu_def
  by ((rule turns_rules | rule assms | rule turns_quiet | rule quiet_turns | rule quiet_intros | simp; fail)+)

end
