(* ===== verification/Util_Scripts.thy ===== *)
theory Util_Scripts
  imports Jmx_Client Cassandra_DB Py_Text
begin

section \<open>Scripts for looking at an installation\<close>

text \<open>
  \<open>util/dump_keys.py\<close> prints row keys of a column family, \<open>util/query_jmx.py\<close> the statistics of the
  database server, and \<open>util/ps_api_compare.py\<close> the answers of two versions of the interface. The
  options are records, the keys of a family in the order of the driver, the JMX server and the
  HTTP exchange arguments; what optparse and the pretty printer write is left out.
\<close>

subsection \<open>\<open>dump_keys\<close>\<close>

record dump_options =
  do_column_family :: string
  do_pattern :: string
  do_limit :: int

definition default_dump_options :: dump_options where
  "default_dump_options = \<lparr>do_column_family = ''raw'', do_pattern = [], do_limit = 25\<rparr>"

fun dump_loop :: "string \<Rightarrow> int \<Rightarrow> string list \<Rightarrow> int \<Rightarrow> string list" where
  "dump_loop pattern limit [] count = []"
| "dump_loop pattern limit (k # ks) count =
     (if limit \<le> count then []
      else if str_find k pattern = -1 then dump_loop pattern limit ks count
      else k # dump_loop pattern limit ks (count + 1))"

definition dump_keys :: "(colfam \<Rightarrow> string list) \<Rightarrow> dump_options \<Rightarrow> string list" where
  "dump_keys get_range opts = (case map_of cf_map (do_column_family opts) of
     None \<Rightarrow> [do_column_family opts @ '' is not a valid column family selection'']
   | Some cf \<Rightarrow> dump_loop (do_pattern opts) (do_limit opts) (get_range cf) 0)"

lemma str_find_range: "- 1 \<le> str_find s t"
  by (induction s t rule: str_find.induct) (auto simp: Let_def)

text \<open>A text is found exactly when it is a factor.\<close>

lemma str_find_sublist: "str_find s t = -1 \<longleftrightarrow> \<not> sublist t s"
proof (induction s t rule: str_find.induct)
  case (2 c s t)
  then show ?case using str_find_range [of s t] by (auto simp: Let_def sublist_Cons_right)
qed simp

text \<open>The keys printed are the first of those that hold the pattern.\<close>

lemma dump_loop_filter: "dump_loop pattern limit ks count = take (nat (limit - count)) (filter (sublist pattern) ks)"
proof (induction ks arbitrary: count)
  case (Cons k ks)
  have "nat (limit - count) = Suc (nat (limit - (count + 1)))" if "\<not> limit \<le> count" using that by simp
  then show ?case using Cons by (auto simp: str_find_sublist)
qed simp

lemma dump_keys_first:
  assumes "map_of cf_map (do_column_family opts) = Some cf"
  shows "dump_keys get_range opts = take (nat (do_limit opts)) (filter (sublist (do_pattern opts)) (get_range cf))"
  using assms by (simp add: dump_keys_def dump_loop_filter)

subsection \<open>\<open>query_jmx\<close>\<close>

definition JMX_LINES :: "(string \<times> string) list" where
  "JMX_LINES = [
     (''Heap mem:'', ''get_heap_memory''),
     (''Non-heap mem:'', ''get_non_heap_memory''),
     (''Read latency:'', ''get_read_latency''),
     (''Write latency:'', ''get_write_latency''),
     (''Range latency:'', ''get_range_latency''),
     (''GC count:'', ''get_gc_count''),
     (''GC time:'', ''get_gc_time''),
     (''Active read tasks:'', ''get_read_active''),
     (''Pending read tasks:'', ''get_read_pending''),
     (''Completed read tasks:'', ''get_read_completed''),
     (''Active write tasks:'', ''get_write_active''),
     (''Pending write tasks:'', ''get_write_pending''),
     (''Completed write tasks:'', ''get_write_completed''),
     (''Active gossip tasks:'', ''get_gossip_active''),
     (''Pending gossip tasks:'', ''get_gossip_pending''),
     (''Completed gossip tasks:'', ''get_gossip_completed''),
     (''OS load:'', ''get_os_load''),
     (''OS free mem:'', ''get_os_free_memory''),
     (''OS free swap:'', ''get_os_free_swap''),
     (''OS committed virtual mem:'', ''get_os_committed_virtual_memory''),
     (''Pending compaction'', ''get_compaction_pending''),
     (''Completed compaction'', ''get_compaction_complete'')]"

definition jmx_shown :: "int dict + json \<Rightarrow> string" where
  "jmx_shown v = (case v of Inl d \<Rightarrow> shown (JObj (map (\<lambda>(k, n). (k, JInt n)) d)) | Inr j \<Rightarrow> shown j)"

text \<open>The first value that cannot be read ends the script.\<close>

fun jmx_report :: "(string \<Rightarrow> string dict res) \<Rightarrow> string \<Rightarrow> (string \<times> string) list \<Rightarrow> string list \<times> exn option" where
  "jmx_report request url [] = ([], None)"
| "jmx_report request url ((label, accessor) # rest) =
     (case jmx_call request url accessor of
        Inl e \<Rightarrow> ([], Some e)
      | Inr v \<Rightarrow> (case jmx_report request url rest of (ls, e) \<Rightarrow> ((label @ '' '' @ jmx_shown v) # ls, e)))"

definition query_jmx :: "(string \<Rightarrow> string dict res) \<Rightarrow> string \<Rightarrow> string list \<times> exn option" where
  "query_jmx request url = jmx_report request url JMX_LINES"

text \<open>Every accessor of the client is asked for, once.\<close>

lemma all_accessors_asked: "set (map snd JMX_LINES) = set AVAILABLE_TESTS" "distinct (map snd JMX_LINES)"
  by code_simp+

lemma jmx_report_complete:
  "snd (jmx_report request url qs) = None \<longleftrightarrow> (\<forall>(l, a) \<in> set qs. \<exists>v. jmx_call request url a = Inr v)"
  "snd (jmx_report request url qs) = None \<Longrightarrow> length (fst (jmx_report request url qs)) = length qs"
  by (induction qs) (auto split: sum.splits prod.splits)

subsection \<open>\<open>ps_api_compare\<close>\<close>

definition uri_map :: "(string \<times> (string \<Rightarrow> string)) list" where
  "uri_map = [
     (''archive_root'', (\<lambda>r. ''/'' @ r @ ''/archive/'')),
     (''metadata_root'', (\<lambda>r. ''/'' @ r @ ''/archive/0CB19291FB6D40EAA1955376772BF5D2/'')),
     (''event_detail'', (\<lambda>r. ''/'' @ r @ ''/archive/0CB19291FB6D40EAA1955376772BF5D2/histogram-owdelay/'')),
     (''timeseries_data'', (\<lambda>r. ''/'' @ r @ ''/archive/0CB19291FB6D40EAA1955376772BF5D2/histogram-owdelay/base'')),
     (''summary_data'', (\<lambda>r. ''/'' @ r @ ''/archive/0CB19291FB6D40EAA1955376772BF5D2/histogram-owdelay/aggregations/86400''))]"

record compare_options =
  co_selected :: "string \<Rightarrow> bool"
  co_url :: string
  co_legacy :: bool
  co_post_back :: bool

text \<open>The selected option, or what is printed when not exactly one is.\<close>

definition selection :: "compare_options \<Rightarrow> string + (string \<times> (string \<Rightarrow> string))" where
  "selection opts = (case filter (\<lambda>(n, u). co_selected opts n) uri_map of
     [] \<Rightarrow> Inl ''no option selected''
   | [x] \<Rightarrow> Inr x
   | _ \<Rightarrow> Inl ''select only one option'')"

text \<open>What is sent back: the first item of a list, or the object itself; neither leaves the name unbound.\<close>

definition posted_back :: "json \<Rightarrow> (string \<times> json) res" where
  "posted_back got = (case got of
     JList (x # _) \<Rightarrow> Inr (''post'', x)
   | JList [] \<Rightarrow> Inl IndexError
   | JObj d \<Rightarrow> Inr (''put'', JObj d)
   | _ \<Rightarrow> Inl NameError)"

text \<open>The requests that were made, with their bodies, and the exception the script ends with.\<close>

definition api_compare ::
  "(string \<Rightarrow> string \<Rightarrow> json option \<Rightarrow> reply res) \<Rightarrow> compare_options \<Rightarrow> (string \<times> string \<times> json option) list \<times> exn option" where
  "api_compare http opts = (case selection opts of
     Inl message \<Rightarrow> ([], None)
   | Inr (_, uri) \<Rightarrow>
       (let old = co_url opts @ uri ''perfsonar''; new = co_url opts @ uri ''perfsonar2'' in
        case rbind (http ''get'' old None) reply_json of
          Inl e \<Rightarrow> ([(''get'', old, None)], Some e)
        | Inr _ \<Rightarrow>
            if co_legacy opts then ([(''get'', old, None)], None)
            else (case rbind (http ''get'' new None) reply_json of
                Inl e \<Rightarrow> ([(''get'', old, None), (''get'', new, None)], Some e)
              | Inr got \<Rightarrow>
                  if \<not> co_post_back opts then ([(''get'', old, None), (''get'', new, None)], None)
                  else (case posted_back got of
                      Inl e \<Rightarrow> ([(''get'', old, None), (''get'', new, None)], Some e)
                    | Inr (verb, send) \<Rightarrow> ([(''get'', old, None), (''get'', new, None), (verb, new, Some send)],
                        case http verb new (Some send) of Inl e \<Rightarrow> Some e | Inr _ \<Rightarrow> None)))))"

text \<open>Nothing is written unless it is asked for, and then only the answer just read.\<close>

lemma compare_writes:
  assumes "(verb, uri, Some body) \<in> set (fst (api_compare http opts))"
  shows "co_post_back opts \<and> \<not> co_legacy opts \<and> 
    (\<exists>got. rbind (http ''get'' uri None) reply_json = Inr got \<and> posted_back got = Inr (verb, body))"
  using assms by (auto simp: api_compare_def Let_def split: sum.splits if_splits)

end
