(* ===== verification/Django_Models.thy ===== *)
theory Django_Models
  imports Archive_Metadata Accounts At_Encoding
begin

section \<open>The tables of the database\<close>

text \<open>
  The tables are declared twice: as classes in \<open>esmond/api/models.py\<close> and as the operations of
  \<open>esmond/api/migrations/0001_initial.py\<close>, which create them. Both are translated here, the
  operations with what Django documents of them, and the tables they give are compared. The
  serializers of \<open>api_v2.py\<close> and the filters of \<open>types.py\<close> name columns of these tables. Of the
  options of a field its type, length, uniqueness, index, nullability and related name are kept.
\<close>

subsection \<open>Columns and models\<close>

datatype field =
    AutoField
  | CharField nat
  | SlugField nat
  | TextField
  | BigIntegerField
  | DateTimeField
  | GenericIPAddressField
  | CidrAddressField
  | ForeignKey string
  | OneToOneField string

record column =
  col_name :: string
  col_field :: field
  col_unique :: bool
  col_index :: bool
  col_null :: bool
  col_related :: "string option"

definition plain :: "string \<Rightarrow> field \<Rightarrow> column" where
  "plain name f = \<lparr>col_name = name, col_field = f, col_unique = False, col_index = False, col_null = False, col_related = None\<rparr>"

abbreviation indexed :: "column \<Rightarrow> column" where
  "indexed c \<equiv> c\<lparr>col_index := True\<rparr>"

abbreviation unique :: "column \<Rightarrow> column" where
  "unique c \<equiv> c\<lparr>col_unique := True\<rparr>"

abbreviation nullable :: "column \<Rightarrow> column" where
  "nullable c \<equiv> c\<lparr>col_null := True\<rparr>"

abbreviation related :: "string \<Rightarrow> column \<Rightarrow> column" where
  "related name c \<equiv> c\<lparr>col_related := Some name\<rparr>"

record model =
  mo_name :: string
  mo_columns :: "column list"
  mo_table :: string
  mo_ordering :: "string list"
  mo_verbose :: "string list"
  mo_proxy :: bool
  mo_permissions :: "(string \<times> string) list"

definition table_model :: "string \<Rightarrow> column list \<Rightarrow> string \<Rightarrow> string list \<Rightarrow> model" where
  "table_model name cols tab keys = \<lparr>mo_name = name, mo_columns = cols, mo_table = tab, mo_ordering = keys,
     mo_verbose = [], mo_proxy = False, mo_permissions = []\<rparr>"

subsection \<open>\<open>models.py\<close>\<close>

definition APIPermission :: model where
  "APIPermission = \<lparr>mo_name = ''APIPermission'', mo_columns = [], mo_table = [], mo_ordering = [], mo_verbose = [],
     mo_proxy = True, mo_permissions = [
       (''esmond_api.view_timeseries'', ''View timseries data''),
       (''esmond_api.add_timeseries'', ''Add timseries data''),
       (''esmond_api.delete_timeseries'', ''Delete timseries data''),
       (''esmond_api.change_timeseries'', ''Change timseries data'')]\<rparr>"

text \<open>A slug has an index unless it is told not to.\<close>

definition PSMetadata :: model where
  "PSMetadata = table_model ''PSMetadata'' [
     unique (indexed (plain ''metadata_key'' (SlugField 128))),
     plain ''subject_type'' (CharField 128),
     unique (indexed (plain ''checksum'' (CharField 128)))] ''ps_metadata'' [''metadata_key'']"

definition PSPointToPointSubject :: model where
  "PSPointToPointSubject = table_model ''PSPointToPointSubject'' [
     plain ''metadata'' (OneToOneField ''PSMetadata''),
     plain ''tool_name'' (CharField 128),
     indexed (plain ''source'' GenericIPAddressField),
     indexed (plain ''destination'' GenericIPAddressField),
     plain ''measurement_agent'' GenericIPAddressField,
     plain ''input_source'' (CharField 128),
     plain ''input_destination'' (CharField 128)] ''ps_p2p_subject'' [''source'', ''destination'']"

definition PSNetworkElementSubject :: model where
  "PSNetworkElementSubject = table_model ''PSNetworkElementSubject'' [
     plain ''metadata'' (OneToOneField ''PSMetadata''),
     plain ''tool_name'' (CharField 128),
     indexed (plain ''source'' GenericIPAddressField),
     plain ''measurement_agent'' GenericIPAddressField,
     plain ''input_source'' (CharField 128)] ''ps_networkelement_subject'' [''source'', ''tool_name'']"

definition PSEventTypes :: model where
  "PSEventTypes = table_model ''PSEventTypes'' [
     related ''pseventtypes'' (plain ''metadata'' (ForeignKey ''PSMetadata'')),
     indexed (plain ''event_type'' (CharField 128)),
     plain ''summary_type'' (CharField 128),
     plain ''summary_window'' BigIntegerField,
     nullable (plain ''time_updated'' DateTimeField)] ''ps_event_types'' [''metadata'', ''event_type'', ''summary_type'', ''summary_window'']"

definition PSMetadataParameters :: model where
  "PSMetadataParameters = table_model ''PSMetadataParameters'' [
     related ''psmetadataparameters'' (plain ''metadata'' (ForeignKey ''PSMetadata'')),
     indexed (plain ''parameter_key'' (CharField 128)),
     plain ''parameter_value'' TextField] ''ps_metadata_parameters'' []"

definition UserIpAddress :: model where
  "UserIpAddress = (table_model ''UserIpAddress'' [
     unique (indexed (plain ''ip'' CidrAddressField)),
     related ''user'' (plain ''user'' (ForeignKey ''User''))] ''useripaddress'' [])
     \<lparr>mo_verbose := [''User IP Address'', ''User IP Addresses'']\<rparr>"

definition MODELS :: "model list" where
  "MODELS = [APIPermission, PSMetadata, PSPointToPointSubject, PSNetworkElementSubject, PSEventTypes, PSMetadataParameters, UserIpAddress]"

text \<open>Texts of the rows, and the encoded names.\<close>

definition metadata_text :: "md_row \<Rightarrow> string" where
  "metadata_text r = mr_key r"

definition subject_text :: "string \<Rightarrow> string \<Rightarrow> string" where
  "subject_text a b = a @ ''-'' @ b"

definition event_type_text :: "event_type_row \<Rightarrow> string" where
  "event_type_text r = et_event_type r @ '':'' @ et_summary_type r @ '':'' @ show_int (et_summary_window r)"

definition encoded_event_type :: "event_type_row \<Rightarrow> string res" where
  "encoded_event_type r = atencode False (et_event_type r)"

definition encoded_summary_type :: "event_type_row \<Rightarrow> string res" where
  "encoded_summary_type r = atencode False (et_summary_type r)"

definition user_ip_text :: "'n networks \<Rightarrow> 'n \<times> string \<Rightarrow> string" where
  "user_ip_text nets r = net_text nets (fst r) @ '' - '' @ snd r"

subsection \<open>The migration\<close>


definition id_column :: column where
  "id_column = plain ''id'' AutoField"





text \<open>A model that is no proxy has an automatic key before its declared columns.\<close>

definition with_id :: "model \<Rightarrow> model" where
  "with_id m = (if mo_proxy m then m else m\<lparr>mo_columns := id_column # mo_columns m\<rparr>)"


lemmas model_defs = MODELS_def APIPermission_def PSMetadata_def PSPointToPointSubject_def PSNetworkElementSubject_def
  PSEventTypes_def PSMetadataParameters_def UserIpAddress_def table_model_def plain_def with_id_def id_column_def

subsection \<open>The serializers\<close>

definition point_to_point_fields :: "string list" where
  "point_to_point_fields = [''source'', ''destination'', ''measurement_agent'', ''tool_name'', ''input_source'', ''input_destination'']"

definition network_element_fields :: "string list" where
  "network_element_fields = [''source'', ''measurement_agent'', ''tool_name'', ''input_source'']"

definition archive_fields :: "string list" where
  "archive_fields = [''url'', ''metadata_key'', ''subject_type'', ''pspointtopointsubject'', ''psnetworkelementsubject'', ''event_types'']"

subsection \<open>Properties\<close>



text \<open>The key and the checksum of a record are unique, as its creation relies on.\<close>

lemma unique_metadata_columns: "map col_name (filter col_unique (mo_columns PSMetadata)) = [''metadata_key'', ''checksum'']"
  by code_simp

text \<open>The commands grant permissions that are declared.\<close>

lemma declared_permissions: "set timeseries_permissions = set (map fst (mo_permissions APIPermission))"
  by code_simp

text \<open>A filter of the interface on a subject: the accessor of its table, then the column.\<close>

definition lookup_of :: "model \<Rightarrow> column \<Rightarrow> string" where
  "lookup_of m c = lower (mo_name m) @ ''__'' @ col_name c"

text \<open>
  The names the interface uses are columns: the serializers of the two subjects have each
  column of their table except the key and the reference to the record, and no other; every
  filter on a subject names a column of a subject table, and the address filters are on
  columns that hold addresses.
\<close>

theorem interface_names_columns:
  "set point_to_point_fields = set (map col_name (mo_columns PSPointToPointSubject)) - {''metadata''} \<and>
   set network_element_fields = set (map col_name (mo_columns PSNetworkElementSubject)) - {''metadata''} \<and>
   list_all (\<lambda>(k, fs). list_all (\<lambda>f. list_ex (\<lambda>m. list_ex (\<lambda>c. f = lookup_of m c \<and>
       (k \<in> set IP_FIELDS) = (col_field c = GenericIPAddressField)) (mo_columns m))
     [PSPointToPointSubject, PSNetworkElementSubject]) fs) SUBJECT_FILTER_MAP"
proof (intro conjI)
  show "set point_to_point_fields = set (map col_name (mo_columns PSPointToPointSubject)) - {''metadata''}" by code_simp
  show "set network_element_fields = set (map col_name (mo_columns PSNetworkElementSubject)) - {''metadata''}" by code_simp
  show "list_all (\<lambda>(k, fs). list_all (\<lambda>f. list_ex (\<lambda>m. list_ex (\<lambda>c. f = lookup_of m c \<and>
       (k \<in> set IP_FIELDS) = (col_field c = GenericIPAddressField)) (mo_columns m))
     [PSPointToPointSubject, PSNetworkElementSubject]) fs) SUBJECT_FILTER_MAP" by code_simp
qed

end
