(* ===== verification/Django_Settings.thy ===== *)
theory Django_Settings
  imports Configuration
begin

section \<open>The constant settings of Django\<close>

text \<open>
  The settings of \<open>esmond/settings.py\<close> that do not depend on the configuration, in their order, and
  those of the copy the RPM installs (\<open>rpm/config_files/settings.py\<close>), which has no secret key of its
  own. The settings that are read from the configuration are in \<open>Configuration\<close>.
\<close>

definition EARLY_SETTINGS :: "json dict" where
  "EARLY_SETTINGS = [
     (''ALLOWED_HOSTS'', JList [JStr ''*'']),
     (''TASTYPIE_FULL_DEBUG'', JBool False),
     (''ADMINS'', JList []),
     (''MANAGERS'', JList [])]"

definition LOCALE_SETTINGS :: "json dict" where
  "LOCALE_SETTINGS = [
     (''TIME_ZONE'', JStr ''UTC''),
     (''USE_TZ'', JBool True),
     (''LANGUAGE_CODE'', JStr ''en-us''),
     (''SITE_ID'', JInt 1),
     (''USE_I18N'', JBool True),
     (''STATIC_URL'', JStr ''/esmond-static/''),
     (''STATIC_ROOT'', JStr ''/usr/lib/esmond/staticfiles''),
     (''MEDIA_ROOT'', JStr []),
     (''MEDIA_URL'', JStr [])]"

definition TEMPLATES :: json where
  "TEMPLATES = JList [JObj [
     (''BACKEND'', JStr ''django.template.backends.django.DjangoTemplates''),
     (''DIRS'', JList []),
     (''APP_DIRS'', JBool True),
     (''OPTIONS'', JObj [
       (''context_processors'', JList [
          JStr ''django.template.context_processors.debug'',
          JStr ''django.template.context_processors.request'',
          JStr ''django.contrib.auth.context_processors.auth'',
          JStr ''django.contrib.messages.context_processors.messages''])])]]"

definition MIDDLEWARE_CLASSES :: json where
  "MIDDLEWARE_CLASSES = JList [
     JStr ''django.middleware.common.CommonMiddleware'',
     JStr ''django.contrib.sessions.middleware.SessionMiddleware'',
     JStr ''django.contrib.auth.middleware.AuthenticationMiddleware'',
     JStr ''django.contrib.messages.middleware.MessageMiddleware'']"

definition INSTALLED_APPS :: json where
  "INSTALLED_APPS = JList [
     JStr ''django.contrib.auth'',
     JStr ''django.contrib.contenttypes'',
     JStr ''django.contrib.sessions'',
     JStr ''django.contrib.staticfiles'',
     JStr ''django.contrib.admin'',
     JStr ''esmond.api'',
     JStr ''esmond.apps.EsmondAdminConfig'',
     JStr ''netfields'',
     JStr ''rest_framework'',
     JStr ''rest_framework.authtoken'']"

definition REST_FRAMEWORK :: json where
  "REST_FRAMEWORK = JObj [
     (''DEFAULT_RENDERER_CLASSES'', JList [
        JStr ''rest_framework.renderers.JSONRenderer'',
        JStr ''rest_framework.renderers.BrowsableAPIRenderer'']),
     (''DEFAULT_FILTER_BACKENDS'', JList [JStr ''rest_framework_filters.backends.DjangoFilterBackend'']),
     (''DEFAULT_AUTHENTICATION_CLASSES'', JList [JStr ''rest_framework.authentication.TokenAuthentication'']),
     (''DEFAULT_PERMISSION_CLASSES'', JList [JStr ''rest_framework.permissions.IsAuthenticatedOrReadOnly''])]"

definition log_handler :: "string \<Rightarrow> json" where
  "log_handler filename = JObj [
     (''level'', JStr ''INFO''),
     (''class'', JStr ''logging.handlers.RotatingFileHandler''),
     (''filename'', JStr filename),
     (''maxBytes'', JInt (1024 * 1024 * 5)),
     (''backupCount'', JInt 5),
     (''formatter'', JStr ''standard'')]"

definition logger_entry :: "string \<Rightarrow> json" where
  "logger_entry handler = JObj [
     (''handlers'', JList [JStr handler]),
     (''level'', JStr ''INFO''),
     (''propagate'', JBool True)]"

definition LOGGING :: json where
  "LOGGING = JObj [
     (''version'', JInt 1),
     (''disable_existing_loggers'', JBool True),
     (''formatters'', JObj [
       (''standard'', JObj [(''format'', JStr ''%(asctime)s [%(levelname)s] %(pathname)s: %(message)s'')])]),
     (''handlers'', JObj [
       (''django_handler'', log_handler ''/var/log/esmond/django.log''),
       (''esmond_handler'', log_handler ''/var/log/esmond/esmond.log'')]),
     (''loggers'', JObj [
       (''django.request'', logger_entry ''django_handler''),
       (''esmond'', logger_entry ''esmond_handler''),
       (''espersistd.perfsonar.cass_db'', logger_entry ''esmond_handler'')])]"

definition RPM_SETTINGS :: "json dict" where
  "RPM_SETTINGS = EARLY_SETTINGS @ LOCALE_SETTINGS @ [
     (''TEMPLATES'', TEMPLATES),
     (''MIDDLEWARE_CLASSES'', MIDDLEWARE_CLASSES),
     (''ROOT_URLCONF'', JStr ''esmond.urls''),
     (''INSTALLED_APPS'', INSTALLED_APPS),
     (''REST_FRAMEWORK'', REST_FRAMEWORK),
     (''LOGGING'', LOGGING)]"

definition CONSTANT_SETTINGS :: "json dict" where
  "CONSTANT_SETTINGS = RPM_SETTINGS @ [(''SECRET_KEY'', JStr ''kf*ap#0nls%04d01fzw+g%-&!d@u#bsz9nm@e^hkb!*pmq5p*4'')]"

text \<open>No setting is made twice, and none replaces one that is read from the configuration.\<close>

lemma constant_settings_once:
  "distinct (map fst CONSTANT_SETTINGS)"
  "set (map fst CONSTANT_SETTINGS) \<inter> {''ESMOND_CONF'', ''DEBUG'', ''DATABASES''} = {}"
  by code_simp+

text \<open>Every logger writes to handlers that are configured, and these to formatters that are.\<close>

definition names_in :: "string \<Rightarrow> json \<Rightarrow> string list" where
  "names_in part config = (case config of JObj d \<Rightarrow>
     (case map_of d part of Some (JObj e) \<Rightarrow> map fst e | _ \<Rightarrow> []) | _ \<Rightarrow> [])"

definition entries_in :: "string \<Rightarrow> json \<Rightarrow> json list" where
  "entries_in part config = (case config of JObj d \<Rightarrow>
     (case map_of d part of Some (JObj e) \<Rightarrow> map snd e | _ \<Rightarrow> []) | _ \<Rightarrow> [])"

definition refers_only :: "string \<Rightarrow> string list \<Rightarrow> json \<Rightarrow> bool" where
  "refers_only k known entry = (case entry of
     JObj d \<Rightarrow> (case map_of d k of
         Some (JList xs) \<Rightarrow> list_all (\<lambda>x. x \<in> JStr ` set known) xs
       | Some (JStr x) \<Rightarrow> x \<in> set known
       | _ \<Rightarrow> False)
   | _ \<Rightarrow> False)"

lemma logging_resolves:
  "list_all (refers_only ''handlers'' (names_in ''handlers'' LOGGING)) (entries_in ''loggers'' LOGGING)"
  "list_all (refers_only ''formatter'' (names_in ''formatters'' LOGGING)) (entries_in ''handlers'' LOGGING)"
  by (simp_all add: refers_only_def names_in_def entries_in_def LOGGING_def log_handler_def logger_entry_def)

end
