(* ===== verification/Spec2Isabelle.thy ===== *)
theory Spec2Isabelle
  imports At_Encoding Client_Listing Client_Round_Trip Archive_Metadata_Facts Histogram_Percentiles Remove_Data_Run
    Client_Output_Facts Client_Summaries Jmx_Client Cassandra_Schema Db_Metrics Accounts_Facts Url_Routing Archive_Scenario Repeated_Event_Types
    Concurrent_Posts
    Access_Control Data_Generator Client_Samples Util_Scripts Django_Models Django_Settings
begin

text \<open>
  \<^bold>\<open>esmond, the perfSONAR measurement archive.\<close> esmond stores the results of network measurements.
  A measurement belongs to a metadata record (who measured what between which hosts) and to one
  of its event types (throughput, packet loss, ...); its points go to Cassandra, its records to
  an SQL database behind Django. Programs reach it through a REST interface, for which the
  repository also has a client; a script expires old data. This development models these parts
  and states what makes them correct. A definition has the name of the function, method or
  table it is translated from wherever Isabelle allows it; names of methods are prefixed or
  suffixed where two classes share one.

  \<^bold>\<open>Foundations.\<close>
  \<^item> \<open>Esmond_Prelude\<close>: the exceptions of the code as the datatype \<open>exn\<close>, results as \<open>exn + 'a\<close> with
    \<open>rbind\<close>, \<open>rfold\<close> and \<open>rmap\<close>, dictionaries as association lists in insertion order, stable
    sorting, strings, printing and parsing of integers.
  \<^item> \<open>Py_Float\<close>, \<open>Float_Facts\<close>: Python's floats as rationals rounded to binary64 (\<open>fl\<close>, ties to even,
    subnormals, overflow to infinity), with error bounds and exactness facts. The code divides
    times and scales values in floating point, so this is kept and not idealised.
  \<^item> \<open>Py_Datetime\<close>: UTC datetimes as microseconds, years by the proleptic Gregorian calendar.
  \<^item> \<open>Py_Values\<close>: JSON values and the conversions the code applies to them. \<open>Py_Text\<close>: their texts, \<open>str\<close>,
    \<open>repr\<close> (floats by their shortest digits) and \<open>json.dumps\<close>, and dates.

  \<^bold>\<open>Storage\<close> (\<open>esmond/cassandra.py\<close>).
  \<^item> \<open>Row_Keys\<close>: \<open>get_rowkey\<close>, \<open>escape_path\<close>, \<open>_split_rowkey\<close>.
  \<^item> \<open>Column_Store\<close>: the driver pycassa is the record \<open>pycassa\<close> of its calls over a state of its own; the
    locale \<open>batched_store\<close> states its contract (a batch of 200 mutations that is sent when full or
    asked for, ranges that are read in order, counters that are added to). It is interpreted on
    \<open>mem_store\<close>, a store in memory.
  \<^item> \<open>Cassandra_Schema\<close>: the constructor, which completes the schema; the system manager is the record
    \<open>sysman\<close>, the locale \<open>schema_server\<close> its contract, interpreted on a schema in memory. \<open>Db_Metrics\<close>: the
    statistics of calls.
  \<^item> \<open>Cassandra_DB\<close>: the data containers and \<open>CASSANDRA_DB\<close> with its caches, writers and queries;
    \<open>Range_Queries\<close>: what the queries return, proved in \<open>batched_store\<close>.

  \<^bold>\<open>The REST interface\<close> (\<open>esmond/api/perfsonar\<close>).
  \<^item> \<open>Event_Types\<close>: the tables of \<open>types.py\<close>. \<open>Validators\<close>: \<open>validators.py\<close>, with \<open>Validator_Facts\<close> and
    \<open>Histogram_Percentiles\<close> (the percentiles against the NIST definition).
  \<^item> \<open>Ts_Object\<close>, \<open>Time_Series\<close>: \<open>PSTimeSeriesObject\<close>, the bulk PUT and the POST of one series; the state
    is the record \<open>archive\<close> of the store and the rows of \<open>ps_event_types\<close>. \<open>Time_Series_Facts\<close>: a PUT of
    integer points as addition on the counters of the store, conflicts, posting and querying.
  \<^item> \<open>Api_Filters\<close>, \<open>Series_Views\<close>: the mixins and the GET views; \<open>Series_Pages\<close>: a limited GET.
    \<open>Url_Routing\<close>: the patterns of \<open>urls.py\<close>, and that the URIs of a listing lead to its series.
  \<^item> \<open>Archive_Metadata\<close>, \<open>Archive_Metadata_Facts\<close>: accepting, identifying, creating, showing and
    searching metadata records; the state is the record \<open>tables\<close>.

  \<^bold>\<open>The archive as a whole.\<close> \<open>Archive_Service\<close> joins the tables and the store in the record \<open>service\<close>; the
  posts and puts of the interface and runs of the expiry are the steps of the inductive relation
  \<open>serve\<close>, labelled with the call and the exception it ends with, and \<open>serve_all\<close> are their runs.
  \<^item> \<open>Archive_Service_Facts\<close>: what every call keeps, by rule induction, and the locale \<open>driver_relation\<close>,
    which carries a relation between states of the store through all operations; three sublocales
    of \<open>batched_store\<close> give its instances. \<open>Archive_Runs\<close>, \<open>Archive_Readable\<close>: what holds after any
    calls. \<open>Archive_Scenario\<close>: a run on the store in memory.
    \<open>Repeated_Event_Types\<close>: a POST that lists an event type more than once, and a bulk PUT after it.
  \<^item> \<open>Concurrent_Posts\<close>: the looks and creations of any number of posts, interleaved in any way.
  \<^item> \<open>Access_Control\<close>: the classes that authenticate and permit requests, the locale \<open>framework\<close> with
    what the REST framework documents of them, and the calls of admitted requests.
  \<^item> \<open>Django_Models\<close>: the tables as the models declare and as the migration creates them.

  \<^bold>\<open>The clients\<close> (\<open>esmond/api/client\<close>).
  \<^item> \<open>Client_Query\<close>: \<open>perfsonar/query.py\<close>. \<open>Client_Pages\<close>: its loop over pages, against the locale
    \<open>series_server\<close>; the locale \<open>json_series\<close>, an extension of \<open>batched_store\<close>, is the GET view of this
    archive, a \<open>sublocale\<close> gives the first from the second, and an interpretation on \<open>mem_store\<close> gives
    both for a series of 1001 points. \<open>Client_Listing\<close>: the listing of metadata.
  \<^item> \<open>Client_Post\<close>, \<open>Client_Post_Facts\<close>: \<open>perfsonar/post.py\<close>, and what the server makes of its requests.
    \<open>Client_Round_Trip\<close>: points sent by the one client to the POST view, read back by the other.

  \<^item> \<open>Client_Options\<close>, \<open>Client_Formats\<close>, \<open>Client_Output\<close>: \<open>perfsonar/util.py\<close>, from the command line over the rows
    of each event type to the text for people, JSON or CSV; \<open>Client_Output_Facts\<close> has a reader of CSV
    and shows that it reads what was measured.
  \<^item> \<open>Client_Summaries\<close>: the summary helpers and the at-encoding of \<open>util.py\<close>. \<open>Jmx_Client\<close>: \<open>jmx.py\<close>.
  \<^item> \<open>Client_Samples\<close>: \<open>util/ps_graph_examples.py\<close>, programs over the query client and their shared filters.

  \<^bold>\<open>Configuration and accounts.\<close>
  \<^item> \<open>Configuration\<close>: \<open>config.py\<close> with what it uses of \<open>configparser\<close>, \<open>settings.py\<close> and \<open>wsgi.py\<close>;
    \<open>Configuration_Facts\<close>: the types of a configuration and the exceptions of \<open>get_config\<close>.
    \<open>Django_Settings\<close>: the constant settings.
  \<^item> \<open>Accounts\<close>: the management commands on users, tokens, permissions and subnets, \<open>IpAuth\<close>, and the
    migration of old keys; the state is the record \<open>accounts\<close>. \<open>Accounts_Facts\<close>: the locale \<open>network_order\<close>
    states what PostgreSQL documents of networks, interpreted on IPv4 networks.

  \<^bold>\<open>Data expiry\<close> (\<open>util/ps_remove_data.py\<close>). \<open>Remove_Data\<close>: policies and the run; \<open>Remove_Data_Policies\<close>,
  \<open>Remove_Data_Facts\<close>, \<open>Remove_Data_Run\<close>: which policy applies, what a run deletes and keeps, and that
  it returns.

  \<^bold>\<open>Scripts.\<close> \<open>Data_Generator\<close>: \<open>util/ps_generate_data.py\<close>, its random numbers a stream. \<open>Util_Scripts\<close>:
  \<open>dump_keys.py\<close>, \<open>query_jmx.py\<close> and \<open>ps_api_compare.py\<close>.

  \<^bold>\<open>Names.\<close> \<open>At_Encoding\<close>: \<open>atencode\<close> and \<open>atdecode\<close> of \<open>util.py\<close>, with the tables Python 3 builds.

  \<^bold>\<open>What the properties show.\<close> Points that are written are read: raw data and JSON series round trip
  through the store, through the views and through the client; a bulk PUT adds every point to
  every counter it belongs to. After any calls the tables are consistent, the data is where the
  queries look, belongs to declared series, and stays readable until the expiry; concurrent posts
  do what some posts one after the other do; only users change the archive. Keys and checksums identify what they should, up to the
  collisions stated. The optimised percentile loop computes the reference definition. Expiry
  deletes only expired data, deletes all of it within its bounds, and ends. Starting completes
  the schema and a second start leaves it alone. A configuration has the types the code relies
  on. What the client prints can be read back. Errors are
  branches of the model: what a refused or failed request leaves behind is stated. Where the
  code does not do what it means to, a property or a lemma states what it does.

  \<^bold>\<open>Bounds and loops.\<close> Times are seconds for which \<open>ms_ok\<close> holds: the years 1 to 9999 and milliseconds
  below \<open>2 ^ 53\<close>, where JavaScript timestamps are exact. Loops that need not end are
  \<open>partial_function (option)\<close> (\<open>expire_chunks\<close>, \<open>query_loop\<close>, \<open>metadata_pages\<close>); that they return is proved,
  for every driver and every server, or for servers that keep their contract. There is no fuel.

  \<^bold>\<open>Arguments of the model.\<close> pycassa, Django's storing of values (\<open>django\<close>), SHA-256, name resolution,
  the paginator and URL reversal of the REST framework, the HTTP exchange, the clock, files, the
  environment, optparse, date parsing, XML, random numbers and fresh keys are arguments. JSON text is not parsed: a
  request carries its decoded value.

  \<^bold>\<open>Not modelled.\<close> Content types of Django, logging, warnings, \<open>get_document\<close>, printing under
  \<open>verbose\<close>, the program \<open>ps_rest_test.py\<close> that drives the clients by hand, tests and documentation. Strings hold code points below 256. Histograms given as JSON lists are
  followed only as far as their validation; the branches that would need more are \<open>Unmodelled\<close>.
\<close>

end
